(* ===== verification/Prelude.thy ===== *)
theory Prelude
  imports Complex_Main
    "HOL-Library.AList"
    "HOL-Library.Char_ord"
    "HOL-Library.Multiset"
    "HOL-Library.List_Lexorder"
    "HOL-Library.Product_Lexorder"
    "HOL-Library.Sublist"
begin

text \<open>
  What every component of the development shares: Python's string operations, ordered
  dictionaries, stable sorting, and a small model of the regular expressions the source
  compiles, with the lemmas that let the component proofs treat them as black boxes.

  \<^item> A Python \<^verbatim>\<open>str\<close> is a \<open>string\<close>, one \<open>char\<close> per code point. The alphabet is
    Latin-1; the C1 control points U+0080..U+009F other than U+0085 (which is a line
    boundary in Python) stand for the few code points beyond Latin-1 that the source
    itself names (see \<open>code_point\<close> in theory \<open>Security\<close>). Python classifies all of these
    alike: none is a space, a line boundary, a letter or a digit.
  \<^item> A Python \<^verbatim>\<open>dict\<close> is an association list in insertion order, read with \<open>map_of\<close>,
    written with \<open>AList.update\<close> (in place when the key is there, at the end otherwise)
    and \<open>AList.delete\<close>.
  \<^item> A Python \<^verbatim>\<open>float\<close> is a \<open>real\<close>: rounding is not modelled.
\<close>

named_theorems text_simps "length and content facts on the string operations"
named_theorems dict_simps "lookup and key facts on ordered dictionaries"

section \<open>Characters\<close>

abbreviation NL :: char where "NL \<equiv> CHR 0x0A"

text \<open>\<^verbatim>\<open>str.isspace\<close> on one character, also the class \<open>\s\<close> of a pattern.\<close>

definition py_space :: "char \<Rightarrow> bool" where
  "py_space c \<longleftrightarrow> of_char c \<in> {9::nat, 10, 11, 12, 13, 28, 29, 30, 31, 32, 133, 160}"

text \<open>The line boundaries of \<^verbatim>\<open>str.splitlines\<close> (the pair CR LF counts once).\<close>

definition line_break :: "char \<Rightarrow> bool" where
  "line_break c \<longleftrightarrow> of_char c \<in> {10::nat, 11, 12, 13, 28, 29, 30, 133}"

definition lower_char :: "char \<Rightarrow> char" where
  "lower_char c =
     (let n = of_char c :: nat in
      if 65 \<le> n \<and> n \<le> 90 \<or> 192 \<le> n \<and> n \<le> 222 \<and> n \<noteq> 215
      then char_of (n + 32) else c)"

definition is_digit :: "char \<Rightarrow> bool" where
  "is_digit c \<longleftrightarrow> CHR ''0'' \<le> c \<and> c \<le> CHR ''9''"

definition is_lower_alnum :: "char \<Rightarrow> bool" where  \<comment> \<open>\<^verbatim>\<open>[a-z0-9]\<close>\<close>
  "is_lower_alnum c \<longleftrightarrow> CHR ''a'' \<le> c \<and> c \<le> CHR ''z'' \<or> is_digit c"

definition is_word_ascii :: "char \<Rightarrow> bool" where  \<comment> \<open>\<^verbatim>\<open>[A-Za-z0-9_]\<close>\<close>
  "is_word_ascii c \<longleftrightarrow> CHR ''A'' \<le> c \<and> c \<le> CHR ''Z'' \<or> CHR ''a'' \<le> c \<and> c \<le> CHR ''z''
     \<or> is_digit c \<or> c = CHR ''_''"

text \<open>The class \<open>\w\<close> of a Unicode pattern: letters, digits and the underscore.\<close>

definition is_word :: "char \<Rightarrow> bool" where
  "is_word c \<longleftrightarrow> is_word_ascii c \<or>
     (let n = of_char c :: nat in
      n \<in> {170, 178, 179, 181, 185, 186, 188, 189, 190} \<or> 192 \<le> n \<and> n \<noteq> 215 \<and> n \<noteq> 247)"

lemma line_break_space: "line_break c \<Longrightarrow> py_space c"
  by (auto simp: line_break_def py_space_def)

lemma space_NL [simp]: "py_space NL" "line_break NL"
  by (simp_all add: py_space_def line_break_def)

section \<open>Strings\<close>

definition lower :: "string \<Rightarrow> string" where
  "lower s = map lower_char s"

definition lstrip :: "string \<Rightarrow> string" where
  "lstrip s = dropWhile py_space s"

definition rstrip :: "string \<Rightarrow> string" where
  "rstrip s = rev (dropWhile py_space (rev s))"

definition strip :: "string \<Rightarrow> string" where
  "strip s = rstrip (lstrip s)"

definition strip_of :: "char list \<Rightarrow> string \<Rightarrow> string" where  \<comment> \<open>\<^verbatim>\<open>s.strip(chars)\<close>\<close>
  "strip_of cs s = rev (dropWhile (\<lambda>c. c \<in> set cs) (rev (dropWhile (\<lambda>c. c \<in> set cs) s)))"

definition starts_with :: "string \<Rightarrow> string \<Rightarrow> bool" where
  "starts_with s p \<longleftrightarrow> take (length p) s = p"

definition ends_with :: "string \<Rightarrow> string \<Rightarrow> bool" where
  "ends_with s p \<longleftrightarrow> length p \<le> length s \<and> drop (length s - length p) s = p"

text \<open>\<^verbatim>\<open>sub in s\<close>\<close>

fun contains :: "string \<Rightarrow> string \<Rightarrow> bool" where
  "contains [] sub \<longleftrightarrow> sub = []"
| "contains (c # s) sub \<longleftrightarrow> starts_with (c # s) sub \<or> contains s sub"

text \<open>\<^verbatim>\<open>s.split(c)\<close> for a one-character separator: never the empty list.\<close>

fun split_char :: "char \<Rightarrow> string \<Rightarrow> string list" where
  "split_char d [] = [[]]"
| "split_char d (c # s) =
     (if c = d then [] # split_char d s
      else (case split_char d s of [] \<Rightarrow> [[c]] | w # ws \<Rightarrow> (c # w) # ws))"

text \<open>\<^verbatim>\<open>sep.join(parts)\<close>\<close>

fun join :: "string \<Rightarrow> string list \<Rightarrow> string" where
  "join sep [] = []"
| "join sep [w] = w"
| "join sep (w # ws) = w @ sep @ join sep ws"

text \<open>\<^verbatim>\<open>s.splitlines()\<close>: the line boundaries are dropped, a trailing one adds no line.\<close>

fun splitlines_acc :: "string \<Rightarrow> string \<Rightarrow> string list" where
  "splitlines_acc cur [] = (if cur = [] then [] else [rev cur])"
| "splitlines_acc cur [c] = (if line_break c then [rev cur] else [rev (c # cur)])"
| "splitlines_acc cur (c # d # s) =
     (if c = CHR 0x0D \<and> d = NL then rev cur # splitlines_acc [] s
      else if line_break c then rev cur # splitlines_acc [] (d # s)
      else splitlines_acc (c # cur) (d # s))"

definition splitlines :: "string \<Rightarrow> string list" where
  "splitlines s = splitlines_acc [] s"

text \<open>\<^verbatim>\<open>s.replace(a, b)\<close> for one-character \<open>a\<close>.\<close>

definition replace_char :: "char \<Rightarrow> string \<Rightarrow> string \<Rightarrow> string" where
  "replace_char a b s = concat (map (\<lambda>c. if c = a then b else [c]) s)"

text \<open>\<^verbatim>\<open>s.replace(old, new)\<close>: the occurrences are taken from the left and do not overlap.\<close>

function replace_str :: "string \<Rightarrow> string \<Rightarrow> string \<Rightarrow> string" where
  "replace_str old new [] = []"
| "replace_str old new (c # s) =
     (if old \<noteq> [] \<and> starts_with (c # s) old
      then new @ replace_str old new (drop (length old) (c # s))
      else c # replace_str old new s)"
  by pat_completeness auto
termination
  by (relation "measure (\<lambda>(old, new, s). length s)") (auto simp: neq_Nil_conv)

text \<open>The maximal runs of a character class: \<^verbatim>\<open>re.findall(r"[...]+", s)\<close>.\<close>

function runs_of :: "(char \<Rightarrow> bool) \<Rightarrow> string \<Rightarrow> string list" where
  "runs_of P [] = []"
| "runs_of P (c # s) =
     (if P c then (c # takeWhile P s) # runs_of P (dropWhile P s) else runs_of P s)"
  by pat_completeness auto
termination
  by (relation "measure (\<lambda>(P, s). length s)") (auto simp: le_imp_less_Suc length_dropWhile_le)

text \<open>\<^verbatim>\<open>s.split()\<close>\<close>

definition split_ws :: "string \<Rightarrow> string list" where
  "split_ws s = runs_of (\<lambda>c. \<not> py_space c) s"

fun str_of_nat :: "nat \<Rightarrow> string" where
  "str_of_nat n = (if n < 10 then [char_of (48 + n)]
                   else str_of_nat (n div 10) @ [char_of (48 + n mod 10)])"

declare str_of_nat.simps [simp del]

definition str_of_int :: "int \<Rightarrow> string" where
  "str_of_int i = (if i < 0 then CHR ''-'' # str_of_nat (nat (- i)) else str_of_nat (nat i))"


text \<open>Rounding as \<^verbatim>\<open>round(x, n)\<close> does it, and \<^verbatim>\<open>f"{x:.nf}"\<close>.\<close>

definition round_half_even :: "real \<Rightarrow> int" where
  "round_half_even x =
     (let f = \<lfloor>x\<rfloor>; d = x - real_of_int f in
      if d < 1 / 2 \<or> d = 1 / 2 \<and> even f then f else f + 1)"

definition round_to :: "nat \<Rightarrow> real \<Rightarrow> real" where
  "round_to n x = real_of_int (round_half_even (x * 10 ^ n)) / 10 ^ n"

definition pad_zeros :: "nat \<Rightarrow> string \<Rightarrow> string" where
  "pad_zeros n s = replicate (n - length s) (CHR ''0'') @ s"

definition fmt_fixed :: "nat \<Rightarrow> real \<Rightarrow> string" where
  "fmt_fixed n x =
     (let r = nat \<bar>round_half_even (x * 10 ^ n)\<bar> in
      (if x < 0 then ''-'' else []) @ str_of_nat (r div 10 ^ n)
        @ (if n = 0 then [] else ''.'' @ pad_zeros n (str_of_nat (r mod 10 ^ n))))"

lemma round_half_even_bounds:
  "real_of_int (round_half_even x) \<le> x + 1 / 2" "x - 1 / 2 \<le> real_of_int (round_half_even x)"
  unfolding round_half_even_def Let_def by (auto; linarith)+

lemma round_to_mono_zero: "0 \<le> x \<Longrightarrow> 0 \<le> round_to n x"
proof -
  assume "0 \<le> x"
  then have "0 \<le> \<lfloor>x * 10 ^ n\<rfloor>" by simp
  then have "0 \<le> round_half_even (x * 10 ^ n)" by (simp add: round_half_even_def Let_def)
  then show ?thesis by (simp add: round_to_def)
qed

subsection \<open>Facts on strings\<close>

lemma starts_with_iff: "starts_with s p \<longleftrightarrow> (\<exists>t. s = p @ t)"
  by (metis append_take_drop_id append_eq_conv_conj starts_with_def)

lemma starts_with_append [simp]: "starts_with (p @ s) p"
  by (simp add: starts_with_def)

lemma starts_with_self [simp]: "starts_with s s"
  by (simp add: starts_with_def)

lemma starts_with_Nil [simp]: "starts_with s []" "starts_with [] p \<longleftrightarrow> p = []"
  by (auto simp: starts_with_def)

lemma starts_with_Cons [simp]: "starts_with (c # s) (d # p) \<longleftrightarrow> c = d \<and> starts_with s p"
  by (simp add: starts_with_def)

lemma starts_with_length: "starts_with s p \<Longrightarrow> length p \<le> length s"
  by (auto simp: starts_with_iff)

lemma starts_with_take: "starts_with s (take n s)"
  by (metis append_take_drop_id starts_with_append)

lemma contains_iff: "contains s sub \<longleftrightarrow> (\<exists>p q. s = p @ sub @ q)"
proof (induction s)
  case Nil
  then show ?case by simp
next
  case (Cons c s)
  have "(\<exists>p q. c # s = p @ sub @ q) \<longleftrightarrow>
      (\<exists>q. c # s = sub @ q) \<or> (\<exists>p q. s = p @ sub @ q)"
    by (metis append_Cons append_Nil neq_Nil_conv list.inject)
  with Cons show ?case by (simp add: starts_with_iff)
qed

lemma contains_self [simp]: "contains s s"
  using contains_iff by (metis append_Nil append_Nil2)

lemma contains_mid [simp]: "contains (p @ s @ q) s"
  using contains_iff by blast

lemma length_lower [simp, text_simps]: "length (lower s) = length s"
  by (simp add: lower_def)

lemma lower_append [simp]: "lower (s @ t) = lower s @ lower t"
  by (simp add: lower_def)

lemma lower_char_idem [simp]: "lower_char (lower_char c) = lower_char c"
proof (cases "let n = of_char c :: nat in 65 \<le> n \<and> n \<le> 90 \<or> 192 \<le> n \<and> n \<le> 222 \<and> n \<noteq> 215")
  case True
  then have "(of_char (lower_char c) :: nat) = of_char c + 32"
    by (auto simp: lower_char_def Let_def)
  with True show ?thesis
    by (auto simp: lower_char_def [of "lower_char c"] Let_def)
next
  case False
  then have "lower_char c = c" by (auto simp: lower_char_def Let_def)
  then show ?thesis by simp
qed

lemma lower_idem [simp]: "lower (lower s) = lower s"
  by (simp add: lower_def)

lemma rstrip_eq: "\<exists>t. s = rstrip s @ t"
proof -
  have "s = rev (takeWhile py_space (rev s) @ dropWhile py_space (rev s))"
    by simp
  then have "s = rstrip s @ rev (takeWhile py_space (rev s))"
    by (simp only: rev_append rstrip_def)
  then show ?thesis ..
qed

lemma lstrip_eq: "\<exists>t. s = t @ lstrip s"
  by (metis lstrip_def takeWhile_dropWhile_id)

lemma length_rstrip [text_simps]: "length (rstrip s) \<le> length s"
  by (metis rstrip_eq length_append le_add1)

lemma length_lstrip [text_simps]: "length (lstrip s) \<le> length s"
  by (simp add: lstrip_def length_dropWhile_le)

lemma length_strip [text_simps]: "length (strip s) \<le> length s"
  unfolding strip_def using length_rstrip length_lstrip le_trans by blast

lemma set_strip: "set (strip s) \<subseteq> set s"
  unfolding strip_def rstrip_def lstrip_def
  by (metis set_dropWhileD set_rev subsetI)

lemma strip_Nil [simp]: "strip [] = []" "rstrip [] = []" "lstrip [] = []"
  by (simp_all add: strip_def rstrip_def lstrip_def)

text \<open>A string with no space at either end is a fixed point of \<^verbatim>\<open>strip\<close>, and the
  result of \<^verbatim>\<open>strip\<close> is such a string.\<close>

definition stripped :: "string \<Rightarrow> bool" where
  "stripped s \<longleftrightarrow> (s \<noteq> [] \<longrightarrow> \<not> py_space (hd s) \<and> \<not> py_space (last s))"

lemma lstrip_fix: "s = [] \<or> \<not> py_space (hd s) \<Longrightarrow> lstrip s = s"
  by (cases s) (auto simp: lstrip_def)

lemma rstrip_fix: "s = [] \<or> \<not> py_space (last s) \<Longrightarrow> rstrip s = s"
  by (cases s rule: rev_cases) (auto simp: rstrip_def)

lemma strip_stripped [simp]: "stripped s \<Longrightarrow> strip s = s"
  by (auto simp: stripped_def strip_def lstrip_fix rstrip_fix)

lemma last_rstrip: "rstrip s \<noteq> [] \<Longrightarrow> \<not> py_space (last (rstrip s))"
  by (metis rstrip_def hd_dropWhile last_rev rev_is_Nil_conv)

lemma hd_rstrip: "rstrip s \<noteq> [] \<Longrightarrow> hd (rstrip s) = hd s"
  by (metis rstrip_eq hd_append2)

lemma stripped_strip [simp]: "stripped (strip s)"
proof (cases "strip s = []")
  case False
  then have ne: "rstrip (lstrip s) \<noteq> []" by (simp add: strip_def)
  then have "lstrip s \<noteq> []" by auto
  then have "\<not> py_space (hd (lstrip s))" by (simp add: lstrip_def hd_dropWhile)
  with ne show ?thesis
    by (simp add: stripped_def strip_def last_rstrip hd_rstrip)
qed (simp add: stripped_def)

lemma strip_idem [simp]: "strip (strip s) = strip s"
  by simp

lemma rstrip_append: "t \<noteq> [] \<Longrightarrow> rstrip t = t \<Longrightarrow> rstrip (s @ t) = s @ t"
  by (metis rstrip_fix last_rstrip last_appendR)

lemma rstrip_space [simp]: "py_space c \<Longrightarrow> rstrip (s @ [c]) = rstrip s"
  by (simp add: rstrip_def)

lemma set_str_of_nat: "c \<in> set (str_of_nat n) \<Longrightarrow> is_digit c"
proof (induction n arbitrary: c rule: str_of_nat.induct)
  case (1 n)
  have digit: "is_digit (char_of (48 + k))" if "k < 10" for k :: nat
  proof -
    from that have "k \<in> set [0..<10]" by simp
    then show ?thesis by (auto simp: upt_rec is_digit_def less_eq_char_def of_char_of)
  qed
  from 1 show ?case
    by (subst (asm) (2) str_of_nat.simps) (auto split: if_splits intro: digit)
qed

text \<open>Splitting and joining.\<close>

lemma split_char_ne [simp]: "split_char d s \<noteq> []"
  by (induction d s rule: split_char.induct) (auto split: list.splits)

lemma split_char_free: "d \<notin> set w \<Longrightarrow> split_char d w = [w]"
  by (induction w) auto

lemma split_char_append:
  "d \<notin> set w \<Longrightarrow> split_char d (w @ d # s) = w # split_char d s"
  by (induction w) auto

lemma split_char_join:
  "ws \<noteq> [] \<Longrightarrow> \<forall>w \<in> set ws. d \<notin> set w \<Longrightarrow> split_char d (join [d] ws) = ws"
proof (induction "[d]" ws rule: join.induct)
  case (3 w v vs)
  then show ?case by (simp add: split_char_append)
qed (auto simp: split_char_free)

lemma join_Cons: "ws \<noteq> [] \<Longrightarrow> join sep (w # ws) = w @ sep @ join sep ws"
  by (cases ws) auto

lemma join_snoc: "ws \<noteq> [] \<Longrightarrow> join sep (ws @ [w]) = join sep ws @ sep @ w"
  by (induction sep ws rule: join.induct) (auto simp: join_Cons)

lemma join_Cons_head: "join sep ((c # w) # ws) = c # join sep (w # ws)"
  by (cases ws) auto

lemma join_split_char: "join [d] (split_char d s) = s"
proof (induction s)
  case (Cons c s)
  obtain w ws where split: "split_char d s = w # ws" by (meson list.exhaust split_char_ne)
  with Cons show ?case
    by (cases "c = d") (simp_all add: join_Cons join_Cons_head del: join.simps(3))
qed simp

lemma split_char_parts: "w \<in> set (split_char d s) \<Longrightarrow> d \<notin> set w"
proof (induction s arbitrary: w)
  case (Cons c s)
  obtain v ws where split: "split_char d s = v # ws" by (meson list.exhaust split_char_ne)
  with Cons.IH have "\<forall>w \<in> set (v # ws). d \<notin> set w" by simp
  with Cons.prems split show ?case by (auto split: if_splits)
qed simp

lemma splitlines_acc_line:
  "\<forall>c \<in> set w. \<not> line_break c \<Longrightarrow>
   splitlines_acc cur (w @ NL # s) = (rev cur @ w) # splitlines_acc [] s"
proof (induction w arbitrary: cur)
  case Nil
  show ?case by (cases s) auto
next
  case (Cons c w)
  then have nb: "\<not> line_break c" by simp
  then have "c \<noteq> CHR 0x0D" by (auto simp: line_break_def)
  moreover obtain d t where "w @ NL # s = d # t" by (cases w) auto
  ultimately have "splitlines_acc cur ((c # w) @ NL # s) = splitlines_acc (c # cur) (w @ NL # s)"
    using nb by simp
  with Cons show ?case by simp
qed

lemma splitlines_acc_last:
  "\<forall>c \<in> set w. \<not> line_break c \<Longrightarrow>
   splitlines_acc cur w = (if rev cur @ w = [] then [] else [rev cur @ w])"
proof (induction cur w rule: splitlines_acc.induct)
  case (3 cur c d s)
  then have "\<not> line_break c" by simp
  moreover from this have "c \<noteq> CHR 0x0D" by (auto simp: line_break_def)
  ultimately show ?case using 3 by simp
qed auto

lemma splitlines_line:
  "\<forall>c \<in> set w. \<not> line_break c \<Longrightarrow> splitlines (w @ NL # s) = w # splitlines s"
  by (simp add: splitlines_def splitlines_acc_line)

lemma splitlines_Nil [simp]: "splitlines [] = []"
  by (simp add: splitlines_def)

lemma splitlines_terminated:
  "\<forall>w \<in> set ws. \<forall>c \<in> set w. \<not> line_break c \<Longrightarrow>
   splitlines (concat (map (\<lambda>w. w @ [NL]) ws)) = ws"
  by (induction ws) (simp_all add: splitlines_line)

lemma replace_char_append [simp]:
  "replace_char a b (s @ t) = replace_char a b s @ replace_char a b t"
  by (simp add: replace_char_def)

lemma replace_char_notin: "a \<notin> set b \<Longrightarrow> a \<notin> set (replace_char a b s)"
  by (induction s) (simp_all add: replace_char_def)

lemma set_replace_char: "set (replace_char a b s) \<subseteq> set s \<union> set b"
  by (auto simp: replace_char_def)

lemma runs_of_all: "w \<in> set (runs_of P s) \<Longrightarrow> w \<noteq> [] \<and> (\<forall>c \<in> set w. P c)"
proof (induction P s arbitrary: w rule: runs_of.induct)
  case (2 P c s)
  show ?case
  proof (cases "P c")
    case True
    with 2 show ?thesis by simp (metis list.discI set_ConsD set_takeWhileD)
  next
    case False
    with 2 show ?thesis by simp
  qed
qed simp


section \<open>Ordered dictionaries and keyed stores\<close>

type_synonym ('k, 'v) dict = "('k \<times> 'v) list"

definition wf_dict :: "('k, 'v) dict \<Rightarrow> bool" where
  "wf_dict d \<longleftrightarrow> distinct (map fst d)"

text \<open>
  The contract of every keyed collection of the program (dictionaries, the FTS table, the
  edge table): storing under a key replaces what was there, removing forgets it, and both
  keep one entry per key. Clients see the collection through its lookup only.
\<close>

locale keyed_store =
  fixes get :: "'s \<Rightarrow> 'k \<Rightarrow> 'v option"
    and put :: "'k \<Rightarrow> 'v \<Rightarrow> 's \<Rightarrow> 's"
    and del :: "'k \<Rightarrow> 's \<Rightarrow> 's"
    and wf :: "'s \<Rightarrow> bool"
  assumes get_put: "wf s \<Longrightarrow> get (put k v s) = (get s)(k := Some v)"
    and get_del: "wf s \<Longrightarrow> get (del k s) = (get s)(k := None)"
    and wf_put: "wf s \<Longrightarrow> wf (put k v s)"
    and wf_del: "wf s \<Longrightarrow> wf (del k s)"
begin

lemma put_twice: "wf s \<Longrightarrow> get (put k v (put k u s)) = get (put k v s)"
  by (simp add: get_put wf_put)

lemma del_put: "wf s \<Longrightarrow> get s k = None \<Longrightarrow> get (del k (put k v s)) = get s"
  by (simp add: get_put get_del wf_put fun_upd_idem)

lemma wf_puts: "wf s \<Longrightarrow> wf (fold (\<lambda>(k, v). put k v) kvs s)"
  by (induction kvs arbitrary: s) (auto simp: wf_put)

lemma get_puts:
  "wf s \<Longrightarrow> get (fold (\<lambda>(k, v). put k v) kvs s) = get s ++ map_of (rev kvs)"
proof (induction kvs arbitrary: s)
  case (Cons kv kvs)
  then show ?case
    by (cases kv) (auto simp: wf_put get_put map_add_def fun_eq_iff split: option.splits)
qed simp

lemma wf_dels: "wf s \<Longrightarrow> wf (fold del ks s)"
  by (induction ks arbitrary: s) (auto simp: wf_del)

lemma get_dels: "wf s \<Longrightarrow> get (fold del ks s) k = (if k \<in> set ks then None else get s k)"
  by (induction ks arbitrary: s) (auto simp: wf_del get_del)

end

text \<open>
  The contract between a loop and what it must not touch: a step that leaves an observation of
  the state alone, whatever it works on, leaves it alone in every loop over such steps.
\<close>

locale quiet_step =
  fixes observe :: "'s \<Rightarrow> 'o"
    and step :: "'a \<Rightarrow> 's \<Rightarrow> 's"
  assumes quiet: "observe (step x s) = observe s"
begin

lemma fold_quiet: "observe (fold step xs s) = observe s"
  by (induction xs arbitrary: s) (simp_all add: quiet)

lemma foldr_quiet: "observe (foldr step xs s) = observe s"
  by (induction xs) (simp_all add: quiet)

end

text \<open>
  The contract of a loop with a tally: each step logs so many events of one kind and counts as many,
  and leaves another count alone; so does the loop.
\<close>

locale tallied_step =
  fixes logged :: "'s \<Rightarrow> 'e list" and kind :: 'e
    and tally other :: "'s \<Rightarrow> nat"
    and step :: "'a \<Rightarrow> 's \<Rightarrow> 's"
  assumes tallied: "\<exists>k. logged (step x s) = logged s @ replicate k kind \<and> tally (step x s) = tally s + k \<and> other (step x s) = other s"
begin

lemma fold_tallied:
  "\<exists>k. logged (fold step xs s) = logged s @ replicate k kind \<and> tally (fold step xs s) = tally s + k \<and> other (fold step xs s) = other s"
proof (induction xs arbitrary: s)
  case (Cons x xs)
  obtain k where k: "logged (step x s) = logged s @ replicate k kind" "tally (step x s) = tally s + k" "other (step x s) = other s"
    using tallied by blast
  obtain j where "logged (fold step xs (step x s)) = logged (step x s) @ replicate j kind"
    "tally (fold step xs (step x s)) = tally (step x s) + j" "other (fold step xs (step x s)) = other (step x s)"
    using Cons by blast
  then show ?case by (intro exI [of _ "k + j"]) (simp add: k replicate_add)
qed (intro exI [of _ 0], simp)

end

text \<open>The contract of a loop that reads only a part of the state: equal parts stay equal.\<close>

locale respectful_step =
  fixes part :: "'s \<Rightarrow> 'o"
    and step :: "'a \<Rightarrow> 's \<Rightarrow> 's"
  assumes respects: "part s = part t \<Longrightarrow> part (step x s) = part (step x t)"
begin

lemma fold_respects: "part s = part t \<Longrightarrow> part (fold step xs s) = part (fold step xs t)"
proof (induction xs arbitrary: s t)
  case (Cons x xs)
  from Cons.IH [OF respects [OF Cons.prems]] show ?case by (simp only: fold_simps)
qed (simp only: fold_simps)

end

lemma wf_dict_Nil [simp]: "wf_dict []"
  by (simp add: wf_dict_def)

lemma wf_dict_update [simp]: "wf_dict d \<Longrightarrow> wf_dict (AList.update k v d)"
  by (simp add: wf_dict_def distinct_update)

lemma wf_dict_delete [simp]: "wf_dict d \<Longrightarrow> wf_dict (AList.delete k d)"
  by (simp add: wf_dict_def distinct_delete)

lemma map_of_update [dict_simps]: "map_of (AList.update k v d) = (map_of d)(k \<mapsto> v)"
  by (simp add: update_conv')

lemma map_of_delete [dict_simps]: "map_of (AList.delete k d) = (map_of d)(k := None)"
  by (simp add: delete_conv')

interpretation dict: keyed_store map_of AList.update AList.delete wf_dict
  by unfold_locales (simp_all add: dict_simps)

lemma wf_dict_filter [simp]: "wf_dict d \<Longrightarrow> wf_dict (filter P d)"
  by (simp add: wf_dict_def distinct_map_filter)

lemma map_of_filter_wf:
  "wf_dict d \<Longrightarrow> map_of (filter P d) k =
     (case map_of d k of None \<Rightarrow> None | Some v \<Rightarrow> if P (k, v) then Some v else None)"
proof (induction d)
  case (Cons kv d)
  obtain k' v' where [simp]: "kv = (k', v')" by (cases kv)
  from Cons have "wf_dict d" and notin: "k' \<notin> fst ` set d" by (auto simp: wf_dict_def)
  moreover from notin have "map_of d k' = None" "map_of (filter P d) k' = None"
    by (auto simp: map_of_eq_None_iff)
  ultimately show ?case using Cons.IH by auto
qed simp

section \<open>Sorting and duplicates\<close>

text \<open>
  \<^verbatim>\<open>xs.sort(key=f, reverse=True)\<close>: Python keeps equal elements in their old order also when
  it sorts downwards, which is what reversing before and after a stable sort does.
\<close>

definition sort_desc :: "('a \<Rightarrow> 'b::linorder) \<Rightarrow> 'a list \<Rightarrow> 'a list" where
  "sort_desc f xs = rev (sort_key f (rev xs))"

lemma set_sort_desc [simp]: "set (sort_desc f xs) = set xs"
  by (simp add: sort_desc_def)

lemma length_sort_desc [simp]: "length (sort_desc f xs) = length xs"
  by (simp add: sort_desc_def)

lemma mset_sort_desc [simp]: "mset (sort_desc f xs) = mset xs"
  by (simp add: sort_desc_def)

lemma distinct_map_sort_desc [simp]: "distinct (map g (sort_desc f xs)) = distinct (map g xs)"
  by (metis distinct_map distinct_rev distinct_sort set_sort_desc sort_desc_def)

lemma sorted_sort_desc: "sorted_wrt (\<lambda>x y. f y \<le> f x) (sort_desc f xs)"
proof -
  have "sorted (map f (sort_key f (rev xs)))" by simp
  then have "sorted_wrt (\<lambda>x y. f x \<le> f y) (sort_key f (rev xs))"
    by (simp add: sorted_map)
  then show ?thesis by (simp add: sort_desc_def sorted_wrt_rev)
qed

lemma sorted_wrt_take_drop:
  "sorted_wrt R xs \<Longrightarrow> x \<in> set (take n xs) \<Longrightarrow> y \<in> set (drop n xs) \<Longrightarrow> R x y"
  by (metis append_take_drop_id sorted_wrt_append)

lemma take_sort_desc_ge:
  "x \<in> set (take n (sort_desc f xs)) \<Longrightarrow> y \<in> set (drop n (sort_desc f xs)) \<Longrightarrow> f y \<le> f x"
  using sorted_wrt_take_drop [OF sorted_sort_desc [of f xs]] by blast

text \<open>The idiom \<^verbatim>\<open>if x not in seen: seen.append(x)\<close>.\<close>

definition add_new :: "'a list \<Rightarrow> 'a \<Rightarrow> 'a list" where
  "add_new acc x = (if x \<in> set acc then acc else acc @ [x])"

definition uniq :: "'a list \<Rightarrow> 'a list" where
  "uniq xs = foldl add_new [] xs"

lemma set_foldl_add_new [simp]: "set (foldl add_new acc xs) = set acc \<union> set xs"
  by (induction xs arbitrary: acc) (auto simp: add_new_def)

lemma distinct_foldl_add_new: "distinct acc \<Longrightarrow> distinct (foldl add_new acc xs)"
  by (induction xs arbitrary: acc) (auto simp: add_new_def)

lemma foldl_add_new_prefix: "\<exists>ys. foldl add_new acc xs = acc @ ys \<and> set ys \<subseteq> set xs"
proof (induction xs arbitrary: acc)
  case (Cons x xs)
  obtain ys where "foldl add_new (add_new acc x) xs = add_new acc x @ ys" "set ys \<subseteq> set xs"
    using Cons by blast
  then show ?case by (cases "x \<in> set acc") (auto simp: add_new_def [of acc x])
qed simp

lemma set_uniq [simp]: "set (uniq xs) = set xs"
  by (simp add: uniq_def)

lemma distinct_uniq [simp]: "distinct (uniq xs)"
  by (simp add: uniq_def distinct_foldl_add_new)

text \<open>\<^verbatim>\<open>Counter\<close>: counts in first-seen order, and its \<^verbatim>\<open>most_common\<close>.\<close>

definition bump :: "nat \<Rightarrow> ('k, nat) dict \<Rightarrow> 'k \<Rightarrow> ('k, nat) dict" where
  "bump n d k = AList.update k (n + (case map_of d k of None \<Rightarrow> 0 | Some c \<Rightarrow> c)) d"

definition counter :: "'k list \<Rightarrow> ('k, nat) dict" where
  "counter ks = foldl (bump 1) [] ks"

definition most_common :: "nat \<Rightarrow> ('k, nat) dict \<Rightarrow> ('k \<times> nat) list" where
  "most_common n d = take n (sort_desc snd d)"

lemma wf_bump [simp]: "wf_dict d \<Longrightarrow> wf_dict (bump n d k)"
  by (simp add: bump_def)

lemma wf_foldl_bump: "wf_dict d \<Longrightarrow> wf_dict (foldl (bump n) d ks)"
  by (induction ks arbitrary: d) auto

lemma map_of_foldl_bump:
  "map_of (foldl (bump 1) d ks) k =
     (if count_list ks k = 0 then map_of d k
      else Some (count_list ks k + (case map_of d k of None \<Rightarrow> 0 | Some c \<Rightarrow> c)))"
  by (induction ks arbitrary: d) (auto simp: bump_def dict_simps split: option.splits)

lemma wf_counter [simp]: "wf_dict (counter ks)"
  by (simp add: counter_def wf_foldl_bump)

lemma map_of_counter:
  "map_of (counter ks) k = (if k \<in> set ks then Some (count_list ks k) else None)"
  using count_list_0_iff [of ks k] by (simp add: counter_def map_of_foldl_bump del: One_nat_def)

lemma counter_item: "(k, n) \<in> set (counter ks) \<longleftrightarrow> k \<in> set ks \<and> n = count_list ks k"
proof -
  have "distinct (map fst (counter ks))" using wf_counter [of ks] by (simp add: wf_dict_def)
  then have "(k, n) \<in> set (counter ks) \<longleftrightarrow> map_of (counter ks) k = Some n"
    by (simp add: map_of_eq_Some_iff)
  then show ?thesis by (auto simp: map_of_counter)
qed

end
