(* ===== verification/Models.thy ===== *)
theory Models
  imports Prelude
begin

text \<open>
  \<^verbatim>\<open>memem/models.py\<close>: where the state lives on disk, the schema of a memory, project
  aliases, and timestamps. A memory, a dictionary of type \<open>Memory\<close> in the source, is the
  record \<open>memory\<close>. Keys that the source may leave out and always reads with a default are
  stored as that default (\<^verbatim>\<open>status\<close> as \<open>active\<close>, list-valued keys as the empty list);
  keys whose absence the code can tell from every value are options.
\<close>

section \<open>Environment and paths\<close>

definition py_env :: "(string, string) dict \<Rightarrow> string list \<Rightarrow> string \<Rightarrow> string" where
  "py_env env names dflt =
     (case find (\<lambda>n. case map_of env n of None \<Rightarrow> False | Some v \<Rightarrow> v \<noteq> []) names of
        None \<Rightarrow> dflt
      | Some n \<Rightarrow> the (map_of env n))"

definition path_in :: "string \<Rightarrow> string \<Rightarrow> string" where
  "path_in d f = d @ ''/'' @ f"

text \<open>A legacy directory is used when it exists and the new one does not.\<close>

definition prefer_legacy :: "(string \<Rightarrow> bool) \<Rightarrow> string \<Rightarrow> string \<Rightarrow> string" where
  "prefer_legacy exists new legacy = (if exists legacy \<and> \<not> exists new then legacy else new)"

definition memem_dir :: "(string, string) dict \<Rightarrow> string \<Rightarrow> (string \<Rightarrow> bool) \<Rightarrow> string" where
  "memem_dir env home exists =
     (let e = py_env env [''MEMEM_DIR'', ''CORTEX_DIR''] [] in
      if e \<noteq> [] then e
      else prefer_legacy exists (path_in home ''.memem'') (path_in home ''.cortex''))"

definition obsidian_vault :: "(string, string) dict \<Rightarrow> string \<Rightarrow> string" where
  "obsidian_vault env home =
     py_env env [''MEMEM_OBSIDIAN_VAULT'', ''CORTEX_OBSIDIAN_VAULT'', ''MEMEM_VAULT'', ''CORTEX_VAULT'']
       (path_in home ''obsidian-brain'')"

definition vault_subdir :: "string \<Rightarrow> (string \<Rightarrow> bool) \<Rightarrow> string" where
  "vault_subdir vault exists = prefer_legacy exists (path_in vault ''memem'') (path_in vault ''cortex'')"

section \<open>The schema of a memory\<close>

record memory =
  mem_id :: string
  title :: string
  essence :: string
  domain_tags :: "string list"
  project :: string
  source_type :: string
  source_session :: string
  importance :: int
  status :: string
  valid_to :: string
  related :: "string list"
  contradicts :: "string list"
  created_at :: string
  updated_at :: string
  mem_file :: string         \<comment> \<open>absolute path, empty when the dictionary has none\<close>
  obsidian_file :: string   \<comment> \<open>file name only, empty when the dictionary has none\<close>
  schema_version :: int
  layer :: "int option"
  keys :: "string list"
  paths :: "string list"
  references :: "string list"
  valid_at :: string
  invalid_at :: "string option"
  replaced_by :: "string option"
  clustered_into :: "string option"
  last_accessed_at :: string
  access_count :: int
  decay_immune :: bool

definition DEFAULT_LAYER :: int where "DEFAULT_LAYER = 2"
definition LAYER_L0 :: int where "LAYER_L0 = 0"

abbreviation id8 :: "string \<Rightarrow> string" where "id8 s \<equiv> take 8 s"

section \<open>Project names\<close>

definition default_aliases :: "(string, string) dict" where
  "default_aliases = [(''cortex'', ''cortex-plugin''), (''memem'', ''cortex-plugin'')]"

text \<open>The user's \<^verbatim>\<open>project_aliases.json\<close> (empty when missing or malformed) overrides.\<close>

definition project_aliases :: "(string, string) dict \<Rightarrow> (string, string) dict" where
  "project_aliases user = fold (\<lambda>(k, v). AList.update k v) user default_aliases"

definition normalize_scope_id :: "(string, string) dict \<Rightarrow> string \<Rightarrow> string" where
  "normalize_scope_id al s =
     (if s = [] \<or> s = ''default'' then ''general''
      else (case map_of al s of None \<Rightarrow> s | Some c \<Rightarrow> c))"

lemma wf_default_aliases: "wf_dict default_aliases"
  by (simp add: wf_dict_def default_aliases_def)

lemma map_of_project_aliases:
  "map_of (project_aliases user) = map_of default_aliases ++ map_of (rev user)"
  unfolding project_aliases_def by (rule dict.get_puts [OF wf_default_aliases])

lemma normalize_default_idem:
  "normalize_scope_id default_aliases (normalize_scope_id default_aliases s)
   = normalize_scope_id default_aliases s"
  by (auto simp: normalize_scope_id_def default_aliases_def)

section \<open>Slugs\<close>

text \<open>\<^verbatim>\<open>re.sub(r"[^a-z0-9]+", "-", s)\<close>\<close>

function hyphenate :: "string \<Rightarrow> string" where
  "hyphenate [] = []"
| "hyphenate (c # s) =
     (if is_lower_alnum c then c # hyphenate s
      else CHR ''-'' # hyphenate (dropWhile (\<lambda>d. \<not> is_lower_alnum d) s))"
  by pat_completeness auto
termination
  by (relation "measure length") (auto simp: le_imp_less_Suc length_dropWhile_le)

definition slugify :: "string \<Rightarrow> nat \<Rightarrow> string" where
  "slugify s max_len = take max_len (strip_of ''-'' (hyphenate (lower s)))"

lemma set_hyphenate: "c \<in> set (hyphenate s) \<Longrightarrow> is_lower_alnum c \<or> c = CHR ''-''"
  by (induction s rule: hyphenate.induct) (auto split: if_splits)

lemma set_strip_of: "set (strip_of cs s) \<subseteq> set s"
  unfolding strip_of_def by (metis set_dropWhileD set_rev subsetI)

lemma slugify_chars: "c \<in> set (slugify s n) \<Longrightarrow> is_lower_alnum c \<or> c = CHR ''-''"
  unfolding slugify_def by (meson in_set_takeD set_hyphenate set_strip_of subsetD)

lemma length_slugify: "length (slugify s n) \<le> n"
  by (simp add: slugify_def)

section \<open>Timestamps\<close>

text \<open>
  \<^verbatim>\<open>datetime.fromisoformat\<close> on the extended formats: a date, optionally any separator and
  a time \<^verbatim>\<open>HH[:MM[:SS[.f+]]]\<close>, optionally an offset \<^verbatim>\<open>+HH:MM\<close> or \<^verbatim>\<open>-HH:MM\<close>. The
  compact forms without separators and week dates, which no part of the program writes,
  are rejected here. A time is an \<open>int\<close>: microseconds since 1970-01-01, with the offset
  of an aware time kept beside it.
\<close>

fun nat_of_digits :: "nat \<Rightarrow> string \<Rightarrow> nat" where
  "nat_of_digits acc [] = acc"
| "nat_of_digits acc (c # s) = nat_of_digits (10 * acc + (of_char c - 48)) s"

definition read_digits :: "nat \<Rightarrow> string \<Rightarrow> (nat \<times> string) option" where
  "read_digits n s =
     (if n \<le> length s \<and> list_all is_digit (take n s)
      then Some (nat_of_digits 0 (take n s), drop n s) else None)"

definition days_in_month :: "nat \<Rightarrow> nat \<Rightarrow> nat" where
  "days_in_month y m =
     (if m = 2 then (if 4 dvd y \<and> (\<not> 100 dvd y \<or> 400 dvd y) then 29 else 28)
      else if m \<in> {4, 6, 9, 11} then 30 else 31)"

definition days_from_civil :: "nat \<Rightarrow> nat \<Rightarrow> nat \<Rightarrow> int" where
  "days_from_civil y m d =
     (let y' = int y - (if m \<le> 2 then 1 else 0);
          era = y' div 400;
          yoe = y' - era * 400;
          mp = (int m + 9) mod 12;
          doy = (153 * mp + 2) div 5 + int d - 1;
          doe = yoe * 365 + yoe div 4 - yoe div 100 + doy
      in era * 146097 + doe - 719468)"

definition read_date :: "string \<Rightarrow> (int \<times> string) option" where
  "read_date s =
     Option.bind (read_digits 4 s) (\<lambda>(y, s).
     case s of CHR ''-'' # s \<Rightarrow>
       Option.bind (read_digits 2 s) (\<lambda>(m, s).
       case s of CHR ''-'' # s \<Rightarrow>
         Option.bind (read_digits 2 s) (\<lambda>(d, s).
           if 1 \<le> y \<and> 1 \<le> m \<and> m \<le> 12 \<and> 1 \<le> d \<and> d \<le> days_in_month y m
           then Some (days_from_civil y m d, s) else None)
       | _ \<Rightarrow> None)
     | _ \<Rightarrow> None)"

text \<open>Fractional seconds: up to six digits count, further ones are cut.\<close>

definition read_fraction :: "string \<Rightarrow> (nat \<times> string) option" where
  "read_fraction s =
     (case s of
        c # t \<Rightarrow>
          if c = CHR ''.'' \<or> c = CHR '',''
          then (let ds = takeWhile is_digit t in
                if ds = [] then None
                else Some (nat_of_digits 0 (take 6 (ds @ replicate 6 (CHR ''0''))), dropWhile is_digit t))
          else Some (0, s)
      | [] \<Rightarrow> Some (0, s))"

definition read_colon2 :: "string \<Rightarrow> ((nat \<times> string) option) option" where
  \<comment> \<open>\<open>Some None\<close>: no colon here; \<open>None\<close>: a colon without two digits\<close>
  "read_colon2 s =
     (case s of CHR '':'' # t \<Rightarrow> map_option Some (read_digits 2 t) | _ \<Rightarrow> Some None)"

definition read_time :: "string \<Rightarrow> (int \<times> string) option" where
  "read_time s =
     Option.bind (read_digits 2 s) (\<lambda>(h, s). if 24 \<le> h then None else
     Option.bind (read_colon2 s) (\<lambda>r. case r of
       None \<Rightarrow> Some (int h * 3600000000, s)
     | Some (mi, s) \<Rightarrow> if 60 \<le> mi then None else
       Option.bind (read_colon2 s) (\<lambda>r. case r of
         None \<Rightarrow> Some (int h * 3600000000 + int mi * 60000000, s)
       | Some (sec, s) \<Rightarrow> if 60 \<le> sec then None else
           map_option (\<lambda>(f, s). (int h * 3600000000 + int mi * 60000000 + int sec * 1000000 + int f, s))
             (read_fraction s))))"

definition read_offset :: "string \<Rightarrow> int option option" where
  "read_offset s =
     (case s of
        [] \<Rightarrow> Some None
      | c # t \<Rightarrow>
          if c = CHR ''+'' \<or> c = CHR ''-''
          then (case read_time t of
                  Some (us, []) \<Rightarrow> Some (Some (if c = CHR ''+'' then us else - us))
                | _ \<Rightarrow> None)
          else if c = CHR ''Z'' \<and> t = [] then Some (Some 0)
          else None)"

text \<open>The local time and, for an aware time, its offset.\<close>

definition fromisoformat :: "string \<Rightarrow> (int \<times> int option) option" where
  "fromisoformat s =
     Option.bind (read_date s) (\<lambda>(d, s). case s of
       [] \<Rightarrow> Some (d * 86400000000, None)
     | _ # t \<Rightarrow>
         Option.bind (read_time t) (\<lambda>(us, s).
           map_option (\<lambda>off. (d * 86400000000 + us, off)) (read_offset s)))"

definition parse_iso_dt :: "string \<Rightarrow> int option" where
  "parse_iso_dt s =
     (if s = [] then None
      else (case fromisoformat (replace_char (CHR ''Z'') ''+00:00'' s) of
              None \<Rightarrow> None
            | Some (us, None) \<Rightarrow> Some us
            | Some (us, Some off) \<Rightarrow> Some (us - off)))"

text \<open>Seconds between two instants, as \<^verbatim>\<open>timedelta.total_seconds\<close>.\<close>

definition seconds_between :: "int \<Rightarrow> int \<Rightarrow> real" where
  "seconds_between a b = real_of_int (a - b) / 1000000"

lemma parse_iso_examples:
  "parse_iso_dt ''1970-01-02'' = Some 86400000000"
  "parse_iso_dt ''2026-06-11T10:00:00Z'' = parse_iso_dt ''2026-06-11T12:00:00+02:00''"
  "parse_iso_dt ''2026-02-30'' = None"
  "parse_iso_dt '''' = None"
  by code_simp+

text \<open>A memory with every key at its default, the starting point of examples.\<close>

definition blank_memory :: "string \<Rightarrow> string \<Rightarrow> string \<Rightarrow> memory" where
  "blank_memory i t e =
     \<lparr>mem_id = i, title = t, essence = e, domain_tags = [], project = ''general'',
      source_type = ''user'', source_session = [], importance = 3, status = ''active'',
      valid_to = [], related = [], contradicts = [], created_at = [], updated_at = [],
      mem_file = [], obsidian_file = [], schema_version = 1, layer = None, keys = [],
      paths = [], references = [], valid_at = [], invalid_at = None, replaced_by = None,
      clustered_into = None, last_accessed_at = [], access_count = 0, decay_immune = False\<rparr>"

lemma blank_memory_fields [simp]:
  "mem_id (blank_memory i t e) = i" "title (blank_memory i t e) = t" "essence (blank_memory i t e) = e"
  "status (blank_memory i t e) = ''active''" "importance (blank_memory i t e) = 3"
  "project (blank_memory i t e) = ''general''" "invalid_at (blank_memory i t e) = None"
  "domain_tags (blank_memory i t e) = []" "created_at (blank_memory i t e) = []"
  "related (blank_memory i t e) = []" "contradicts (blank_memory i t e) = []"
  "mem_file (blank_memory i t e) = []" "obsidian_file (blank_memory i t e) = []"
  by (simp_all add: blank_memory_def)

end
