(* ===== verification/Regex.thy ===== *)
theory Regex
  imports Prelude
begin

text \<open>
  The subset of Python's \<^verbatim>\<open>re\<close> that the source's patterns use. A position is the
  character before it (which \<open>\b\<close> looks at) and the text after it. \<open>ends r p\<close> lists the
  positions where a match of \<open>r\<close> that starts at \<open>p\<close> can end, in the order in which the
  backtracking matcher of Python tries them (greedy repetition, left alternative first), so
  its head is the match Python returns. \<open>ends_iff\<close> proves it sound and complete for the
  declarative relation \<open>matches\<close>.
\<close>

datatype re =
    Eps
  | Chars "char \<Rightarrow> bool"
  | Cat re re
  | Alt re re
  | Star re
  | WordB  \<comment> \<open>\<open>\b\<close>\<close>
  | Eol  \<comment> \<open>\<^verbatim>\<open>$\<close> under \<^verbatim>\<open>re.MULTILINE\<close>\<close>

type_synonym pos = "char option \<times> string"

definition at_boundary :: "pos \<Rightarrow> bool" where
  "at_boundary p \<longleftrightarrow>
     (case fst p of None \<Rightarrow> False | Some c \<Rightarrow> is_word c)
     \<noteq> (case snd p of [] \<Rightarrow> False | c # _ \<Rightarrow> is_word c)"

definition at_eol :: "pos \<Rightarrow> bool" where
  "at_eol p \<longleftrightarrow> (case snd p of [] \<Rightarrow> True | c # _ \<Rightarrow> c = NL)"

function ends :: "re \<Rightarrow> pos \<Rightarrow> pos list" where
  "ends Eps p = [p]"
| "ends (Chars P) p = (case snd p of [] \<Rightarrow> [] | c # s \<Rightarrow> if P c then [(Some c, s)] else [])"
| "ends (Cat a b) p = concat (map (ends b) (ends a p))"
| "ends (Alt a b) p = ends a p @ ends b p"
| "ends (Star a) p =
     concat (map (\<lambda>q. if length (snd q) < length (snd p) then ends (Star a) q else [])
       (ends a p)) @ [p]"
| "ends WordB p = (if at_boundary p then [p] else [])"
| "ends Eol p = (if at_eol p then [p] else [])"
  by pat_completeness auto
termination
  by (relation "measures [size \<circ> fst, length \<circ> snd \<circ> snd]") auto

declare ends.simps(5) [simp del]

text \<open>One unfolding of the repetition, as a membership test.\<close>

lemma ends_Star:
  "q \<in> set (ends (Star a) p) \<longleftrightarrow>
     q = p \<or> (\<exists>t \<in> set (ends a p). length (snd t) < length (snd p) \<and> q \<in> set (ends (Star a) t))"
  by (subst ends.simps(5)) (auto split: if_splits)

inductive matches :: "re \<Rightarrow> pos \<Rightarrow> pos \<Rightarrow> bool" where
  Eps: "matches Eps p p"
| Chars: "P c \<Longrightarrow> matches (Chars P) (pr, c # s) (Some c, s)"
| Cat: "matches a p q \<Longrightarrow> matches b q t \<Longrightarrow> matches (Cat a b) p t"
| Alt1: "matches a p q \<Longrightarrow> matches (Alt a b) p q"
| Alt2: "matches b p q \<Longrightarrow> matches (Alt a b) p q"
| Star0: "matches (Star a) p p"
| StarS: "matches a p q \<Longrightarrow> matches (Star a) q t \<Longrightarrow> matches (Star a) p t"
| WordB: "at_boundary p \<Longrightarrow> matches WordB p p"
| Eol: "at_eol p \<Longrightarrow> matches Eol p p"

inductive_simps matches_simps:
  "matches Eps p q"
  "matches (Chars P) p q"
  "matches (Cat a b) p q"
  "matches (Alt a b) p q"
  "matches WordB p q"
  "matches Eol p q"

text \<open>A match consumes a prefix; one that consumes nothing ends where it starts.\<close>

lemma matches_suffix: "matches r p q \<Longrightarrow> (q = p) \<or> (\<exists>u. u \<noteq> [] \<and> snd p = u @ snd q)"
proof (induction rule: matches.induct)
  case (Cat a p q b t)
  then show ?case by (metis append.assoc append_is_Nil_conv)
next
  case (StarS a p q t)
  then show ?case by (metis append.assoc append_is_Nil_conv)
qed auto

lemma ends_sound: "q \<in> set (ends r p) \<Longrightarrow> matches r p q"
proof (induction r p arbitrary: q rule: ends.induct)
  case (2 P p)
  then show ?case by (cases p) (auto intro: matches.intros split: list.splits if_splits)
next
  case (5 a p)
  from "5.prems" ends_Star [of q a p] consider "q = p"
    | t where "t \<in> set (ends a p)" "length (snd t) < length (snd p)" "q \<in> set (ends (Star a) t)"
    by blast
  then show ?case
  proof cases
    case 2
    with "5.IH" have "matches a p t" "matches (Star a) t q" by blast+
    then show ?thesis by (rule matches.StarS)
  qed (simp add: matches.Star0)
next
  case (3 a b p)
  then obtain t where "t \<in> set (ends a p)" "q \<in> set (ends b t)" by auto
  with "3.IH" have "matches a p t" "matches b t q" by blast+
  then show ?case by (rule matches.Cat)
qed (auto intro: matches.intros split: if_splits)

lemma ends_complete: "matches r p q \<Longrightarrow> q \<in> set (ends r p)"
proof (induction rule: matches.induct)
  case (StarS a p q t)
  from matches_suffix [OF StarS.hyps(1)] show ?case
  proof
    assume "q = p"
    with StarS.IH(2) show ?thesis by simp
  next
    assume "\<exists>u. u \<noteq> [] \<and> snd p = u @ snd q"
    then have "length (snd q) < length (snd p)" by auto
    with StarS.IH show ?thesis using ends_Star by blast
  qed
next
  case (Star0 a p)
  show ?case using ends_Star by blast
qed auto

theorem ends_iff: "q \<in> set (ends r p) \<longleftrightarrow> matches r p q"
  using ends_sound ends_complete by blast

section \<open>Searching\<close>

text \<open>\<^verbatim>\<open>re.match(r, s)\<close> and \<^verbatim>\<open>re.search(r, s)\<close> as tests.\<close>

definition re_match :: "re \<Rightarrow> string \<Rightarrow> bool" where
  "re_match r s \<longleftrightarrow> ends r (None, s) \<noteq> []"

fun search_from :: "re \<Rightarrow> char option \<Rightarrow> string \<Rightarrow> bool" where
  "search_from r pr [] \<longleftrightarrow> ends r (pr, []) \<noteq> []"
| "search_from r pr (c # s) \<longleftrightarrow> ends r (pr, c # s) \<noteq> [] \<or> search_from r (Some c) s"

definition re_search :: "re \<Rightarrow> string \<Rightarrow> bool" where
  "re_search r s \<longleftrightarrow> search_from r None s"

text \<open>\<^verbatim>\<open>re.sub(r, "", s)\<close> for a pattern anchored with \<^verbatim>\<open>^\<close> at the start of the text.\<close>

definition re_drop_prefix :: "re \<Rightarrow> string \<Rightarrow> string" where
  "re_drop_prefix r s = (case ends r (None, s) of [] \<Rightarrow> s | q # _ \<Rightarrow> snd q)"

text \<open>\<^verbatim>\<open>re.findall(r, s)\<close>: the matches found from the left, none overlapping another.\<close>

function findall_from :: "re \<Rightarrow> char option \<Rightarrow> string \<Rightarrow> string list" where
  "findall_from r pr s =
     (case ends r (pr, s) of
        q # _ \<Rightarrow>
          if length (snd q) < length s
          then take (length s - length (snd q)) s # findall_from r (fst q) (snd q)
          else (case s of [] \<Rightarrow> [[]] | c # t \<Rightarrow> [] # findall_from r (Some c) t)
      | [] \<Rightarrow> (case s of [] \<Rightarrow> [] | c # t \<Rightarrow> findall_from r (Some c) t))"
  by pat_completeness auto
termination
  by (relation "measure (\<lambda>(r, pr, s). length s)") auto

declare findall_from.simps [simp del]

definition re_findall :: "re \<Rightarrow> string \<Rightarrow> string list" where
  "re_findall r s = findall_from r None s"

text \<open>\<^verbatim>\<open>re.sub(r, "", s)\<close>\<close>

function delete_from :: "re \<Rightarrow> char option \<Rightarrow> string \<Rightarrow> string" where
  "delete_from r pr s =
     (case ends r (pr, s) of
        q # _ \<Rightarrow>
          if length (snd q) < length s then delete_from r (fst q) (snd q)
          else (case s of [] \<Rightarrow> [] | c # t \<Rightarrow> c # delete_from r (Some c) t)
      | [] \<Rightarrow> (case s of [] \<Rightarrow> [] | c # t \<Rightarrow> c # delete_from r (Some c) t))"
  by pat_completeness auto
termination
  by (relation "measure (\<lambda>(r, pr, s). length s)") auto

declare delete_from.simps [simp del]

definition re_delete :: "re \<Rightarrow> string \<Rightarrow> string" where
  "re_delete r s = delete_from r None s"

definition before :: "char option \<Rightarrow> string \<Rightarrow> char option" where
  "before pr u = (if u = [] then pr else Some (last u))"

lemma ends_ne_iff: "ends r p \<noteq> [] \<longleftrightarrow> (\<exists>q. matches r p q)"
  using ends_iff by (metis list.set_intros(1) neq_Nil_conv empty_iff list.set(1))

lemma search_from_iff:
  "search_from r pr s \<longleftrightarrow> (\<exists>u v q. s = u @ v \<and> matches r (before pr u, v) q)"
proof (induction r pr s rule: search_from.induct)
  case (1 r pr)
  then show ?case by (simp add: ends_ne_iff before_def)
next
  case (2 r pr c s)
  have cons: "before pr (c # u) = before (Some c) u" "before pr [] = pr" for u
    by (simp_all add: before_def)
  have split: "(\<exists>u v. c # s = u @ v \<and> R u v) \<longleftrightarrow> R [] (c # s) \<or> (\<exists>u v. s = u @ v \<and> R (c # u) v)"
    for R by (auto simp: Cons_eq_append_conv)
  have "(\<exists>u v. c # s = u @ v \<and> (\<exists>q. matches r (before pr u, v) q)) \<longleftrightarrow>
      (\<exists>q. matches r (pr, c # s) q) \<or>
      (\<exists>u v. s = u @ v \<and> (\<exists>q. matches r (before (Some c) u, v) q))"
    by (simp only: split cons)
  with 2 show ?case by (simp add: ends_ne_iff)
qed

lemma re_search_iff:
  "re_search r s \<longleftrightarrow> (\<exists>u v q. s = u @ v \<and> matches r (before None u, v) q)"
  by (simp add: re_search_def search_from_iff)

lemma re_drop_prefix_suffix: "\<exists>u. s = u @ re_drop_prefix r s"
proof (cases "ends r (None, s)")
  case (Cons q qs)
  then have "matches r (None, s) q" using ends_sound by (metis list.set_intros(1))
  from matches_suffix [OF this] Cons show ?thesis by (auto simp: re_drop_prefix_def)
qed (simp add: re_drop_prefix_def)

section \<open>Building patterns\<close>

definition any_char :: re where  \<comment> \<open>\<^verbatim>\<open>.\<close>\<close>
  "any_char = Chars (\<lambda>c. c \<noteq> NL)"

abbreviation space :: re where "space \<equiv> Chars py_space"

definition plus :: "re \<Rightarrow> re" where
  "plus r = Cat r (Star r)"

definition opt :: "re \<Rightarrow> re" where
  "opt r = Alt r Eps"

fun upto :: "nat \<Rightarrow> re \<Rightarrow> re" where  \<comment> \<open>\<^verbatim>\<open>r{0,n}\<close>\<close>
  "upto 0 r = Eps"
| "upto (Suc n) r = Alt (Cat r (upto n r)) Eps"

fun times :: "nat \<Rightarrow> re \<Rightarrow> re" where  \<comment> \<open>\<^verbatim>\<open>r{n}\<close>\<close>
  "times 0 r = Eps"
| "times (Suc n) r = Cat r (times n r)"

text \<open>A literal, compared as written or (\<^verbatim>\<open>re.IGNORECASE\<close>) up to case.\<close>

fun lit :: "string \<Rightarrow> re" where
  "lit [] = Eps"
| "lit (c # s) = Cat (Chars (\<lambda>d. d = c)) (lit s)"

fun ilit :: "string \<Rightarrow> re" where
  "ilit [] = Eps"
| "ilit (c # s) = Cat (Chars (\<lambda>d. lower_char d = lower_char c)) (ilit s)"

fun alts :: "re list \<Rightarrow> re" where
  "alts [] = Chars (\<lambda>_. False)"
| "alts [r] = r"
| "alts (r # rs) = Alt r (alts rs)"

fun cats :: "re list \<Rightarrow> re" where
  "cats [] = Eps"
| "cats [r] = r"
| "cats (r # rs) = Cat r (cats rs)"

definition sp :: re where "sp = plus space"

definition ialts :: "string list \<Rightarrow> re" where
  "ialts ws = alts (map ilit ws)"

lemma matches_lit: "matches (lit w) (pr, w @ s) (before pr w, s)"
proof (induction w arbitrary: pr)
  case (Cons c w)
  then have "matches (lit w) (Some c, w @ s) (before (Some c) w, s)" .
  then show ?case by (auto simp: before_def intro!: matches.Cat matches.Chars)
qed (auto simp: before_def intro: matches.Eps)

lemma matches_lit_text: "matches (lit w) p q \<Longrightarrow> snd p = w @ snd q"
  by (induction w arbitrary: p) (auto simp: matches_simps)

lemma re_search_lit: "re_search (lit w) s \<longleftrightarrow> contains s w"
proof
  assume "re_search (lit w) s"
  then obtain u v q where "s = u @ v" "matches (lit w) (before None u, v) q"
    by (auto simp: re_search_iff)
  with matches_lit_text [of w _ q] show "contains s w" by (fastforce simp: contains_iff)
next
  assume "contains s w"
  then obtain u t where "s = u @ w @ t" by (auto simp: contains_iff)
  with matches_lit [of w "before None u" t] show "re_search (lit w) s"
    by (auto simp: re_search_iff)
qed

section \<open>The match Python returns\<close>

definition first :: "re \<Rightarrow> pos \<Rightarrow> pos \<Rightarrow> bool" where
  "first r p q \<longleftrightarrow> (\<exists>qs. ends r p = q # qs)"

named_theorems first_intros "how the first match of a pattern is made of those of its parts"

lemma first_Eps [first_intros]: "first Eps p p"
  by (simp add: first_def)

lemma first_Chars [first_intros]: "P c \<Longrightarrow> first (Chars P) (pr, c # s) (Some c, s)"
  by (simp add: first_def)

lemma first_Cat [first_intros]: "first a p q \<Longrightarrow> first b q t \<Longrightarrow> first (Cat a b) p t"
  by (auto simp: first_def)

lemma first_Alt1: "first a p q \<Longrightarrow> first (Alt a b) p q"
  by (auto simp: first_def)

lemma first_Alt2: "ends a p = [] \<Longrightarrow> first b p q \<Longrightarrow> first (Alt a b) p q"
  by (auto simp: first_def)

lemma first_Star_step:
  "first a p q \<Longrightarrow> length (snd q) < length (snd p) \<Longrightarrow> first (Star a) q t \<Longrightarrow> first (Star a) p t"
  by (auto simp: first_def ends.simps(5) [of a p])

lemma first_Star_stop: "ends a p = [] \<Longrightarrow> first (Star a) p p"
  by (auto simp: first_def ends.simps(5) [of a p])

lemma first_Eol [first_intros]: "at_eol p \<Longrightarrow> first Eol p p"
  by (simp add: first_def)

lemma first_opt: "first r p q \<Longrightarrow> first (opt r) p q"
  by (simp add: opt_def first_Alt1)

lemma first_opt_none: "ends r p = [] \<Longrightarrow> first (opt r) p p"
  by (simp add: opt_def first_Alt2 first_Eps)

lemma first_lit: "first (lit w) (pr, w @ s) (before pr w, s)"
proof (induction w arbitrary: pr)
  case (Cons c w)
  then show ?case by (auto simp: before_def intro!: first_Cat first_Chars)
qed (simp add: before_def first_Eps)

lemma first_star_class:
  "\<forall>c \<in> set w. P c \<Longrightarrow> s = [] \<or> \<not> P (hd s) \<Longrightarrow> first (Star (Chars P)) (pr, w @ s) (before pr w, s)"
proof (induction w arbitrary: pr)
  case Nil
  then show ?case by (cases s) (auto simp: before_def intro!: first_Star_stop)
next
  case (Cons c w)
  then have "first (Star (Chars P)) (Some c, w @ s) (before (Some c) w, s)" by simp
  then show ?case using Cons.prems
    by (auto simp: before_def intro!: first_Star_step [OF first_Chars])
qed

lemma first_plus_class:
  assumes "w \<noteq> []" "\<forall>c \<in> set w. P c" "s = [] \<or> \<not> P (hd s)"
  shows "first (plus (Chars P)) (pr, w @ s) (Some (last w), s)"
proof -
  obtain c v where w: "w = c # v" using assms(1) by (cases w) auto
  have "first (Star (Chars P)) (Some c, v @ s) (before (Some c) v, s)"
    by (rule first_star_class) (use assms w in auto)
  with w assms(2) show ?thesis
    by (auto simp: plus_def before_def intro!: first_Cat [OF first_Chars])
qed

lemma ends_lit_Nil: "w \<noteq> [] \<Longrightarrow> ends (lit w) (pr, []) = []"
  by (cases w) auto

lemma ends_lit_no: "\<not> starts_with s w \<Longrightarrow> ends (lit w) (pr, s) = []"
  using ends_ne_iff matches_lit_text starts_with_iff by (metis snd_conv)

lemma delete_first:
  assumes "first r (pr, s) (x, [])" "s \<noteq> []" "ends r (x, []) = []"
  shows "delete_from r pr s = []"
proof -
  obtain qs where "ends r (pr, s) = (x, []) # qs" using assms(1) by (auto simp: first_def)
  moreover have "delete_from r x [] = []" using assms(3) by (simp add: delete_from.simps)
  ultimately show ?thesis using assms(2) by (simp add: delete_from.simps [of r pr s])
qed

lemma delete_skip: "ends r (pr, c # s) = [] \<Longrightarrow> delete_from r pr (c # s) = c # delete_from r (Some c) s"
  by (simp add: delete_from.simps [of r pr "c # s"])

end
