(* ===== verification/Security.thy ===== *)
theory Security
  imports Regex
begin

text \<open>
  \<^verbatim>\<open>memem/security.py\<close>: the scan that every text passes before it is stored. A stored text is
  injected into later sessions, so the scan is the gate of the whole vault. The patterns are
  the source's, as expressions of theory \<open>Regex\<close> (all are searched with \<^verbatim>\<open>re.IGNORECASE\<close>).
\<close>

section \<open>Code points beyond Latin-1\<close>

text \<open>The C1 points that stand for code points the source names, with what they stand for.\<close>

definition beyond_latin1 :: "(nat \<times> nat) list" where
  "beyond_latin1 =
     [(0x80, 0x200B), (0x81, 0x200C), (0x82, 0x200D), (0x83, 0x2060), (0x84, 0xFEFF),
      (0x86, 0x202A), (0x87, 0x202B), (0x88, 0x202C), (0x89, 0x202D), (0x8A, 0x202E),
      (0x96, 0x2026), (0x97, 0x2014)]"

definition code_point :: "char \<Rightarrow> nat" where
  "code_point c = (case map_of beyond_latin1 (of_char c) of None \<Rightarrow> of_char c | Some n \<Rightarrow> n)"

definition em_dash :: char where "em_dash = CHR 0x97"
definition ellipsis :: char where "ellipsis = CHR 0x96"

definition invisible_chars :: "char list" where
  "invisible_chars = map char_of [0x80 :: nat, 0x81, 0x82, 0x83, 0x84, 0x86, 0x87, 0x88, 0x89, 0x8A]"

definition hex_digit :: "nat \<Rightarrow> char" where
  "hex_digit d = (if d < 10 then char_of (48 + d) else char_of (55 + d))"

definition hex4 :: "nat \<Rightarrow> string" where  \<comment> \<open>\<^verbatim>\<open>{n:04X}\<close> for \<^verbatim>\<open>n < 0x10000\<close>\<close>
  "hex4 n = map hex_digit [n div 4096 mod 16, n div 256 mod 16, n div 16 mod 16, n mod 16]"

section \<open>The threat patterns\<close>

definition injection_patterns :: "(re \<times> string) list" where
  "injection_patterns =
     [(cats [ilit ''ignore'', sp, upto 20 any_char, ialts [''previous'', ''prior'', ''above'', ''all''],
             sp, upto 10 any_char, ilit ''instructions''], ''prompt_injection''),
      (cats [ilit ''ignore'', sp, ialts [''previous'', ''all'', ''above'', ''prior''], sp,
             ilit ''instructions''], ''prompt_injection''),
      (cats [ilit ''you'', sp, ilit ''are'', sp, ilit ''now'', sp], ''role_hijack''),
      (cats [ilit ''do'', sp, ilit ''not'', sp, ilit ''tell'', sp, ilit ''the'', sp, ilit ''user''],
       ''deception''),
      (cats [ilit ''system'', sp, ilit ''prompt'', sp, ilit ''override''], ''sys_prompt_override''),
      (cats [ilit ''disregard'', sp, ialts [''your'', ''all'', ''any''], sp,
             ialts [''instructions'', ''rules'', ''guidelines'']], ''disregard_rules''),
      (cats [ilit ''act'', sp, ilit ''as'', sp, ialts [''if'', ''though''], sp, ilit ''you'', sp,
             Alt (cats [ilit ''have'', sp, ilit ''no''])
               (cats [ilit (''don'' @ [CHR 0x27] @ ''t''), sp, ilit ''have'']), sp,
             ialts [''restrictions'', ''limits'', ''rules'']], ''bypass_restrictions'')]"

definition secret_word :: re where
  "secret_word = ialts [''KEY'', ''TOKEN'', ''SECRET'', ''PASSWORD'', ''CREDENTIAL'', ''API'']"

definition exfil_patterns :: "(re \<times> string) list" where
  "exfil_patterns =
     [(cats [ilit ''curl'', sp, Star any_char, lit ''$'', opt (lit ''{''), Star (Chars is_word),
             secret_word], ''exfil_curl''),
      (cats [ilit ''wget'', sp, Star any_char, lit ''$'', opt (lit ''{''), Star (Chars is_word),
             secret_word], ''exfil_wget''),
      (cats [ilit ''cat'', sp, Star any_char,
             ialts [''.env'', ''credentials'', ''.netrc'', ''.pgpass'', ''.npmrc'', ''.pypirc'']],
       ''read_secrets''),
      (ilit ''authorized_keys'', ''ssh_backdoor''),
      (Alt (ilit ''$HOME/.ssh'') (ilit ''~/.ssh''), ''ssh_access'')]"

definition threat_patterns :: "(re \<times> string) list" where
  "threat_patterns = injection_patterns @ exfil_patterns"

text \<open>
  The source iterates a Python set of characters, so which of several invisible characters
  the message names is not determined there; the list fixes one order.
\<close>

definition scan_memory_content :: "string \<Rightarrow> string option" where
  "scan_memory_content content =
     (case find (\<lambda>ch. ch \<in> set content) invisible_chars of
        Some ch \<Rightarrow> Some (''Blocked: invisible unicode U+'' @ hex4 (code_point ch)
                        @ '' (possible injection)'')
      | None \<Rightarrow>
          (case find (\<lambda>(r, name). re_search r content) threat_patterns of
             Some (r, name) \<Rightarrow>
               Some (''Blocked: matches threat pattern '' @ [CHR 0x27] @ name @ [CHR 0x27])
           | None \<Rightarrow> None))"

lemma scan_None_iff:
  "scan_memory_content s = None \<longleftrightarrow>
     (\<forall>ch \<in> set invisible_chars. ch \<notin> set s) \<and>
     (\<forall>(r, name) \<in> set threat_patterns. \<not> re_search r s)"
proof -
  have "scan_memory_content s = None \<longleftrightarrow>
      find (\<lambda>ch. ch \<in> set s) invisible_chars = None \<and>
      find (\<lambda>(r, name). re_search r s) threat_patterns = None"
    unfolding scan_memory_content_def by (simp split: option.split prod.split)
  moreover have "find (\<lambda>ch. ch \<in> set s) invisible_chars = None \<longleftrightarrow>
      (\<forall>ch \<in> set invisible_chars. ch \<notin> set s)"
    by (simp only: find_None_iff) blast
  moreover have "find (\<lambda>(r, name). re_search r s) threat_patterns = None \<longleftrightarrow>
      (\<forall>(r, name) \<in> set threat_patterns. \<not> re_search r s)"
    by (simp only: find_None_iff) blast
  ultimately show ?thesis by simp
qed

section \<open>Text around a threat does not hide it\<close>

text \<open>A pattern without \<open>\b\<close> does not look at what surrounds a match.\<close>

fun context_free :: "re \<Rightarrow> bool" where
  "context_free (Cat a b) \<longleftrightarrow> context_free a \<and> context_free b"
| "context_free (Alt a b) \<longleftrightarrow> context_free a \<and> context_free b"
| "context_free (Star a) \<longleftrightarrow> context_free a"
| "context_free WordB \<longleftrightarrow> False"
| "context_free Eol \<longleftrightarrow> False"
| "context_free _ \<longleftrightarrow> True"

lemma matches_extend:
  "matches r p q \<Longrightarrow> context_free r \<Longrightarrow> \<exists>x. matches r (pr, snd p @ w) (x, snd q @ w)"
proof (induction arbitrary: pr rule: matches.induct)
  case (Chars P c pr' s)
  then show ?case by (auto intro: matches.Chars)
next
  case (Cat a p q b t)
  then show ?case by (fastforce intro: matches.Cat)
next
  case (StarS a p q t)
  then show ?case by (fastforce intro: matches.StarS)
qed (auto intro: matches.intros)

lemma re_search_extend:
  assumes "context_free r" and "re_search r s"
  shows "re_search r (u @ s @ w)"
proof -
  obtain x v q where s: "s = x @ v" and m: "matches r (before None x, v) q"
    using assms(2) by (auto simp: re_search_iff)
  obtain y where "matches r (before None (u @ x), v @ w) (y, snd q @ w)"
    using matches_extend [OF m assms(1)] by auto
  moreover have "u @ s @ w = (u @ x) @ (v @ w)" by (simp add: s)
  ultimately show ?thesis by (metis re_search_iff)
qed

lemma context_free_ilit [simp]: "context_free (ilit w)"
  by (induction w) auto

lemma context_free_lit [simp]: "context_free (lit w)"
  by (induction w) auto

lemma context_free_upto [simp]: "context_free (upto n r) \<longleftrightarrow> n = 0 \<or> context_free r"
  by (induction n) auto

lemma context_free_alts [simp]: "context_free (alts rs) \<longleftrightarrow> (\<forall>r \<in> set rs. context_free r)"
  by (induction rs rule: alts.induct) auto

lemma context_free_cats [simp]: "context_free (cats rs) \<longleftrightarrow> (\<forall>r \<in> set rs. context_free r)"
  by (induction rs rule: cats.induct) auto

lemma threat_patterns_context_free: "\<forall>(r, name) \<in> set threat_patterns. context_free r"
  by (simp add: threat_patterns_def injection_patterns_def exfil_patterns_def sp_def plus_def
      ialts_def any_char_def secret_word_def opt_def del: cats.simps alts.simps)

lemma scan_blocks_extend:
  assumes "scan_memory_content s \<noteq> None"
  shows "scan_memory_content (u @ s @ w) \<noteq> None"
proof
  assume clean: "scan_memory_content (u @ s @ w) = None"
  then have "\<forall>ch \<in> set invisible_chars. ch \<notin> set s" by (auto simp: scan_None_iff)
  moreover have "\<not> re_search r s" if "(r, name) \<in> set threat_patterns" for r name
    using that clean threat_patterns_context_free re_search_extend [of r s u w]
    by (fastforce simp: scan_None_iff)
  ultimately show False using assms by (auto simp: scan_None_iff)
qed

section \<open>A quick sufficient test\<close>

text \<open>Every threat pattern begins with (or is) a literal word; a text without any of these
  words matches none of them.\<close>

definition threat_stems :: "string list" where
  "threat_stems = [''ignore'', ''you'', ''do'', ''system'', ''disregard'', ''act'', ''curl'', ''wget'',
     ''cat'', ''authorized_keys'', ''/.ssh'']"

definition threat_words :: "string list" where
  "threat_words = map lower threat_stems"

lemma matches_ilit: "matches (ilit w) p q \<Longrightarrow> starts_with (lower (snd p)) (lower w)"
  by (induction w arbitrary: p) (auto simp: matches_simps lower_def)

lemma search_ilit_cats:
  assumes "re_search (cats (ilit w # r # rs)) s"
  shows "contains (lower s) (lower w)"
proof -
  obtain u v q where s: "s = u @ v" and "matches (cats (ilit w # r # rs)) (before None u, v) q"
    using assms by (auto simp: re_search_iff)
  then obtain t where "matches (ilit w) (before None u, v) t"
    by (auto simp: matches_simps)
  then have "starts_with (lower v) (lower w)" using matches_ilit by fastforce
  then show ?thesis by (auto simp: s contains_iff starts_with_iff)
qed

lemma search_ilit: "re_search (ilit w) s \<Longrightarrow> contains (lower s) (lower w)"
  using matches_ilit by (fastforce simp: re_search_iff contains_iff starts_with_iff)

definition needs :: "re \<Rightarrow> string \<Rightarrow> bool" where
  "needs r w \<longleftrightarrow> (\<forall>s. re_search r s \<longrightarrow> contains (lower s) (lower w))"

lemma needs_cats: "needs (cats (ilit w # r # rs)) w"
  using search_ilit_cats by (auto simp: needs_def)

lemma needs_ilit: "needs (ilit w) w"
  using search_ilit by (auto simp: needs_def)

lemma needs_tail: "needs r (u @ w) \<Longrightarrow> needs r w"
  unfolding needs_def lower_append contains_iff by (metis append.assoc)

lemma search_Alt: "re_search (Alt a b) s \<longleftrightarrow> re_search a s \<or> re_search b s"
  unfolding re_search_iff matches_simps by blast

lemma needs_Alt: "needs a w \<Longrightarrow> needs b w \<Longrightarrow> needs (Alt a b) w"
  by (simp add: needs_def search_Alt)

lemma needs_ssh: "needs (Alt (ilit ''$HOME/.ssh'') (ilit ''~/.ssh'')) ''/.ssh''"
  using needs_Alt needs_tail [of _ "''$HOME''" "''/.ssh''"] needs_tail [of _ "''~''" "''/.ssh''"]
    needs_ilit [of "''$HOME/.ssh''"] needs_ilit [of "''~/.ssh''"] by simp

lemma threat_needs: "list_all (\<lambda>(r, name). \<exists>w \<in> set threat_stems. needs r w) threat_patterns"
  unfolding threat_patterns_def injection_patterns_def exfil_patterns_def
    append.simps list.pred_inject prod.case
  by (intro conjI; ((rule bexI, (rule needs_cats needs_ilit needs_ssh), simp add: threat_stems_def) | simp))

lemma scan_quiet:
  assumes "list_all (\<lambda>w. \<not> contains (lower s) w) threat_words"
    and "list_all (\<lambda>ch. ch \<notin> set s) invisible_chars"
  shows "scan_memory_content s = None"
  using assms threat_needs
  by (fastforce simp: scan_None_iff threat_words_def list_all_iff needs_def)

text \<open>Plain words of the alphabet in examples: what is scanned and found clean.\<close>

lemma scan_tabs: "scan_memory_content ''tabs'' = None"
  by (rule scan_quiet) code_simp+

text \<open>
  The scan is a gate that padding cannot open. A text passes exactly when it holds none
  of the invisible characters and no threat pattern matches anywhere in it, in the
  declarative sense of the pattern; and a text with a blocked part is blocked.
\<close>

theorem scan_gate:
  "(scan_memory_content s = None \<longleftrightarrow>
      (\<forall>ch \<in> set invisible_chars. ch \<notin> set s) \<and>
      (\<forall>(r, name) \<in> set threat_patterns.
         \<not> (\<exists>u v q. s = u @ v \<and> matches r (before None u, v) q))) \<and>
   (scan_memory_content s \<noteq> None \<longrightarrow> scan_memory_content (u @ s @ w) \<noteq> None)"
  using scan_None_iff [of s] scan_blocks_extend [of s u w] by (simp add: re_search_iff)

theorem scan_gate_witness:
  "scan_memory_content (''memo '' @ [CHR 0x80] @ '' note'') \<noteq> None"
proof -
  have "CHR 0x80 \<in> set invisible_chars"
    by (simp add: invisible_chars_def) code_simp
  then have "scan_memory_content [CHR 0x80] \<noteq> None"
    by (auto simp: scan_None_iff)
  then show ?thesis
    using scan_gate [of "[CHR 0x80]" "''memo ''" "'' note''"] by blast
qed

end
