(* ===== verification/Profiles.thy ===== *)
theory Profiles
  imports Models Security
begin

text \<open>
  \<^verbatim>\<open>memem/profiles.py\<close>: the profile documents injected into every session. The state is the
  content of the profile files, a map from file names to text. The fuzzy ratio of
  \<^verbatim>\<open>rapidfuzz\<close> and the compaction by the Haiku model are not part of the repository: they
  are the parameters \<open>ratio\<close> and \<open>haiku\<close>. Everything another process may do to the files
  while the profile lock is released is the parameter \<open>other\<close>.
\<close>

section \<open>Schema and file names\<close>

definition PROFILE_CHAR_CAP :: nat where "PROFILE_CHAR_CAP = 2500"
definition RENDER_CAP_PER_FILE :: nat where "RENDER_CAP_PER_FILE = 1200"
definition DEDUP_RATIO_THRESHOLD :: real where "DEDUP_RATIO_THRESHOLD = 85"

type_synonym profile_files = "string \<rightharpoonup> string"
type_synonym sections = "(string, string list) dict"

definition sections_for :: "string \<Rightarrow> string list" where
  "sections_for name =
     (if name = ''user'' then [''Preferences'', ''Conventions'', ''Environment'']
      else [''Identity'', ''Stack & Structure'', ''Conventions''])"

definition profile_path :: "string \<Rightarrow> string" where
  "profile_path name =
     (if name = ''user'' then ''profile_user.md''
      else ''profile_'' @ slugify name 60 @ ''.md'')"

text \<open>\<^verbatim>\<open>str.title\<close>: a cased letter is raised after a character that is not one, and lowered
  after one. (The two lower-case letters of Latin-1 whose upper case lies outside it stay.)\<close>

definition is_cased :: "char \<Rightarrow> bool" where
  "is_cased c \<longleftrightarrow>
     (let n = of_char c :: nat in
      65 \<le> n \<and> n \<le> 90 \<or> 97 \<le> n \<and> n \<le> 122 \<or> n \<in> {170, 181, 186}
      \<or> 192 \<le> n \<and> n \<noteq> 215 \<and> n \<noteq> 247)"

definition upper_char :: "char \<Rightarrow> char" where
  "upper_char c =
     (let n = of_char c :: nat in
      if 97 \<le> n \<and> n \<le> 122 \<or> 224 \<le> n \<and> n \<noteq> 247 \<and> n \<noteq> 255
      then char_of (n - 32) else c)"

fun title_from :: "bool \<Rightarrow> string \<Rightarrow> string" where
  "title_from prev [] = []"
| "title_from prev (c # s) =
     (if prev then lower_char c else upper_char c) # title_from (is_cased c) s"

definition profile_title :: "string \<Rightarrow> string" where
  "profile_title name =
     (if name = ''user'' then ''User Profile''
      else title_from False (replace_char (CHR ''-'') '' '' name) @ '' Profile'')"

definition build_template :: "string \<Rightarrow> string" where
  "build_template name =
     rstrip (join [NL] ([''# '' @ profile_title name, []]
       @ concat (map (\<lambda>s. [''## '' @ s, []]) (sections_for name)))) @ [NL]"

section \<open>Parsing and rendering\<close>

fun parse_lines :: "(string, string) dict \<Rightarrow> string option \<Rightarrow> sections \<Rightarrow> string list \<Rightarrow> sections" where
  "parse_lines valid cur res [] = res"
| "parse_lines valid cur res (l # ls) =
     (if starts_with l ''## ''
      then parse_lines valid (map_of valid (lower (strip (drop 3 l)))) res ls
      else (case cur of
              Some s \<Rightarrow>
                if starts_with l ''- ''
                then parse_lines valid cur
                       (AList.update s (the (map_of res s) @ [strip (drop 2 l)]) res) ls
                else parse_lines valid cur res ls
            | None \<Rightarrow> parse_lines valid cur res ls))"

definition empty_sections :: "string \<Rightarrow> sections" where
  "empty_sections name = map (\<lambda>s. (s, [])) (sections_for name)"

definition valid_sections :: "string \<Rightarrow> (string, string) dict" where
  "valid_sections name = map (\<lambda>s. (lower s, s)) (sections_for name)"

definition parse_profile :: "string \<Rightarrow> string \<Rightarrow> sections" where
  "parse_profile raw name =
     parse_lines (valid_sections name) None (empty_sections name) (splitlines raw)"

definition bullets_of :: "sections \<Rightarrow> string \<Rightarrow> string list" where
  "bullets_of secs s = (case map_of secs s of None \<Rightarrow> [] | Some bs \<Rightarrow> bs)"

definition section_lines :: "sections \<Rightarrow> string \<Rightarrow> string list" where
  "section_lines secs s = (''## '' @ s) # map (\<lambda>b. ''- '' @ b) (bullets_of secs s) @ [[]]"

definition render_profile :: "string \<Rightarrow> sections \<Rightarrow> string" where
  "render_profile name secs =
     rstrip (join [NL] ([''# '' @ profile_title name, []]
       @ concat (map (section_lines secs) (sections_for name)))) @ [NL]"

definition load_profile :: "profile_files \<Rightarrow> string \<Rightarrow> sections \<times> string" where
  "load_profile fs name =
     (case fs (profile_path name) of
        None \<Rightarrow> (empty_sections name, [])
      | Some raw \<Rightarrow> (parse_profile raw name, raw))"

section \<open>Appending a fact\<close>

datatype append_status =
  Appended | DuplicateFact | InvalidSection | CompactedAppended | RejectedFull | AppendError

datatype locked_result =
    Done append_status profile_files
  | NeedsCompaction string string  \<comment> \<open>the text to compact, and the snapshot it came from\<close>

text \<open>\<^verbatim>\<open>_append_fact_locked\<close>: runs with the lock held.\<close>

definition append_fact_locked ::
  "(string \<Rightarrow> string \<Rightarrow> real) \<Rightarrow> profile_files \<Rightarrow> string \<Rightarrow> string \<Rightarrow> string \<Rightarrow> locked_result" where
  "append_fact_locked ratio fs name sec line =
     (let path = profile_path name;
          (secs, raw) =
            (case fs path of
               Some raw \<Rightarrow> (parse_profile raw name, raw)
             | None \<Rightarrow> (empty_sections name, render_profile name (empty_sections name)))
      in if \<exists>b \<in> set (bullets_of secs sec). ratio line b \<ge> DEDUP_RATIO_THRESHOLD
         then Done DuplicateFact fs
         else
           let new_raw = render_profile name (AList.update sec (bullets_of secs sec @ [line]) secs)
           in if length new_raw \<le> PROFILE_CHAR_CAP
              then Done Appended (fs(path \<mapsto> new_raw))
              else NeedsCompaction new_raw raw)"

text \<open>
  \<^verbatim>\<open>_compact_profile\<close>: \<open>haiku\<close> is the subprocess, \<open>None\<close> when it raises, otherwise its
  exit code and standard output.
\<close>

definition compact_profile :: "(string \<Rightarrow> (int \<times> string) option) \<Rightarrow> string \<Rightarrow> string option" where
  "compact_profile haiku raw =
     (case haiku raw of
        None \<Rightarrow> None
      | Some (rc, out) \<Rightarrow>
          if rc \<noteq> 0 then None
          else if strip out = [] then None else Some (strip out))"

text \<open>\<^verbatim>\<open>_append_fact_inner\<close>, with the compaction outside the lock and the snapshot check
  after it has been taken again.\<close>

definition append_fact ::
  "(string \<Rightarrow> string \<Rightarrow> real) \<Rightarrow> (string \<Rightarrow> (int \<times> string) option) \<Rightarrow>
   (profile_files \<Rightarrow> profile_files) \<Rightarrow> profile_files \<Rightarrow> string \<Rightarrow> string \<Rightarrow> string \<Rightarrow>
   append_status \<times> profile_files" where
  "append_fact ratio haiku other fs name sec line =
     (case map_of (valid_sections name) (lower (strip sec)) of
        None \<Rightarrow> (InvalidSection, fs)
      | Some canonical \<Rightarrow>
          let line = strip (replace_char (CHR 0x0D) '' '' (replace_char NL '' '' line))
          in if line = [] \<or> length line > 200 \<or> scan_memory_content line \<noteq> None
             then (AppendError, fs)
             else (case append_fact_locked ratio fs name canonical line of
                     Done st fs' \<Rightarrow> (st, fs')
                   | NeedsCompaction new_raw snapshot \<Rightarrow>
                       (case compact_profile haiku new_raw of
                          None \<Rightarrow> (RejectedFull, other fs)
                        | Some compacted \<Rightarrow>
                            if length compacted > PROFILE_CHAR_CAP then (RejectedFull, other fs)
                            else
                              let fs1 = other fs; path = profile_path name;
                                  current = (case fs1 path of None \<Rightarrow> [] | Some r \<Rightarrow> r)
                              in if current \<noteq> snapshot
                                 then (case append_fact_locked ratio fs1 name canonical line of
                                         Done st fs' \<Rightarrow> (st, fs')
                                       | NeedsCompaction _ _ \<Rightarrow> (RejectedFull, fs1))
                                 else (CompactedAppended, fs1(path \<mapsto> compacted)))))"

section \<open>Injection\<close>

fun take_capped :: "nat \<Rightarrow> nat \<Rightarrow> string list \<Rightarrow> string list" where
  "take_capped cap used [] = []"
| "take_capped cap used (l # ls) =
     (if used + (length l + 1) > cap then [] else l # take_capped cap (used + (length l + 1)) ls)"

definition render_capped :: "string \<Rightarrow> string" where
  "render_capped raw =
     (if raw = [] \<or> strip raw = [] then []
      else if length raw \<le> RENDER_CAP_PER_FILE then rstrip raw
      else rstrip (join [NL] (take_capped RENDER_CAP_PER_FILE 0 (splitlines raw))))"

definition render_for_injection :: "(string, string) dict \<Rightarrow> profile_files \<Rightarrow> string \<Rightarrow> string" where
  "render_for_injection al fs scope =
     (let u = render_capped (snd (load_profile fs ''user''));
          n = normalize_scope_id al scope;
          p = (if n \<noteq> [] \<and> n \<noteq> ''general'' then render_capped (snd (load_profile fs n)) else [])
      in join [NL, NL] (filter (\<lambda>t. t \<noteq> []) [u, p]))"

text \<open>\<^verbatim>\<open>list_profiles\<close> over the names in the directory, which the glob returns sorted.\<close>

definition list_profiles :: "string list \<Rightarrow> string list" where
  "list_profiles dir =
     (let names = sort (filter (\<lambda>f. starts_with f ''profile_'' \<and> ends_with f ''.md'') dir)
      in map (\<lambda>f. drop 8 (take (length f - 3) f)) names)"


section \<open>Rendering and parsing are inverse\<close>

definition no_breaks :: "string \<Rightarrow> bool" where
  "no_breaks s \<longleftrightarrow> (\<forall>c \<in> set s. \<not> line_break c)"

definition clean_bullet :: "string \<Rightarrow> bool" where
  "clean_bullet b \<longleftrightarrow> b \<noteq> [] \<and> stripped b \<and> no_breaks b"

definition clean_sections :: "string \<Rightarrow> sections \<Rightarrow> bool" where
  "clean_sections name secs \<longleftrightarrow>
     map fst secs = sections_for name \<and> (\<forall>bs \<in> set (map snd secs). \<forall>b \<in> set bs. clean_bullet b)"

lemma sections_for_cases:
  "sections_for name = [''Preferences'', ''Conventions'', ''Environment''] \<or>
   sections_for name = [''Identity'', ''Stack & Structure'', ''Conventions'']"
  by (simp add: sections_for_def)

lemma schema_names_clean:
  "list_all clean_bullet [''Preferences'', ''Conventions'', ''Environment'', ''Identity'', ''Stack & Structure'']"
  unfolding clean_bullet_def stripped_def no_breaks_def by code_simp

lemma schema_name: "s \<in> set (sections_for name) \<Longrightarrow> clean_bullet s"
  using sections_for_cases [of name] schema_names_clean by auto

lemma bullets_clean:
  assumes "clean_sections name secs" and "b \<in> set (bullets_of secs s)"
  shows "clean_bullet b"
proof -
  obtain bs where "map_of secs s = Some bs" "b \<in> set bs"
    using assms(2) by (cases "map_of secs s") (auto simp: bullets_of_def)
  then have "bs \<in> set (map snd secs)" by (force dest: map_of_SomeD)
  with assms(1) \<open>b \<in> set bs\<close> show ?thesis by (auto simp: clean_sections_def)
qed

lemma no_breaks_simps [simp]:
  "no_breaks []"
  "no_breaks (c # s) \<longleftrightarrow> \<not> line_break c \<and> no_breaks s"
  "no_breaks (s @ t) \<longleftrightarrow> no_breaks s \<and> no_breaks t"
  by (auto simp: no_breaks_def)

lemma marks_no_break [simp]:
  "\<not> line_break (CHR ''#'')" "\<not> line_break (CHR ''-'')" "\<not> line_break (CHR '' '')"
  by (simp_all add: line_break_def)

lemma schema_distinct: "distinct (sections_for name)"
  using sections_for_cases [of name] by (elim disjE) auto

lemma valid_user: "list_all (\<lambda>s. map_of (valid_sections ''user'') (lower s) = Some s) (sections_for ''user'')"
  by code_simp

lemma valid_project: "list_all (\<lambda>s. map_of (valid_sections []) (lower s) = Some s) (sections_for [])"
  by code_simp

lemma valid_sections_self:
  assumes "s \<in> set (sections_for name)"
  shows "map_of (valid_sections name) (lower s) = Some s"
proof (cases "name = ''user''")
  case True
  with assms valid_user show ?thesis by (simp add: list_all_iff)
next
  case False
  then have "sections_for name = sections_for []" by (simp add: sections_for_def)
  with assms valid_project show ?thesis by (simp add: list_all_iff valid_sections_def)
qed

text \<open>A block of bullets goes to the current section, in order.\<close>

lemma parse_bullets:
  "\<forall>b \<in> set bs. clean_bullet b \<Longrightarrow> map_of res s \<noteq> None \<Longrightarrow>
   parse_lines valid (Some s) res (map (\<lambda>b. ''- '' @ b) bs @ ls) =
   parse_lines valid (Some s) (AList.update s (the (map_of res s) @ bs) res) ls"
proof (induction bs arbitrary: res)
  case Nil
  then obtain v where "map_of res s = Some v" by auto
  then have "AList.update s v res = res" by (induction res) auto
  with \<open>map_of res s = Some v\<close> show ?case by simp
next
  case (Cons b bs)
  have step: "parse_lines valid (Some s) res (map (\<lambda>b. ''- '' @ b) (b # bs) @ ls) =
      parse_lines valid (Some s) (AList.update s (the (map_of res s) @ [b]) res)
        (map (\<lambda>b. ''- '' @ b) bs @ ls)"
    using Cons.prems(1) by (simp add: clean_bullet_def)
  have "AList.update s v (AList.update s u res) = AList.update s v res" for u v
    by (induction res) auto
  with Cons show ?case by (simp only: step) (simp add: dict_simps)
qed

lemma parse_section:
  assumes "s \<in> set (sections_for name)" and "map_of res s = Some []"
    and "\<forall>b \<in> set (bullets_of secs s). clean_bullet b"
  shows "parse_lines (valid_sections name) cur res (section_lines secs s @ ls) =
    parse_lines (valid_sections name) (Some s) (AList.update s (bullets_of secs s) res) ls"
proof -
  have head: "strip (CHR '' '' # s) = s"
  proof -
    from schema_name [OF assms(1)] have "s \<noteq> []" "stripped s" by (auto simp: clean_bullet_def)
    then have "lstrip (CHR '' '' # s) = s"
      by (auto simp: lstrip_def stripped_def py_space_def neq_Nil_conv)
    with \<open>stripped s\<close> show ?thesis
      by (metis strip_def strip_stripped lstrip_fix stripped_def)
  qed
  then have "strip (drop 3 (''## '' @ s)) = s"
    using schema_name [OF assms(1)] by (simp add: clean_bullet_def)
  then have "parse_lines (valid_sections name) cur res (section_lines secs s @ ls) =
      parse_lines (valid_sections name) (Some s) res (map (\<lambda>b. ''- '' @ b) (bullets_of secs s) @ [] # ls)"
    using valid_sections_self [OF assms(1)] by (simp add: section_lines_def)
  also have "\<dots> = parse_lines (valid_sections name) (Some s)
      (AList.update s (bullets_of secs s) res) ([] # ls)"
    using parse_bullets [OF assms(3), of res s] assms(2) by simp
  finally show ?thesis by simp
qed

text \<open>What the sections of a schema look like as an association list.\<close>

lemma update_schema:
  assumes "map fst secs = ss" "distinct ss"
  shows "map (\<lambda>s. (s, bullets_of secs s)) ss = secs"
  using assms
proof (induction secs arbitrary: ss)
  case (Cons kv secs)
  obtain k v where kv: "kv = (k, v)" by (cases kv)
  from Cons.prems kv have ss: "ss = k # map fst secs" by simp
  with Cons.prems(2) have notin: "k \<notin> set (map fst secs)" by simp
  then have "\<forall>s \<in> set (map fst secs). bullets_of (kv # secs) s = bullets_of secs s"
    using notin by (auto simp: bullets_of_def kv)
  then have "map (\<lambda>s. (s, bullets_of (kv # secs) s)) (map fst secs)
      = map (\<lambda>s. (s, bullets_of secs s)) (map fst secs)"
    by (simp only: map_eq_conv) simp
  also have "\<dots> = secs" using Cons by auto
  finally have tail: "map (\<lambda>s. (s, bullets_of (kv # secs) s)) (map fst secs) = secs" .
  have "bullets_of (kv # secs) k = v" by (simp add: kv bullets_of_def)
  with tail show ?case unfolding ss kv by simp
qed simp

lemma parse_sections:
  assumes clean: "clean_sections name secs"
  shows "parse_lines (valid_sections name) None (empty_sections name)
    (concat (map (section_lines secs) (sections_for name))) = secs"
proof -
  obtain a b c where ss: "sections_for name = [a, b, c]" and abc: "distinct [a, b, c]"
    using sections_for_cases [of name] schema_distinct [of name] by metis
  from abc have neq: "b \<noteq> a" "c \<noteq> a" "c \<noteq> b" by auto
  have bullets: "\<forall>x \<in> set (bullets_of secs s). clean_bullet x" for s
    using bullets_clean [OF clean] by blast
  have "map (\<lambda>s. (s, bullets_of secs s)) [a, b, c] = secs"
    using clean abc ss update_schema [of secs] by (simp add: clean_sections_def)
  moreover have "parse_lines (valid_sections name) None (empty_sections name)
      (concat (map (section_lines secs) (sections_for name))) =
      map (\<lambda>s. (s, bullets_of secs s)) [a, b, c]"
    using abc neq bullets parse_section [where s = a and name = name and secs = secs]
      parse_section [where s = b and name = name and secs = secs]
      parse_section [where s = c and name = name and secs = secs and ls = "[]"]
    by (simp add: ss empty_sections_def)
  ultimately show ?thesis by simp
qed

lemma last_section_lines:
  assumes "clean_sections name secs" and "s \<in> set (sections_for name)"
  obtains ls l where "section_lines secs s = ls @ [l] @ [[]]" "l \<noteq> []" "\<not> py_space (last l)"
proof -
  have cb: "clean_bullet s" by (rule schema_name [OF assms(2)])
  show ?thesis
  proof (cases "bullets_of secs s" rule: rev_cases)
    case Nil
    with cb that [of "[]" "''## '' @ s"] show ?thesis
      by (auto simp: section_lines_def clean_bullet_def stripped_def)
  next
    case (snoc bs b)
    then have "clean_bullet b" using bullets_clean [OF assms(1), of b s] by simp
    with snoc that [of "(''## '' @ s) # map (\<lambda>b. ''- '' @ b) bs" "''- '' @ b"] show ?thesis
      by (auto simp: section_lines_def clean_bullet_def stripped_def)
  qed
qed

lemma join_terminated:
  "ls \<noteq> [] \<Longrightarrow> join [NL] ls @ [NL] = concat (map (\<lambda>l. l @ [NL]) ls)"
  by (induction "[NL]" ls rule: join.induct) auto

text \<open>The rendered text is the lines it was made from, each ended by a newline.\<close>

lemma render_profile_lines:
  assumes "clean_sections name secs"
  obtains ls where
    "[''# '' @ profile_title name, []] @ concat (map (section_lines secs) (sections_for name)) = ls @ [[]]"
    "render_profile name secs = concat (map (\<lambda>l. l @ [NL]) ls)"
proof -
  obtain a b c where ss: "sections_for name = [a, b, c]"
    using sections_for_cases [of name] by metis
  obtain us l where c: "section_lines secs c = us @ [l] @ [[]]" "l \<noteq> []" "\<not> py_space (last l)"
    by (rule last_section_lines [OF assms, of c]) (use ss in auto)
  define ls where "ls = [''# '' @ profile_title name, []] @ section_lines secs a @ section_lines secs b @ us @ [l]"
  have all: "[''# '' @ profile_title name, []] @ concat (map (section_lines secs) (sections_for name)) = ls @ [[]]"
    by (simp add: ls_def ss c(1))
  have ne: "ls \<noteq> []" by (simp add: ls_def)
  have "join [NL] ls = join [NL] (butlast ls) @ NL # l"
    using join_snoc [of "butlast ls" "[NL]" l] by (simp add: ls_def butlast_append section_lines_def)
  then have "join [NL] ls \<noteq> []" "last (join [NL] ls) = last l" using c(2) by auto
  then have "rstrip (join [NL] ls) = join [NL] ls" using c(3) by (simp add: rstrip_fix)
  then have "rstrip (join [NL] (ls @ [[]])) = join [NL] ls"
    using ne by (simp add: join_snoc)
  with all have "render_profile name secs = join [NL] ls @ [NL]"
    by (simp only: render_profile_def)
  with all ne that show ?thesis by (metis join_terminated)
qed

lemma parse_render:
  assumes "clean_sections name secs" and "no_breaks (profile_title name)"
  shows "parse_profile (render_profile name secs) name = secs"
proof -
  obtain ls where all: "[''# '' @ profile_title name, []] @ concat (map (section_lines secs) (sections_for name)) = ls @ [[]]"
    and r: "render_profile name secs = concat (map (\<lambda>l. l @ [NL]) ls)"
    by (rule render_profile_lines [OF assms(1)])
  have nb: "no_breaks l" if "l \<in> set (section_lines secs s)" "s \<in> set (sections_for name)" for l s
    using that schema_name [of s name] bullets_clean [OF assms(1), of _ s]
    by (auto simp: section_lines_def clean_bullet_def)
  have "no_breaks l" if "l \<in> set (ls @ [[]])" for l
    using that nb assms(2) unfolding all [symmetric] by auto
  then have lines: "splitlines (render_profile name secs) = ls"
    unfolding r by (intro splitlines_terminated) (auto simp: no_breaks_def)
  have drop_last: "parse_lines valid cur res (xs @ [[]]) = parse_lines valid cur res xs" for valid cur res xs
    by (induction valid cur res xs rule: parse_lines.induct) (auto split: option.splits)
  have "parse_profile (render_profile name secs) name =
      parse_lines (valid_sections name) None (empty_sections name) (ls @ [[]])"
    by (simp add: parse_profile_def lines drop_last)
  also have "\<dots> = secs"
    unfolding all [symmetric] using parse_sections [OF assms(1)] by simp
  finally show ?thesis .
qed


section \<open>What appending does\<close>

lemma map_fst_update:
  "k \<in> set (map fst d) \<Longrightarrow> map fst (AList.update k v d) = map fst d"
  by (induction d) auto

lemma set_snd_update: "set (map snd (AList.update k v d)) \<subseteq> insert v (set (map snd d))"
  by (induction d) auto

lemma clean_update:
  assumes "clean_sections name secs" and "sec \<in> set (sections_for name)" and "clean_bullet line"
  shows "clean_sections name (AList.update sec (bullets_of secs sec @ [line]) secs)"
proof -
  have "\<forall>bs \<in> set (map snd (AList.update sec (bullets_of secs sec @ [line]) secs)). \<forall>b \<in> set bs. clean_bullet b"
    using set_snd_update [of sec "bullets_of secs sec @ [line]" secs] assms
      bullets_clean [OF assms(1), of _ sec]
    by (fastforce simp: clean_sections_def)
  moreover have "map fst (AList.update sec (bullets_of secs sec @ [line]) secs) = map fst secs"
    using assms(1,2) by (intro map_fst_update) (simp add: clean_sections_def)
  ultimately show ?thesis using assms(1) by (simp add: clean_sections_def)
qed

lemma empty_sections_clean [simp]: "clean_sections name (empty_sections name)"
  by (simp add: clean_sections_def empty_sections_def comp_def)

text \<open>The sections a file holds now; those of the empty schema when there is none.\<close>

definition sections_now :: "profile_files \<Rightarrow> string \<Rightarrow> sections" where
  "sections_now fs name = fst (load_profile fs name)"

lemma locked_Appended:
  assumes "append_fact_locked ratio fs name sec line = Done Appended fs'"
  shows "fs' = fs(profile_path name \<mapsto> render_profile name
           (AList.update sec (bullets_of (sections_now fs name) sec @ [line]) (sections_now fs name)))"
    and "length (render_profile name
           (AList.update sec (bullets_of (sections_now fs name) sec @ [line]) (sections_now fs name)))
         \<le> PROFILE_CHAR_CAP"
    and "\<forall>b \<in> set (bullets_of (sections_now fs name) sec). ratio line b < DEDUP_RATIO_THRESHOLD"
  using assms
  by (auto simp: append_fact_locked_def sections_now_def load_profile_def Let_def not_le
      split: option.splits if_splits prod.splits)

lemma locked_other:
  "append_fact_locked ratio fs name sec line = Done st fs' \<Longrightarrow>
   (st = DuplicateFact \<and> fs' = fs) \<or> st = Appended"
  by (auto simp: append_fact_locked_def Let_def split: option.splits if_splits prod.splits)

definition capped :: "profile_files \<Rightarrow> bool" where
  "capped fs \<longleftrightarrow> (\<forall>p t. fs p = Some t \<longrightarrow> length t \<le> PROFILE_CHAR_CAP)"

lemma locked_capped:
  "capped fs \<Longrightarrow> append_fact_locked ratio fs name sec line = Done st fs' \<Longrightarrow> capped fs'"
  using locked_other [of ratio fs name sec line st fs'] locked_Appended(1,2) [of ratio fs name sec line fs']
  by (fastforce simp: capped_def split: if_splits)

text \<open>The state of the files is one of three: untouched, what a locked append made of the
  files of that moment, or the compacted text in the place of an unchanged snapshot.\<close>

lemma append_fact_cases:
  assumes "append_fact ratio haiku other fs name sec line = (st, fs')"
  obtains (same) "fs' = fs \<or> fs' = other fs" "st \<notin> {Appended, CompactedAppended}"
  | (locked) g canonical l where "g = fs \<or> g = other fs"
      "append_fact_locked ratio g name canonical l = Done st fs'"
      "map_of (valid_sections name) (lower (strip sec)) = Some canonical"
      "l = strip (replace_char (CHR 0x0D) '' '' (replace_char NL '' '' line))" "l \<noteq> []"
      "scan_memory_content l = None"
  | (compacted) t raw where "st = CompactedAppended" "fs' = (other fs)(profile_path name \<mapsto> t)"
      "length t \<le> PROFILE_CHAR_CAP"
      "(case other fs (profile_path name) of None \<Rightarrow> [] | Some r \<Rightarrow> r) = raw"
      "raw = (case fs (profile_path name) of
                None \<Rightarrow> render_profile name (empty_sections name) | Some r \<Rightarrow> r)"
proof -
  define l where "l = strip (replace_char (CHR 0x0D) '' '' (replace_char NL '' '' line))"
  note unfolded = assms [unfolded append_fact_def Let_def, folded l_def]
  show thesis
  proof (cases "map_of (valid_sections name) (lower (strip sec))")
    case None
    with unfolded same show thesis by auto
  next
    case (Some canonical)
    show thesis
    proof (cases "l = [] \<or> length l > 200 \<or> scan_memory_content l \<noteq> None")
      case True
      with unfolded Some same show thesis by auto
    next
      case ok: False
      show thesis
      proof (cases "append_fact_locked ratio fs name canonical l")
        case (Done st1 fs1)
        with unfolded Some ok locked [of fs canonical l] show thesis by (auto simp: l_def)
      next
        case (NeedsCompaction new_raw raw)
        then have raw: "raw = (case fs (profile_path name) of
            None \<Rightarrow> render_profile name (empty_sections name) | Some r \<Rightarrow> r)"
          by (auto simp: append_fact_locked_def Let_def split: option.splits if_splits prod.splits)
        show thesis
          using unfolded Some ok NeedsCompaction raw same compacted locked [of "other fs" canonical l]
          by (auto simp: l_def split: option.splits if_splits locked_result.splits)
      qed
    qed
  qed
qed

text \<open>
  C33: No profile file ever outgrows the cap: whatever the fact, the answer of the model and
  the fuzzy ratio, and whatever the other processes write while the lock is released (as
  long as they respect the cap themselves), every file is within 2500 characters afterwards.
\<close>

theorem append_fact_capped:
  assumes "capped fs" and "capped (other fs)"
  shows "capped (snd (append_fact ratio haiku other fs name sec line))"
proof -
  obtain st fs' where r: "append_fact ratio haiku other fs name sec line = (st, fs')"
    by (cases "append_fact ratio haiku other fs name sec line")
  from r have "capped fs'"
  proof (cases rule: append_fact_cases)
    case (locked g canonical l)
    with assms locked_capped show ?thesis by blast
  next
    case (compacted t raw)
    with assms(2) show ?thesis by (auto simp: capped_def)
  qed (use assms in auto)
  with r show ?thesis by simp
qed

theorem append_fact_capped_witness:
  "capped (snd (append_fact (\<lambda>_ _. 0) (\<lambda>_. None) (\<lambda>fs. fs) Map.empty ''user'' ''Preferences'' ''tabs''))"
  by (rule append_fact_capped) (simp_all add: capped_def)

text \<open>
  A profile survives the disk. Rendering sections whose bullets are non-empty, trimmed
  and free of line boundaries, and parsing the text again, gives the same sections, bullet
  for bullet.
\<close>

theorem profile_roundtrip:
  assumes "clean_sections name secs" and "no_breaks (profile_title name)"
  shows "parse_profile (render_profile name secs) name = secs"
  using assms by (rule parse_render)

theorem profile_roundtrip_witness:
  "parse_profile (render_profile ''user''
     [(''Preferences'', [''tabs'', ''short names'']), (''Conventions'', []), (''Environment'', [''linux''])]) ''user''
   = [(''Preferences'', [''tabs'', ''short names'']), (''Conventions'', []), (''Environment'', [''linux''])]"
proof (rule profile_roundtrip)
  show "clean_sections ''user'' [(''Preferences'', [''tabs'', ''short names'']), (''Conventions'', []),
    (''Environment'', [''linux''])]"
    by (simp add: clean_sections_def sections_for_def clean_bullet_def stripped_def py_space_def
        line_break_def)
  show "no_breaks (profile_title ''user'')"
    by (simp add: profile_title_def line_break_def)
qed

text \<open>
  An append that answers \<^verbatim>\<open>appended\<close> without any other writer in between leaves the file
  with exactly the fact added at the end of its section: the other sections and the earlier
  bullets are unchanged when the profile is loaded again, and so is every other profile file.
\<close>

theorem append_fact_effect:
  assumes res: "append_fact ratio haiku (\<lambda>g. g) fs name sec line = (Appended, fs')"
    and clean: "clean_sections name (sections_now fs name)"
    and title: "no_breaks (profile_title name)" and line: "no_breaks line"
  shows "\<exists>canonical. map_of (valid_sections name) (lower (strip sec)) = Some canonical \<and>
           sections_now fs' name =
             AList.update canonical (bullets_of (sections_now fs name) canonical @ [strip line])
               (sections_now fs name) \<and>
           (\<forall>p. p \<noteq> profile_path name \<longrightarrow> fs' p = fs p)"
  using res
proof (cases rule: append_fact_cases)
  case (locked g canonical l)
  have id: "replace_char c '' '' s = s" if "no_breaks s" "line_break c" for c s
    using that by (induction s) (auto simp: replace_char_def)
  have "line_break (CHR 0x0D)" by (simp add: line_break_def)
  with locked(4) line have l: "l = strip line" by (simp add: id)
  have "no_breaks (strip line)" using line set_strip [of line] by (auto simp: no_breaks_def)
  with locked(5) l have cb: "clean_bullet l" by (simp add: clean_bullet_def)
  have canon: "canonical \<in> set (sections_for name)"
    using map_of_SomeD [OF locked(3)] by (auto simp: valid_sections_def)
  have g: "g = fs" using locked(1) by simp
  note fs' = locked_Appended(1) [OF locked(2) [unfolded g]]
  have "sections_now fs' name =
      AList.update canonical (bullets_of (sections_now fs name) canonical @ [l]) (sections_now fs name)"
    using parse_render [OF clean_update [OF clean canon cb] title]
    by (simp add: fs' sections_now_def load_profile_def)
  with locked(3) l fs' show ?thesis by (intro exI [of _ canonical]) auto
qed auto

theorem append_fact_effect_witness:
  "\<exists>canonical. map_of (valid_sections ''user'') (lower (strip ''Preferences'')) = Some canonical \<and>
     sections_now (snd (append_fact (\<lambda>_ _. 0) (\<lambda>_. None) (\<lambda>g. g) Map.empty ''user'' ''Preferences'' ''tabs''))
       ''user'' =
       AList.update canonical (bullets_of (sections_now Map.empty ''user'') canonical @ [strip ''tabs''])
         (sections_now Map.empty ''user'') \<and>
     (\<forall>p. p \<noteq> profile_path ''user'' \<longrightarrow>
        snd (append_fact (\<lambda>_ _. 0) (\<lambda>_. None) (\<lambda>g. g) Map.empty ''user'' ''Preferences'' ''tabs'') p
        = Map.empty p)"
proof (rule append_fact_effect)
  have line: "strip (replace_char (CHR 0x0D) '' '' (replace_char NL '' '' ''tabs'')) = ''tabs''"
    and sec: "map_of (valid_sections ''user'') (lower (strip ''Preferences'')) = Some ''Preferences''"
    and short: "length (render_profile ''user'' (AList.update ''Preferences''
      (bullets_of (empty_sections ''user'') ''Preferences'' @ [''tabs'']) (empty_sections ''user''))) \<le> PROFILE_CHAR_CAP"
    and none: "bullets_of (empty_sections ''user'') ''Preferences'' = []"
    by code_simp+
  have "fst (append_fact (\<lambda>_ _. 0) (\<lambda>_. None) (\<lambda>g. g) Map.empty ''user'' ''Preferences'' ''tabs'') = Appended"
    using short by (simp add: append_fact_def line sec none scan_tabs append_fact_locked_def)
  then show "append_fact (\<lambda>_ _. 0) (\<lambda>_. None) (\<lambda>g. g) Map.empty ''user'' ''Preferences'' ''tabs'' =
    (Appended, snd (append_fact (\<lambda>_ _. 0) (\<lambda>_. None) (\<lambda>g. g) Map.empty ''user'' ''Preferences'' ''tabs''))"
    by (metis prod.collapse)
  show "clean_sections ''user'' (sections_now Map.empty ''user'')"
    by (simp add: sections_now_def load_profile_def)
  show "no_breaks (profile_title ''user'')" "no_breaks ''tabs''"
    by (simp_all add: profile_title_def line_break_def)
qed

text \<open>
  The compaction cannot lose a concurrent write. When the answer is
  \<^verbatim>\<open>compacted+appended\<close>, the file held the very text that was compacted when the lock was taken
  again, so what is replaced is that text and nothing another process wrote meanwhile; and
  in no outcome does the call touch another profile's file.
\<close>

theorem compaction_loses_nothing:
  "append_fact ratio haiku other fs name sec line = (st, fs') \<Longrightarrow>
   (st = CompactedAppended \<longrightarrow>
      (case other fs (profile_path name) of None \<Rightarrow> [] | Some r \<Rightarrow> r) =
      (case fs (profile_path name) of
         None \<Rightarrow> render_profile name (empty_sections name) | Some r \<Rightarrow> r)) \<and>
   (\<forall>p. p \<noteq> profile_path name \<longrightarrow> fs' p = fs p \<or> fs' p = other fs p)"
proof (elim append_fact_cases)
  fix g canonical l
  assume "g = fs \<or> g = other fs" "append_fact_locked ratio g name canonical l = Done st fs'"
  then show ?thesis
    using locked_other [of ratio g name canonical l st fs']
      locked_Appended(1) [of ratio g name canonical l fs'] by auto
next
  fix t raw
  assume "fs' = (other fs)(profile_path name \<mapsto> t)"
    "(case other fs (profile_path name) of None \<Rightarrow> [] | Some r \<Rightarrow> r) = raw"
    "raw = (case fs (profile_path name) of
              None \<Rightarrow> render_profile name (empty_sections name) | Some r \<Rightarrow> r)"
  then show ?thesis by simp
qed auto


section \<open>Injection stays within its budget\<close>

lemma take_capped_prefix: "\<exists>rest. ls = take_capped cap used ls @ rest"
  by (induction cap used ls rule: take_capped.induct) auto

lemma take_capped_cost:
  "used \<le> cap \<Longrightarrow> used + (\<Sum>l \<leftarrow> take_capped cap used ls. length l + 1) \<le> cap"
proof (induction cap used ls rule: take_capped.induct)
  case (2 cap used l ls)
  then show ?case by (cases "used + (length l + 1) > cap") (simp_all add: add.assoc)
qed simp

lemma length_join_NL: "length (join [NL] ls) \<le> (\<Sum>l \<leftarrow> ls. length l + 1)"
  by (induction "[NL]" ls rule: join.induct) auto

theorem compaction_loses_nothing_witness:
  "let r = append_fact (\<lambda>_ _. 0) (\<lambda>_. None) (\<lambda>g. g) Map.empty ''user'' ''Preferences'' ''tabs'' in
   \<forall>p. p \<noteq> profile_path ''user'' \<longrightarrow> snd r p = None"
  using compaction_loses_nothing [of "\<lambda>_ _. 0" "\<lambda>_. None" "\<lambda>g. g" Map.empty "''user''" "''Preferences''" "''tabs''"]
  by (metis prod.collapse)

text \<open>
  What a profile contributes to a session is at most 1200 characters, and it is cut
  between lines, never inside one: up to trailing white space it is a run of whole lines
  from the start of the file.
\<close>

theorem render_capped_budget:
  "length (render_capped raw) \<le> RENDER_CAP_PER_FILE \<and>
   ((\<exists>ls rest. splitlines raw = ls @ rest \<and> render_capped raw = rstrip (join [NL] ls))
      \<or> render_capped raw = rstrip raw)"
proof -
  let ?ls = "take_capped RENDER_CAP_PER_FILE 0 (splitlines raw)"
  obtain rest where ls: "splitlines raw = ?ls @ rest" using take_capped_prefix by blast
  have lines: "length (rstrip (join [NL] ?ls)) \<le> RENDER_CAP_PER_FILE"
    using length_rstrip [of "join [NL] ?ls"] length_join_NL [of ?ls]
      take_capped_cost [of 0 RENDER_CAP_PER_FILE "splitlines raw"] by simp
  consider "render_capped raw = rstrip (join [NL] [])"
    | "render_capped raw = rstrip raw" "length raw \<le> RENDER_CAP_PER_FILE"
    | "render_capped raw = rstrip (join [NL] ?ls)"
    by (cases "raw = [] \<or> strip raw = []"; cases "length raw \<le> RENDER_CAP_PER_FILE")
      (simp_all add: render_capped_def)
  then show ?thesis
  proof cases
    case 1
    then have "splitlines raw = [] @ splitlines raw \<and> render_capped raw = rstrip (join [NL] [])"
      by simp
    then have "\<exists>ls rest. splitlines raw = ls @ rest \<and> render_capped raw = rstrip (join [NL] ls)"
      by blast
    moreover have "length (render_capped raw) \<le> RENDER_CAP_PER_FILE" using 1 by simp
    ultimately show ?thesis by blast
  next
    case 2
    with length_rstrip [of raw] show ?thesis by simp
  next
    case 3
    with ls lines show ?thesis by metis
  qed
qed

section \<open>Two ways a profile loses facts\<close>

text \<open>
  A project called \<^verbatim>\<open>User\<close> is not the name \<^verbatim>\<open>user\<close> to the code, so it gets the project
  schema, but its slug is, so it gets the file of the user profile: adding a fact to it
  drops the user's preferences.
\<close>

definition user_file :: profile_files where
  "user_file = [''profile_user.md'' \<mapsto> ''# User Profile'' @ [NL] @ ''## Preferences'' @ [NL] @ ''- tabs'' @ [NL]]"

theorem project_User_clobbers_user_profile:
  "bullets_of (sections_now user_file ''user'') ''Preferences'' = [''tabs''] \<and>
   (case append_fact_locked (\<lambda>_ _. 0) user_file ''User'' ''Identity'' ''a tool'' of
      Done st fs \<Rightarrow> st = Appended \<and> bullets_of (sections_now fs ''user'') ''Preferences'' = []
    | NeedsCompaction _ _ \<Rightarrow> False)"
  by code_simp

text \<open>
  The sanitizer replaces CR and LF only, while the parser splits at every line boundary of
  \<^verbatim>\<open>splitlines\<close>: a fact with a vertical tab is stored whole and read back cut.
\<close>

theorem vertical_tab_cuts_fact:
  "case append_fact_locked (\<lambda>_ _. 0) Map.empty ''user'' ''Preferences'' (''tabs'' @ [CHR 0x0B] @ ''not spaces'') of
     Done st fs \<Rightarrow> st = Appended \<and> bullets_of (sections_now fs ''user'') ''Preferences'' = [''tabs'']
   | NeedsCompaction _ _ \<Rightarrow> False"
  by code_simp

end
