(* ===== verification/SearchIndex.thy ===== *)
theory SearchIndex
  imports Models
begin

text \<open>
  \<^verbatim>\<open>memem/search_index.py\<close>: the FTS5 table beside the vault. The state is the table's rows in
  insertion order, each with its \<^verbatim>\<open>memory_id\<close>, and the schema version. SQLite's matching and ranking is the parameter
  \<open>fts_match\<close>: the rows that match a query, best first.
\<close>

record fts_row =
  row_title :: string
  row_essence :: string
  row_project :: string
  row_tags :: string
  row_related :: "string list"

record search_db =
  rows :: "(string \<times> fts_row) list"
  user_version :: nat

definition FTS_SCHEMA_VERSION :: nat where "FTS_SCHEMA_VERSION = 3"
definition FTS5_TOKEN_CAP :: nat where "FTS5_TOKEN_CAP = 20"

section \<open>Queries\<close>

definition fts5_operators :: "string list" where
  "fts5_operators = [''AND'', ''OR'', ''NOT'', ''NEAR'']"

definition ascii_upper :: "char \<Rightarrow> char" where
  "ascii_upper c = (if CHR ''a'' \<le> c \<and> c \<le> CHR ''z'' then char_of (of_char c - 32 :: nat) else c)"

definition safe_tokens :: "string \<Rightarrow> string list" where
  "safe_tokens q = filter (\<lambda>t. map ascii_upper t \<notin> set fts5_operators) (runs_of is_word_ascii q)"

definition quote :: "string \<Rightarrow> string" where
  "quote t = [CHR 0x22] @ t @ [CHR 0x22]"

definition sanitize_fts_query :: "string \<Rightarrow> string" where
  "sanitize_fts_query q = join '' '' (map quote (take FTS5_TOKEN_CAP (safe_tokens q)))"

lemma safe_tokens_clean:
  "t \<in> set (safe_tokens q) \<Longrightarrow>
     t \<noteq> [] \<and> (\<forall>c \<in> set t. is_word_ascii c) \<and> map ascii_upper t \<notin> set fts5_operators"
  using runs_of_all [of t is_word_ascii q] by (auto simp: safe_tokens_def)

section \<open>Rows\<close>

definition row_of :: "(string, string) dict \<Rightarrow> memory \<Rightarrow> fts_row" where
  "row_of al m =
     (let tags_text = join '' '' (domain_tags m); keys_text = join '' '' (keys m) in
      \<lparr>row_title = title m, row_essence = essence m,
       row_project = normalize_scope_id al (if project m = [] then ''general'' else project m),
       row_tags = (if keys_text \<noteq> [] then strip (tags_text @ '' '' @ keys_text) else tags_text),
       row_related = related m\<rparr>)"

definition insert_memory_row :: "(string, string) dict \<Rightarrow> memory \<Rightarrow> search_db \<Rightarrow> search_db" where
  "insert_memory_row al m db = db\<lparr>rows := rows db @ [(mem_id m, row_of al m)]\<rparr>"

definition delete_row :: "string \<Rightarrow> search_db \<Rightarrow> search_db" where
  "delete_row mid db = db\<lparr>rows := filter (\<lambda>r. fst r \<noteq> mid) (rows db)\<rparr>"

definition put_row :: "string \<Rightarrow> fts_row \<Rightarrow> search_db \<Rightarrow> search_db" where
  "put_row mid r db = (delete_row mid db)\<lparr>rows := rows (delete_row mid db) @ [(mid, r)]\<rparr>"

text \<open>
  \<^verbatim>\<open>_migrate_fts_schema\<close>: \<open>locked\<close> says whether \<^verbatim>\<open>BEGIN IMMEDIATE\<close> got the write lock,
  \<open>now\<close> is the database as it is once the lock is held, and \<open>mems\<close> the memories of the
  vault.
\<close>

definition migrate_fts_schema ::
  "(string, string) dict \<Rightarrow> bool \<Rightarrow> memory list \<Rightarrow> search_db \<Rightarrow> search_db" where
  "migrate_fts_schema al locked mems now =
     (if \<not> locked then now
      else if user_version now \<ge> FTS_SCHEMA_VERSION then now
      else fold (insert_memory_row al) mems \<lparr>rows = [], user_version = FTS_SCHEMA_VERSION\<rparr>)"

definition init_search_db ::
  "(string, string) dict \<Rightarrow> bool \<Rightarrow> memory list \<Rightarrow> search_db \<Rightarrow> search_db" where
  "init_search_db al locked mems db =
     (if user_version db < FTS_SCHEMA_VERSION then migrate_fts_schema al locked mems db else db)"

text \<open>The operations below run on an opened, migrated database.\<close>

definition index_memory :: "(string, string) dict \<Rightarrow> memory \<Rightarrow> search_db \<Rightarrow> search_db" where
  "index_memory al m db = insert_memory_row al m (delete_row (mem_id m) db)"

definition remove_from_index :: "string \<Rightarrow> search_db \<Rightarrow> search_db" where
  "remove_from_index mid db = delete_row mid db"

definition rebuild_search_index :: "(string, string) dict \<Rightarrow> memory list \<Rightarrow> search_db \<Rightarrow> search_db \<times> nat" where
  "rebuild_search_index al mems db =
     foldl (\<lambda>(db, n) m. (insert_memory_row al m db, n + 1)) (db\<lparr>rows := []\<rparr>, 0) mems"

type_synonym fts_match = "string \<Rightarrow> (string \<times> fts_row) list \<Rightarrow> (string \<times> fts_row) list"

definition search_fts_with_graph ::
  "(string, string) dict \<Rightarrow> fts_match \<Rightarrow> search_db \<Rightarrow> string \<Rightarrow> string \<Rightarrow> nat \<Rightarrow> (string \<times> string list) list" where
  "search_fts_with_graph al fts_match db q scope limit =
     (let safe = sanitize_fts_query q in
      if safe = [] then []
      else
        let normalized = normalize_scope_id al scope;
            hits = fts_match safe (rows db);
            scoped = (if normalized \<noteq> ''general''
                      then filter (\<lambda>r. row_project (snd r) = normalized) hits else hits)
        in map (\<lambda>r. (fst r, row_related (snd r))) (take limit scoped))"

definition search_fts ::
  "(string, string) dict \<Rightarrow> fts_match \<Rightarrow> search_db \<Rightarrow> string \<Rightarrow> string \<Rightarrow> nat \<Rightarrow> string list" where
  "search_fts al fts_match db q scope limit = map fst (search_fts_with_graph al fts_match db q scope limit)"

section \<open>One row per memory\<close>

definition row_for :: "search_db \<Rightarrow> string \<Rightarrow> fts_row option" where
  "row_for db mid = map_of (rows db) mid"

definition wf_rows :: "search_db \<Rightarrow> bool" where
  "wf_rows db \<longleftrightarrow> distinct (map fst (rows db))"

lemma rows_delete_row [simp]: "rows (delete_row mid db) = filter (\<lambda>r. fst r \<noteq> mid) (rows db)"
  by (simp add: delete_row_def)

lemma user_version_ops [simp]:
  "user_version (delete_row mid db) = user_version db"
  "user_version (put_row mid r db) = user_version db"
  "user_version (insert_memory_row al m db) = user_version db"
  by (simp_all add: delete_row_def put_row_def insert_memory_row_def)

lemma map_of_filter_key: "map_of (filter (\<lambda>r. fst r \<noteq> k) xs) = (map_of xs)(k := None)"
  by (induction xs) auto

lemma row_for_delete: "row_for (delete_row k db) = (row_for db)(k := None)"
  by (simp add: fun_eq_iff row_for_def map_of_filter_key)

lemma row_for_put: "row_for (put_row k r db) = (row_for db)(k \<mapsto> r)"
proof
  fix j
  have "row_for (put_row k r db) j =
      (case row_for (delete_row k db) j of None \<Rightarrow> [k \<mapsto> r] j | Some x \<Rightarrow> Some x)"
    by (simp add: row_for_def put_row_def map_of_append map_add_def split: option.split)
  then show "row_for (put_row k r db) j = ((row_for db)(k \<mapsto> r)) j"
    by (cases "row_for db j") (simp_all add: row_for_delete)
qed

lemma wf_delete_row: "wf_rows db \<Longrightarrow> wf_rows (delete_row k db)"
  by (simp add: wf_rows_def distinct_map_filter)

lemma wf_put_row: "wf_rows db \<Longrightarrow> wf_rows (put_row k r db)"
  using wf_delete_row [of db k] by (auto simp: wf_rows_def put_row_def)

text \<open>The table is a keyed store: upserts replace, deletions forget, one row per id.\<close>

interpretation fts: keyed_store row_for put_row delete_row wf_rows
  by unfold_locales
    (simp_all add: row_for_put row_for_delete wf_put_row wf_delete_row)

lemma index_memory_put: "index_memory al m db = put_row (mem_id m) (row_of al m) db"
  by (simp add: index_memory_def put_row_def insert_memory_row_def row_of_def Let_def delete_row_def)

lemma rows_fold_insert: "rows (fold (insert_memory_row al) ms db) = rows db @ map (\<lambda>m. (mem_id m, row_of al m)) ms"
  by (induction ms arbitrary: db) (auto simp: insert_memory_row_def)

interpretation insert_version: quiet_step user_version "insert_memory_row al" for al
  by unfold_locales (simp add: insert_memory_row_def)

lemma version_fold_insert: "user_version (fold (insert_memory_row al) ms db) = user_version db"
  by (rule insert_version.fold_quiet)

lemma rebuild_search_index_eq:
  "rebuild_search_index al mems db =
     (fold (insert_memory_row al) mems (db\<lparr>rows := []\<rparr>), length mems)"
proof -
  have "foldl (\<lambda>(db, n) m. (insert_memory_row al m db, n + 1)) (d, n) ms
      = (fold (insert_memory_row al) ms d, n + length ms)" for d n ms
    by (induction ms arbitrary: d n) auto
  then show ?thesis by (simp add: rebuild_search_index_def)
qed

text \<open>A history of the index: saves and removals, one after the other.\<close>

datatype index_op = Upsert memory | Remove string

fun run_index_op :: "(string, string) dict \<Rightarrow> index_op \<Rightarrow> search_db \<Rightarrow> search_db" where
  "run_index_op al (Upsert m) db = index_memory al m db"
| "run_index_op al (Remove mid) db = remove_from_index mid db"

fun abstract_op :: "(string, string) dict \<Rightarrow> index_op \<Rightarrow> (string \<rightharpoonup> fts_row) \<Rightarrow> (string \<rightharpoonup> fts_row)" where
  "abstract_op al (Upsert m) t = t(mem_id m \<mapsto> row_of al m)"
| "abstract_op al (Remove mid) t = t(mid := None)"

lemma run_index_op_refines:
  "wf_rows db \<Longrightarrow> wf_rows (run_index_op al x db) \<and>
     row_for (run_index_op al x db) = abstract_op al x (row_for db)"
proof (cases x)
  case (Upsert m)
  assume "wf_rows db"
  then show ?thesis using Upsert by (simp add: index_memory_put fts.wf_put fts.get_put)
next
  case (Remove mid)
  assume "wf_rows db"
  with Remove show ?thesis by (simp add: remove_from_index_def fts.wf_del fts.get_del)
qed

text \<open>
  C34: The search index is a map from memory ids to rows, whatever the history. After any
  sequence of saves and removals on a table with one row per id there is still one row per
  id, and the row of an id is the one its last save wrote, or none if it was removed since.
\<close>

theorem index_refines_map:
  assumes "wf_rows db"
  shows "wf_rows (fold (run_index_op al) ops db) \<and>
    row_for (fold (run_index_op al) ops db) = fold (abstract_op al) ops (row_for db)"
  using assms by (induction ops arbitrary: db) (simp_all add: run_index_op_refines)

theorem index_refines_map_witness:
  "row_for (fold (run_index_op default_aliases) [Upsert (blank_memory ''a1'' ''T'' ''E''), Upsert (blank_memory ''a1'' ''T'' ''E''), Remove ''gone''] \<lparr>rows = [], user_version = 3\<rparr>)
   = ([mem_id (blank_memory ''a1'' ''T'' ''E'') \<mapsto> row_of default_aliases (blank_memory ''a1'' ''T'' ''E'')])(''gone'' := None)"
proof -
  have "wf_rows \<lparr>rows = [], user_version = 3\<rparr>" by (simp add: wf_rows_def)
  from index_refines_map [OF this, of default_aliases "[Upsert (blank_memory ''a1'' ''T'' ''E''), Upsert (blank_memory ''a1'' ''T'' ''E''), Remove ''gone'']"]
  have "row_for (fold (run_index_op default_aliases) [Upsert (blank_memory ''a1'' ''T'' ''E''), Upsert (blank_memory ''a1'' ''T'' ''E''), Remove ''gone''] \<lparr>rows = [], user_version = 3\<rparr>)
    = fold (abstract_op default_aliases) [Upsert (blank_memory ''a1'' ''T'' ''E''), Upsert (blank_memory ''a1'' ''T'' ''E''), Remove ''gone''] (row_for \<lparr>rows = [], user_version = 3\<rparr>)"
    by blast
  moreover have "row_for \<lparr>rows = [], user_version = 3\<rparr> = Map.empty"
    by (simp add: row_for_def fun_eq_iff)
  ultimately show ?thesis by simp
qed

text \<open>
  A user's query cannot reach FTS5 as syntax. The sanitized query is at most 20 quoted
  tokens separated by single spaces; each token is a non-empty run of ASCII letters, digits
  and underscores (so no quote can close it early), and none is an FTS5 operator word.
\<close>

theorem sanitized_query_is_quoted_tokens:
  "\<exists>ts. sanitize_fts_query q = join '' '' (map quote ts) \<and> length ts \<le> 20 \<and>
     (\<forall>t \<in> set ts. t \<noteq> [] \<and> (\<forall>c \<in> set t. is_word_ascii c) \<and>
        map ascii_upper t \<notin> set fts5_operators)"
proof (intro exI conjI ballI)
  show "sanitize_fts_query q = join '' '' (map quote (take FTS5_TOKEN_CAP (safe_tokens q)))"
    by (simp add: sanitize_fts_query_def)
  show "length (take FTS5_TOKEN_CAP (safe_tokens q)) \<le> 20"
    by (simp add: FTS5_TOKEN_CAP_def)
qed (auto dest!: in_set_takeD safe_tokens_clean)

theorem sanitized_query_is_quoted_tokens_witness:
  "\<exists>ts. sanitize_fts_query ''a OR b'' = join '' '' (map quote ts) \<and> length ts \<le> 20 \<and>
     (\<forall>t \<in> set ts. t \<noteq> [] \<and> (\<forall>c \<in> set t. is_word_ascii c) \<and>
        map ascii_upper t \<notin> set fts5_operators)"
  by (rule sanitized_query_is_quoted_tokens)

text \<open>
  The schema migration is safe to race: a process that cannot take the write lock, or
  that finds the migration already done once it holds the lock, changes nothing; the one
  that does it leaves the current version and exactly one row per memory of the vault, and
  running it again changes nothing.
\<close>

theorem migration_race_safe:
  "(\<not> locked \<or> user_version now \<ge> FTS_SCHEMA_VERSION \<longrightarrow> migrate_fts_schema al locked mems now = now) \<and>
   (locked \<and> user_version now < FTS_SCHEMA_VERSION \<longrightarrow>
      user_version (migrate_fts_schema al locked mems now) = FTS_SCHEMA_VERSION \<and>
      rows (migrate_fts_schema al locked mems now) = map (\<lambda>m. (mem_id m, row_of al m)) mems) \<and>
   migrate_fts_schema al True mems' (migrate_fts_schema al True mems now)
     = migrate_fts_schema al True mems now"
  by (auto simp: migrate_fts_schema_def rows_fold_insert version_fold_insert)

theorem migration_race_safe_witness:
  "migrate_fts_schema default_aliases True [] (migrate_fts_schema default_aliases True [(blank_memory ''a1'' ''T'' ''E'')] \<lparr>rows = [], user_version = 1\<rparr>)
   = migrate_fts_schema default_aliases True [(blank_memory ''a1'' ''T'' ''E'')] \<lparr>rows = [], user_version = 1\<rparr> \<and>
   rows (migrate_fts_schema default_aliases True [(blank_memory ''a1'' ''T'' ''E'')] \<lparr>rows = [], user_version = 1\<rparr>) = [(mem_id (blank_memory ''a1'' ''T'' ''E''), row_of default_aliases (blank_memory ''a1'' ''T'' ''E''))]"
  using migration_race_safe [of True "\<lparr>rows = [], user_version = 1\<rparr>" default_aliases "[(blank_memory ''a1'' ''T'' ''E'')]" "[]"]
  by (simp add: FTS_SCHEMA_VERSION_def)

end
