(* ===== verification/Scoring.thy ===== *)
theory Scoring
  imports Models
begin

text \<open>
  The lexical scores of \<^verbatim>\<open>memem/obsidian_store.py\<close>: stemming, word and n-gram sets,
  containment, and the searches for duplicates and related memories built on them. The
  \<^verbatim>\<open>rapidfuzz\<close> package is not part of the repository: its two entry points are parameters,
  \<open>extract_one\<close> for \<^verbatim>\<open>process.extractOne\<close> (the key and score, 0 to 100, of the best choice)
  and \<open>extract\<close> for \<^verbatim>\<open>process.extract\<close> (the keys of the best choices above a cutoff).
\<close>

section \<open>Words and n-grams\<close>

definition synonyms :: "(string, string) dict" where
  "synonyms =
     [(''auth'', ''authentication''), (''authentication'', ''auth''),
      (''db'', ''database''), (''database'', ''db''),
      (''config'', ''configuration''), (''configuration'', ''config''),
      (''env'', ''environment''), (''environment'', ''env''),
      (''repo'', ''repository''), (''repository'', ''repo''),
      (''dep'', ''dependency''), (''dependency'', ''dep''),
      (''deps'', ''dependencies''), (''dependencies'', ''deps''),
      (''dir'', ''directory''), (''directory'', ''dir''),
      (''impl'', ''implementation''), (''implementation'', ''impl''),
      (''func'', ''function''), (''function'', ''func''),
      (''param'', ''parameter''), (''parameter'', ''param''),
      (''args'', ''arguments''), (''arguments'', ''args''),
      (''msg'', ''message''), (''message'', ''msg''),
      (''err'', ''error''), (''error'', ''err''),
      (''req'', ''request''), (''request'', ''req''),
      (''res'', ''response''), (''response'', ''res''),
      (''jwt'', ''token''), (''token'', ''jwt'')]"

definition stem_suffixes :: "string list" where
  "stem_suffixes =
     [''tion'', ''sion'', ''ing'', ''ment'', ''ness'', ''able'', ''ible'', ''ous'', ''ive'', ''ful'',
      ''less'', ''ize'', ''ise'', ''ated'', ''ates'', ''ies'', ''ed'', ''er'', ''ly'', ''al'', ''es'', ''s'']"

definition stem :: "string \<Rightarrow> string" where
  "stem w =
     (case find (\<lambda>suf. length w > length suf + 3 \<and> ends_with w suf) stem_suffixes of
        None \<Rightarrow> w
      | Some suf \<Rightarrow> take (length w - length suf) w)"

definition tokens :: "string \<Rightarrow> string list" where
  "tokens s = runs_of is_lower_alnum (lower s)"

definition word_set :: "string \<Rightarrow> string set" where
  "word_set s =
     (let words = tokens s in
      set words \<union> set (map stem words) \<union>
      set (concat (map (\<lambda>w. case map_of synonyms w of None \<Rightarrow> [] | Some y \<Rightarrow> [y]) words)))"

definition ngram_set :: "string \<Rightarrow> nat \<Rightarrow> string list set" where
  "ngram_set s n =
     (let toks = tokens s in
      set (map (\<lambda>i. take n (drop i toks)) [0..<length toks + 1 - n]))"

definition containment :: "'a set \<Rightarrow> 'a set \<Rightarrow> real" where
  "containment a b =
     (if a = {} \<or> b = {} then 0 else real (card (a \<inter> b)) / real (min (card a) (card b)))"

lemma finite_word_set [simp]: "finite (word_set s)"
  unfolding word_set_def Let_def by (intro finite_UnI finite_set)

lemma finite_ngram_set [simp]: "finite (ngram_set s n)"
  by (simp add: ngram_set_def Let_def)

lemma length_stem: "length (stem w) \<le> length w"
  by (auto simp: stem_def split: option.splits)

lemma stem_keeps_four: "length (stem w) \<ge> min (length w) 4"
proof (cases "find (\<lambda>suf. length w > length suf + 3 \<and> ends_with w suf) stem_suffixes")
  case (Some suf)
  then have "length w > length suf + 3" by (auto simp: find_Some_iff)
  with Some show ?thesis by (simp add: stem_def)
qed (simp add: stem_def)

lemma containment_bounds:
  assumes "finite a" "finite b"
  shows "0 \<le> containment a b" "containment a b \<le> 1"
proof -
  have "card (a \<inter> b) \<le> min (card a) (card b)"
    using assms by (simp add: card_mono)
  then show "containment a b \<le> 1"
    by (auto simp: containment_def divide_le_eq_1 simp del: min_less_iff_conj min.bounded_iff)
qed (simp add: containment_def)

lemma containment_commute: "containment a b = containment b a"
  by (auto simp: containment_def Int_commute min.commute)

lemma containment_subset:
  assumes "finite b" "a \<noteq> {}" "a \<subseteq> b"
  shows "containment a b = 1"
proof -
  have "finite a" using assms finite_subset by blast
  with assms have "card a \<le> card b" "0 < card a" by (auto simp: card_mono card_gt_0_iff)
  moreover have "a \<inter> b = a" "b \<noteq> {}" using assms by auto
  ultimately show ?thesis using assms by (simp add: containment_def)
qed

text \<open>The weighted overlap used for related memories and graph edges.\<close>

definition lexical_score :: "string \<Rightarrow> string \<Rightarrow> real" where
  "lexical_score s t =
     0.5 * containment (word_set s) (word_set t)
     + 0.3 * containment (ngram_set s 2) (ngram_set t 2)
     + 0.2 * containment (ngram_set s 3) (ngram_set t 3)"

lemma lexical_score_bounds: "0 \<le> lexical_score s t" "lexical_score s t \<le> 1"
  using containment_bounds [of "word_set s" "word_set t"]
    containment_bounds [of "ngram_set s 2" "ngram_set t 2"]
    containment_bounds [of "ngram_set s 3" "ngram_set t 3"]
  by (simp_all add: lexical_score_def)

lemma lexical_score_commute: "lexical_score s t = lexical_score t s"
  by (simp add: lexical_score_def containment_commute)

section \<open>Duplicates\<close>

text \<open>The texts compared against: one entry per memory with an id, the last one winning
  where two have the same id, as in the dictionary of the source.\<close>

definition match_choices :: "memory list \<Rightarrow> (string, string) dict" where
  "match_choices mems =
     foldl (\<lambda>d m. if mem_id m = [] then d
                  else AList.update (mem_id m) (essence m @ '' '' @ title m) d) [] mems"

definition mem_by_id :: "memory list \<Rightarrow> (string, memory) dict" where
  "mem_by_id mems =
     foldl (\<lambda>d m. if mem_id m = [] then d else AList.update (mem_id m) m d) [] mems"

type_synonym extract_one = "string \<Rightarrow> (string, string) dict \<Rightarrow> (string \<times> real) option"

text \<open>\<open>mems\<close> are the memories of the scope, as \<^verbatim>\<open>_obsidian_memories\<close> returns them.\<close>

definition find_best_match :: "extract_one \<Rightarrow> memory list \<Rightarrow> string \<Rightarrow> memory option \<times> real" where
  "find_best_match extract_one mems content =
     (if strip content = [] then (None, 0)
      else if match_choices mems = [] then (None, 0)
      else (case extract_one content (match_choices mems) of
              None \<Rightarrow> (None, 0)
            | Some (best, raw_score) \<Rightarrow> (map_of (mem_by_id mems) best, raw_score / 100)))"

definition is_duplicate :: "extract_one \<Rightarrow> memory list \<Rightarrow> string \<Rightarrow> real \<Rightarrow> bool" where
  "is_duplicate extract_one mems content threshold =
     (if strip content = [] then False
      else snd (find_best_match extract_one mems content) \<ge> threshold)"

definition ngram_search_candidates ::
  "(string \<Rightarrow> (string, string) dict \<Rightarrow> real \<Rightarrow> nat \<Rightarrow> string list) \<Rightarrow> memory list \<Rightarrow> string \<Rightarrow> nat \<Rightarrow> string list" where
  "ngram_search_candidates extract mems q limit =
     (if strip q = [] then []
      else if match_choices mems = [] then []
      else extract q (match_choices mems) 20 limit)"

lemma keys_foldl_update:
  "fst ` set (foldl (\<lambda>d m. if f m = [] then d else AList.update (f m) (g m) d) d mems)
   = fst ` set d \<union> {f m | m. m \<in> set mems \<and> f m \<noteq> []}"
  by (induction mems arbitrary: d) (auto simp: dom_update split: if_splits)

lemma map_of_foldl_id:
  "(\<forall>k m. map_of d k = Some m \<longrightarrow> mem_id m = k \<and> P m) \<Longrightarrow> \<forall>m \<in> set mems. P m \<Longrightarrow>
   map_of (foldl (\<lambda>d m. if mem_id m = [] then d else AList.update (mem_id m) m d) d mems) k = Some m \<Longrightarrow>
   mem_id m = k \<and> P m"
proof (induction mems arbitrary: d)
  case (Cons x mems)
  let ?d = "if mem_id x = [] then d else AList.update (mem_id x) x d"
  have "\<forall>k m. map_of ?d k = Some m \<longrightarrow> mem_id m = k \<and> P m"
    using Cons.prems(1,2) by (simp add: dict_simps)
  from Cons.IH [OF this] Cons.prems(2,3) show ?case by simp
qed simp

lemma mem_by_id_Some: "map_of (mem_by_id mems) k = Some m \<Longrightarrow> m \<in> set mems \<and> mem_id m = k"
  using map_of_foldl_id [of "[]" "\<lambda>m. m \<in> set mems" mems k m] by (simp add: mem_by_id_def)

section \<open>Related memories, the lexical fallback\<close>

definition RELATED_THRESHOLD :: real where "RELATED_THRESHOLD = 0.15"
definition SAME_PROJECT_BONUS :: real where "SAME_PROJECT_BONUS = 0.05"

definition related_scores :: "(string, string) dict \<Rightarrow> memory list \<Rightarrow> string \<Rightarrow> string \<Rightarrow> string \<Rightarrow> (real \<times> string) list" where
  "related_scores al mems content exclude_id scope =
     (let normalized = normalize_scope_id al scope in
      concat (map (\<lambda>m.
        let mid = mem_id m; t = essence m @ '' '' @ title m;
            score = lexical_score content t in
        if mid = exclude_id \<or> starts_with mid exclude_id \<or> starts_with exclude_id (id8 mid) then []
        else if word_set t = {} then []
        else if score \<le> RELATED_THRESHOLD then []
        else [(if normalized \<noteq> ''general'' \<and> project m = normalized
               then score + SAME_PROJECT_BONUS else score, id8 mid)]) mems))"

definition find_related_lexical ::
  "(string, string) dict \<Rightarrow> memory list \<Rightarrow> string \<Rightarrow> string \<Rightarrow> string \<Rightarrow> nat \<Rightarrow> string list" where
  "find_related_lexical al mems content exclude_id scope limit =
     (if word_set content = {} then []
      else map snd (take limit (sort_desc fst (related_scores al mems content exclude_id scope))))"

section \<open>Contradictions\<close>

definition negation_signals :: "string list" where
  "negation_signals =
     [''removed'', ''no longer'', ''replaced'', ''deprecated'', ''instead of'', ''stopped using'',
      ''switched from'', ''ripped out'', ''deleted'', ''no more'', ''eliminated'', ''dropped'',
      ''abandoned'', ''reversed'']"

text \<open>\<open>candidates\<close> are the memories the FTS lookup found.\<close>

definition contradictions_among :: "memory list \<Rightarrow> string \<Rightarrow> string list" where
  "contradictions_among candidates content =
     concat (map (\<lambda>m.
       if containment (word_set content) (word_set (essence m)) < 0.3 then []
       else if \<exists>sig \<in> set negation_signals.
                 contains (lower content) sig \<and> \<not> contains (lower (essence m)) sig
            then [id8 (mem_id m)] else []) candidates)"

definition check_contradictions :: "(string \<Rightarrow> memory list) \<Rightarrow> string \<Rightarrow> string list" where
  "check_contradictions fts_candidates content =
     (if \<exists>sig \<in> set negation_signals. contains (lower content) sig
      then contradictions_among (fts_candidates (take 200 content)) content else [])"

lemma contradictions_among_ids:
  "i \<in> set (contradictions_among ms content) \<Longrightarrow> \<exists>m \<in> set ms. i = id8 (mem_id m)"
  by (auto simp: contradictions_among_def split: if_splits)

end
