(* ===== verification/GraphIndex.thy ===== *)
theory GraphIndex
  imports Scoring
begin

text \<open>
  \<^verbatim>\<open>memem/graph_index.py\<close>: the typed, scored edges between memories (\<^verbatim>\<open>graph.db\<close>). The state
  is the table \<^verbatim>\<open>memory_edges\<close> under its primary key, in insertion order. The feature cache
  is transparent and left out; \<^verbatim>\<open>evidence\<close> is the record of features rather than its JSON.
\<close>

section \<open>Relations\<close>

datatype relation =
  Same_topic | Supports | Depends_on | Supersedes | Contradicts | Same_session | Same_project

fun rel_name :: "relation \<Rightarrow> string" where
  "rel_name Same_topic = ''same_topic''"
| "rel_name Supports = ''supports''"
| "rel_name Depends_on = ''depends_on''"
| "rel_name Supersedes = ''supersedes''"
| "rel_name Contradicts = ''contradicts''"
| "rel_name Same_session = ''same_session''"
| "rel_name Same_project = ''same_project''"

definition relation_types :: "relation list" where
  "relation_types =
     [Same_topic, Supports, Depends_on, Supersedes, Contradicts, Same_session, Same_project]"

definition normal_recall_types :: "relation list" where
  "normal_recall_types = [Same_topic, Supports, Depends_on, Same_session]"

definition human_related_types :: "relation list" where
  "human_related_types = [Same_topic, Supports, Depends_on, Same_session]"

text \<open>The relations stored in both directions.\<close>

definition symmetric_rel :: "relation \<Rightarrow> bool" where
  "symmetric_rel r \<longleftrightarrow> r \<in> {Same_topic, Same_session, Same_project}"

lemma rel_name_inj: "rel_name r = rel_name s \<Longrightarrow> r = s"
  by (cases r; cases s) auto

lemma relation_types_all: "r \<in> set relation_types"
  by (cases r) (simp_all add: relation_types_def)

definition relation_of_name :: "string \<Rightarrow> relation option" where
  "relation_of_name n = find (\<lambda>r. rel_name r = n) relation_types"

lemma relation_of_name_rel_name [simp]: "relation_of_name (rel_name r) = Some r"
  by (cases r) (simp_all add: relation_of_name_def relation_types_def)

text \<open>Relations are ordered by their names, as the source sorts them.\<close>

instantiation relation :: linorder
begin

definition less_eq_relation :: "relation \<Rightarrow> relation \<Rightarrow> bool" where
  "less_eq_relation r s \<longleftrightarrow> rel_name r \<le> rel_name s"

definition less_relation :: "relation \<Rightarrow> relation \<Rightarrow> bool" where
  "less_relation r s \<longleftrightarrow> rel_name r < rel_name s"

instance
  by intro_classes (auto simp: less_eq_relation_def less_relation_def intro: rel_name_inj)

end

definition MIN_EDGE_SCORE :: real where "MIN_EDGE_SCORE = 0.18"
definition MAX_PAIR_CANDIDATES :: nat where "MAX_PAIR_CANDIDATES = 24"

section \<open>The edge table\<close>

record pair_features =
  f_score :: real
  f_lexical :: real
  f_tag :: real
  f_project :: real
  f_session :: real
  f_structural :: real
  f_related :: real
  f_contradiction :: real

record edge_row =
  e_score :: real
  e_evidence :: pair_features
  e_created :: string
  e_updated :: string

type_synonym edge_key = "string \<times> string \<times> relation"
type_synonym graph = "(edge_key, edge_row) dict"

definition id_prefix :: "string \<Rightarrow> string" where
  "id_prefix i = take 8 (strip i)"

definition clamp01 :: "real \<Rightarrow> real" where
  "clamp01 x = max 0 (min 1 x)"

text \<open>\<^verbatim>\<open>_upsert_edge_conn\<close>: the conflict clause keeps the creation time.\<close>

definition upsert_edge_conn ::
  "string \<Rightarrow> string \<Rightarrow> string \<Rightarrow> relation \<Rightarrow> real \<Rightarrow> pair_features \<Rightarrow> graph \<Rightarrow> graph" where
  "upsert_edge_conn now src dst r score ev g =
     (if src = [] \<or> dst = [] \<or> id_prefix src = id_prefix dst then g
      else AList.update (src, dst, r)
             (case map_of g (src, dst, r) of
                None \<Rightarrow> \<lparr>e_score = clamp01 score, e_evidence = ev, e_created = now, e_updated = now\<rparr>
              | Some e \<Rightarrow> e\<lparr>e_score := clamp01 score, e_evidence := ev, e_updated := now\<rparr>) g)"

text \<open>\<^verbatim>\<open>_upsert_edge\<close> takes the relation by name and raises on a name it does not know.\<close>

definition upsert_edge ::
  "string \<Rightarrow> string \<Rightarrow> string \<Rightarrow> string \<Rightarrow> real \<Rightarrow> pair_features \<Rightarrow> graph \<Rightarrow> string + graph" where
  "upsert_edge now src dst name score ev g =
     (if src = [] \<or> dst = [] \<or> id_prefix src = id_prefix dst then Inr g
      else (case relation_of_name name of
              None \<Rightarrow> Inl (''Unknown relation_type: '' @ name)
            | Some r \<Rightarrow> Inr (upsert_edge_conn now src dst r score ev g)))"

definition id_match :: "string \<Rightarrow> string \<Rightarrow> bool" where
  "id_match memory_id column \<longleftrightarrow> column = memory_id \<or> take 8 column = id_prefix memory_id"

definition touches :: "string \<Rightarrow> edge_key \<Rightarrow> bool" where
  "touches memory_id k \<longleftrightarrow> id_match memory_id (fst k) \<or> id_match memory_id (fst (snd k))"

definition remove_edges_for_memory :: "string \<Rightarrow> graph \<Rightarrow> graph" where
  "remove_edges_for_memory memory_id g =
     (if memory_id = [] then g else filter (\<lambda>(k, e). \<not> touches memory_id k) g)"

definition clear_graph :: "graph \<Rightarrow> graph" where
  "clear_graph g = []"

text \<open>Both neighbour queries: matching rows, best score first, then latest update.\<close>

definition edge_query ::
  "(edge_key \<Rightarrow> string) \<Rightarrow> string \<Rightarrow> relation list \<Rightarrow> nat \<Rightarrow> real \<Rightarrow> graph \<Rightarrow> (edge_key \<times> edge_row) list" where
  "edge_query column memory_id types limit min_score g =
     take limit (sort_desc (\<lambda>(k, e). (e_score e, e_updated e))
       (filter (\<lambda>(k, e). id_match memory_id (column k) \<and> e_score e \<ge> min_score
                  \<and> (types = [] \<or> snd (snd k) \<in> set types)) g))"

definition neighbors ::
  "string \<Rightarrow> relation list \<Rightarrow> nat \<Rightarrow> real \<Rightarrow> graph \<Rightarrow> (edge_key \<times> edge_row) list" where
  "neighbors memory_id types limit min_score g =
     (if memory_id = [] then [] else edge_query fst memory_id types limit min_score g)"

definition reverse_neighbors ::
  "string \<Rightarrow> relation list \<Rightarrow> nat \<Rightarrow> real \<Rightarrow> graph \<Rightarrow> (edge_key \<times> edge_row) list" where
  "reverse_neighbors memory_id types limit min_score g =
     (if memory_id = [] then [] else edge_query (fst \<circ> snd) memory_id types limit min_score g)"

section \<open>Scoring a pair\<close>

definition memory_text :: "memory \<Rightarrow> string" where
  "memory_text m = title m @ '' '' @ essence m"

text \<open>\<^verbatim>\<open>re.findall(r"[A-Za-z0-9_]{3,}", text)\<close>, lower-cased, without repetitions.\<close>

definition raw_words :: "string \<Rightarrow> string list" where
  "raw_words s = uniq (map lower (filter (\<lambda>w. 3 \<le> length w) (runs_of is_word_ascii s)))"

definition lower_tags :: "memory \<Rightarrow> string list" where
  "lower_tags m = uniq (map lower (filter (\<lambda>t. t \<noteq> []) (domain_tags m)))"

definition jaccard :: "'a set \<Rightarrow> 'a set \<Rightarrow> real" where
  "jaccard a b = real (card (a \<inter> b)) / real (max (card (a \<union> b)) 1)"

definition pair_lexical :: "memory \<Rightarrow> memory \<Rightarrow> real" where
  "pair_lexical src dst =
     (let s = memory_text src; t = memory_text dst in
      if word_set s = {} \<or> word_set t = {} then 0
      else 0.5 * max (containment (word_set s) (word_set t)) (containment (word_set t) (word_set s))
         + 0.3 * max (containment (ngram_set s 2) (ngram_set t 2)) (containment (ngram_set t 2) (ngram_set s 2))
         + 0.2 * max (containment (ngram_set s 3) (ngram_set t 3)) (containment (ngram_set t 3) (ngram_set s 3)))"

definition layer_or_default :: "memory \<Rightarrow> int" where
  "layer_or_default m = (case layer m of None \<Rightarrow> 2 | Some l \<Rightarrow> l)"

definition score_memory_pair :: "(string, string) dict \<Rightarrow> memory \<Rightarrow> memory \<Rightarrow> pair_features" where
  "score_memory_pair al src dst =
     (let lexical = pair_lexical src dst;
          src_tags = set (lower_tags src); dst_tags = set (lower_tags dst);
          tag_score = (if src_tags \<noteq> {} \<or> dst_tags \<noteq> {} then jaccard src_tags dst_tags else 0);
          src_project = normalize_scope_id al (project src);
          dst_project = normalize_scope_id al (project dst);
          project_score = (if src_project = dst_project \<and> src_project \<noteq> ''general'' then 1 else 0);
          session_score = (if source_session src \<noteq> [] \<and> source_session src = source_session dst then 1 else 0);
          layer_score = max 0 (1 - real_of_int \<bar>layer_or_default src - layer_or_default dst\<bar> / 3);
          importance_score = real_of_int (importance src + importance dst) / 10;
          structural_score = 0.5 * layer_score + 0.5 * importance_score;
          dst_prefix = id_prefix (mem_id dst);
          explicit_related = (if dst_prefix \<in> set (map id_prefix (related src)) then 1 else 0);
          explicit_contradiction = (if dst_prefix \<in> set (map id_prefix (contradicts src)) then 1 else 0);
          score = 0.45 * lexical + 0.20 * tag_score + 0.15 * project_score + 0.10 * session_score
                + 0.05 * structural_score + 0.05 * max explicit_related explicit_contradiction
      in \<lparr>f_score = clamp01 score, f_lexical = lexical, f_tag = tag_score, f_project = project_score,
          f_session = session_score, f_structural = structural_score,
          f_related = explicit_related, f_contradiction = explicit_contradiction\<rparr>)"

definition dependency_signals :: "string list" where
  "dependency_signals = [''depends on'', ''requires'', ''prerequisite'', ''must run before'', ''needs '']"

definition classify_relation :: "memory \<Rightarrow> memory \<Rightarrow> pair_features \<Rightarrow> relation" where
  "classify_relation src dst f =
     (if f_contradiction f \<noteq> 0 \<or> id_prefix (mem_id dst) \<in> set (map id_prefix (contradicts src))
      then Contradicts
      else if id8 (mem_id dst) \<noteq> []
           \<and> ''supersedes:'' @ lower (id8 (mem_id dst)) \<in> set (map lower (filter (\<lambda>t. t \<noteq> []) (domain_tags src)))
           \<and> f_lexical f \<ge> 0.12 then Supersedes
      else if f_lexical f \<ge> 0.14
           \<and> (\<exists>sig \<in> set dependency_signals. contains (lower (memory_text src)) sig) then Depends_on
      else if f_lexical f \<ge> 0.25 then Same_topic
      else if f_tag f \<ge> 0.25 \<and> f_lexical f \<ge> 0.12 then Supports
      else if f_session f \<ge> 1 then Same_session
      else Same_project)"

definition is_active :: "memory \<Rightarrow> bool" where
  "is_active m \<longleftrightarrow> status m \<noteq> ''deprecated''"

section \<open>Candidates\<close>

definition pool_score :: "(string, string) dict \<Rightarrow> memory \<Rightarrow> memory \<Rightarrow> real" where
  "pool_score al m other =
     (let explicit_ids = map id_prefix (related m) @ map id_prefix (contradicts m);
          src_tags = set (lower_tags m); dst_tags = set (lower_tags other);
          src_project = normalize_scope_id al (project m);
          src_words = set (raw_words (memory_text m)); dst_words = set (raw_words (memory_text other))
      in (if id_prefix (mem_id other) \<in> set explicit_ids then 1 else 0)
       + (if source_session m \<noteq> [] \<and> source_session m = source_session other then 0.7 else 0)
       + (if src_tags \<noteq> {} \<and> dst_tags \<noteq> {} then 0.4 * jaccard src_tags dst_tags else 0)
       + (if src_project = normalize_scope_id al (project other) \<and> src_project \<noteq> ''general'' then 0.15 else 0)
       + (if src_words \<noteq> {} \<and> dst_words \<noteq> {}
          then real (card (src_words \<inter> dst_words)) / real (max (min (card src_words) (card dst_words)) 1)
          else 0))"

definition candidate_pool_for_memory ::
  "(string, string) dict \<Rightarrow> memory \<Rightarrow> memory list \<Rightarrow> nat \<Rightarrow> memory list" where
  "candidate_pool_for_memory al m memories max_candidates =
     (let eligible = filter (\<lambda>other. mem_id m \<noteq> [] \<and> mem_id other \<noteq> []
                        \<and> id_prefix (mem_id m) \<noteq> id_prefix (mem_id other) \<and> is_active other) memories;
          scored = filter (\<lambda>(s, other). s \<ge> 0.08) (map (\<lambda>other. (pool_score al m other, other)) eligible)
      in map snd (take max_candidates (sort_desc fst scored)))"

record candidate_index =
  ci_by_prefix :: "(string, memory) dict"
  ci_words :: "(string, string list) dict"
  ci_tags :: "(string, string list) dict"
  ci_sessions :: "(string, string list) dict"

definition post :: "string \<Rightarrow> (string, string list) dict \<Rightarrow> string \<Rightarrow> (string, string list) dict" where
  "post mid d k = AList.update k ((case map_of d k of None \<Rightarrow> [] | Some l \<Rightarrow> l) @ [mid]) d"

definition index_one :: "candidate_index \<Rightarrow> memory \<Rightarrow> candidate_index" where
  "index_one ci m =
     (let mid = id_prefix (mem_id m) in
      if mid = [] \<or> \<not> is_active m then ci
      else \<lparr>ci_by_prefix = AList.update mid m (ci_by_prefix ci),
            ci_words = foldl (post mid) (ci_words ci) (raw_words (memory_text m)),
            ci_tags = foldl (post mid) (ci_tags ci) (lower_tags m),
            ci_sessions = (if source_session m \<noteq> [] then post mid (ci_sessions ci) (source_session m)
                           else ci_sessions ci)\<rparr>)"

definition build_candidate_index :: "memory list \<Rightarrow> candidate_index" where
  "build_candidate_index memories =
     foldl index_one \<lparr>ci_by_prefix = [], ci_words = [], ci_tags = [], ci_sessions = []\<rparr> memories"

definition postings :: "(string, string list) dict \<Rightarrow> string \<Rightarrow> string list" where
  "postings d k = (case map_of d k of None \<Rightarrow> [] | Some l \<Rightarrow> l)"

definition candidate_scores :: "memory \<Rightarrow> candidate_index \<Rightarrow> (string, nat) dict" where
  "candidate_scores m ci =
     (let src_prefix = id_prefix (mem_id m);
          explicit = filter (\<lambda>p. p \<noteq> [] \<and> p \<noteq> src_prefix) (map id_prefix (related m @ contradicts m));
          others = filter (\<lambda>mid. mid \<noteq> src_prefix);
          s1 = foldl (bump 30) [] explicit;
          s2 = foldl (bump 6) s1 (concat (map (others \<circ> postings (ci_tags ci)) (lower_tags m)));
          s3 = (if source_session m \<noteq> []
                then foldl (bump 8) s2 (others (postings (ci_sessions ci) (source_session m))) else s2);
          common = (\<lambda>w. length (postings (ci_words ci) w) > 250)
      in foldl (bump 1) s3
           (concat (map (\<lambda>w. if common w then [] else others (postings (ci_words ci) w))
              (raw_words (memory_text m)))))"

definition candidate_pool_from_index :: "memory \<Rightarrow> candidate_index \<Rightarrow> nat \<Rightarrow> memory list" where
  "candidate_pool_from_index m ci max_candidates =
     concat (map (\<lambda>(mid, n). case map_of (ci_by_prefix ci) mid of None \<Rightarrow> [] | Some x \<Rightarrow> [x])
       (most_common max_candidates (candidate_scores m ci)))"

record edge_candidate =
  c_src :: string
  c_dst :: string
  c_rel :: relation
  c_score :: real
  c_evidence :: pair_features

definition edge_candidate_for :: "(string, string) dict \<Rightarrow> memory \<Rightarrow> memory \<Rightarrow> edge_candidate option" where
  "edge_candidate_for al m other =
     (if mem_id m = [] \<or> mem_id other = [] \<or> id_prefix (mem_id m) = id_prefix (mem_id other) then None
      else if \<not> is_active other then None
      else
        let f = score_memory_pair al m other; r = classify_relation m other f; score = f_score f;
            cand = (\<lambda>s. \<lparr>c_src = mem_id m, c_dst = mem_id other, c_rel = r, c_score = s, c_evidence = f\<rparr>)
        in if r \<in> {Contradicts, Supersedes} then Some (cand (max score 0.80))
           else if r = Same_project \<and> score < 0.30 \<or> score < MIN_EDGE_SCORE then None
           else Some (cand score))"

definition edge_candidates_for_memory ::
  "(string, string) dict \<Rightarrow> memory \<Rightarrow> memory list \<Rightarrow> nat \<Rightarrow> candidate_index option \<Rightarrow> edge_candidate list" where
  "edge_candidates_for_memory al m memories limit index =
     (let max_candidates = max MAX_PAIR_CANDIDATES (limit * 8);
          pool = (case index of
                    Some ci \<Rightarrow> candidate_pool_from_index m ci max_candidates
                  | None \<Rightarrow> candidate_pool_for_memory al m memories max_candidates)
      in take limit (sort_desc (\<lambda>e. (c_score e, c_rel e)) (List.map_filter (edge_candidate_for al m) pool)))"

definition suggest_related :: "(string, string) dict \<Rightarrow> memory \<Rightarrow> memory list \<Rightarrow> nat \<Rightarrow> string list" where
  "suggest_related al m memories limit =
     (let edges = filter (\<lambda>e. c_rel e \<in> set human_related_types)
                    (edge_candidates_for_memory al m memories (max (limit * 3) 8) None)
      in map (\<lambda>e. id_prefix (c_dst e)) (take limit edges))"

section \<open>Refresh, rebuild, audit\<close>

definition store_candidate :: "string \<Rightarrow> graph \<times> nat \<Rightarrow> edge_candidate \<Rightarrow> graph \<times> nat" where
  "store_candidate now gn e =
     (let g = upsert_edge_conn now (c_src e) (c_dst e) (c_rel e) (c_score e) (c_evidence e) (fst gn) in
      if symmetric_rel (c_rel e)
      then (upsert_edge_conn now (c_dst e) (c_src e) (c_rel e) (c_score e) (c_evidence e) g, snd gn + 2)
      else (g, snd gn + 1))"

text \<open>\<open>memories\<close> is the answer of \<^verbatim>\<open>_obsidian_memories(None)\<close>.\<close>

definition refresh_edges_for_memory ::
  "(string, string) dict \<Rightarrow> string \<Rightarrow> memory list \<Rightarrow> memory \<Rightarrow> nat \<Rightarrow> graph \<Rightarrow> graph \<times> nat" where
  "refresh_edges_for_memory al now memories m limit g =
     (if mem_id m = [] \<or> \<not> is_active m then (remove_edges_for_memory (mem_id m) g, 0)
      else foldl (store_candidate now) (remove_edges_for_memory (mem_id m) g, 0)
             (edge_candidates_for_memory al m memories limit None))"

definition rebuild_graph ::
  "(string, string) dict \<Rightarrow> string \<Rightarrow> (string option \<Rightarrow> memory list) \<Rightarrow> string \<Rightarrow> nat \<Rightarrow> graph \<Rightarrow> graph \<times> nat" where
  "rebuild_graph al now vault scope limit g =
     (let scope_arg = (if scope = [] \<or> normalize_scope_id al scope = ''general'' then None else Some scope);
          memories = filter is_active (vault scope_arg);
          ci = build_candidate_index memories
      in foldl (store_candidate now) (clear_graph g, 0)
           (concat (map (\<lambda>m. edge_candidates_for_memory al m memories limit (Some ci)) memories)))"

definition graph_stats :: "graph \<Rightarrow> nat \<times> (relation, nat) dict" where
  "graph_stats g = (length g, counter (map (\<lambda>(k, e). snd (snd k)) g))"

record graph_audit =
  a_edges :: nat
  a_by_type :: "(relation, nat) dict"
  a_active :: nat
  a_orphans :: "string list"
  a_dead_links :: "(string \<times> string \<times> relation) list"
  a_one_way :: "(string \<times> string \<times> relation) list"
  a_overlinked :: "(string \<times> nat) list"
  a_deprecated_linked :: "(string \<times> string \<times> relation) list"
  a_low_confidence :: "(string \<times> string \<times> real) list"

definition short_key :: "edge_key \<Rightarrow> edge_key" where
  "short_key k = (id8 (fst k), id8 (fst (snd k)), snd (snd k))"

definition edge_prefixes :: "graph \<Rightarrow> edge_key list" where
  "edge_prefixes g = uniq (map (\<lambda>(k, e). (id_prefix (fst k), id_prefix (fst (snd k)), snd (snd k))) g)"

text \<open>\<open>mems\<close> is the whole vault, deprecated memories included; \<open>found\<close> is \<^verbatim>\<open>_find_memory\<close>.\<close>

definition audit_graph :: "memory list \<Rightarrow> (string \<Rightarrow> bool) \<Rightarrow> graph \<Rightarrow> graph_audit" where
  "audit_graph mems found g =
     (let active_ids = uniq (map mem_id (filter is_active mems));
          active = map id_prefix active_ids;
          deprecated = map (id_prefix \<circ> mem_id) (filter (\<lambda>m. \<not> is_active m) mems);
          ends = concat (map (\<lambda>(k, e). [id_prefix (fst k), id_prefix (fst (snd k))]) g);
          pairs = edge_prefixes g
      in \<lparr>a_edges = fst (graph_stats g), a_by_type = snd (graph_stats g),
          a_active = length active_ids,
          a_orphans = sort (filter (\<lambda>p. p \<notin> set ends) (uniq active)),
          a_dead_links = map (short_key \<circ> fst)
            (filter (\<lambda>(k, e). id_prefix (fst k) \<notin> set active \<or> id_prefix (fst (snd k)) \<notin> set active) g),
          a_one_way = filter (\<lambda>(s, d, r). symmetric_rel r \<and> (d, s, r) \<notin> set pairs) pairs,
          a_overlinked = filter (\<lambda>(mid, deg). deg \<ge> 20 \<and> found mid) (sort_desc snd (counter ends)),
          a_deprecated_linked = map (short_key \<circ> fst)
            (filter (\<lambda>(k, e). id_prefix (fst k) \<in> set deprecated \<or> id_prefix (fst (snd k)) \<in> set deprecated) g),
          a_low_confidence = map (\<lambda>(k, e). (id8 (fst k), id8 (fst (snd k)), round_to 3 (e_score e)))
            (filter (\<lambda>(k, e). e_score e < MIN_EDGE_SCORE) g)\<rparr>)"

text \<open>\<^verbatim>\<open>format_graph_neighbors\<close>; \<open>find_title\<close> gives the title of a memory that is found.\<close>

definition format_graph_neighbors ::
  "(string \<Rightarrow> string option) \<Rightarrow> string \<Rightarrow> bool \<Rightarrow> nat \<Rightarrow> graph \<Rightarrow> string" where
  "format_graph_neighbors find_title memory_id include_history limit g =
     (let types = (if include_history then relation_types else normal_recall_types);
          edges = neighbors memory_id types limit 0 g
      in if edges = [] then ''No graph neighbors found for: '' @ memory_id
         else join [NL] ((''### Graph neighbors for '' @ id8 memory_id) #
           map (\<lambda>((s, d, r), e).
             ''- ['' @ id8 d @ ''] '' @ rel_name r @ '' '' @ fmt_fixed 2 (e_score e) @ '' '' @ [CHR 0x97] @ '' ''
               @ (case find_title d of Some t \<Rightarrow> t | None \<Rightarrow> ''[missing]'')) edges))"

section \<open>Scores\<close>

lemma clamp01_bounds: "0 \<le> clamp01 x" "clamp01 x \<le> 1"
  by (simp_all add: clamp01_def)

lemma clamp01_id: "0 \<le> x \<Longrightarrow> x \<le> 1 \<Longrightarrow> clamp01 x = x"
  by (simp add: clamp01_def)

lemma jaccard_bounds:
  assumes "finite a" "finite b"
  shows "0 \<le> jaccard a b" "jaccard a b \<le> 1"
proof -
  have "card (a \<inter> b) \<le> max (card (a \<union> b)) 1"
    using assms by (intro max.coboundedI1 card_mono) auto
  then have "real (card (a \<inter> b)) \<le> real (max (card (a \<union> b)) 1)" by (simp only: of_nat_le_iff)
  then show "jaccard a b \<le> 1" by (simp add: jaccard_def divide_le_eq_1)
qed (simp add: jaccard_def)

lemma pair_lexical_eq:
  "pair_lexical src dst =
     (if word_set (memory_text src) = {} \<or> word_set (memory_text dst) = {} then 0
      else lexical_score (memory_text src) (memory_text dst))"
  by (simp add: pair_lexical_def lexical_score_def Let_def containment_commute
      [of "word_set (memory_text dst)"] containment_commute [of "ngram_set (memory_text dst) n" for n])

lemma pair_lexical_bounds: "0 \<le> pair_lexical src dst" "pair_lexical src dst \<le> 1"
  by (simp_all add: pair_lexical_eq lexical_score_bounds)

lemma weighted_mean_6:
  fixes a b c d e m :: real
  assumes "0 \<le> a" "a \<le> 1" "0 \<le> b" "b \<le> 1" "0 \<le> c" "c \<le> 1"
    and "0 \<le> d" "d \<le> 1" "0 \<le> e" "e \<le> 1" "0 \<le> m" "m \<le> 1"
  shows "0 \<le> 0.45 * a + 0.20 * b + 0.15 * c + 0.10 * d + 0.05 * e + 0.05 * m"
    "0.45 * a + 0.20 * b + 0.15 * c + 0.10 * d + 0.05 * e + 0.05 * m \<le> 1"
proof -
  show "0 \<le> 0.45 * a + 0.20 * b + 0.15 * c + 0.10 * d + 0.05 * e + 0.05 * m"
    using assms by (intro add_nonneg_nonneg mult_nonneg_nonneg) simp_all
  have "0.45 * a + 0.20 * b + 0.15 * c + 0.10 * d + 0.05 * e + 0.05 * m \<le> 0.45 * 1 + 0.20 * 1 + 0.15 * 1 + 0.10 * 1 + 0.05 * 1 + 0.05 * 1"
    using assms by (intro add_mono mult_left_mono) simp_all
  then show "0.45 * a + 0.20 * b + 0.15 * c + 0.10 * d + 0.05 * e + 0.05 * m \<le> 1" by simp
qed

lemma score_fields:
  "f_lexical (score_memory_pair al a b) = pair_lexical a b"
  "f_tag (score_memory_pair al a b) =
     (if set (lower_tags a) \<noteq> {} \<or> set (lower_tags b) \<noteq> {}
      then jaccard (set (lower_tags a)) (set (lower_tags b)) else 0)"
  "f_project (score_memory_pair al a b) =
     (if normalize_scope_id al (project a) = normalize_scope_id al (project b)
         \<and> normalize_scope_id al (project a) \<noteq> ''general'' then 1 else 0)"
  "f_session (score_memory_pair al a b) =
     (if source_session a \<noteq> [] \<and> source_session a = source_session b then 1 else 0)"
  "f_structural (score_memory_pair al a b) =
     0.5 * max 0 (1 - real_of_int \<bar>layer_or_default a - layer_or_default b\<bar> / 3)
     + 0.5 * (real_of_int (importance a + importance b) / 10)"
  "f_related (score_memory_pair al a b) =
     (if id_prefix (mem_id b) \<in> set (map id_prefix (related a)) then 1 else 0)"
  "f_contradiction (score_memory_pair al a b) =
     (if id_prefix (mem_id b) \<in> set (map id_prefix (contradicts a)) then 1 else 0)"
  "f_score (score_memory_pair al a b) =
     clamp01 (0.45 * f_lexical (score_memory_pair al a b) + 0.20 * f_tag (score_memory_pair al a b)
       + 0.15 * f_project (score_memory_pair al a b) + 0.10 * f_session (score_memory_pair al a b)
       + 0.05 * f_structural (score_memory_pair al a b)
       + 0.05 * max (f_related (score_memory_pair al a b)) (f_contradiction (score_memory_pair al a b)))"
  by (simp_all only: score_memory_pair_def Let_def pair_features.simps)

text \<open>
  The pair score is a weighted mean. For importances within 0 to 5 every feature lies
  between 0 and 1, the score is exactly the weighted sum of the features (the final clamp
  never changes it), and it lies between 0 and 1.
\<close>

theorem score_memory_pair_weighted_mean:
  assumes "0 \<le> importance src" "importance src \<le> 5" "0 \<le> importance dst" "importance dst \<le> 5"
    and "f = score_memory_pair al src dst"
  shows "list_all (\<lambda>x. 0 \<le> x \<and> x \<le> 1)
      [f_score f, f_lexical f, f_tag f, f_project f, f_session f, f_structural f, f_related f, f_contradiction f] \<and>
    f_score f = 0.45 * f_lexical f + 0.20 * f_tag f + 0.15 * f_project f + 0.10 * f_session f
      + 0.05 * f_structural f + 0.05 * max (f_related f) (f_contradiction f)"
proof -
  have imp: "0 \<le> real_of_int (importance src + importance dst)"
    "real_of_int (importance src + importance dst) \<le> 10"
    using assms(1-4) by linarith+
  define y where "y = max 0 (1 - real_of_int \<bar>layer_or_default src - layer_or_default dst\<bar> / 3)"
  define z where "z = real_of_int (importance src + importance dst) / 10"
  have "f_structural f = y / 2 + z / 2"
    unfolding assms(5) score_fields y_def z_def by simp
  moreover have "0 \<le> y" "y \<le> 1" "0 \<le> z" "z \<le> 1" using imp by (simp_all add: y_def z_def)
  ultimately have structural: "0 \<le> f_structural f" "f_structural f \<le> 1"
    by simp_all
  have feats: "0 \<le> f_lexical f" "f_lexical f \<le> 1" "0 \<le> f_tag f" "f_tag f \<le> 1"
    "0 \<le> f_project f" "f_project f \<le> 1" "0 \<le> f_session f" "f_session f \<le> 1"
    "0 \<le> f_related f" "f_related f \<le> 1" "0 \<le> f_contradiction f" "f_contradiction f \<le> 1"
    unfolding assms(5) score_fields
    using pair_lexical_bounds [of src dst] jaccard_bounds [of "set (lower_tags src)" "set (lower_tags dst)"]
    by simp_all
  let ?s = "0.45 * f_lexical f + 0.20 * f_tag f + 0.15 * f_project f + 0.10 * f_session f
      + 0.05 * f_structural f + 0.05 * max (f_related f) (f_contradiction f)"
  have "f_score f = clamp01 ?s"
    unfolding assms(5) score_fields ..
  moreover have "0 \<le> max (f_related f) (f_contradiction f)" "max (f_related f) (f_contradiction f) \<le> 1"
    using feats by auto
  note mean = feats(1-8) structural this
  have "0 \<le> ?s" by (rule weighted_mean_6(1)) (fact mean)+
  moreover have "?s \<le> 1" by (rule weighted_mean_6(2)) (fact mean)+
  ultimately show ?thesis using feats structural by (simp add: clamp01_id)
qed

theorem score_memory_pair_weighted_mean_witness:
  "f_score (score_memory_pair default_aliases (blank_memory ''a'' ''T'' ''E'') (blank_memory ''b'' ''T'' ''E'')) \<le> 1"
  using score_memory_pair_weighted_mean
    [of "blank_memory ''a'' ''T'' ''E''" "blank_memory ''b'' ''T'' ''E''" _ default_aliases, OF _ _ _ _ refl] by simp

lemma f_score_bounds: "0 \<le> f_score (score_memory_pair al a b)" "f_score (score_memory_pair al a b) \<le> 1"
  by (simp_all add: score_memory_pair_def Let_def clamp01_bounds)

section \<open>Candidates\<close>

definition edge_ok :: "edge_key \<Rightarrow> real \<Rightarrow> bool" where
  "edge_ok k s \<longleftrightarrow> fst k \<noteq> [] \<and> fst (snd k) \<noteq> [] \<and> id_prefix (fst k) \<noteq> id_prefix (fst (snd k))
     \<and> MIN_EDGE_SCORE \<le> s \<and> s \<le> 1"

definition cand_key :: "edge_candidate \<Rightarrow> edge_key" where
  "cand_key c = (c_src c, c_dst c, c_rel c)"

definition rev_key :: "edge_key \<Rightarrow> edge_key" where
  "rev_key k = (fst (snd k), fst k, snd (snd k))"

lemma rev_key_rev [simp]: "rev_key (rev_key k) = k"
  by (simp add: rev_key_def)

lemma rev_key_swap [simp]: "rev_key k = rev_key j \<longleftrightarrow> k = j"
  by (metis rev_key_rev)

lemma rev_key_eq: "rev_key k = j \<longleftrightarrow> k = rev_key j"
  by auto

lemma snd_rev_key [simp]: "snd (snd (rev_key k)) = snd (snd k)"
  by (simp add: rev_key_def)

lemma edge_ok_rev [simp]: "edge_ok (rev_key k) s = edge_ok k s"
  by (auto simp: edge_ok_def rev_key_def)

lemma edge_candidate_for_Some:
  assumes "edge_candidate_for al m other = Some c"
  shows "c_src c = mem_id m" "c_dst c = mem_id other" "is_active other" "edge_ok (cand_key c) (c_score c)"
  using assms f_score_bounds [of al m other]
  by (auto simp: edge_candidate_for_def Let_def edge_ok_def cand_key_def MIN_EDGE_SCORE_def
      split: if_splits)

lemma pool_for_memory_set: "set (candidate_pool_for_memory al m memories n) \<subseteq> set memories"
  by (auto simp: candidate_pool_for_memory_def Let_def dest!: in_set_takeD)

lemma by_prefix_foldl:
  "\<forall>k x. map_of (ci_by_prefix ci) k = Some x \<longrightarrow> x \<in> A \<Longrightarrow> set ms \<subseteq> A \<Longrightarrow>
   map_of (ci_by_prefix (foldl index_one ci ms)) k = Some x \<Longrightarrow> x \<in> A"
proof (induction ms arbitrary: ci)
  case (Cons m ms)
  have "\<forall>k x. map_of (ci_by_prefix (index_one ci m)) k = Some x \<longrightarrow> x \<in> A"
    using Cons.prems(1,2) by (simp add: index_one_def Let_def dict_simps)
  from Cons.IH [OF this] Cons.prems(2,3) show ?case by simp
qed auto

lemma pool_from_index_set:
  "set (candidate_pool_from_index m (build_candidate_index memories) n) \<subseteq> set memories"
  using by_prefix_foldl [of "\<lparr>ci_by_prefix = [], ci_words = [], ci_tags = [], ci_sessions = []\<rparr>" "set memories" memories]
  by (force simp: candidate_pool_from_index_def build_candidate_index_def split: option.splits)

definition pool_of_index :: "memory list \<Rightarrow> candidate_index option \<Rightarrow> bool" where
  "pool_of_index memories index \<longleftrightarrow> index = None \<or> index = Some (build_candidate_index memories)"

lemma edge_candidates_sound:
  assumes "c \<in> set (edge_candidates_for_memory al m memories limit index)"
    and "pool_of_index memories index"
  shows "\<exists>other \<in> set memories. c_src c = mem_id m \<and> c_dst c = mem_id other \<and> is_active other
    \<and> edge_ok (cand_key c) (c_score c)"
proof -
  obtain other where "edge_candidate_for al m other = Some c"
    and "other \<in> set (candidate_pool_from_index m (build_candidate_index memories) (max MAX_PAIR_CANDIDATES (limit * 8)))
      \<or> other \<in> set (candidate_pool_for_memory al m memories (max MAX_PAIR_CANDIDATES (limit * 8)))"
    using assms by (fastforce simp: edge_candidates_for_memory_def Let_def pool_of_index_def
        List.map_filter_def dest!: in_set_takeD split: option.splits)
  moreover from this have "other \<in> set memories"
    using pool_from_index_set pool_for_memory_set by blast
  ultimately show ?thesis using edge_candidate_for_Some by blast
qed

lemma edge_candidates_bounded:
  "length (edge_candidates_for_memory al m memories limit index) \<le> limit"
  by (simp add: edge_candidates_for_memory_def Let_def)

lemma edge_candidates_sorted:
  "sorted_wrt (\<lambda>c d. (c_score d, c_rel d) \<le> (c_score c, c_rel c))
     (edge_candidates_for_memory al m memories limit index)"
  using sorted_sort_desc [of "\<lambda>e. (c_score e, c_rel e)"]
  unfolding edge_candidates_for_memory_def Let_def by (intro sorted_wrt_take) simp

text \<open>
  The candidate edges of a memory. With or without the inverted index they are at most
  \<open>limit\<close>, best first, and each leads from the memory to another active memory of the vault
  with a different id prefix, with a score between 0.18 and 1.
\<close>

theorem edge_candidates_contract:
  "pool_of_index memories index \<Longrightarrow>
   (let cs = edge_candidates_for_memory al m memories limit index in
    length cs \<le> limit \<and> sorted_wrt (\<lambda>c d. (c_score d, c_rel d) \<le> (c_score c, c_rel c)) cs \<and>
    (\<forall>c \<in> set cs. \<exists>other \<in> set memories. c_src c = mem_id m \<and> c_dst c = mem_id other \<and>
       is_active other \<and> id_prefix (mem_id m) \<noteq> id_prefix (mem_id other) \<and>
       0.18 \<le> c_score c \<and> c_score c \<le> 1))"
  using edge_candidates_sound [of _ al m memories limit index] edge_candidates_bounded edge_candidates_sorted
  by (fastforce simp: Let_def edge_ok_def cand_key_def MIN_EDGE_SCORE_def)

theorem edge_candidates_contract_witness:
  "length (edge_candidates_for_memory default_aliases (blank_memory ''a'' ''T'' ''E'') [blank_memory ''b'' ''T'' ''E''] 3 None) \<le> 3"
  using edge_candidates_contract
    [of "[blank_memory ''b'' ''T'' ''E'']" None default_aliases "blank_memory ''a'' ''T'' ''E''" 3]
  by (simp add: pool_of_index_def Let_def)

section \<open>The edge table as a keyed store\<close>

interpretation edges: keyed_store map_of AList.update AList.delete "wf_dict :: graph \<Rightarrow> bool"
  by unfold_locales (simp_all add: dict_simps)

lemma wf_upsert [simp]: "wf_dict g \<Longrightarrow> wf_dict (upsert_edge_conn now s d r x ev g)"
  by (simp add: upsert_edge_conn_def)

lemma wf_remove [simp]: "wf_dict g \<Longrightarrow> wf_dict (remove_edges_for_memory i g)"
  by (simp add: remove_edges_for_memory_def)

lemma map_of_upsert:
  "src \<noteq> [] \<Longrightarrow> dst \<noteq> [] \<Longrightarrow> id_prefix src \<noteq> id_prefix dst \<Longrightarrow>
   map_of (upsert_edge_conn now src dst r x ev g) =
     (map_of g)((src, dst, r) \<mapsto>
        (case map_of g (src, dst, r) of
           None \<Rightarrow> \<lparr>e_score = clamp01 x, e_evidence = ev, e_created = now, e_updated = now\<rparr>
         | Some e \<Rightarrow> e\<lparr>e_score := clamp01 x, e_evidence := ev, e_updated := now\<rparr>))"
  by (simp add: upsert_edge_conn_def dict_simps)

lemma map_of_remove:
  "wf_dict g \<Longrightarrow> i \<noteq> [] \<Longrightarrow>
   map_of (remove_edges_for_memory i g) k = (if touches i k then None else map_of g k)"
  by (cases "map_of g k") (simp_all add: remove_edges_for_memory_def map_of_filter_wf)

lemma touches_rev [simp]: "touches i (rev_key k) = touches i k"
  by (auto simp: touches_def rev_key_def)

text \<open>The score stored under a key, which is what the lemmas below are about.\<close>

definition score_at :: "graph \<Rightarrow> edge_key \<Rightarrow> real option" where
  "score_at g k = map_option e_score (map_of g k)"

lemma score_at_None: "score_at g k = None \<longleftrightarrow> map_of g k = None"
  by (simp add: score_at_def)

lemma score_at_upsert:
  "edge_ok (src, dst, r) x \<Longrightarrow>
   score_at (upsert_edge_conn now src dst r x ev g) = (score_at g)((src, dst, r) \<mapsto> x)"
  by (rule ext, cases "map_of g (src, dst, r)")
    (simp_all add: score_at_def map_of_upsert edge_ok_def MIN_EDGE_SCORE_def clamp01_id)

lemma score_at_remove:
  "wf_dict g \<Longrightarrow> i \<noteq> [] \<Longrightarrow>
   score_at (remove_edges_for_memory i g) k = (if touches i k then None else score_at g k)"
  by (simp add: score_at_def map_of_remove)

lemma score_at_store:
  assumes "edge_ok (cand_key c) (c_score c)"
  shows "score_at (fst (store_candidate now gn c)) =
    (if symmetric_rel (c_rel c)
     then (score_at (fst gn))(cand_key c \<mapsto> c_score c, rev_key (cand_key c) \<mapsto> c_score c)
     else (score_at (fst gn))(cand_key c \<mapsto> c_score c))"
proof -
  have "edge_ok (c_src c, c_dst c, c_rel c) (c_score c)" "edge_ok (c_dst c, c_src c, c_rel c) (c_score c)"
    using assms by (auto simp: edge_ok_def cand_key_def)
  then show ?thesis by (simp add: store_candidate_def Let_def score_at_upsert cand_key_def rev_key_def)
qed

lemma wf_store [simp]: "wf_dict (fst gn) \<Longrightarrow> wf_dict (fst (store_candidate now gn c))"
  by (simp add: store_candidate_def Let_def)

text \<open>The invariant: keys are unique, every edge is a good one, and a symmetric relation is
  stored in both directions with the same score.\<close>

definition good_edges :: "graph \<Rightarrow> bool" where
  "good_edges g \<longleftrightarrow> (\<forall>k x. score_at g k = Some x \<longrightarrow> edge_ok k x)"

definition reciprocal :: "graph \<Rightarrow> bool" where
  "reciprocal g \<longleftrightarrow> (\<forall>k. symmetric_rel (snd (snd k)) \<longrightarrow> score_at g (rev_key k) = score_at g k)"

definition graph_ok :: "graph \<Rightarrow> bool" where
  "graph_ok g \<longleftrightarrow> wf_dict g \<and> good_edges g \<and> reciprocal g"

lemma graph_ok_Nil [simp]: "graph_ok []"
  by (simp add: graph_ok_def good_edges_def reciprocal_def score_at_def)

lemma graph_ok_remove: "graph_ok g \<Longrightarrow> graph_ok (remove_edges_for_memory i g)"
  by (cases "i = []")
    (auto simp: graph_ok_def good_edges_def reciprocal_def score_at_remove
      remove_edges_for_memory_def [of "[]"])

lemma graph_ok_store:
  assumes "graph_ok (fst gn)" "edge_ok (cand_key c) (c_score c)"
  shows "graph_ok (fst (store_candidate now gn c))"
proof -
  have "good_edges (fst (store_candidate now gn c))"
    using assms by (auto simp: graph_ok_def good_edges_def score_at_store)
  moreover have "reciprocal (fst (store_candidate now gn c))"
    unfolding reciprocal_def
  proof (intro allI impI)
    fix k :: edge_key
    assume sym: "symmetric_rel (snd (snd k))"
    then have old: "score_at (fst gn) (rev_key k) = score_at (fst gn) k"
      using assms(1) unfolding graph_ok_def reciprocal_def by blast
    show "score_at (fst (store_candidate now gn c)) (rev_key k)
        = score_at (fst (store_candidate now gn c)) k"
    proof (cases "symmetric_rel (c_rel c)")
      case True
      with old show ?thesis by (simp add: score_at_store [OF assms(2)] rev_key_eq [of k])
    next
      case False
      with sym have "k \<noteq> cand_key c" "rev_key k \<noteq> cand_key c"
        using False snd_rev_key [of k] by (metis cand_key_def snd_conv)+
      with False old show ?thesis by (simp add: score_at_store [OF assms(2)])
    qed
  qed
  ultimately show ?thesis using assms by (simp add: graph_ok_def)
qed

lemma graph_ok_stores:
  "graph_ok (fst gn) \<Longrightarrow> \<forall>c \<in> set cs. edge_ok (cand_key c) (c_score c) \<Longrightarrow>
   graph_ok (fst (foldl (store_candidate now) gn cs))"
  by (induction cs arbitrary: gn) (simp_all add: graph_ok_store)

lemma candidates_ok:
  "\<forall>c \<in> set (edge_candidates_for_memory al m memories limit None). edge_ok (cand_key c) (c_score c)"
  "\<forall>c \<in> set (edge_candidates_for_memory al m memories limit (Some (build_candidate_index memories))).
     edge_ok (cand_key c) (c_score c)"
  using edge_candidates_sound [of _ al m memories limit None]
    edge_candidates_sound [of _ al m memories limit "Some (build_candidate_index memories)"]
  by (auto simp: pool_of_index_def)

lemma graph_ok_refresh:
  "graph_ok g \<Longrightarrow> graph_ok (fst (refresh_edges_for_memory al now memories m limit g))"
  by (simp add: refresh_edges_for_memory_def graph_ok_remove graph_ok_stores candidates_ok(1))

lemma graph_ok_rebuild: "graph_ok (fst (rebuild_graph al now vault scope limit g))"
  unfolding rebuild_graph_def Let_def clear_graph_def
  by (rule graph_ok_stores) (use candidates_ok(2) in auto)

text \<open>
  What happens to the graph over time: memories are saved or changed (refresh), forgotten,
  and the whole graph rebuilt; each step sees its own clock, vault and memories.
\<close>

inductive graph_step :: "(string, string) dict \<Rightarrow> graph \<Rightarrow> graph \<Rightarrow> bool" for al where
  refresh: "graph_step al g (fst (refresh_edges_for_memory al now memories m limit g))"
| forget: "graph_step al g (remove_edges_for_memory i g)"
| rebuild: "graph_step al g (fst (rebuild_graph al now vault scope limit g))"

inductive graph_reachable :: "(string, string) dict \<Rightarrow> graph \<Rightarrow> bool" for al where
  empty: "graph_reachable al []"
| step: "graph_reachable al g \<Longrightarrow> graph_step al g g' \<Longrightarrow> graph_reachable al g'"

inductive_cases graph_stepE: "graph_step al g g'"

lemma graph_step_ok: "graph_step al g g' \<Longrightarrow> graph_ok g \<Longrightarrow> graph_ok g'"
  by (erule graph_stepE) (simp_all add: graph_ok_refresh graph_ok_remove graph_ok_rebuild)

lemma graph_reachable_ok: "graph_reachable al g \<Longrightarrow> graph_ok g"
  by (induction rule: graph_reachable.induct) (simp_all add: graph_step_ok)

text \<open>
  C6: In every reachable graph the primary key is unique, no edge joins a memory to itself
  (nor to one with the same id prefix), every score lies between 0.18 and 1, and an edge of
  a symmetric relation exists exactly when its reverse does, with the same score.
\<close>

theorem reachable_graph_invariant:
  assumes "graph_reachable al g"
  shows "wf_dict g \<and>
    (\<forall>s d r e. map_of g (s, d, r) = Some e \<longrightarrow>
       s \<noteq> [] \<and> d \<noteq> [] \<and> id_prefix s \<noteq> id_prefix d \<and> 0.18 \<le> e_score e \<and> e_score e \<le> 1 \<and>
       (symmetric_rel r \<longrightarrow> (\<exists>e'. map_of g (d, s, r) = Some e' \<and> e_score e' = e_score e)))"
proof (intro conjI allI impI)
  have ok: "graph_ok g" using assms by (rule graph_reachable_ok)
  then show "wf_dict g" by (simp add: graph_ok_def)
  fix s d r e
  assume "map_of g (s, d, r) = Some e"
  then have at: "score_at g (s, d, r) = Some (e_score e)" by (simp add: score_at_def)
  then have "edge_ok (s, d, r) (e_score e)" using ok by (simp add: graph_ok_def good_edges_def)
  then show "s \<noteq> []" "d \<noteq> []" "id_prefix s \<noteq> id_prefix d" "0.18 \<le> e_score e" "e_score e \<le> 1"
    by (simp_all add: edge_ok_def MIN_EDGE_SCORE_def)
  assume "symmetric_rel r"
  with ok at have "score_at g (rev_key (s, d, r)) = Some (e_score e)"
    unfolding graph_ok_def reciprocal_def by (metis snd_conv)
  then show "\<exists>e'. map_of g (d, s, r) = Some e' \<and> e_score e' = e_score e"
    by (auto simp: score_at_def rev_key_def)
qed

theorem reachable_graph_invariant_witness:
  "wf_dict (fst (rebuild_graph default_aliases ''t1'' (\<lambda>_. [blank_memory ''a1'' ''T'' ''E'', blank_memory ''b2'' ''U'' ''F'']) [] 8 []))"
  using reachable_graph_invariant
    [OF graph_reachable.step [OF graph_reachable.empty graph_step.rebuild], of default_aliases "''t1''" "\<lambda>_. [blank_memory ''a1'' ''T'' ''E'', blank_memory ''b2'' ''U'' ''F'']" "[]" 8]
  by blast

section \<open>What a refresh and a rebuild do\<close>

lemma score_at_stores_other:
  "\<forall>c \<in> set cs. edge_ok (cand_key c) (c_score c) \<Longrightarrow>
   \<forall>c \<in> set cs. k \<noteq> cand_key c \<and> (symmetric_rel (c_rel c) \<longrightarrow> k \<noteq> rev_key (cand_key c)) \<Longrightarrow>
   score_at (fst (foldl (store_candidate now) gn cs)) k = score_at (fst gn) k"
  by (induction cs arbitrary: gn) (simp_all add: score_at_store)

lemma score_at_stores_grows:
  "\<forall>c \<in> set cs. edge_ok (cand_key c) (c_score c) \<Longrightarrow> score_at (fst gn) k \<noteq> None \<Longrightarrow>
   score_at (fst (foldl (store_candidate now) gn cs)) k \<noteq> None"
  by (induction cs arbitrary: gn) (simp_all add: score_at_store)

lemma score_at_stores_mem:
  "\<forall>c \<in> set cs. edge_ok (cand_key c) (c_score c) \<Longrightarrow> c \<in> set cs \<Longrightarrow>
   k = cand_key c \<or> symmetric_rel (c_rel c) \<and> k = rev_key (cand_key c) \<Longrightarrow>
   score_at (fst (foldl (store_candidate now) gn cs)) k \<noteq> None"
proof (induction cs arbitrary: gn)
  case (Cons d cs)
  show ?case
  proof (cases "c = d")
    case True
    with Cons.prems have "score_at (fst (store_candidate now gn d)) k \<noteq> None"
      by (auto simp: score_at_store)
    then show ?thesis using score_at_stores_grows [of cs "store_candidate now gn d" k] Cons.prems by simp
  next
    case False
    with Cons show ?thesis by simp
  qed
qed simp

lemma score_at_stores_iff:
  assumes "\<forall>c \<in> set cs. edge_ok (cand_key c) (c_score c)" "score_at (fst gn) k = None"
  shows "score_at (fst (foldl (store_candidate now) gn cs)) k \<noteq> None \<longleftrightarrow>
    (\<exists>c \<in> set cs. k = cand_key c \<or> symmetric_rel (c_rel c) \<and> k = rev_key (cand_key c))"
  using score_at_stores_other [OF assms(1), of k now gn] score_at_stores_mem [OF assms(1), of _ k now gn] assms(2)
  by metis

text \<open>
  Refreshing an active memory touches exactly its own edges. An edge between other
  memories keeps its score; and of the edges at this memory those left afterwards are
  exactly its computed candidates, each symmetric one in both directions: whatever the
  graph said about the memory before is gone.
\<close>

theorem refresh_replaces_own_edges:
  assumes "wf_dict g" "mem_id m \<noteq> []" "is_active m"
    and g'_def: "g' = fst (refresh_edges_for_memory al now memories m limit g)"
    and cs_def: "cs = edge_candidates_for_memory al m memories limit None"
  shows "(\<not> touches (mem_id m) k \<longrightarrow> score_at g' k = score_at g k) \<and>
    (touches (mem_id m) k \<longrightarrow>
       (score_at g' k \<noteq> None \<longleftrightarrow>
        (\<exists>c \<in> set cs. k = cand_key c \<or> symmetric_rel (c_rel c) \<and> k = rev_key (cand_key c))))"
proof -
  let ?g0 = "remove_edges_for_memory (mem_id m) g"
  have g': "g' = fst (foldl (store_candidate now) (?g0, 0) cs)"
    using assms(2,3) by (simp add: g'_def cs_def refresh_edges_for_memory_def)
  have ok: "\<forall>c \<in> set cs. edge_ok (cand_key c) (c_score c)"
    unfolding cs_def by (rule candidates_ok(1))
  have own: "\<forall>c \<in> set cs. touches (mem_id m) (cand_key c)"
    using edge_candidates_sound [of _ al m memories limit None]
    by (auto simp: cs_def pool_of_index_def touches_def cand_key_def id_match_def)
  have at0: "score_at ?g0 k = (if touches (mem_id m) k then None else score_at g k)"
    using assms(1,2) by (rule score_at_remove)
  show ?thesis
  proof (cases "touches (mem_id m) k")
    case True
    with at0 have "score_at (fst (?g0, 0)) k = None" by simp
    from score_at_stores_iff [OF ok this] True show ?thesis unfolding g' by blast
  next
    case False
    then have "\<forall>c \<in> set cs. k \<noteq> cand_key c \<and> (symmetric_rel (c_rel c) \<longrightarrow> k \<noteq> rev_key (cand_key c))"
      using own touches_rev by blast
    from score_at_stores_other [OF ok this] False at0 show ?thesis by (simp add: g')
  qed
qed

theorem refresh_replaces_own_edges_witness:
  "score_at (fst (refresh_edges_for_memory default_aliases ''t'' [] (blank_memory ''aaaaaaaa'' ''T'' ''E'') 8 [])) (''c'', ''d'', Supports) = None"
  using refresh_replaces_own_edges
    [of "[]" "blank_memory ''aaaaaaaa'' ''T'' ''E''" _ default_aliases "''t''" "[]" 8 _ "(''c'', ''d'', Supports)", OF _ _ _ refl refl]
  by (cases "touches ''aaaaaaaa'' (''c'', ''d'', Supports)")
    (simp_all add: is_active_def score_at_def edge_candidates_for_memory_def candidate_pool_for_memory_def
      sort_desc_def List.map_filter_def)

lemma rebuild_edge_ends:
  assumes "score_at (fst (rebuild_graph al now vault scope limit g)) k \<noteq> None"
    and "\<forall>s. set (vault s) \<subseteq> set mems"
  shows "\<exists>a \<in> set mems. \<exists>b \<in> set mems. is_active a \<and> is_active b \<and> fst k = mem_id a \<and> fst (snd k) = mem_id b"
proof -
  define ms where
    "ms = filter is_active (vault (if scope = [] \<or> normalize_scope_id al scope = ''general'' then None else Some scope))"
  define cs where
    "cs = concat (map (\<lambda>m. edge_candidates_for_memory al m ms limit (Some (build_candidate_index ms))) ms)"
  have sound: "\<exists>a \<in> set ms. \<exists>b \<in> set ms. c_src c = mem_id a \<and> c_dst c = mem_id b \<and> is_active b
      \<and> edge_ok (cand_key c) (c_score c)" if "c \<in> set cs" for c
    using that edge_candidates_sound [of c al _ ms limit "Some (build_candidate_index ms)"]
    by (auto simp: cs_def pool_of_index_def)
  have g: "fst (rebuild_graph al now vault scope limit g) = fst (foldl (store_candidate now) ([], 0) cs)"
    by (simp add: rebuild_graph_def Let_def ms_def cs_def clear_graph_def)
  have ok: "\<forall>c \<in> set cs. edge_ok (cand_key c) (c_score c)" using sound by blast
  from assms(1) score_at_stores_iff [OF ok, of "([], 0)" k now]
  obtain c where c: "c \<in> set cs" "k = cand_key c \<or> k = rev_key (cand_key c)"
    unfolding g by (auto simp: score_at_def)
  from sound [OF c(1)] obtain a b where "a \<in> set ms" "b \<in> set ms" "c_src c = mem_id a" "c_dst c = mem_id b"
    by blast
  moreover from this have "a \<in> set mems" "b \<in> set mems" "is_active a" "is_active b"
    using assms(2) by (auto simp: ms_def split: if_splits)
  moreover from c(2) calculation have "fst k = mem_id a \<and> fst (snd k) = mem_id b \<or>
      fst k = mem_id b \<and> fst (snd k) = mem_id a"
    by (auto simp: cand_key_def rev_key_def)
  ultimately show ?thesis by blast
qed

lemma graph_member: "wf_dict g \<Longrightarrow> (k, e) \<in> set g \<Longrightarrow> score_at g k = Some (e_score e)"
  by (simp add: score_at_def wf_dict_def map_of_eq_Some_iff)

lemma one_way_empty:
  assumes "graph_ok g"
  shows "filter (\<lambda>(s, d, r). symmetric_rel r \<and> (d, s, r) \<notin> set (edge_prefixes g)) (edge_prefixes g) = []"
proof -
  have "(id_prefix d, id_prefix s, r) \<in> set (edge_prefixes g)"
    if "((s, d, r), e) \<in> set g" "symmetric_rel r" for s d r e
  proof -
    have "score_at g (rev_key (s, d, r)) = score_at g (s, d, r)"
      using assms that(2) unfolding graph_ok_def reciprocal_def by (metis snd_conv)
    moreover have "score_at g (s, d, r) = Some (e_score e)"
      using assms that(1) by (simp add: graph_ok_def graph_member)
    ultimately obtain e' where "map_of g (d, s, r) = Some e'"
      by (auto simp: score_at_def rev_key_def)
    then have "((d, s, r), e') \<in> set g" by (rule map_of_SomeD)
    then show ?thesis by (force simp: edge_prefixes_def)
  qed
  then show ?thesis by (auto simp: filter_empty_conv edge_prefixes_def)
qed

text \<open>
  A rebuilt graph passes its own audit. Whatever the scope and the number of edges per
  memory, after a rebuild from the vault the audit reports no one-way link, no dead link and
  no low-confidence edge, and no edge at a deprecated memory unless a deprecated and an
  active memory share an id prefix.
\<close>

theorem rebuild_passes_audit:
  assumes "\<forall>s. set (vault s) \<subseteq> set mems"
    and "a = audit_graph mems found (fst (rebuild_graph al now vault scope limit g))"
  shows "a_one_way a = [] \<and> a_dead_links a = [] \<and> a_low_confidence a = [] \<and>
    ((\<forall>x \<in> set mems. \<forall>y \<in> set mems. is_active x \<and> \<not> is_active y \<longrightarrow> id_prefix (mem_id x) \<noteq> id_prefix (mem_id y))
     \<longrightarrow> a_deprecated_linked a = [])"
proof -
  let ?g = "fst (rebuild_graph al now vault scope limit g)"
  have ok: "graph_ok ?g" by (rule graph_ok_rebuild)
  have at: "score_at ?g k = Some (e_score e)" if "(k, e) \<in> set ?g" for k e
    using ok that by (simp add: graph_ok_def graph_member)
  have ends: "\<exists>x \<in> set mems. \<exists>y \<in> set mems. is_active x \<and> is_active y
      \<and> fst k = mem_id x \<and> fst (snd k) = mem_id y" if "(k, e) \<in> set ?g" for k e
    using rebuild_edge_ends [OF _ assms(1)] at [OF that] by (metis option.distinct(1))
  let ?active = "map id_prefix (uniq (map mem_id (filter is_active mems)))"
  let ?dep = "map (id_prefix \<circ> mem_id) (filter (\<lambda>m. \<not> is_active m) mems)"
  have live: "id_prefix (fst k) \<in> set ?active" "id_prefix (fst (snd k)) \<in> set ?active"
    if "(k, e) \<in> set ?g" for k e
    using ends [OF that] by auto
  have high: "\<not> e_score e < MIN_EDGE_SCORE" if "(k, e) \<in> set ?g" for k e
    using ok at [OF that] unfolding graph_ok_def good_edges_def edge_ok_def by (meson not_less)
  have "a_one_way a = []"
    unfolding assms(2) audit_graph_def Let_def graph_audit.simps by (rule one_way_empty [OF ok])
  moreover have "a_dead_links a = []"
    unfolding assms(2) audit_graph_def Let_def graph_audit.simps using live by (auto simp only: map_is_Nil_conv filter_empty_conv)
  moreover have "a_low_confidence a = []"
    unfolding assms(2) audit_graph_def Let_def graph_audit.simps using high by (auto simp only: map_is_Nil_conv filter_empty_conv)
  moreover have "a_deprecated_linked a = []"
    if "\<forall>x \<in> set mems. \<forall>y \<in> set mems. is_active x \<and> \<not> is_active y \<longrightarrow> id_prefix (mem_id x) \<noteq> id_prefix (mem_id y)"
  proof -
    have dead: "id_prefix (fst k) \<notin> set ?dep" "id_prefix (fst (snd k)) \<notin> set ?dep"
      if "(k, e) \<in> set ?g" for k e
      using ends [OF that] \<open>\<forall>x \<in> set mems. _\<close> by (auto simp: comp_def)
    then show ?thesis
      unfolding assms(2) audit_graph_def Let_def graph_audit.simps by (auto simp only: map_is_Nil_conv filter_empty_conv)
  qed
  ultimately show ?thesis by blast
qed

theorem rebuild_passes_audit_witness:
  "a_one_way (audit_graph [blank_memory ''aaaaaaaa'' ''T'' ''E''] (\<lambda>_. True)
     (fst (rebuild_graph default_aliases ''t'' (\<lambda>_. [blank_memory ''aaaaaaaa'' ''T'' ''E'']) [] 8 []))) = []"
  using rebuild_passes_audit
    [of "\<lambda>_. [blank_memory ''aaaaaaaa'' ''T'' ''E'']" "[blank_memory ''aaaaaaaa'' ''T'' ''E'']" _ "\<lambda>_. True"
      default_aliases "''t''" "[]" 8 "[]", OF _ refl] by simp

end
