(* ===== verification/IndexFile.thy ===== *)
theory IndexFile
  imports Models
begin

text \<open>
  The Markdown index \<^verbatim>\<open>_index.md\<close> that \<^verbatim>\<open>memem/obsidian_store.py\<close> keeps beside the vault:
  one section per project with its number of memories, one line per memory. The state is
  the file's text, or \<open>None\<close> when there is no file. Every operation runs under the index
  lock from its read to its write, so it is a function of the text. \<open>today\<close> is the date.
\<close>

section \<open>Lines\<close>

text \<open>The pattern \<^verbatim>\<open>^\[([^\]]+)\]\<close>: the bracketed tag at the start of a title, and the rest.\<close>

definition bracket_tag :: "string \<Rightarrow> (string \<times> string) option" where
  "bracket_tag t =
     (case t of
        [] \<Rightarrow> None
      | c # s \<Rightarrow>
          let name = takeWhile (\<lambda>d. d \<noteq> CHR '']'') s in
          (case drop (length name) s of
             [] \<Rightarrow> None
           | _ # rest \<Rightarrow> if c = CHR ''['' \<and> name \<noteq> [] then Some (name, rest) else None))"

definition drop_bracket_tag :: "string \<Rightarrow> string" where
  "drop_bracket_tag t = (case bracket_tag t of None \<Rightarrow> t | Some (_, rest) \<Rightarrow> lstrip rest)"

definition extract_project :: "memory \<Rightarrow> string" where
  "extract_project m =
     (case bracket_tag (title m) of
        Some (name, _) \<Rightarrow> name
      | None \<Rightarrow> if project m \<noteq> [] \<and> project m \<noteq> ''general'' then project m else ''general'')"

definition first_line :: "string \<Rightarrow> string" where
  "first_line s = takeWhile (\<lambda>c. c \<noteq> NL) s"

definition format_index_line :: "memory \<Rightarrow> string" where
  "format_index_line m =
     (let t = (if title m \<noteq> [] then title m else take 60 (essence m));
          t = take 120 (strip (first_line (drop_bracket_tag t)));
          tags = join '' '' (map (\<lambda>tag. CHR ''#'' # tag) (filter (\<lambda>tag. tag \<noteq> []) (domain_tags m)));
          line = ''- '' @ t @ '' ('' @ id8 (mem_id m) @ '')''
      in if tags \<noteq> [] then line @ '' '' @ tags else line)"

definition is_header :: "string \<Rightarrow> bool" where
  "is_header l \<longleftrightarrow> starts_with l ''## ''"

definition is_entry :: "string \<Rightarrow> bool" where
  "is_entry l \<longleftrightarrow> starts_with l ''- ''"

definition mentions :: "string \<Rightarrow> string \<Rightarrow> bool" where
  "mentions i l \<longleftrightarrow> contains l (''('' @ i @ '')'')"

definition remove_prefix :: "string \<Rightarrow> string \<Rightarrow> string" where
  "remove_prefix p s = (if starts_with s p then drop (length p) s else s)"

text \<open>\<^verbatim>\<open>entry.split("(")[0].strip().removeprefix("## ").strip()\<close>\<close>

definition section_name :: "string \<Rightarrow> string" where
  "section_name l = strip (remove_prefix ''## '' (strip (takeWhile (\<lambda>c. c \<noteq> CHR ''('') l)))"

definition counted_header :: "string \<Rightarrow> nat \<Rightarrow> string" where
  "counted_header name n =
     ''## '' @ name @ '' ('' @ str_of_nat n @ '' '' @ (if n = 1 then ''memory'' else ''memories'') @ '')''"

text \<open>
  \<^verbatim>\<open>_recount_index_sections\<close>. Rewriting a header keeps it a header, so the loop over the
  positions reads the same lines whether they have been rewritten or not.
\<close>

fun recount_headers :: "string list \<Rightarrow> string list" where
  "recount_headers [] = []"
| "recount_headers (l # ls) =
     (if is_header l \<and> contains l ''(''
      then counted_header (section_name l)
             (length (filter is_entry (takeWhile (\<lambda>k. \<not> is_header k) ls)))
      else l) # recount_headers ls"

fun replace_first :: "('a \<Rightarrow> bool) \<Rightarrow> 'a \<Rightarrow> 'a list \<Rightarrow> 'a list" where
  "replace_first P y [] = []"
| "replace_first P y (x # xs) = (if P x then y # xs else x # replace_first P y xs)"

definition updated_line :: "string \<Rightarrow> nat \<Rightarrow> string" where
  "updated_line today n = ''Updated: '' @ today @ '' | Total: '' @ str_of_nat n @ '' memories''"

definition recount_index_sections :: "string \<Rightarrow> string list \<Rightarrow> string list" where
  "recount_index_sections today lines =
     (let ls = recount_headers lines in
      replace_first (\<lambda>l. starts_with l ''Updated:'') (updated_line today (length (filter is_entry ls))) ls)"

definition without_entry :: "string \<Rightarrow> string list \<Rightarrow> string list" where
  "without_entry i lines = filter (\<lambda>l. \<not> (is_entry l \<and> mentions i l)) lines"

text \<open>The new line goes below its section's header, or into a new section at the end.\<close>

fun insert_below :: "string \<Rightarrow> string \<Rightarrow> string list \<Rightarrow> string list option" where
  "insert_below header line [] = None"
| "insert_below header line (l # ls) =
     (if starts_with l header then Some (l # line # ls)
      else map_option ((#) l) (insert_below header line ls))"

definition place_line :: "string \<Rightarrow> string \<Rightarrow> string list \<Rightarrow> string list" where
  "place_line proj line lines =
     (case insert_below (''## '' @ proj @ '' ('') line lines of
        Some ls \<Rightarrow> ls
      | None \<Rightarrow> lines @ [[], ''## '' @ proj @ '' (1 memory)'', line])"

definition append_or_update_lines :: "string \<Rightarrow> memory \<Rightarrow> string list \<Rightarrow> string list" where
  "append_or_update_lines today m lines =
     recount_index_sections today
       (place_line (extract_project m) (format_index_line m) (without_entry (id8 (mem_id m)) lines))"

definition append_or_update_index_line :: "string \<Rightarrow> memory \<Rightarrow> string option \<Rightarrow> string option" where
  "append_or_update_index_line today m index =
     map_option (\<lambda>c. join [NL] (append_or_update_lines today m (split_char NL c))) index"

definition remove_index_lines :: "string \<Rightarrow> string \<Rightarrow> string list \<Rightarrow> string list" where
  "remove_index_lines today memory_id lines =
     recount_index_sections today (without_entry (id8 memory_id) lines)"

definition remove_index_line :: "string \<Rightarrow> string \<Rightarrow> string option \<Rightarrow> string option" where
  "remove_index_line today memory_id index =
     map_option (\<lambda>c. join [NL] (remove_index_lines today memory_id (split_char NL c))) index"

section \<open>Generating the whole index\<close>

text \<open>\<^verbatim>\<open>_memory_date_key\<close>: the instant, and whether it carries an offset.\<close>

definition datetime_min :: int where "datetime_min = days_from_civil 1 1 1 * 86400000000"

definition memory_date_key :: "memory \<Rightarrow> bool \<times> int" where
  "memory_date_key m =
     (case fromisoformat (replace_char (CHR ''Z'') ''+00:00'' (created_at m)) of
        None \<Rightarrow> (True, datetime_min)
      | Some (us, None) \<Rightarrow> (False, us)
      | Some (us, Some off) \<Rightarrow> (True, us - off))"

text \<open>
  Sorting compares the dates; Python refuses to compare an aware with a naive one, and a
  list that holds both cannot be sorted without comparing two such.
\<close>

definition sort_by_date :: "memory list \<Rightarrow> memory list option" where
  "sort_by_date ms =
     (if (\<exists>m \<in> set ms. fst (memory_date_key m)) \<and> (\<exists>m \<in> set ms. \<not> fst (memory_date_key m))
      then None else Some (sort_desc (snd \<circ> memory_date_key) ms))"

definition group_by_project :: "memory list \<Rightarrow> (string, memory list) dict" where
  "group_by_project ms =
     foldl (\<lambda>d m. AList.update (extract_project m)
       ((case map_of d (extract_project m) of None \<Rightarrow> [] | Some l \<Rightarrow> l) @ [m]) d) [] ms"

definition sorted_projects :: "(string, memory list) dict \<Rightarrow> string list" where
  "sorted_projects d =
     sort (filter (\<lambda>p. p \<noteq> ''general'') (map fst d))
     @ (if map_of d ''general'' = None then [] else [''general''])"

definition section_lines_of :: "string \<Rightarrow> memory list \<Rightarrow> string list" where
  "section_lines_of p ms = [[], counted_header p (length ms)] @ map format_index_line ms"

fun collect :: "('a \<Rightarrow> 'b list option) \<Rightarrow> 'a list \<Rightarrow> 'b list option" where
  "collect f [] = Some []"
| "collect f (x # xs) =
     (case f x of None \<Rightarrow> None | Some ys \<Rightarrow> map_option (\<lambda>zs. ys @ zs) (collect f xs))"

text \<open>\<open>None\<close>: the \<^verbatim>\<open>TypeError\<close> of the sort.\<close>

definition generate_index_lines :: "string \<Rightarrow> memory list \<Rightarrow> string list option" where
  "generate_index_lines today ms =
     (let d = group_by_project ms in
      map_option (\<lambda>body. [''# memem Memory Index'', updated_line today (length ms)] @ body)
        (collect (\<lambda>p. map_option (section_lines_of p) (sort_by_date (the (map_of d p))))
          (sorted_projects d)))"

definition generate_index :: "string \<Rightarrow> memory list \<Rightarrow> string option" where
  "generate_index today ms = map_option (\<lambda>ls. join [NL] ls @ [NL]) (generate_index_lines today ms)"

section \<open>Facts on lines\<close>

lemma header_not_entry: "is_header l \<Longrightarrow> \<not> is_entry l"
  by (auto simp: is_header_def is_entry_def starts_with_iff)

lemma is_header_counted [simp]: "is_header (counted_header p n)"
  by (simp add: is_header_def counted_header_def)

lemma counted_not_entry [simp]: "\<not> is_entry (counted_header p n)"
  by (simp add: header_not_entry)

lemma Nil_line [simp]: "\<not> is_header []" "\<not> is_entry []"
  by (simp_all add: is_header_def is_entry_def)

lemma format_is_entry [simp]: "is_entry (format_index_line m)"
  by (simp add: format_index_line_def Let_def is_entry_def)

lemma format_not_header [simp]: "\<not> is_header (format_index_line m)"
  using header_not_entry format_is_entry by blast

lemma format_mentions [simp]: "mentions (id8 (mem_id m)) (format_index_line m)"
proof -
  define t where "t = take 120 (strip (first_line (drop_bracket_tag
    (if title m \<noteq> [] then title m else take 60 (essence m)))))"
  define tags where
    "tags = join '' '' (map (\<lambda>tag. CHR ''#'' # tag) (filter (\<lambda>tag. tag \<noteq> []) (domain_tags m)))"
  have "format_index_line m = (''- '' @ t @ '' '') @ (''('' @ id8 (mem_id m) @ '')'')
      @ (if tags \<noteq> [] then '' '' @ tags else [])"
    by (simp add: format_index_line_def Let_def t_def tags_def del: filter_empty_conv)
  then show ?thesis unfolding mentions_def contains_iff by blast
qed

definition updated_head :: "string \<Rightarrow> bool" where
  "updated_head l \<longleftrightarrow> starts_with l ''Updated:''"

lemma updated_head_line: "updated_head l \<Longrightarrow> \<not> is_header l \<and> \<not> is_entry l"
  by (auto simp: updated_head_def is_header_def is_entry_def starts_with_iff)

lemma updated_line_head [simp]: "updated_head (updated_line today n)"
  by (simp add: updated_head_def updated_line_def)

lemma counted_not_updated [simp]: "\<not> updated_head (counted_header p n)"
  using updated_head_line is_header_counted by blast

text \<open>The name read back from a rewritten header.\<close>

definition clean_name :: "string \<Rightarrow> bool" where
  "clean_name p \<longleftrightarrow> p \<noteq> [] \<and> stripped p \<and> CHR ''('' \<notin> set p"

lemma section_name_counted:
  assumes "clean_name p"
  shows "section_name (counted_header p n) = p"
proof -
  have "takeWhile (\<lambda>c. c \<noteq> CHR ''('') (counted_header p n) = ''## '' @ p @ '' ''"
    using assms by (auto simp: counted_header_def clean_name_def takeWhile_append)
  moreover have "strip (''## '' @ p @ '' '') = ''## '' @ p"
  proof -
    have "stripped (''## '' @ p)" using assms by (auto simp: clean_name_def stripped_def py_space_def)
    moreover have "rstrip ((''## '' @ p) @ [CHR '' '']) = rstrip (''## '' @ p)"
      by (rule rstrip_space) (simp add: py_space_def)
    ultimately show ?thesis by (simp add: strip_def lstrip_def py_space_def rstrip_fix stripped_def)
  qed
  ultimately show ?thesis using assms by (simp add: section_name_def remove_prefix_def clean_name_def)
qed

lemma clean_section_name:
  assumes "is_header l" "contains l ''(''"
  shows "clean_name (section_name l)"
proof -
  let ?u = "takeWhile (\<lambda>c. c \<noteq> CHR ''('') l"
  obtain r where l: "l = ''## '' @ r" using assms(1) by (auto simp: is_header_def starts_with_iff)
  then have u: "?u = ''## '' @ takeWhile (\<lambda>c. c \<noteq> CHR ''('') r" by simp
  let ?s = "remove_prefix ''## '' (strip ?u)"
  have hd: "lstrip ?u = ?u" unfolding u by (simp add: lstrip_def py_space_def)
  then have ne: "strip ?u \<noteq> []"
    unfolding strip_def hd by (simp add: u rstrip_def py_space_def)
  have "strip ?s \<noteq> []"
  proof (cases "starts_with (strip ?u) ''## ''")
    case True
    then obtain y where y: "strip ?u = ''## '' @ y" by (auto simp: starts_with_iff)
    then have "\<not> py_space (last (''## '' @ y))" using stripped_strip [of ?u] by (simp add: stripped_def)
    then have "y \<noteq> []" "\<not> py_space (last y)" by (auto simp: py_space_def split: if_splits)
    then have "strip y \<noteq> []"
      by (metis last_in_set lstrip_def rstrip_fix strip_def dropWhile_eq_Nil_conv rstrip_eq last_appendR
          append_Nil hd_append2 strip_Nil(1) lstrip_eq)
    with y show ?thesis by (simp add: remove_prefix_def)
  next
    case False
    with ne show ?thesis by (simp add: remove_prefix_def)
  qed
  moreover have "CHR ''('' \<notin> set (strip ?s)"
  proof -
    have "set ?s \<subseteq> set (strip ?u)"
      by (auto simp: remove_prefix_def dest: in_set_dropD)
    then have "set (strip ?s) \<subseteq> set ?u"
      using set_strip [of ?s] set_strip [of ?u] by blast
    then show ?thesis by (auto dest: set_takeWhileD)
  qed
  ultimately show ?thesis by (simp add: clean_name_def section_name_def)
qed

lemma contains_paren: "contains s ''('' \<longleftrightarrow> CHR ''('' \<in> set s"
  by (induction s) (auto simp: starts_with_def)

lemma counted_contains [simp]: "contains (counted_header p n) ''(''"
  by (simp add: contains_paren counted_header_def)

section \<open>Counts\<close>

lemma recount_entries [simp]: "filter is_entry (recount_headers ls) = filter is_entry ls"
  by (induction ls) (auto dest: header_not_entry)

lemma recount_in_section:
  "length (filter is_entry (takeWhile (\<lambda>k. \<not> is_header k) (recount_headers ls)))
   = length (filter is_entry (takeWhile (\<lambda>k. \<not> is_header k) ls))"
  by (induction ls) auto

lemma recount_headers_idem [simp]: "recount_headers (recount_headers ls) = recount_headers ls"
  by (induction ls) (auto simp: recount_in_section section_name_counted clean_section_name)

lemma replace_updated_count:
  "updated_head y \<Longrightarrow>
   length (filter is_entry (takeWhile (\<lambda>k. \<not> is_header k) (replace_first updated_head y ls)))
   = length (filter is_entry (takeWhile (\<lambda>k. \<not> is_header k) ls))"
  by (induction ls) (auto dest: updated_head_line)

lemma recount_replace_updated:
  "updated_head y \<Longrightarrow>
   recount_headers (replace_first updated_head y ls) = replace_first updated_head y (recount_headers ls)"
  by (induction ls) (auto simp: replace_updated_count dest: updated_head_line)

lemma replace_first_same [simp]: "P y \<Longrightarrow> replace_first P y (replace_first P y ls) = replace_first P y ls"
  by (induction ls) auto

lemma updated_line_not [simp]: "\<not> is_entry (updated_line today n)" "\<not> is_header (updated_line today n)"
  using updated_head_line [OF updated_line_head] by simp_all

lemma replace_first_filter: "Q y = False \<Longrightarrow> \<forall>x. P x \<longrightarrow> \<not> Q x \<Longrightarrow> filter Q (replace_first P y ls) = filter Q ls"
  by (induction ls) auto

lemma recount_index_eq:
  "recount_index_sections today ls =
     replace_first updated_head (updated_line today (length (filter is_entry ls))) (recount_headers ls)"
  by (simp add: recount_index_sections_def updated_head_def [abs_def] Let_def)

lemma recount_index_entries [simp]: "filter is_entry (recount_index_sections today ls) = filter is_entry ls"
  unfolding recount_index_eq
  by (rule trans [OF replace_first_filter recount_entries]) (auto dest: updated_head_line)

lemma recount_index_idem [simp]:
  "recount_index_sections today (recount_index_sections today ls) = recount_index_sections today ls"
proof -
  let ?y = "updated_line today (length (filter is_entry ls))"
  have "recount_index_sections today (recount_index_sections today ls)
      = replace_first updated_head ?y (recount_headers (recount_index_sections today ls))"
    unfolding recount_index_eq [of today "recount_index_sections today ls"] recount_index_entries ..
  also have "\<dots> = replace_first updated_head ?y (recount_headers ls)"
    by (simp add: recount_index_eq [of today ls] recount_replace_updated)
  also have "\<dots> = recount_index_sections today ls" by (simp only: recount_index_eq)
  finally show ?thesis .
qed

definition headers_counted :: "string list \<Rightarrow> bool" where
  "headers_counted ls \<longleftrightarrow>
     (\<forall>pre l rest. ls = pre @ l # rest \<and> is_header l \<and> contains l ''('' \<longrightarrow>
        l = counted_header (section_name l) (length (filter is_entry (takeWhile (\<lambda>k. \<not> is_header k) rest))))"

definition total_counted :: "string \<Rightarrow> string list \<Rightarrow> bool" where
  "total_counted today ls \<longleftrightarrow>
     (case find updated_head ls of
        None \<Rightarrow> True | Some l \<Rightarrow> l = updated_line today (length (filter is_entry ls)))"

lemma recount_fix_headers: "recount_headers ls = ls \<Longrightarrow> headers_counted ls"
proof (induction ls)
  case Nil
  show ?case by (simp add: headers_counted_def)
next
  case (Cons k ks)
  then have "headers_counted ks" and
    k: "is_header k \<Longrightarrow> contains k ''('' \<Longrightarrow>
      k = counted_header (section_name k) (length (filter is_entry (takeWhile (\<lambda>k. \<not> is_header k) ks)))"
    by auto
  then show ?case by (auto simp: headers_counted_def Cons_eq_append_conv)
qed

lemma find_replace_first: "P y \<Longrightarrow> find P (replace_first P y ls) = None \<or> find P (replace_first P y ls) = Some y"
  by (induction ls) auto

lemma recount_index_counted:
  "headers_counted (recount_index_sections today ls) \<and> total_counted today (recount_index_sections today ls)"
proof
  have "recount_headers (recount_index_sections today ls) = recount_index_sections today ls"
    by (simp add: recount_index_eq recount_replace_updated)
  then show "headers_counted (recount_index_sections today ls)" by (rule recount_fix_headers)
  let ?y = "updated_line today (length (filter is_entry ls))"
  have "find updated_head (recount_index_sections today ls) \<in> {None, Some ?y}"
    using find_replace_first [of updated_head ?y "recount_headers ls"] by (simp add: recount_index_eq)
  then show "total_counted today (recount_index_sections today ls)"
    by (auto simp: total_counted_def)
qed

section \<open>Entries\<close>

lemma insert_below_Some:
  "insert_below h x ls = Some ks \<Longrightarrow>
   \<exists>pre l post. ls = pre @ l # post \<and> ks = pre @ l # x # post \<and> starts_with l h"
proof (induction ls arbitrary: ks)
  case (Cons l ls)
  show ?case
  proof (cases "starts_with l h")
    case True
    with Cons.prems show ?thesis by (auto intro: exI [of _ "[]"])
  next
    case False
    with Cons.prems obtain js where "insert_below h x ls = Some js" "ks = l # js" by auto
    with Cons.IH obtain pre l' post where
      "ls = pre @ l' # post" "js = pre @ l' # x # post" "starts_with l' h" by blast
    with \<open>ks = l # js\<close> show ?thesis by (intro exI [of _ "l # pre"]) auto
  qed
qed simp

lemma place_line_filter:
  assumes "is_entry x"
  shows "mset (filter is_entry (place_line p x ls)) = mset (filter is_entry ls) + {#x#}"
    and "\<not> Q x \<Longrightarrow> filter (\<lambda>l. is_entry l \<and> Q l) (place_line p x ls) = filter (\<lambda>l. is_entry l \<and> Q l) ls"
proof -
  have header: "\<not> is_entry (''## '' @ p @ '' (1 memory)'')"
    by (rule header_not_entry) (simp add: is_header_def)
  show "mset (filter is_entry (place_line p x ls)) = mset (filter is_entry ls) + {#x#}"
    using assms header by (auto simp: place_line_def dest!: insert_below_Some split: option.splits)
  show "\<not> Q x \<Longrightarrow> filter (\<lambda>l. is_entry l \<and> Q l) (place_line p x ls) = filter (\<lambda>l. is_entry l \<and> Q l) ls"
    using assms header by (auto simp: place_line_def dest!: insert_below_Some split: option.splits)
qed

lemma recount_filter_entries:
  "filter (\<lambda>l. is_entry l \<and> Q l) (recount_index_sections today ls) = filter (\<lambda>l. is_entry l \<and> Q l) ls"
proof -
  have "filter (\<lambda>l. is_entry l \<and> Q l) ks = filter Q (filter is_entry ks)" for ks
    by (induction ks) auto
  then show ?thesis by (simp only: recount_index_entries)
qed

lemma mset_singleton_filter: "mset (filter P ys) = {#x#} \<Longrightarrow> filter P ys = [x]"
  by (metis mset_single_iff)

text \<open>What one update does to the entries, line by line.\<close>

lemma append_or_update_entries:
  "filter (\<lambda>l. is_entry l \<and> mentions (id8 (mem_id m)) l) (append_or_update_lines today m ls) = [format_index_line m]"
  "filter (\<lambda>l. is_entry l \<and> \<not> mentions (id8 (mem_id m)) l) (append_or_update_lines today m ls)
     = filter (\<lambda>l. is_entry l \<and> \<not> mentions (id8 (mem_id m)) l) ls"
proof -
  let ?i = "id8 (mem_id m)"
  let ?x = "format_index_line m"
  let ?p = "place_line (extract_project m) ?x (without_entry ?i ls)"
  have own: "filter (\<lambda>l. is_entry l \<and> mentions ?i l) (without_entry ?i ls) = []"
    and other: "filter (\<lambda>l. is_entry l \<and> \<not> mentions ?i l) (without_entry ?i ls)
      = filter (\<lambda>l. is_entry l \<and> \<not> mentions ?i l) ls"
    by (auto simp: without_entry_def filter_empty_conv intro: filter_cong)
  have split: "filter (\<lambda>l. is_entry l \<and> mentions ?i l) ks = filter (mentions ?i) (filter is_entry ks)" for ks
    by (induction ks) auto
  have "mset (filter is_entry ?p) = mset (filter is_entry (without_entry ?i ls)) + {#?x#}"
    by (rule place_line_filter(1)) simp
  then have "mset (filter (\<lambda>l. is_entry l \<and> mentions ?i l) ?p)
      = {#?x#} + mset (filter (\<lambda>l. is_entry l \<and> mentions ?i l) (without_entry ?i ls))"
    unfolding split by (simp only: mset_filter) simp
  with own have "mset (filter (\<lambda>l. is_entry l \<and> mentions ?i l) ?p) = {#?x#}" by simp
  from mset_singleton_filter [OF this]
  show "filter (\<lambda>l. is_entry l \<and> mentions ?i l) (append_or_update_lines today m ls) = [?x]"
    by (simp add: append_or_update_lines_def recount_filter_entries)
  have "filter (\<lambda>l. is_entry l \<and> \<not> mentions ?i l) ?p
      = filter (\<lambda>l. is_entry l \<and> \<not> mentions ?i l) (without_entry ?i ls)"
    by (rule place_line_filter(2)) simp_all
  then show "filter (\<lambda>l. is_entry l \<and> \<not> mentions ?i l) (append_or_update_lines today m ls)
      = filter (\<lambda>l. is_entry l \<and> \<not> mentions ?i l) ls"
    by (simp add: append_or_update_lines_def recount_filter_entries other)
qed

section \<open>The text\<close>

definition one_line :: "string \<Rightarrow> bool" where
  "one_line s \<longleftrightarrow> NL \<notin> set s"

definition one_line_memory :: "memory \<Rightarrow> bool" where
  "one_line_memory m \<longleftrightarrow> one_line (extract_project m) \<and> one_line (mem_id m) \<and> list_all one_line (domain_tags m)"

lemma one_line_simps [simp]:
  "one_line []" "one_line (s @ t) \<longleftrightarrow> one_line s \<and> one_line t" "one_line (c # s) \<longleftrightarrow> c \<noteq> NL \<and> one_line s"
  by (auto simp: one_line_def)

lemma one_line_sub: "set s \<subseteq> set t \<Longrightarrow> one_line t \<Longrightarrow> one_line s"
  by (auto simp: one_line_def)

lemma one_line_take [simp]: "one_line s \<Longrightarrow> one_line (take n s)"
  by (rule one_line_sub [OF set_take_subset])

lemma one_line_strip [simp]: "one_line s \<Longrightarrow> one_line (strip s)"
  by (rule one_line_sub [OF set_strip])

lemma one_line_first_line [simp]: "one_line (first_line s)"
  by (auto simp: one_line_def first_line_def dest: set_takeWhileD)

lemma one_line_nat [simp]: "one_line (str_of_nat n)"
  using set_str_of_nat [of NL n] by (auto simp: one_line_def is_digit_def less_eq_char_def)

lemma one_line_join: "one_line sep \<Longrightarrow> \<forall>w \<in> set ws. one_line w \<Longrightarrow> one_line (join sep ws)"
  by (induction sep ws rule: join.induct) auto

lemma one_line_format: "one_line_memory m \<Longrightarrow> one_line (format_index_line m)"
  by (auto simp: format_index_line_def Let_def one_line_memory_def list_all_iff intro!: one_line_join)

lemma one_line_section_name: "one_line l \<Longrightarrow> one_line (section_name l)"
proof -
  assume l: "one_line l"
  have "set (remove_prefix ''## '' (strip (takeWhile (\<lambda>c. c \<noteq> CHR ''('') l))) \<subseteq> set l"
    using set_strip [of "takeWhile (\<lambda>c. c \<noteq> CHR ''('') l"]
    by (auto simp: remove_prefix_def dest!: in_set_dropD dest: set_takeWhileD)
  then show ?thesis using l unfolding section_name_def by (intro one_line_strip) (rule one_line_sub)
qed

lemma one_line_counted [simp]: "one_line p \<Longrightarrow> one_line (counted_header p n)"
  by (simp add: counted_header_def)

lemma one_line_updated [simp]: "one_line today \<Longrightarrow> one_line (updated_line today n)"
  by (simp add: updated_line_def)

lemma one_line_recount: "\<forall>l \<in> set ls. one_line l \<Longrightarrow> \<forall>l \<in> set (recount_headers ls). one_line l"
  by (induction ls) (auto simp: one_line_section_name)

lemma set_replace_first: "set (replace_first P y ls) \<subseteq> insert y (set ls)"
  by (induction ls) auto

lemma one_line_recount_index:
  "one_line today \<Longrightarrow> \<forall>l \<in> set ls. one_line l \<Longrightarrow> \<forall>l \<in> set (recount_index_sections today ls). one_line l"
  using set_replace_first [of updated_head "updated_line today (length (filter is_entry ls))" "recount_headers ls"]
    one_line_recount [of ls] one_line_updated [of today] unfolding recount_index_eq by blast

lemma set_place_line:
  "set (place_line p x ls) \<subseteq> set ls \<union> {[], ''## '' @ p @ '' (1 memory)'', x}"
  by (auto simp: place_line_def dest!: insert_below_Some split: option.splits)

lemma place_line_ne [simp]: "place_line p x ls \<noteq> []"
  by (auto simp: place_line_def dest!: insert_below_Some split: option.splits)

lemma replace_first_Nil [simp]: "replace_first P y ls = [] \<longleftrightarrow> ls = []"
  by (cases ls) auto

lemma recount_headers_Nil [simp]: "recount_headers ls = [] \<longleftrightarrow> ls = []"
  by (cases ls) auto

lemma recount_index_Nil [simp]: "recount_index_sections today ls = [] \<longleftrightarrow> ls = []"
  by (simp add: recount_index_eq)

definition entries_of :: "string \<Rightarrow> string list" where
  "entries_of c = filter is_entry (split_char NL c)"

lemma lines_of_update:
  assumes "one_line today" "one_line_memory m"
  shows "split_char NL (join [NL] (append_or_update_lines today m (split_char NL c)))
    = append_or_update_lines today m (split_char NL c)"
proof (rule split_char_join)
  show "append_or_update_lines today m (split_char NL c) \<noteq> []" by (simp add: append_or_update_lines_def)
  have "\<forall>l \<in> set (without_entry (id8 (mem_id m)) (split_char NL c)). one_line l"
    using split_char_parts [of _ NL c] by (auto simp: without_entry_def one_line_def)
  then have "\<forall>l \<in> set (place_line (extract_project m) (format_index_line m)
      (without_entry (id8 (mem_id m)) (split_char NL c))). one_line l"
    using set_place_line one_line_format [OF assms(2)] assms(2)
    by (fastforce simp: one_line_memory_def)
  from one_line_recount_index [OF assms(1) this]
  show "\<forall>w \<in> set (append_or_update_lines today m (split_char NL c)). NL \<notin> set w"
    by (simp add: append_or_update_lines_def one_line_def)
qed

text \<open>
  Updating the index after a save is exact. Of the entries of the new index those that
  name the saved memory's id are exactly one, its own line; the entries that do not name it
  are the old ones in their old order; every section header counts its entries and the
  total counts them all.
\<close>

theorem index_update_exact:
  assumes "one_line today" "one_line_memory m"
    and "append_or_update_index_line today m (Some c) = Some c'"
  shows "filter (mentions (id8 (mem_id m))) (entries_of c') = [format_index_line m] \<and>
    filter (\<lambda>l. \<not> mentions (id8 (mem_id m)) l) (entries_of c')
      = filter (\<lambda>l. \<not> mentions (id8 (mem_id m)) l) (entries_of c) \<and>
    headers_counted (split_char NL c') \<and> total_counted today (split_char NL c')"
proof -
  let ?ls = "split_char NL c"
  have c': "split_char NL c' = append_or_update_lines today m ?ls"
    using assms(3) lines_of_update [OF assms(1,2)] by (auto simp: append_or_update_index_line_def)
  have conj: "filter Q (filter is_entry ks) = filter (\<lambda>l. is_entry l \<and> Q l) ks" for Q ks
    by (induction ks) auto
  show ?thesis
    using append_or_update_entries [of m today ?ls] recount_index_counted
    unfolding entries_of_def c' conj by (simp add: append_or_update_lines_def)
qed

theorem index_update_exact_witness:
  "\<exists>c'. append_or_update_index_line ''2026-06-11'' (blank_memory ''aaaaaaaa'' ''T'' ''E'') (Some []) = Some c' \<and>
     filter (mentions ''aaaaaaaa'') (entries_of c') = [''- T (aaaaaaaa)'']"
proof -
  let ?m = "blank_memory ''aaaaaaaa'' ''T'' ''E''"
  obtain c' where c': "append_or_update_index_line ''2026-06-11'' ?m (Some []) = Some c'"
    by (simp add: append_or_update_index_line_def)
  have "one_line_memory ?m"
    by (simp add: one_line_memory_def extract_project_def bracket_tag_def blank_memory_def)
  from index_update_exact [OF _ this c'] c' show ?thesis
    by (simp add: format_index_line_def drop_bracket_tag_def bracket_tag_def first_line_def blank_memory_def
        strip_def lstrip_def rstrip_def py_space_def)
qed

section \<open>The generated index\<close>

lemma map_of_group:
  "map_of (foldl (\<lambda>d m. AList.update (f m) ((case map_of d (f m) of None \<Rightarrow> [] | Some l \<Rightarrow> l) @ [m]) d) d ms) p
   = (if filter (\<lambda>m. f m = p) ms = [] then map_of d p
      else Some ((case map_of d p of None \<Rightarrow> [] | Some l \<Rightarrow> l) @ filter (\<lambda>m. f m = p) ms))"
  by (induction ms arbitrary: d) (auto simp: dict_simps)

lemma wf_group:
  "wf_dict d \<Longrightarrow>
   wf_dict (foldl (\<lambda>d m. AList.update (f m) ((case map_of d (f m) of None \<Rightarrow> [] | Some l \<Rightarrow> l) @ [m]) d) d ms)"
  by (induction ms arbitrary: d) auto

lemma group_by_project_of:
  "map_of (group_by_project ms) p =
     (if filter (\<lambda>m. extract_project m = p) ms = [] then None
      else Some (filter (\<lambda>m. extract_project m = p) ms))"
  by (simp add: group_by_project_def map_of_group)

lemma set_sorted_projects: "set (sorted_projects (group_by_project ms)) = extract_project ` set ms"
proof -
  let ?d = "group_by_project ms"
  have "p \<in> fst ` set ?d \<longleftrightarrow> p \<in> extract_project ` set ms" for p
    using map_of_eq_None_iff [of ?d p] by (auto simp: group_by_project_of filter_empty_conv split: if_splits)
  then have "fst ` set ?d = extract_project ` set ms" by blast
  moreover have "map_of ?d ''general'' = None \<longleftrightarrow> ''general'' \<notin> fst ` set ?d"
    by (rule map_of_eq_None_iff)
  ultimately have "set (sorted_projects ?d) = fst ` set ?d"
    by (auto simp: sorted_projects_def image_iff)
  then show ?thesis using \<open>fst ` set ?d = extract_project ` set ms\<close> by simp
qed

lemma distinct_sorted_projects: "distinct (sorted_projects (group_by_project ms))"
proof -
  have "wf_dict (group_by_project ms)" by (simp add: group_by_project_def wf_group)
  then show ?thesis by (auto simp: sorted_projects_def wf_dict_def)
qed

lemma mset_concat_groups:
  "distinct ps \<Longrightarrow>
   mset (concat (map (\<lambda>p. filter (\<lambda>m. f m = p) ms) ps)) = mset (filter (\<lambda>m. f m \<in> set ps) ms)"
proof (induction ps)
  case (Cons p ps)
  have "p \<notin> set ps \<Longrightarrow>
      mset (filter (\<lambda>m. f m \<in> set (p # ps)) ms) = mset (filter (\<lambda>m. f m = p) ms) + mset (filter (\<lambda>m. f m \<in> set ps) ms)"
    by (induction ms) auto
  with Cons show ?case by simp
qed simp

lemma collect_Some:
  "collect f xs = Some ys \<Longrightarrow> \<exists>yss. list_all2 (\<lambda>x zs. f x = Some zs) xs yss \<and> ys = concat yss"
proof (induction xs arbitrary: ys)
  case (Cons x xs)
  then obtain zs rest where "f x = Some zs" "collect f xs = Some rest" "ys = zs @ rest"
    by (auto split: option.splits)
  moreover from this Cons.IH obtain yss where "list_all2 (\<lambda>x zs. f x = Some zs) xs yss" "rest = concat yss"
    by blast
  ultimately show ?case by (intro exI [of _ "zs # yss"]) simp
qed simp

definition is_section :: "string list \<Rightarrow> bool" where
  "is_section ls \<longleftrightarrow> (\<exists>p ms. clean_name p \<and> ls = section_lines_of p ms)"

lemma takeWhile_entries:
  "takeWhile (\<lambda>k. \<not> is_header k) (map format_index_line ms @ ls)
   = map format_index_line ms @ takeWhile (\<lambda>k. \<not> is_header k) ls"
  by (induction ms) auto

lemma recount_formatted: "recount_headers (map format_index_line ms @ ls) = map format_index_line ms @ recount_headers ls"
  by (induction ms) auto

lemma recount_sections:
  "\<forall>s \<in> set secs. is_section s \<Longrightarrow> recount_headers (concat secs @ [[]]) = concat secs @ [[]]"
proof (induction secs)
  case (Cons s secs)
  obtain p ms where s: "s = section_lines_of p ms" "clean_name p" using Cons.prems by (auto simp: is_section_def)
  have none: "filter is_entry (takeWhile (\<lambda>k. \<not> is_header k) (concat secs @ [[]])) = []"
  proof (cases secs)
    case (Cons t ts)
    with Cons.prems obtain q ns where "t = section_lines_of q ns" by (auto simp: is_section_def)
    with Cons show ?thesis by (simp add: section_lines_of_def)
  qed simp
  show ?case
    using Cons none s
    by (simp add: section_lines_of_def takeWhile_entries recount_formatted section_name_counted filter_id_conv)
qed simp

lemma entries_of_section: "filter is_entry (section_lines_of p ms) = map format_index_line ms"
  by (induction ms) (simp_all add: section_lines_of_def)

lemma sort_by_date_mset: "sort_by_date ms = Some ns \<Longrightarrow> mset ns = mset ms"
  by (auto simp: sort_by_date_def split: if_splits)

lemma sections_entries:
  assumes "list_all2 (\<lambda>p zs. map_option (section_lines_of p) (sort_by_date (g p)) = Some zs) ps secs"
  shows "mset (filter is_entry (concat secs)) = mset (map format_index_line (concat (map g ps)))"
  using assms
proof (induction rule: list_all2_induct)
  case (Cons p ps s secs)
  then obtain ns where "sort_by_date (g p) = Some ns" "s = section_lines_of p ns" by auto
  with Cons.IH show ?case by (simp add: entries_of_section sort_by_date_mset)
qed simp

lemma sections_ok:
  assumes "list_all2 (\<lambda>p zs. map_option (section_lines_of p) (sort_by_date (g p)) = Some zs) ps secs"
    and "\<forall>p \<in> set ps. clean_name p \<and> one_line p" "\<forall>p \<in> set ps. \<forall>m \<in> set (g p). one_line_memory m"
  shows "(\<forall>s \<in> set secs. is_section s) \<and> (\<forall>l \<in> set (concat secs). one_line l)"
  using assms
proof (induction rule: list_all2_induct)
  case (Cons p ps s secs)
  then obtain ns where ns: "sort_by_date (g p) = Some ns" "s = section_lines_of p ns" by auto
  then have "set ns = set (g p)" using sort_by_date_mset mset_eq_setD by blast
  with Cons ns show ?case
    by (auto simp: is_section_def section_lines_of_def one_line_format)
qed simp

text \<open>
  The generated index is right and stable. When project names are plain, it has exactly
  one entry per memory, every header counts its section and the total counts all, and
  recounting it (what every later update does) leaves it as it is.
\<close>

theorem generated_index_consistent:
  assumes "generate_index today ms = Some c" "one_line today"
    and "\<forall>m \<in> set ms. clean_name (extract_project m) \<and> one_line_memory m"
  shows "mset (entries_of c) = mset (map format_index_line ms) \<and>
    headers_counted (split_char NL c) \<and> total_counted today (split_char NL c) \<and>
    recount_index_sections today (split_char NL c) = split_char NL c"
proof -
  let ?d = "group_by_project ms"
  let ?g = "\<lambda>p. the (map_of ?d p)"
  let ?ps = "sorted_projects ?d"
  let ?u = "updated_line today (length ms)"
  obtain body where body: "collect (\<lambda>p. map_option (section_lines_of p) (sort_by_date (?g p))) ?ps = Some body"
    and c: "c = join [NL] ([''# memem Memory Index'', ?u] @ body) @ [NL]"
    using assms(1) by (auto simp: generate_index_def generate_index_lines_def Let_def)
  obtain secs where secs: "list_all2 (\<lambda>p zs. map_option (section_lines_of p) (sort_by_date (?g p)) = Some zs) ?ps secs"
    and body_eq: "body = concat secs"
    using collect_Some [OF body] by blast
  have groups: "?g p = filter (\<lambda>m. extract_project m = p) ms" if "p \<in> set ?ps" for p
    using that by (auto simp: group_by_project_of set_sorted_projects filter_empty_conv)
  have plain: "\<forall>p \<in> set ?ps. clean_name p \<and> one_line p" "\<forall>p \<in> set ?ps. \<forall>m \<in> set (?g p). one_line_memory m"
    using assms(3) groups by (auto simp: set_sorted_projects one_line_memory_def)
  note ok = sections_ok [OF secs plain]
  let ?ls = "[''# memem Memory Index'', ?u] @ body @ [[]]"
  have "\<forall>l \<in> set ?ls. NL \<notin> set l"
    using ok assms(2) one_line_updated [of today "length ms"] by (auto simp: body_eq one_line_def)
  moreover have "join [NL] ?ls = c"
    using join_snoc [of "[''# memem Memory Index'', ?u] @ body" "[NL]" "[]"] by (simp add: c)
  ultimately have split: "split_char NL c = ?ls"
    using split_char_join [of ?ls NL] by fastforce
  have "mset (concat (map ?g ?ps)) = mset (concat (map (\<lambda>p. filter (\<lambda>m. extract_project m = p) ms) ?ps))"
    using groups by (metis (no_types, lifting) map_cong)
  also have "\<dots> = mset ms"
    using mset_concat_groups [OF distinct_sorted_projects, of extract_project ms ms]
    by (simp add: set_sorted_projects filter_id_conv)
  finally have all: "mset (filter is_entry body) = mset (map format_index_line ms)"
    using sections_entries [OF secs] by (simp add: body_eq)
  have title: "\<not> is_entry ''# memem Memory Index''" "\<not> is_header ''# memem Memory Index''"
    "\<not> updated_head ''# memem Memory Index''"
    by (simp_all add: is_entry_def is_header_def updated_head_def)
  have entries: "filter is_entry ?ls = filter is_entry body" using title by simp
  have count: "length (filter is_entry ?ls) = length ms"
    unfolding entries using arg_cong [OF all, of size] by (simp only: size_mset length_map)
  have "recount_headers ?ls = ?ls"
    using recount_sections [of secs] ok title by (simp add: body_eq)
  then have "recount_index_sections today ?ls = ?ls"
    unfolding recount_index_eq count using title by simp
  then show ?thesis
    using recount_index_counted [of today ?ls] all entries by (simp add: split entries_of_def)
qed

theorem generated_index_consistent_witness:
  "\<exists>c. generate_index ''2026-06-11'' [blank_memory ''aaaaaaaa'' ''T'' ''E''] = Some c \<and> length (entries_of c) = 1"
proof -
  let ?m = "blank_memory ''aaaaaaaa'' ''T'' ''E''"
  have proj: "extract_project ?m = ''general''"
    by (simp add: extract_project_def bracket_tag_def)
  have "memory_date_key ?m = (True, datetime_min)"
    by (simp add: memory_date_key_def replace_char_def fromisoformat_def read_date_def read_digits_def)
  then obtain c where c: "generate_index ''2026-06-11'' [?m] = Some c"
    by (simp add: generate_index_def generate_index_lines_def group_by_project_def proj sorted_projects_def
        sort_by_date_def)
  have "mset (entries_of c) = mset (map format_index_line [?m])"
    using generated_index_consistent [OF c]
    by (simp add: proj clean_name_def stripped_def py_space_def one_line_memory_def)
  from arg_cong [OF this, of size] have "length (entries_of c) = 1"
    by (simp only: size_mset length_map) simp
  with c show ?thesis by blast
qed

section \<open>Where it goes wrong\<close>

text \<open>A project whose name has a parenthesis loses it to the recount: its memory is filed
  in a section of another name, which the next update of the project will not find.\<close>

theorem parenthesis_renames_section:
  "append_or_update_lines ''2026-06-11'' ((blank_memory ''aaaaaaaa'' ''T'' ''E'')\<lparr>project := ''a(b)''\<rparr>) []
   = [[], ''## a (1 memory)'', ''- T (aaaaaaaa)'']"
  by code_simp

text \<open>One memory dated by hand without an offset, beside one the program dated, and the
  index of their project cannot be generated.\<close>

theorem mixed_dates_break_index:
  "generate_index ''2026-06-11''
     [(blank_memory ''aaaaaaaa'' ''T'' ''E'')\<lparr>created_at := ''2026-06-01''\<rparr>,
      (blank_memory ''bbbbbbbb'' ''U'' ''F'')\<lparr>created_at := ''2026-06-02T10:00:00+00:00''\<rparr>] = None"
  by code_simp

end
