(* ===== verification/Notes.thy ===== *)
theory Notes
  imports IndexFile Regex
begin

text \<open>
  A memory as a Markdown note: \<^verbatim>\<open>_make_memory\<close>, the part of \<^verbatim>\<open>_write_obsidian_memory\<close> that
  turns a memory into a file name and a text, and \<^verbatim>\<open>_parse_obsidian_memory_file\<close>, the way
  back. The YAML library is not part of the repository: \<open>x_dumps\<close> and \<open>x_loads\<close> stand for
  \<^verbatim>\<open>frontmatter.dumps\<close> and \<^verbatim>\<open>frontmatter.loads\<close> (\<open>None\<close> when it raises), \<open>x_list_text\<close> for
  the text \<^verbatim>\<open>str\<close> gives of a list.
\<close>

section \<open>Values of the front matter\<close>

text \<open>A date or time carries its ISO form and its \<^verbatim>\<open>str\<close> form, a float its value and text,
  any other object its truth value and text.\<close>

datatype yval =
    YNull
  | YBool bool
  | YInt int
  | YFloat real string
  | YStr string
  | YTime string string
  | YList "yval list"
  | YOther bool string

type_synonym meta = "(string, yval) dict"

record ext =
  x_aliases :: "(string, string) dict"
  x_dumps :: "meta \<Rightarrow> string \<Rightarrow> string"
  x_loads :: "string \<Rightarrow> (meta \<times> string) option"
  x_list_text :: "yval list \<Rightarrow> string"

fun truthy :: "yval \<Rightarrow> bool" where
  "truthy YNull \<longleftrightarrow> False"
| "truthy (YBool b) \<longleftrightarrow> b"
| "truthy (YInt i) \<longleftrightarrow> i \<noteq> 0"
| "truthy (YFloat r _) \<longleftrightarrow> r \<noteq> 0"
| "truthy (YStr s) \<longleftrightarrow> s \<noteq> []"
| "truthy (YTime _ _) \<longleftrightarrow> True"
| "truthy (YList xs) \<longleftrightarrow> xs \<noteq> []"
| "truthy (YOther b _) \<longleftrightarrow> b"

fun py_str :: "ext \<Rightarrow> yval \<Rightarrow> string" where
  "py_str X YNull = ''None''"
| "py_str X (YBool b) = (if b then ''True'' else ''False'')"
| "py_str X (YInt i) = str_of_int i"
| "py_str X (YFloat _ t) = t"
| "py_str X (YStr s) = s"
| "py_str X (YTime _ t) = t"
| "py_str X (YList xs) = x_list_text X xs"
| "py_str X (YOther _ t) = t"

definition fm_val_to_str :: "ext \<Rightarrow> yval \<Rightarrow> string" where
  "fm_val_to_str X v =
     (case v of YNull \<Rightarrow> [] | YTime t _ \<Rightarrow> t | _ \<Rightarrow> py_str X v)"

text \<open>\<^verbatim>\<open>int(s)\<close> on a text: surrounding space, a sign, digits with single underscores between.\<close>

fun digits_underscored :: "string \<Rightarrow> bool" where
  "digits_underscored [] \<longleftrightarrow> False"
| "digits_underscored [c] \<longleftrightarrow> is_digit c"
| "digits_underscored (c # d # s) \<longleftrightarrow>
     is_digit c \<and> (if d = CHR ''_'' then digits_underscored s else digits_underscored (d # s))"

definition nat_of_text :: "string \<Rightarrow> nat option" where
  "nat_of_text s =
     (if digits_underscored s then Some (nat_of_digits 0 (filter is_digit s)) else None)"

definition int_of_text :: "string \<Rightarrow> int option" where
  "int_of_text s =
     (case strip s of
        CHR ''-'' # t \<Rightarrow> map_option (\<lambda>n. - int n) (nat_of_text t)
      | CHR ''+'' # t \<Rightarrow> map_option int (nat_of_text t)
      | t \<Rightarrow> map_option int (nat_of_text t))"

definition truncate_real :: "real \<Rightarrow> int" where
  "truncate_real r = (if 0 \<le> r then \<lfloor>r\<rfloor> else - \<lfloor>- r\<rfloor>)"

text \<open>\<^verbatim>\<open>int(v)\<close>, \<open>None\<close> for a \<^verbatim>\<open>TypeError\<close> or \<^verbatim>\<open>ValueError\<close>.\<close>

fun py_int :: "yval \<Rightarrow> int option" where
  "py_int (YBool b) = Some (if b then 1 else 0)"
| "py_int (YInt i) = Some i"
| "py_int (YFloat r _) = Some (truncate_real r)"
| "py_int (YStr s) = int_of_text s"
| "py_int _ = None"

section \<open>Making a memory\<close>

datatype store_error =
    ValueError string
  | ObsidianUnavailable

text \<open>\<open>scan\<close> is the threat scan, \<open>fresh\<close> the new uuid4, \<open>now\<close> the clock.\<close>

definition make_memory ::
  "(string \<Rightarrow> string option) \<Rightarrow> string \<Rightarrow> string \<Rightarrow> string \<Rightarrow> string \<Rightarrow> string list \<Rightarrow> string \<Rightarrow> string \<Rightarrow> string \<Rightarrow> int \<Rightarrow>
   int option \<Rightarrow> string list \<Rightarrow> store_error + memory" where
  "make_memory scan fresh now content ttl tags proj source sess imp lay ks =
     (let stripped_text = strip_of ''.'' (strip content) in
      if length stripped_text < 10
      then Inl (ValueError (''Content too short ('' @ str_of_nat (length stripped_text) @ '' chars): rejected as junk''))
      else (case scan content of
        Some threat \<Rightarrow> Inl (ValueError threat)
      | None \<Rightarrow>
          (case (if ttl = [] then None else scan ttl) of
             Some threat \<Rightarrow> Inl (ValueError (''Title: '' @ threat))
           | None \<Rightarrow>
               let p = strip (if proj = [] then ''general'' else proj);
                   m = \<lparr>mem_id = fresh, title = ttl, essence = content, domain_tags = tags,
                        project = (if p = [] then ''general'' else p), source_type = source,
                        source_session = sess, importance = imp, status = ''active'', valid_to = [],
                        related = [], contradicts = [], created_at = now, updated_at = now,
                        mem_file = [], obsidian_file = [], schema_version = 1, layer = lay,
                        keys = ks, paths = [], references = [], valid_at = now, invalid_at = None,
                        replaced_by = None, clustered_into = None, last_accessed_at = now,
                        access_count = 0, decay_immune = False\<rparr>
               in (case lay of
                     None \<Rightarrow> Inr m
                   | Some l \<Rightarrow> if 0 \<le> l \<and> l \<le> 3 then Inr m
                               else Inl (ValueError (''layer must be int 0-3, got '' @ str_of_int l))))))"

definition stable_mined_memory_id :: "(string \<Rightarrow> string) \<Rightarrow> string \<Rightarrow> string \<Rightarrow> string \<Rightarrow> string" where
  \<comment> \<open>\<open>uuid5\<close> is \<^verbatim>\<open>uuid.uuid5\<close> in the URL namespace\<close>
  "stable_mined_memory_id uuid5 session ttl content =
     uuid5 (session @ [NL] @ strip ttl @ [NL] @ strip content)"

section \<open>Writing a note\<close>

definition related_header :: string where
  "related_header = NL # NL # ''## Related'' @ [NL]"

text \<open>\<^verbatim>\<open>(?:\n\n## Related\n(?:- \[\[[^\]\n]+\]\]\n?)+)+\s*$\<close>\<close>

definition generated_related_section :: re where
  "generated_related_section =
     cats [plus (Cat (lit related_header)
             (plus (cats [lit ''- [['', plus (Chars (\<lambda>c. c \<noteq> CHR '']'' \<and> c \<noteq> NL)), lit '']]'', opt (lit [NL])]))),
           Star space, Eol]"

definition strip_generated_related :: "string \<Rightarrow> string" where
  "strip_generated_related body = rstrip (re_delete generated_related_section body)"

definition note_filename :: "memory \<Rightarrow> string" where
  "note_filename m =
     (let slug = slugify (title m) 60;
          slug = (if slug = [] then id8 (mem_id m) else slug)
      in slug @ ''-'' @ id8 (mem_id m) @ ''.md'')"

definition safe_tag :: "string \<Rightarrow> string" where
  "safe_tag v =
     strip (filter (\<lambda>c. c \<notin> {CHR ''['', CHR '']'', CHR '',''})
       (map (\<lambda>c. if c = CHR 0x0D \<or> c = NL then CHR '' '' else c) v))"

definition safe_list :: "string list \<Rightarrow> string list" where
  "safe_list ts = filter (\<lambda>t. t \<noteq> []) (map safe_tag ts)"

definition safe_related :: "memory \<Rightarrow> string list" where
  "safe_related m = uniq (filter (\<lambda>t. t \<noteq> []) (map (\<lambda>i. safe_tag (id8 i)) (related m)))"

definition safe_keys :: "memory \<Rightarrow> string list" where
  "safe_keys m = map (take 60) (safe_list (keys m))"

abbreviation ystrs :: "string list \<Rightarrow> yval" where "ystrs ss \<equiv> YList (map YStr ss)"

definition optional :: "bool \<Rightarrow> string \<Rightarrow> yval \<Rightarrow> meta" where
  "optional b k v = (if b then [(k, v)] else [])"

definition opt_text :: "string \<Rightarrow> string option \<Rightarrow> meta" where
  "opt_text k v = (case v of None \<Rightarrow> [] | Some s \<Rightarrow> [(k, YStr s)])"

text \<open>The metadata in the order of the source.\<close>

definition note_meta :: "memory \<Rightarrow> meta" where
  "note_meta m =
     [(''id'', YStr (mem_id m)),
      (''schema_version'', YInt (schema_version m)),
      (''title'', YStr (drop_bracket_tag (title m))),
      (''project'', YStr (safe_tag (project m))),
      (''tags'', ystrs (safe_list (domain_tags m)))]
     @ optional (safe_keys m \<noteq> []) ''keys'' (ystrs (safe_keys m))
     @ optional (safe_related m \<noteq> []) ''related'' (ystrs (safe_related m))
     @ [(''created'', YStr (created_at m)),
        (''updated'', YStr (updated_at m)),
        (''source_type'', YStr (source_type m)),
        (''source_session'', YStr (source_session m)),
        (''importance'', YInt (importance m)),
        (''status'', YStr (status m)),
        (''valid_to'', YStr (valid_to m))]
     @ (case layer m of None \<Rightarrow> [] | Some l \<Rightarrow> [(''layer'', YInt l)])
     @ [(''valid_at'', YStr (if valid_at m \<noteq> [] then valid_at m else created_at m))]
     @ opt_text ''invalid_at'' (invalid_at m)
     @ opt_text ''replaced_by'' (replaced_by m)
     @ opt_text ''clustered_into'' (clustered_into m)
     @ optional (references m \<noteq> []) ''references'' (ystrs (safe_list (references m)))
     @ optional (contradicts m \<noteq> []) ''contradicts'' (ystrs (safe_list (contradicts m)))
     @ [(''last_accessed_at'', YStr (last_accessed_at m)),
        (''access_count'', YInt (access_count m)),
        (''decay_immune'', YBool (decay_immune m))]
     @ optional (paths m \<noteq> []) ''paths'' (ystrs (filter (\<lambda>p. p \<noteq> []) (paths m)))"

definition stem_of :: "string \<Rightarrow> string" where
  "stem_of f = take (length f - 3) f"

text \<open>\<^verbatim>\<open>glob(f"*-{rid}.md")\<close> over the file names in the directory's order; ids hold no
  wildcard.\<close>

definition glob_id :: "string list \<Rightarrow> string \<Rightarrow> string list" where
  "glob_id names rid = filter (\<lambda>f. ends_with f (''-'' @ rid @ ''.md'')) names"

definition link_of :: "string \<Rightarrow> string" where
  "link_of w = ''- [['' @ w @ '']]''"

definition link_lines :: "string list \<Rightarrow> string list \<Rightarrow> string list" where
  "link_lines names rids =
     concat (map (\<lambda>rid.
       let rid = id8 (strip rid) in
       if rid = [] then []
       else (case glob_id names rid of [] \<Rightarrow> [] | f # _ \<Rightarrow> [link_of (stem_of f)])) rids)"

definition note_body :: "string list \<Rightarrow> memory \<Rightarrow> string" where
  "note_body names m =
     (let links = link_lines names (safe_related m) in
      strip_generated_related (essence m)
      @ (if links \<noteq> [] then related_header @ join [NL] links @ [NL] else []))"

definition note_text :: "ext \<Rightarrow> string list \<Rightarrow> memory \<Rightarrow> string" where
  "note_text X names m = x_dumps X (note_meta m) (note_body names m)"

section \<open>Reading a note\<close>

definition meta_get :: "meta \<Rightarrow> string \<Rightarrow> yval" where  \<comment> \<open>\<^verbatim>\<open>.get(k)\<close>\<close>
  "meta_get d k = (case map_of d k of None \<Rightarrow> YNull | Some v \<Rightarrow> v)"

definition str_if_truthy :: "ext \<Rightarrow> meta \<Rightarrow> string \<Rightarrow> string \<Rightarrow> string" where
  "str_if_truthy X d k dflt = (if truthy (meta_get d k) then py_str X (meta_get d k) else dflt)"

definition str_list :: "ext \<Rightarrow> meta \<Rightarrow> string \<Rightarrow> string list" where
  "str_list X d k = (case meta_get d k of YList vs \<Rightarrow> map (py_str X) vs | _ \<Rightarrow> [])"

definition text_field :: "ext \<Rightarrow> meta \<Rightarrow> string \<Rightarrow> string" where  \<comment> \<open>\<^verbatim>\<open>_fm_val_to_str(meta.get(k, ""))\<close>\<close>
  "text_field X d k = fm_val_to_str X (meta_get d k)"

definition int_field :: "meta \<Rightarrow> string \<Rightarrow> int \<Rightarrow> int" where
  "int_field d k dflt =
     (case meta_get d k of YNull \<Rightarrow> dflt | v \<Rightarrow> (case py_int v of None \<Rightarrow> dflt | Some i \<Rightarrow> i))"

definition opt_int_field :: "meta \<Rightarrow> string \<Rightarrow> int option" where
  "opt_int_field d k = (case meta_get d k of YNull \<Rightarrow> None | v \<Rightarrow> py_int v)"

definition bool_field :: "ext \<Rightarrow> meta \<Rightarrow> string \<Rightarrow> bool \<Rightarrow> bool" where
  "bool_field X d k dflt =
     (case meta_get d k of
        YNull \<Rightarrow> dflt | YBool b \<Rightarrow> b
      | v \<Rightarrow> lower (py_str X v) \<in> {''true'', ''1'', ''yes''})"

definition opt_str_field :: "ext \<Rightarrow> meta \<Rightarrow> string \<Rightarrow> string option" where
  "opt_str_field X d k = (case meta_get d k of YNull \<Rightarrow> None | v \<Rightarrow> Some (py_str X v))"

definition or_else :: "string \<Rightarrow> string \<Rightarrow> string" where
  "or_else s t = (if s \<noteq> [] then s else t)"

definition id_from_filename :: "string \<Rightarrow> string" where
  "id_from_filename f = last (split_char (CHR ''-'') (stem_of f))"

definition first_text_line :: "string \<Rightarrow> string" where
  "first_text_line body =
     (case filter (\<lambda>l. l \<noteq> []) (map strip (splitlines body)) of [] \<Rightarrow> [] | l # _ \<Rightarrow> l)"

definition memory_of_note :: "ext \<Rightarrow> string \<Rightarrow> meta \<Rightarrow> string \<Rightarrow> memory" where
  "memory_of_note X fname d content =
     (let body = strip content;
          mid = str_if_truthy X d ''id'' (id_from_filename fname);
          ttl = str_if_truthy X d ''title'' (stem_of fname);
          fl = first_text_line body;
          ttl = (if ttl = [] \<or> ttl = stem_of fname
                 then (if fl \<noteq> [] then take 120 fl else mid) else ttl);
          tags = str_list X d ''tags'';
          created = text_field X d ''created'';
          source = str_if_truthy X d ''source_type'' ''user''
      in \<lparr>mem_id = mid, title = ttl,
          essence = strip (strip_generated_related body),
          domain_tags = tags,
          project = str_if_truthy X d ''project'' ''general'',
          source_type = (if ''imported'' \<in> set tags then ''import''
                         else if ''mined'' \<in> set tags then ''mined''
                         else or_else source ''user''),
          source_session = str_if_truthy X d ''source_session'' [],
          importance = int_field d ''importance'' 3,
          status = str_if_truthy X d ''status'' ''active'',
          valid_to = text_field X d ''valid_to'',
          related = str_list X d ''related'',
          contradicts = str_list X d ''contradicts'',
          created_at = created,
          updated_at = or_else (text_field X d ''updated'') created,
          mem_file = fname, obsidian_file = [],
          schema_version = int_field d ''schema_version'' 0,
          layer = opt_int_field d ''layer'',
          keys = map (take 60) (filter (\<lambda>k. strip k \<noteq> []) (str_list X d ''keys'')),
          paths = [],
          references = (case meta_get d ''references'' of
             YList vs \<Rightarrow> map (py_str X) (filter truthy vs) | _ \<Rightarrow> []),
          valid_at = or_else (text_field X d ''valid_at'') created,
          invalid_at = (case meta_get d ''invalid_at'' of YNull \<Rightarrow> None | v \<Rightarrow> Some (fm_val_to_str X v)),
          replaced_by = opt_str_field X d ''replaced_by'',
          clustered_into = opt_str_field X d ''clustered_into'',
          last_accessed_at = or_else (text_field X d ''last_accessed_at'') created,
          access_count = int_field d ''access_count'' 0,
          decay_immune = bool_field X d ''decay_immune'' False\<rparr>)"

datatype parsed = Malformed | Parsed memory

definition parse_note :: "ext \<Rightarrow> string \<Rightarrow> string \<Rightarrow> parsed" where
  "parse_note X fname content =
     (if \<not> starts_with (lstrip content) ''---'' then Malformed
      else let (d, body) = (case x_loads X content of Some r \<Rightarrow> r | None \<Rightarrow> ([], content))
           in Parsed (memory_of_note X fname d body))"

section \<open>The generated section comes off again\<close>

definition link_re :: re where
  "link_re = cats [lit ''- [['', plus (Chars (\<lambda>c. c \<noteq> CHR '']'' \<and> c \<noteq> NL)), lit '']]'', opt (lit [NL])]"

lemma generated_related_section_eq:
  "generated_related_section =
     Cat (plus (Cat (lit related_header) (plus link_re))) (Cat (Star space) Eol)"
  by (simp add: generated_related_section_def link_re_def)

definition linkable :: "string \<Rightarrow> bool" where
  "linkable w \<longleftrightarrow> w \<noteq> [] \<and> CHR '']'' \<notin> set w \<and> NL \<notin> set w"

lemma first_link:
  assumes "linkable w"
  shows "first link_re (pr, link_of w @ NL # s) (Some NL, s)"
    and "first link_re (pr, link_of w) (Some (CHR '']''), [])"
proof -
  let ?C = "Chars (\<lambda>c. c \<noteq> CHR '']'' \<and> c \<noteq> NL)"
  have w: "first (plus ?C) (p, w @ '']]'' @ t) (Some (last w), '']]'' @ t)" for p t
    by (rule first_plus_class) (use assms in \<open>auto simp: linkable_def\<close>)
  have head: "first (lit ''- [['') (pr, ''- [['' @ t) (Some (CHR ''[''), t)" for t
    using first_lit [of "''- [[''" pr t] by (simp add: before_def)
  have tail: "first (lit '']]'') (p, '']]'' @ t) (Some (CHR '']''), t)" for p t
    using first_lit [of "'']]''" p t] by (simp add: before_def)
  have nl: "first (opt (lit [NL])) (p, NL # s) (Some NL, s)" for p
    using first_lit [of "[NL]" p s] by (auto simp: before_def intro: first_opt)
  have no_nl: "first (opt (lit [NL])) (p, []) (p, [])" for p
    by (rule first_opt_none) simp
  show "first link_re (pr, link_of w @ NL # s) (Some NL, s)"
    unfolding link_re_def cats.simps link_of_def append_assoc
    by (rule first_Cat [OF head first_Cat [OF w first_Cat [OF tail nl]]])
  show "first link_re (pr, link_of w) (Some (CHR '']''), [])"
    using first_Cat [OF head first_Cat [OF w [of _ "[]"] first_Cat [OF tail [of _ "[]"] no_nl]]]
    unfolding link_re_def cats.simps link_of_def by simp
qed

lemma ends_link_Nil: "ends link_re (pr, []) = []"
  by (simp add: link_re_def)

lemma link_of_ne [simp]: "link_of w \<noteq> []"
  by (simp add: link_of_def)

lemma first_star_links:
  "\<forall>w \<in> set ws. linkable w \<Longrightarrow> \<exists>x. first (Star link_re) (pr, join [NL] (map link_of ws)) (x, [])"
proof (induction ws arbitrary: pr)
  case Nil
  have "first (Star link_re) (pr, []) (pr, [])" by (rule first_Star_stop) (rule ends_link_Nil)
  then show ?case by auto
next
  case (Cons w ws)
  then have w: "linkable w" by simp
  show ?case
  proof (cases "ws = []")
    case True
    have "first (Star link_re) (Some (CHR '']''), []) (Some (CHR '']''), [])"
      by (rule first_Star_stop) (rule ends_link_Nil)
    from first_Star_step [OF first_link(2) [OF w] _ this, of pr] True show ?thesis by auto
  next
    case False
    from Cons obtain x where "first (Star link_re) (Some NL, join [NL] (map link_of ws)) (x, [])" by auto
    from first_Star_step [OF first_link(1) [OF w] _ this, of pr] False show ?thesis
      by (auto simp: join_Cons)
  qed
qed

lemma first_links:
  assumes "\<forall>w \<in> set ws. linkable w" "ws \<noteq> []"
  shows "\<exists>x. first (plus link_re) (pr, join [NL] (map link_of ws)) (x, [])"
proof -
  obtain w vs where ws: "ws = w # vs" using assms(2) by (cases ws) auto
  show ?thesis
  proof (cases "vs = []")
    case True
    have "first (Star link_re) (Some (CHR '']''), []) (Some (CHR '']''), [])"
      by (rule first_Star_stop) (rule ends_link_Nil)
    with first_link(2) [of w pr] assms True show ?thesis by (auto simp: ws plus_def intro: first_Cat)
  next
    case False
    obtain x where "first (Star link_re) (Some NL, join [NL] (map link_of vs)) (x, [])"
      using first_star_links [of vs "Some NL"] assms by (auto simp: ws)
    with first_link(1) [of w pr "join [NL] (map link_of vs)"] assms False show ?thesis
      by (auto simp: ws plus_def join_Cons intro: first_Cat)
  qed
qed

lemma first_section:
  assumes "\<forall>w \<in> set ws. linkable w" "ws \<noteq> []"
  shows "\<exists>x. first generated_related_section (pr, related_header @ join [NL] (map link_of ws)) (x, [])"
proof -
  let ?S = "Cat (lit related_header) (plus link_re)"
  obtain x where "first (plus link_re) (before pr related_header, join [NL] (map link_of ws)) (x, [])"
    using first_links [OF assms] by blast
  from first_Cat [OF first_lit this]
  have S: "first ?S (pr, related_header @ join [NL] (map link_of ws)) (x, [])" .
  have none: "ends ?S (x, []) = []" by (simp add: ends_lit_Nil related_header_def)
  have "first (plus ?S) (pr, related_header @ join [NL] (map link_of ws)) (x, [])"
    unfolding plus_def [of ?S] by (rule first_Cat [OF S first_Star_stop [OF none]])
  moreover have "first (Cat (Star space) Eol) (x, []) (x, [])"
    by (rule first_Cat [OF first_Star_stop first_Eol]) (simp_all add: at_eol_def)
  ultimately have "first generated_related_section (pr, related_header @ join [NL] (map link_of ws)) (x, [])"
    unfolding generated_related_section_eq by (rule first_Cat)
  then show ?thesis by blast
qed

lemma matches_section_starts:
  assumes "matches generated_related_section p q"
  shows "starts_with (snd p) (related_header @ ''- [['')"
proof -
  have "\<exists>t. matches (lit related_header) p t \<and> (\<exists>u. matches (plus link_re) t u)"
    using assms unfolding generated_related_section_eq plus_def [of "Cat (lit related_header) (plus link_re)"]
    by (simp only: matches_simps) blast
  then obtain t where "matches (lit related_header) p t" and "\<exists>u. matches (plus link_re) t u" by blast
  moreover from this obtain v where "matches (lit ''- [['') t v"
    unfolding plus_def link_re_def cats.simps by (simp only: matches_simps) blast
  ultimately show ?thesis
    using matches_lit_text [of related_header p t] matches_lit_text [of "''- [[''" t v]
    by (auto simp: starts_with_iff)
qed

lemma ends_section_none:
  "\<not> starts_with s (related_header @ ''- [['') \<Longrightarrow> ends generated_related_section (pr, s) = []"
  using matches_section_starts ends_ne_iff by (metis snd_conv)

text \<open>No match can start in a text that does not hold the header, even when the header follows.\<close>

lemma no_early_match:
  assumes "x \<noteq> []" "\<not> contains x related_header"
  shows "\<not> starts_with (x @ related_header @ t) (related_header @ ''- [['')"
proof
  assume st: "starts_with (x @ related_header @ t) (related_header @ ''- [['')"
  let ?q = "related_header @ ''- [[''"
  have len: "length related_header = 13" by (simp add: related_header_def)
  show False
  proof (cases "length x \<ge> 13")
    case True
    obtain u where "x @ related_header @ t = related_header @ ''- [['' @ u"
      using st by (auto simp: starts_with_iff)
    from arg_cong [OF this, of "take 13"] True len have "take 13 x = related_header" by simp
    then have "starts_with x related_header" by (metis starts_with_take)
    with assms(2) show False by (cases x) auto
  next
    case False
    let ?k = "length x"
    have k: "?k \<in> {1..12}" using False assms(1) by (cases x) auto
    define q where "q = ?q"
    have lq: "length q = 17" by (simp add: q_def len)
    obtain u where eq: "x @ related_header @ t = q @ u"
      using st unfolding q_def by (auto simp: starts_with_iff)
    let ?n = "min (?k + 13) 17"
    from arg_cong [OF eq, of "take ?k"] k lq have x: "x = take ?k ?q" by (simp add: q_def [symmetric])
    from arg_cong [OF eq, of "take ?n"] k lq len
    have "take ?n (x @ related_header) = take ?n ?q"
      by (simp add: q_def [symmetric] min_def split: if_splits)
    then have "\<exists>k \<in> {1..12}. take (min (k + 13) 17) (take k ?q @ related_header) = take (min (k + 13) 17) ?q"
      using k x by metis
    moreover have "\<not> (\<exists>k \<in> {1..12}. take (min (k + 13) 17) (take k ?q @ related_header) = take (min (k + 13) 17) ?q)"
      by code_simp
    ultimately show False by blast
  qed
qed

lemma delete_after:
  assumes "\<not> contains x related_header" "\<forall>w \<in> set ws. linkable w" "ws \<noteq> []"
  shows "delete_from generated_related_section pr (x @ related_header @ join [NL] (map link_of ws)) = x"
  using assms(1)
proof (induction x arbitrary: pr)
  case Nil
  obtain y where "first generated_related_section (pr, related_header @ join [NL] (map link_of ws)) (y, [])"
    using first_section [OF assms(2,3)] by blast
  then show ?case
    by (auto intro!: delete_first ends_section_none simp: related_header_def)
next
  case (Cons c x)
  then have "\<not> starts_with ((c # x) @ related_header @ join [NL] (map link_of ws)) (related_header @ ''- [['')"
    by (intro no_early_match) auto
  then have "ends generated_related_section (pr, c # (x @ related_header @ join [NL] (map link_of ws))) = []"
    by (intro ends_section_none) simp
  from delete_skip [OF this] Cons show ?case by simp
qed

lemma delete_none:
  "\<not> contains x related_header \<Longrightarrow> delete_from generated_related_section pr x = x"
proof (induction x arbitrary: pr)
  case Nil
  have "ends generated_related_section (pr, []) = []"
    by (rule ends_section_none) (simp add: related_header_def)
  then show ?case by (simp add: delete_from.simps)
next
  case (Cons c x)
  have "\<not> starts_with (c # x) (related_header @ ''- [['')"
  proof
    assume "starts_with (c # x) (related_header @ ''- [['')"
    then have "starts_with (c # x) related_header" by (auto simp: starts_with_iff)
    with Cons.prems show False by simp
  qed
  from delete_skip [OF ends_section_none [OF this]] Cons show ?case by simp
qed

definition plain_essence :: "string \<Rightarrow> bool" where
  "plain_essence e \<longleftrightarrow> e \<noteq> [] \<and> stripped e \<and> \<not> contains e related_header"

lemma strip_generated_plain: "plain_essence e \<Longrightarrow> strip_generated_related e = e"
  by (simp add: plain_essence_def strip_generated_related_def re_delete_def delete_none rstrip_fix stripped_def)

lemma strip_generated_linked:
  assumes "plain_essence e" "\<forall>w \<in> set ws. linkable w" "ws \<noteq> []"
  shows "strip_generated_related (e @ related_header @ join [NL] (map link_of ws)) = e"
proof -
  have "delete_from generated_related_section None (e @ related_header @ join [NL] (map link_of ws)) = e"
    by (rule delete_after) (use assms in \<open>auto simp: plain_essence_def\<close>)
  with assms(1) show ?thesis
    by (simp only: strip_generated_related_def re_delete_def) (simp add: plain_essence_def rstrip_fix stripped_def)
qed

lemma last_join_links: "ws \<noteq> [] \<Longrightarrow> last (join [NL] (map link_of ws)) = CHR '']'' \<and> join [NL] (map link_of ws) \<noteq> []"
proof (induction ws)
  case (Cons w ws)
  then show ?case by (cases "ws = []") (simp_all add: join_Cons link_of_def)
qed simp

lemma strip_linked:
  assumes "plain_essence e" "ws \<noteq> []"
  shows "strip (e @ related_header @ join [NL] (map link_of ws) @ [NL])
    = e @ related_header @ join [NL] (map link_of ws)"
proof -
  let ?b = "e @ related_header @ join [NL] (map link_of ws)"
  have b: "stripped ?b"
    using assms last_join_links [OF assms(2)] by (auto simp: plain_essence_def stripped_def py_space_def)
  have "lstrip (?b @ [NL]) = ?b @ [NL]"
    using assms by (intro lstrip_fix) (auto simp: plain_essence_def stripped_def)
  then have "strip (?b @ [NL]) = rstrip ?b" by (simp only: strip_def) (simp only: rstrip_space space_NL)
  moreover have "rstrip ?b = ?b" using b unfolding stripped_def by (intro rstrip_fix) blast
  ultimately show ?thesis by (simp only: append_assoc)
qed

lemma link_lines_of:
  "\<exists>ws. link_lines names rids = map link_of ws \<and> set ws \<subseteq> stem_of ` set names"
proof (induction rids)
  case (Cons r rids)
  then obtain ws where ws: "link_lines names rids = map link_of ws" "set ws \<subseteq> stem_of ` set names" by blast
  show ?case
  proof (cases "id8 (strip r) = [] \<or> glob_id names (id8 (strip r)) = []")
    case True
    with ws show ?thesis by (auto simp: link_lines_def Let_def)
  next
    case False
    then obtain f fs where f: "glob_id names (id8 (strip r)) = f # fs" "id8 (strip r) \<noteq> []"
      by (auto simp: neq_Nil_conv)
    then have "f \<in> set names" by (metis glob_id_def filter_is_subset list.set_intros(1) subsetD)
    with f ws show ?thesis
      by (intro exI [of _ "stem_of f # ws"]) (auto simp: link_lines_def Let_def)
  qed
qed (simp add: link_lines_def)

text \<open>The essence survives the generated section, whatever notes the vault holds.\<close>

lemma essence_of_body:
  assumes "plain_essence (essence m)" "\<forall>f \<in> set names. linkable (stem_of f)"
  shows "strip (strip_generated_related (strip (strip (note_body names m)))) = essence m"
proof -
  have e: "stripped (essence m)" using assms(1) by (simp add: plain_essence_def)
  obtain ws where ws: "link_lines names (safe_related m) = map link_of ws" "\<forall>w \<in> set ws. linkable w"
    using link_lines_of assms(2) by (metis image_iff subsetD)
  show ?thesis
  proof (cases "ws = []")
    case True
    then show ?thesis using e by (simp add: note_body_def ws strip_generated_plain assms(1))
  next
    case False
    let ?b = "essence m @ related_header @ join [NL] (map link_of ws)"
    have body: "note_body names m = ?b @ [NL]"
      using False by (simp add: note_body_def ws strip_generated_plain [OF assms(1)])
    have "strip (note_body names m) = ?b"
      unfolding body using strip_linked [OF assms(1) False] by (simp only: append_assoc)
    then have "strip (strip (note_body names m)) = ?b" by (metis strip_idem)
    then show ?thesis using strip_generated_linked [OF assms(1) ws(2) False] e by (simp only: strip_stripped)
  qed
qed

section \<open>Round trip\<close>

lemma meta_get_simps:
  "meta_get [] k = YNull"
  "meta_get ((j, v) # d) k = (if j = k then v else meta_get d k)"
  "meta_get (optional b j v @ d) k = (if b \<and> j = k then v else meta_get d k)"
  "meta_get (opt_text j t @ d) k = (if t \<noteq> None \<and> j = k then YStr (the t) else meta_get d k)"
  "meta_get ((case l of None \<Rightarrow> [] | Some i \<Rightarrow> [(j, YInt i)]) @ d) k
     = (if l \<noteq> None \<and> j = k then YInt (the l) else meta_get d k)"
  "meta_get (optional b j v) k = (if b \<and> j = k then v else YNull)"
  by (auto simp: meta_get_def optional_def opt_text_def split: option.splits)

text \<open>A memory in the form the serializer keeps.\<close>

definition storable :: "memory \<Rightarrow> bool" where
  "storable m \<longleftrightarrow>
     mem_id m \<noteq> [] \<and>
     drop_bracket_tag (title m) = title m \<and> title m \<noteq> [] \<and> title m \<noteq> stem_of (note_filename m) \<and>
     plain_essence (essence m) \<and>
     safe_tag (project m) = project m \<and> project m \<noteq> [] \<and>
     safe_list (domain_tags m) = domain_tags m \<and>
     (''imported'' \<in> set (domain_tags m) \<longrightarrow> source_type m = ''import'') \<and>
     (''imported'' \<notin> set (domain_tags m) \<longrightarrow> ''mined'' \<in> set (domain_tags m) \<longrightarrow> source_type m = ''mined'') \<and>
     source_type m \<noteq> [] \<and> status m \<noteq> [] \<and>
     safe_related m = related m \<and> safe_keys m = keys m \<and> list_all (\<lambda>k. strip k \<noteq> []) (keys m) \<and>
     safe_list (references m) = references m \<and> safe_list (contradicts m) = contradicts m \<and>
     updated_at m \<noteq> [] \<and> valid_at m \<noteq> [] \<and> last_accessed_at m \<noteq> []"

lemma py_str_strs [simp]: "map (py_str X \<circ> YStr) ss = ss"
  by (induction ss) simp_all

lemma safe_list_ne: "safe_list ts = ts \<Longrightarrow> t \<in> set ts \<Longrightarrow> t \<noteq> []"
  unfolding safe_list_def by (metis (mono_tags, lifting) mem_Collect_eq set_filter)

lemma take60_keys: "safe_keys m = keys m \<Longrightarrow> map (take 60) (keys m) = keys m"
proof -
  assume "safe_keys m = keys m"
  then have "\<forall>k \<in> set (keys m). length k \<le> 60"
    by (metis (no_types, lifting) in_set_conv_nth length_map length_take min.cobounded2 nth_map safe_keys_def)
  then show ?thesis by (simp add: map_idI)
qed

lemma note_meta_get:
  "meta_get (note_meta m) ''id'' = YStr (mem_id m)"
  "meta_get (note_meta m) ''schema_version'' = YInt (schema_version m)"
  "meta_get (note_meta m) ''title'' = YStr (drop_bracket_tag (title m))"
  "meta_get (note_meta m) ''project'' = YStr (safe_tag (project m))"
  "meta_get (note_meta m) ''tags'' = ystrs (safe_list (domain_tags m))"
  "meta_get (note_meta m) ''keys'' = (if safe_keys m \<noteq> [] then ystrs (safe_keys m) else YNull)"
  "meta_get (note_meta m) ''related'' = (if safe_related m \<noteq> [] then ystrs (safe_related m) else YNull)"
  "meta_get (note_meta m) ''created'' = YStr (created_at m)"
  "meta_get (note_meta m) ''updated'' = YStr (updated_at m)"
  "meta_get (note_meta m) ''source_type'' = YStr (source_type m)"
  "meta_get (note_meta m) ''source_session'' = YStr (source_session m)"
  "meta_get (note_meta m) ''importance'' = YInt (importance m)"
  "meta_get (note_meta m) ''status'' = YStr (status m)"
  "meta_get (note_meta m) ''valid_to'' = YStr (valid_to m)"
  "meta_get (note_meta m) ''layer'' = (case layer m of None \<Rightarrow> YNull | Some l \<Rightarrow> YInt l)"
  "meta_get (note_meta m) ''valid_at'' = YStr (if valid_at m \<noteq> [] then valid_at m else created_at m)"
  "meta_get (note_meta m) ''invalid_at'' = (case invalid_at m of None \<Rightarrow> YNull | Some t \<Rightarrow> YStr t)"
  "meta_get (note_meta m) ''replaced_by'' = (case replaced_by m of None \<Rightarrow> YNull | Some t \<Rightarrow> YStr t)"
  "meta_get (note_meta m) ''clustered_into'' = (case clustered_into m of None \<Rightarrow> YNull | Some t \<Rightarrow> YStr t)"
  "meta_get (note_meta m) ''references'' =
     (if references m \<noteq> [] then ystrs (safe_list (references m)) else YNull)"
  "meta_get (note_meta m) ''contradicts'' =
     (if contradicts m \<noteq> [] then ystrs (safe_list (contradicts m)) else YNull)"
  "meta_get (note_meta m) ''last_accessed_at'' = YStr (last_accessed_at m)"
  "meta_get (note_meta m) ''access_count'' = YInt (access_count m)"
  "meta_get (note_meta m) ''decay_immune'' = YBool (decay_immune m)"
  unfolding note_meta_def append_assoc append.simps
  by (simp_all add: meta_get_simps split: option.splits)

lemma str_list_strs:
  "meta_get d k = (if ss \<noteq> [] then ystrs ss else YNull) \<Longrightarrow> str_list X d k = ss"
  "meta_get d k = ystrs ss \<Longrightarrow> str_list X d k = ss"
  by (auto simp: str_list_def split: if_splits)

lemma memory_of_own_note:
  assumes "storable m" "\<forall>f \<in> set names. linkable (stem_of f)"
  shows "memory_of_note X (note_filename m) (note_meta m) (strip (note_body names m))
    = m\<lparr>mem_file := note_filename m, obsidian_file := [], paths := []\<rparr>"
proof -
  let ?d = "note_meta m"
  note st = assms(1) [unfolded storable_def]
  have tags: "str_list X ?d ''tags'' = domain_tags m"
    using st by (simp add: str_list_strs(2) note_meta_get)
  have related: "str_list X ?d ''related'' = related m"
    using st by (intro str_list_strs(1)) (simp add: note_meta_get)
  have contra: "str_list X ?d ''contradicts'' = contradicts m"
    using st by (intro str_list_strs(1)) (simp add: note_meta_get)
  have ks: "str_list X ?d ''keys'' = keys m"
    using st by (intro str_list_strs(1)) (simp add: note_meta_get)
  have keys: "map (take 60) (filter (\<lambda>k. strip k \<noteq> []) (str_list X ?d ''keys'')) = keys m"
  proof -
    have "filter (\<lambda>k. strip k \<noteq> []) (keys m) = keys m" using st by (simp add: filter_id_conv list_all_iff)
    then show ?thesis unfolding ks using st take60_keys by simp
  qed
  have refs: "(case meta_get ?d ''references'' of YList vs \<Rightarrow> map (py_str X) (filter truthy vs) | _ \<Rightarrow> []) = references m"
  proof -
    have "\<forall>t \<in> set (references m). t \<noteq> []" using st safe_list_ne by blast
    then have "filter truthy (map YStr (references m)) = map YStr (references m)"
      by (simp add: filter_id_conv)
    then show ?thesis using st by (simp add: note_meta_get)
  qed
  show ?thesis
    unfolding memory_of_note_def Let_def
    by (rule memory.equality)
      (use st tags related contra keys refs essence_of_body [OF _ assms(2), of m] in
        \<open>simp_all add: str_if_truthy_def note_meta_get text_field_def fm_val_to_str_def int_field_def
          opt_int_field_def opt_str_field_def bool_field_def or_else_def split: option.split\<close>)
qed

text \<open>
  C3: Reading a written note gives the memory back. For a memory whose fields are in the form
  the serializer keeps (tags without brackets, commas or line breaks, related ids cut to
  eight characters, a title without a bracketed tag), whatever other notes the vault holds to
  link to, and as long as the YAML library reads back the metadata it wrote, parsing the text
  written for it yields the same memory, field by field, except the advisory \<^verbatim>\<open>paths\<close>.
\<close>

theorem note_roundtrip:
  assumes "storable m" "\<forall>f \<in> set names. linkable (stem_of f)"
    and "x_loads X (note_text X names m) = Some (note_meta m, strip (note_body names m))"
    and "starts_with (lstrip (note_text X names m)) ''---''"
  shows "parse_note X (note_filename m) (note_text X names m)
    = Parsed (m\<lparr>mem_file := note_filename m, obsidian_file := [], paths := []\<rparr>)"
  using assms memory_of_own_note [OF assms(1,2), of X] by (simp add: parse_note_def)

definition sample_note :: memory where
  "sample_note = (blank_memory ''aaaaaaaa-1'' ''Use tabs'' ''Indent with tabs.'')
     \<lparr>created_at := ''2026-06-11'', updated_at := ''2026-06-11'', valid_at := ''2026-06-11'',
      last_accessed_at := ''2026-06-11'', domain_tags := [''mined'', ''style''], source_type := ''mined'',
      related := [''bbbbbbbb'']\<rparr>"

theorem note_roundtrip_witness:
  "parse_note \<lparr>x_aliases = [], x_dumps = \<lambda>_ _. ''---'',
       x_loads = \<lambda>_. Some (note_meta sample_note, strip (note_body [''x-bbbbbbbb.md''] sample_note)),
       x_list_text = \<lambda>_. []\<rparr> (note_filename sample_note) ''---''
   = Parsed (sample_note\<lparr>mem_file := note_filename sample_note, obsidian_file := [], paths := []\<rparr>)"
proof -
  let ?X = "\<lparr>x_aliases = [], x_dumps = \<lambda>_ _. ''---'',
       x_loads = \<lambda>_. Some (note_meta sample_note, strip (note_body [''x-bbbbbbbb.md''] sample_note)),
       x_list_text = \<lambda>_. []\<rparr>"
  have "storable sample_note" by code_simp
  moreover have "\<forall>f \<in> set [''x-bbbbbbbb.md'']. linkable (stem_of f)" by code_simp
  ultimately show ?thesis
    using note_roundtrip [of sample_note "[''x-bbbbbbbb.md'']" ?X]
    by (simp add: note_text_def lstrip_def py_space_def)
qed

text \<open>Nothing reads the \<^verbatim>\<open>paths\<close> of a note back, so rewriting a memory that came from
  disk writes a note without them.\<close>

lemma keys_of_parts:
  "k \<in> fst ` set (optional b j v) \<longleftrightarrow> b \<and> k = j"
  "k \<in> fst ` set (opt_text j t) \<longleftrightarrow> t \<noteq> None \<and> k = j"
  "k \<in> fst ` set (case l of None \<Rightarrow> [] | Some i \<Rightarrow> [(j, YInt i)]) \<longleftrightarrow> l \<noteq> None \<and> k = j"
  by (auto simp: optional_def opt_text_def split: option.splits)

lemma paths_of_parsed: "parse_note X fname content = Parsed m \<Longrightarrow> paths m = []"
  by (auto simp: parse_note_def memory_of_note_def Let_def split: if_splits prod.splits)

theorem rewrite_drops_paths:
  "parse_note X fname content = Parsed m \<Longrightarrow> ''paths'' \<notin> fst ` set (note_meta m)"
  by (drule paths_of_parsed, cases "layer m") (simp_all add: note_meta_def image_Un keys_of_parts)

end
