(* ===== verification/VaultCache.thy ===== *)
theory VaultCache
  imports Notes SearchIndex GraphIndex
begin

text \<open>
  The vault's notes and the cache that \<^verbatim>\<open>memem/obsidian_store.py\<close> keeps of them. The state is
  the directory of notes (text and modification time, in the order the directory lists
  them), the in-memory cache with its file table, the cache file on disk, and what the other
  components keep: \<^verbatim>\<open>_index.md\<close>, the FTS table, the graph, the event log. Notes are named by
  their file names, so \<open>mem_file\<close> is one. An operation reads the clock once.
\<close>

section \<open>State\<close>

record clock =
  c_time :: real
  c_iso :: string
  c_day :: string

record event =
  ev_op :: string
  ev_id :: string
  ev_details :: "(string, string) dict"
  ev_time :: string

type_synonym cache_payload = "(string, memory) dict \<times> (string, real \<times> string) dict"

text \<open>What is found where the cache file should be.\<close>

datatype disk_cache = NoFile | Corrupt | Unusable | Payload cache_payload

record store =
  vault_ok :: bool
  dir_ok :: bool
  note_files :: "(string, string \<times> real) dict"
  cache :: "(string, memory) dict"
  cache_files :: "(string, real \<times> string) dict"
  last_sweep :: real
  cache_loaded :: bool
  dirty :: bool
  disk_cache :: disk_cache
  legacy_cache :: disk_cache
  quarantined :: "(string \<times> string) list"
  index_text :: "string option"
  fts_db :: search_db
  edges :: graph
  events :: "event list"

definition SWEEP_INTERVAL :: real where "SWEEP_INTERVAL = 30"

text \<open>
  \<^verbatim>\<open>_handle_malformed_frontmatter\<close>. In the mode \<^verbatim>\<open>quarantine\<close> the move can fail
  (\<open>can_move\<close>), which falls back to skipping; every mode but the three named skips.
\<close>

definition handle_malformed :: "string \<Rightarrow> bool \<Rightarrow> string \<Rightarrow> store \<Rightarrow> store_error + store" where
  "handle_malformed mode can_move f s =
     (if lower mode = ''raise''
      then Inl (ValueError (''Malformed frontmatter in '' @ f @ '': missing_frontmatter''))
      else if lower mode = ''quarantine'' \<and> can_move
      then (case map_of (note_files s) f of
              None \<Rightarrow> Inr s
            | Some (text, _) \<Rightarrow>
                Inr (s\<lparr>note_files := AList.delete f (note_files s), quarantined := quarantined s @ [(f, text)]\<rparr>))
      else Inr s)"

text \<open>The reader below runs with the default mode and a quarantine directory it can use.\<close>

definition quarantine_note :: "string \<Rightarrow> store \<Rightarrow> store" where
  "quarantine_note f s =
     (case handle_malformed ''quarantine'' True f s of Inl _ \<Rightarrow> s | Inr s' \<Rightarrow> s')"

section \<open>The cache\<close>

definition flush_vault_cache :: "store \<Rightarrow> store" where
  "flush_vault_cache s = s\<lparr>disk_cache := Payload (cache s, cache_files s)\<rparr>"

definition adopt_payload :: "cache_payload \<Rightarrow> store \<Rightarrow> store" where
  "adopt_payload p s = s\<lparr>cache := fst p, cache_files := snd p\<rparr>"

definition load_vault_cache :: "store \<Rightarrow> bool \<times> store" where
  "load_vault_cache s0 =
     (let s = s0\<lparr>cache_loaded := True\<rparr> in
      case disk_cache s of
        Corrupt \<Rightarrow> (False, s\<lparr>disk_cache := NoFile\<rparr>)
      | Unusable \<Rightarrow> (False, s)
      | Payload p \<Rightarrow> (True, adopt_payload p s)
      | NoFile \<Rightarrow>
          (case legacy_cache s of
             NoFile \<Rightarrow> (False, s)
           | Corrupt \<Rightarrow> (False, s\<lparr>legacy_cache := NoFile\<rparr>)
           | Unusable \<Rightarrow> (False, s)
           | Payload p \<Rightarrow> (True, (adopt_payload p s)\<lparr>legacy_cache := NoFile\<rparr>)))"

definition evict_stale :: "string \<Rightarrow> store \<Rightarrow> store" where
  "evict_stale f s =
     (case map_of (cache_files s) f of
        None \<Rightarrow> s
      | Some (_, old_id) \<Rightarrow>
          s\<lparr>cache := AList.delete old_id (cache s), cache_files := AList.delete f (cache_files s)\<rparr>)"

text \<open>One file of a sweep; the flag says whether the cache changed.\<close>

definition sweep_file :: "ext \<Rightarrow> string \<Rightarrow> store \<times> bool \<Rightarrow> store \<times> bool" where
  "sweep_file X f sc =
     (let s = fst sc in
      case map_of (note_files s) f of
        None \<Rightarrow> sc
      | Some (text, mtime) \<Rightarrow>
          (let cached = map_of (cache_files s) f in
           if map_option fst cached = Some mtime then sc
           else (case parse_note X f text of
                   Malformed \<Rightarrow> (quarantine_note f s, snd sc)
                 | Parsed m \<Rightarrow>
                     if mem_id m = [] then sc
                     else
                       let c = (case cached of
                                  Some (_, i) \<Rightarrow> if i \<noteq> mem_id m then AList.delete i (cache s) else cache s
                                | None \<Rightarrow> cache s)
                       in (s\<lparr>cache := AList.update (mem_id m) m c,
                             cache_files := AList.update f (mtime, mem_id m) (cache_files s)\<rparr>, True))))"

definition sweep_vault_cache :: "ext \<Rightarrow> clock \<Rightarrow> store \<Rightarrow> store" where
  "sweep_vault_cache X clk s0 =
     (let s = s0\<lparr>last_sweep := c_time clk\<rparr> in
      if \<not> dir_ok s
      then (let changed = (cache s \<noteq> [] \<or> cache_files s \<noteq> [] \<or> dirty s);
                s = s\<lparr>cache := [], cache_files := [], dirty := False\<rparr>
            in if changed then flush_vault_cache s else s)
      else
        let paths = map fst (note_files s);
            stale = filter (\<lambda>f. f \<notin> set paths) (map fst (cache_files s));
            (s', changed) = fold (sweep_file X) paths (fold evict_stale stale s, dirty s \<or> stale \<noteq> []);
            s' = s'\<lparr>dirty := False\<rparr>
        in if changed then flush_vault_cache s' else s')"

definition ensure_cache_warm :: "ext \<Rightarrow> clock \<Rightarrow> store \<Rightarrow> store" where
  "ensure_cache_warm X clk s =
     (let needs_warm = (cache_files s = []);
          needs_sweep = (c_time clk - last_sweep s \<ge> SWEEP_INTERVAL);
          s = (if needs_warm \<and> \<not> cache_loaded s then snd (load_vault_cache s) else s)
      in if needs_warm \<or> needs_sweep then sweep_vault_cache X clk s else s)"

definition cache_refresh_from_disk :: "ext \<Rightarrow> string \<Rightarrow> store \<Rightarrow> store" where
  "cache_refresh_from_disk X mid s =
     (if mid = [] then s
      else
        let by_table = map fst (filter (\<lambda>(f, _, i). i = mid) (cache_files s));
            candidates = (if by_table \<noteq> [] then by_table else glob_id (map fst (note_files s)) (id8 mid))
        in case candidates of
             [] \<Rightarrow> s
           | f # _ \<Rightarrow>
               (case map_of (note_files s) f of
                  None \<Rightarrow> s
                | Some (text, mtime) \<Rightarrow>
                    (case parse_note X f text of
                       Malformed \<Rightarrow> quarantine_note f s
                     | Parsed m \<Rightarrow>
                         if mem_id m = [] then s
                         else s\<lparr>cache := AList.update (mem_id m) m (cache s),
                                cache_files := AList.update f (mtime, mem_id m) (cache_files s),
                                dirty := True\<rparr>)))"

definition cache_evict :: "string \<Rightarrow> store \<Rightarrow> store" where
  "cache_evict mid s =
     (if mid = [] then s
      else s\<lparr>cache := AList.delete mid (cache s),
             cache_files := filter (\<lambda>(f, _, i). i \<noteq> mid) (cache_files s),
             dirty := True\<rparr>)"

section \<open>Reading\<close>

definition memories_of :: "(string, string) dict \<Rightarrow> string option \<Rightarrow> bool \<Rightarrow> (string, memory) dict \<Rightarrow> memory list" where
  "memories_of al scope include_deprecated c =
     (let normalized = (case scope of None \<Rightarrow> ''general'' | Some sc \<Rightarrow> normalize_scope_id al sc) in
      sort_key (\<lambda>m. or_else (mem_file m) (obsidian_file m))
        (filter (\<lambda>m. (include_deprecated \<or> status m \<noteq> ''deprecated'')
                   \<and> (normalized = ''general''
                      \<or> normalize_scope_id al (or_else (project m) ''general'') = normalized))
           (map snd c)))"

definition obsidian_memories :: "ext \<Rightarrow> clock \<Rightarrow> string option \<Rightarrow> bool \<Rightarrow> store \<Rightarrow> memory list \<times> store" where
  "obsidian_memories X clk scope include_deprecated s =
     (if \<not> dir_ok s then ([], s)
      else let s = ensure_cache_warm X clk s
           in (memories_of (x_aliases X) scope include_deprecated (cache s), s))"

definition lookup :: "string \<Rightarrow> (string, memory) dict \<Rightarrow> memory option" where
  "lookup mid c =
     (case map_of c mid of
        Some m \<Rightarrow> Some m
      | None \<Rightarrow>
          if length mid \<ge> 8 then map_option snd (find (\<lambda>(i, m). starts_with i mid) c) else None)"

definition find_memory :: "ext \<Rightarrow> clock \<Rightarrow> string \<Rightarrow> store \<Rightarrow> memory option \<times> store" where
  "find_memory X clk mid s =
     (if mid = [] then (None, s)
      else let s = ensure_cache_warm X clk s in (lookup mid (cache s), s))"

definition lookup_unambiguous :: "string \<Rightarrow> (string, memory) dict \<Rightarrow> memory option" where
  "lookup_unambiguous mid c =
     (case map_of c mid of
        Some m \<Rightarrow> Some m
      | None \<Rightarrow>
          if length mid \<ge> 8
          then (case filter (\<lambda>(i, m). starts_with i mid) c of [(i, m)] \<Rightarrow> Some m | _ \<Rightarrow> None)
          else None)"

definition find_memory_unambiguous :: "ext \<Rightarrow> clock \<Rightarrow> string \<Rightarrow> store \<Rightarrow> memory option \<times> store" where
  "find_memory_unambiguous X clk mid s =
     (if mid = [] then (None, s)
      else let s = ensure_cache_warm X clk s in (lookup_unambiguous mid (cache s), s))"

text \<open>Title, project and body of the picked memories.\<close>

fun load_obsidian_memories ::
  "ext \<Rightarrow> clock \<Rightarrow> string list \<Rightarrow> store \<Rightarrow> (string \<times> string \<times> string) list \<times> store" where
  "load_obsidian_memories X clk [] s = ([], s)"
| "load_obsidian_memories X clk (i # ids) s =
     (let (found, s) = find_memory X clk i s;
          (rest, s) = load_obsidian_memories X clk ids s
      in ((case found of None \<Rightarrow> rest | Some m \<Rightarrow> (title m, project m, essence m) # rest), s))"

section \<open>Writing a note\<close>

definition write_obsidian_memory :: "ext \<Rightarrow> clock \<Rightarrow> memory \<Rightarrow> store \<Rightarrow> store_error + (memory \<times> store)" where
  "write_obsidian_memory X clk m s =
     (if \<not> vault_ok s then Inl ObsidianUnavailable
      else
        let s = s\<lparr>dir_ok := True\<rparr>;
            filename = note_filename m;
            old_file = or_else (obsidian_file m) (mem_file m);
            s = (if old_file \<noteq> [] \<and> old_file \<noteq> filename
                 then s\<lparr>note_files := AList.delete old_file (note_files s)\<rparr> else s);
            text = note_text X (map fst (note_files s)) m
        in Inr (m\<lparr>obsidian_file := filename\<rparr>,
                s\<lparr>note_files := AList.update filename (text, c_time clk) (note_files s)\<rparr>))"

text \<open>A memory found in the cache is the cache's own object: changing it changes the cache.\<close>

definition mutate_cached :: "memory \<Rightarrow> store \<Rightarrow> store" where
  "mutate_cached m s = s\<lparr>cache := AList.update (mem_id m) m (cache s)\<rparr>"

definition log_event :: "clock \<Rightarrow> string \<Rightarrow> string \<Rightarrow> (string, string) dict \<Rightarrow> store \<Rightarrow> store" where
  "log_event clk op mid details s =
     s\<lparr>events := events s @ [\<lparr>ev_op = op, ev_id = mid, ev_details = details, ev_time = c_iso clk\<rparr>]\<rparr>"

definition bump_access :: "ext \<Rightarrow> clock \<Rightarrow> string \<Rightarrow> store \<Rightarrow> (store_error + unit) \<times> store" where
  "bump_access X clk mid s =
     (case find_memory X clk mid s of
        (None, s) \<Rightarrow> (Inr (), s)
      | (Some m, s) \<Rightarrow>
          let m = m\<lparr>access_count := access_count m + 1, last_accessed_at := c_iso clk\<rparr> in
          (case write_obsidian_memory X clk m s of
             Inl e \<Rightarrow> (Inl e, mutate_cached m s)
           | Inr (m, s) \<Rightarrow> (Inr (), mutate_cached m s)))"

section \<open>A sweep makes the cache the view of the directory\<close>

definition note_of :: "ext \<Rightarrow> store \<Rightarrow> string \<Rightarrow> memory option" where
  "note_of X s f =
     (case map_of (note_files s) f of
        None \<Rightarrow> None
      | Some (text, _) \<Rightarrow> (case parse_note X f text of Malformed \<Rightarrow> None | Parsed m \<Rightarrow> Some m))"

definition mtime_of :: "store \<Rightarrow> string \<Rightarrow> real option" where
  "mtime_of s f = map_option snd (map_of (note_files s) f)"

definition dir_fine :: "ext \<Rightarrow> store \<Rightarrow> bool" where
  "dir_fine X s \<longleftrightarrow>
     (\<forall>f \<in> set (map fst (note_files s)). \<exists>m. note_of X s f = Some m \<and> mem_id m \<noteq> []) \<and>
     (\<forall>f g m n. note_of X s f = Some m \<longrightarrow> note_of X s g = Some n \<longrightarrow> mem_id m = mem_id n \<longrightarrow> f = g)"

text \<open>The file table: no two files for one id, a file keeps its id, and an entry with the
  file's own modification time is backed by the cached memory.\<close>

definition table_ok :: "ext \<Rightarrow> store \<Rightarrow> bool" where
  "table_ok X s \<longleftrightarrow>
     (\<forall>f g a b i. map_of (cache_files s) f = Some (a, i) \<longrightarrow> map_of (cache_files s) g = Some (b, i) \<longrightarrow> f = g) \<and>
     (\<forall>f a i m. map_of (cache_files s) f = Some (a, i) \<longrightarrow> note_of X s f = Some m \<longrightarrow>
        mem_id m = i \<and> (mtime_of s f = Some a \<longrightarrow> map_of (cache s) i = Some m)) \<and>
     (\<forall>i. map_of (cache s) i \<noteq> None \<longrightarrow> (\<exists>f a. map_of (cache_files s) f = Some (a, i)))"

definition is_view :: "ext \<Rightarrow> store \<Rightarrow> bool" where
  "is_view X s \<longleftrightarrow> (\<forall>i m. map_of (cache s) i = Some m \<longleftrightarrow> (\<exists>f. note_of X s f = Some m \<and> mem_id m = i))"

lemma note_of_files: "note_files s' = note_files s \<Longrightarrow> note_of X s' f = note_of X s f \<and> mtime_of s' f = mtime_of s f"
  by (simp add: note_of_def mtime_of_def)

lemma evict_stale_simps [simp]: "note_files (evict_stale f s) = note_files s" "dir_ok (evict_stale f s) = dir_ok s"
  by (auto simp: evict_stale_def split: option.split)

interpretation evict_notes: quiet_step note_files evict_stale
  by unfold_locales simp

lemma fold_evict_notes [simp]: "note_files (fold evict_stale fs s) = note_files s"
  by (rule evict_notes.fold_quiet)

lemma map_of_evict:
  "map_of (cache_files (evict_stale f s)) = (map_of (cache_files s))(f := None)"
  "map_of (cache (evict_stale f s)) i =
     (if \<exists>a. map_of (cache_files s) f = Some (a, i) then None else map_of (cache s) i)"
  by (auto simp: evict_stale_def dict_simps fun_upd_idem split: option.split)

lemma map_of_fold_evict:
  "map_of (cache_files (fold evict_stale fs s)) f = (if f \<in> set fs then None else map_of (cache_files s) f)"
  "map_of (cache (fold evict_stale fs s)) i =
     (if \<exists>f \<in> set fs. \<exists>a. map_of (cache_files s) f = Some (a, i) then None else map_of (cache s) i)"
proof (induction fs arbitrary: s)
  case (Cons g fs)
  { case 1 then show ?case by (simp add: Cons.IH map_of_evict)
  next
    case 2 then show ?case by (auto simp: Cons.IH map_of_evict split: if_splits) }
qed simp_all

text \<open>The state between two files of the loop: the files in \<open>seen\<close> are in the cache.\<close>

definition mid_sweep :: "ext \<Rightarrow> string set \<Rightarrow> store \<Rightarrow> bool" where
  "mid_sweep X seen s \<longleftrightarrow>
     (\<forall>f m. f \<in> seen \<longrightarrow> note_of X s f = Some m \<longrightarrow>
        map_of (cache s) (mem_id m) = Some m \<and> (\<exists>a. mtime_of s f = Some a \<and> map_of (cache_files s) f = Some (a, mem_id m))) \<and>
     (\<forall>f a i m. map_of (cache_files s) f = Some (a, i) \<longrightarrow> note_of X s f = Some m \<longrightarrow>
        mem_id m = i \<and> (mtime_of s f = Some a \<longrightarrow> map_of (cache s) i = Some m)) \<and>
     (\<forall>f. map_of (cache_files s) f \<noteq> None \<longrightarrow> map_of (note_files s) f \<noteq> None) \<and>
     (\<forall>i. map_of (cache s) i \<noteq> None \<longrightarrow> (\<exists>f a. map_of (cache_files s) f = Some (a, i)))"

lemma sweep_file_step:
  assumes "dir_fine X s" "mid_sweep X seen s" "f \<in> set (map fst (note_files s))"
  shows "mid_sweep X (insert f seen) (fst (sweep_file X f (s, b))) \<and>
    note_files (fst (sweep_file X f (s, b))) = note_files s"
proof -
  obtain m where m: "note_of X s f = Some m" "mem_id m \<noteq> []"
    using assms(1,3) unfolding dir_fine_def by blast
  then obtain tx a where fl: "map_of (note_files s) f = Some (tx, a)" "parse_note X f tx = Parsed m"
    by (auto simp: note_of_def split: option.splits parsed.splits)
  then have mt: "mtime_of s f = Some a" by (simp add: mtime_of_def)
  note ms = assms(2) [unfolded mid_sweep_def]
  have A: "map_of (cache s) (mem_id n) = Some n \<and>
      (\<exists>a. mtime_of s g = Some a \<and> map_of (cache_files s) g = Some (a, mem_id n))"
    if "g \<in> seen" "note_of X s g = Some n" for g n
    using ms that by blast
  have B: "mem_id n = i \<and> (mtime_of s g = Some c \<longrightarrow> map_of (cache s) i = Some n)"
    if "map_of (cache_files s) g = Some (c, i)" "note_of X s g = Some n" for g c i n
    using ms that by blast
  have C: "map_of (note_files s) g \<noteq> None" if "map_of (cache_files s) g \<noteq> None" for g
    using ms that by blast
  have D: "\<exists>g c. map_of (cache_files s) g = Some (c, i)" if "map_of (cache s) i \<noteq> None" for i
    using ms that by blast
  show ?thesis
  proof (cases "map_option fst (map_of (cache_files s) f) = Some a")
    case True
    then obtain i where i: "map_of (cache_files s) f = Some (a, i)" by auto
    with B [OF i m(1)] mt have "mem_id m = i" "map_of (cache s) i = Some m" by blast+
    with i mt have own: "map_of (cache s) (mem_id m) = Some m \<and>
        (\<exists>a. mtime_of s f = Some a \<and> map_of (cache_files s) f = Some (a, mem_id m))"
      by blast
    have "mid_sweep X (insert f seen) s"
      unfolding mid_sweep_def
    proof (intro conjI)
      show "\<forall>g n. g \<in> insert f seen \<longrightarrow> note_of X s g = Some n \<longrightarrow> map_of (cache s) (mem_id n) = Some n \<and>
          (\<exists>a. mtime_of s g = Some a \<and> map_of (cache_files s) g = Some (a, mem_id n))"
      proof (intro allI impI)
        fix g n assume "g \<in> insert f seen" "note_of X s g = Some n"
        with own m(1) A [of g n] show "map_of (cache s) (mem_id n) = Some n \<and>
          (\<exists>a. mtime_of s g = Some a \<and> map_of (cache_files s) g = Some (a, mem_id n))"
          by (cases "g = f") auto
      qed
    qed (use B C D in blast)+
    with True fl show ?thesis by (simp add: sweep_file_def)
  next
    case False
    define t where "t = s\<lparr>cache := AList.update (mem_id m) m (cache s), cache_files := AList.update f (a, mem_id m) (cache_files s)\<rparr>"
    have t: "map_of (cache t) = (map_of (cache s))(mem_id m \<mapsto> m)"
      "map_of (cache_files t) = (map_of (cache_files s))(f \<mapsto> (a, mem_id m))" "note_files t = note_files s"
      by (simp_all add: t_def dict_simps)
    have "snd c = mem_id m" if "map_of (cache_files s) f = Some c" for c
      using B [of f "fst c" "snd c" m] m(1) that by simp
    then have run: "fst (sweep_file X f (s, b)) = t"
      using False fl m(2)
      by (cases "map_of (cache_files s) f") (auto simp add: sweep_file_def t_def Let_def split_beta)
    have same: "note_of X t g = note_of X s g" "mtime_of t g = mtime_of s g" for g
      by (simp_all add: note_of_def mtime_of_def t)
    have inj: "g = f" if "note_of X s g = Some n" "mem_id n = mem_id m" for g n
      using assms(1) m(1) that unfolding dir_fine_def by metis
    have "mid_sweep X (insert f seen) t"
      unfolding mid_sweep_def same
    proof (intro conjI allI impI)
      fix g n assume g: "g \<in> insert f seen" "note_of X s g = Some n"
      show "map_of (cache t) (mem_id n) = Some n"
      proof (cases "g = f")
        case False
        then have "mem_id n \<noteq> mem_id m" using inj g(2) by blast
        with A [of g n] g False show ?thesis by (simp add: t)
      qed (use g m(1) in \<open>simp add: t\<close>)
      show "\<exists>a. mtime_of s g = Some a \<and> map_of (cache_files t) g = Some (a, mem_id n)"
      proof (cases "g = f")
        case False
        with A [of g n] g show ?thesis by (simp add: t)
      qed (use g m(1) mt in \<open>simp add: t\<close>)
    next
      fix g c i n assume g: "map_of (cache_files t) g = Some (c, i)" "note_of X s g = Some n"
      have both: "mem_id n = i \<and> (mtime_of s g = Some c \<longrightarrow> map_of (cache t) i = Some n)"
      proof (cases "g = f")
        case True
        with g m(1) show ?thesis by (simp add: t)
      next
        case False
        with g have "map_of (cache_files s) g = Some (c, i)" by (simp add: t)
        with B g(2) have b: "mem_id n = i \<and> (mtime_of s g = Some c \<longrightarrow> map_of (cache s) i = Some n)" by blast
        moreover from b inj [OF g(2)] False have "i \<noteq> mem_id m" by blast
        ultimately show ?thesis by (simp add: t)
      qed
      then show "mem_id n = i" by blast
      assume "mtime_of s g = Some c"
      with both show "map_of (cache t) i = Some n" by blast
    next
      fix g assume "map_of (cache_files t) g \<noteq> None"
      then show "map_of (note_files t) g \<noteq> None"
        using C [of g] fl(1) by (cases "g = f") (simp_all add: t)
    next
      fix i assume "map_of (cache t) i \<noteq> None"
      then show "\<exists>g c. map_of (cache_files t) g = Some (c, i)"
      proof (cases "i = mem_id m")
        case True
        then show ?thesis by (auto simp: t)
      next
        case False
        with \<open>map_of (cache t) i \<noteq> None\<close> have "map_of (cache s) i \<noteq> None" by (simp add: t)
        with D obtain g c where gc: "map_of (cache_files s) g = Some (c, i)" by blast
        moreover have "g \<noteq> f" using B [of f c i m] gc m(1) False by blast
        ultimately show ?thesis by (intro exI [of _ g] exI [of _ c]) (simp add: t)
      qed
    qed
    then show ?thesis by (simp add: run t)
  qed
qed

lemma sweep_files_inv:
  assumes "dir_fine X s" "mid_sweep X seen s" "set fs \<subseteq> set (map fst (note_files s))"
  shows "mid_sweep X (seen \<union> set fs) (fst (fold (sweep_file X) fs (s, b))) \<and>
    note_files (fst (fold (sweep_file X) fs (s, b))) = note_files s"
  using assms
proof (induction fs arbitrary: s seen b)
  case (Cons f fs)
  obtain t c where t: "sweep_file X f (s, b) = (t, c)" by (cases "sweep_file X f (s, b)")
  from sweep_file_step [OF Cons.prems(1,2), of f b] Cons.prems(3) t
  have step: "mid_sweep X (insert f seen) t" "note_files t = note_files s" by auto
  then have "dir_fine X t" using Cons.prems(1) unfolding dir_fine_def by (simp add: note_of_def)
  from Cons.IH [OF this step(1), of c] step(2) Cons.prems(3) t show ?case by simp
qed simp

lemma after_evictions:
  assumes "table_ok X s"
  shows "mid_sweep X {} (fold evict_stale (filter (\<lambda>f. f \<notin> set (map fst (note_files s))) (map fst (cache_files s))) s)"
    (is "mid_sweep X {} ?t")
proof -
  let ?stale = "filter (\<lambda>f. f \<notin> set (map fst (note_files s))) (map fst (cache_files s))"
  have stale: "f \<in> set ?stale \<longleftrightarrow> map_of (cache_files s) f \<noteq> None \<and> map_of (note_files s) f = None" for f
    using map_of_eq_None_iff [of "cache_files s" f] map_of_eq_None_iff [of "note_files s" f] by auto
  note ok = assms [unfolded table_ok_def]
  have same: "note_of X ?t f = note_of X s f" "mtime_of ?t f = mtime_of s f" for f
    by (simp_all add: note_of_def mtime_of_def)
  have files: "map_of (cache_files ?t) f = Some c \<longleftrightarrow>
      map_of (cache_files s) f = Some c \<and> map_of (note_files s) f \<noteq> None" for f c
    unfolding map_of_fold_evict(1) stale
    by (cases "map_of (cache_files s) f"; cases "map_of (note_files s) f"; simp)
  have keep: "map_of (cache ?t) i = map_of (cache s) i"
    if "map_of (cache_files s) f = Some (a, i)" "map_of (note_files s) f \<noteq> None" for f a i
  proof -
    have "g \<notin> set ?stale" if "map_of (cache_files s) g = Some (b, i)" for g b
    proof -
      have "f = g" using ok [THEN conjunct1] that \<open>map_of (cache_files s) f = Some (a, i)\<close> by blast
      then show ?thesis unfolding stale using \<open>map_of (note_files s) f \<noteq> None\<close> by simp
    qed
    then show ?thesis by (auto simp only: map_of_fold_evict(2) split: if_splits)
  qed
  show ?thesis
    unfolding mid_sweep_def same
  proof (intro conjI allI impI)
    fix f a i m assume f: "map_of (cache_files ?t) f = Some (a, i)" "note_of X s f = Some m"
    then show "mem_id m = i" using ok files by blast
    assume "mtime_of s f = Some a"
    then show "map_of (cache ?t) i = Some m" using f ok files keep by metis
  next
    fix f assume "map_of (cache_files ?t) f \<noteq> None"
    then show "map_of (note_files ?t) f \<noteq> None" using files by fastforce
  next
    fix i assume i: "map_of (cache ?t) i \<noteq> None"
    then have "map_of (cache s) i \<noteq> None" by (auto simp: map_of_fold_evict(2) split: if_splits)
    with ok obtain f a where f: "map_of (cache_files s) f = Some (a, i)" by blast
    have "f \<notin> set ?stale"
    proof
      assume "f \<in> set ?stale"
      with f have "map_of (cache ?t) i = None" by (auto simp: map_of_fold_evict(2))
      with i show False by blast
    qed
    with f stale have "map_of (note_files s) f \<noteq> None" by fastforce
    with f files show "\<exists>f a. map_of (cache_files ?t) f = Some (a, i)" by blast
  qed simp_all
qed

lemma mid_sweep_all:
  assumes "dir_fine X s" "mid_sweep X (set (map fst (note_files s))) s"
  shows "is_view X s \<and> table_ok X s"
proof
  note ms = assms(2) [unfolded mid_sweep_def]
  have known: "f \<in> set (map fst (note_files s))" if "note_of X s f = Some m" for f m
  proof -
    have "map_of (note_files s) f \<noteq> None" using that by (cases "map_of (note_files s) f") (simp_all add: note_of_def)
    then show ?thesis by (simp add: map_of_eq_None_iff)
  qed
  have noted: "\<exists>m. note_of X s f = Some m" if "map_of (cache_files s) f = Some c" for f c
  proof -
    have "map_of (note_files s) f \<noteq> None" using ms that by blast
    then have "f \<in> set (map fst (note_files s))" by (simp add: map_of_eq_None_iff)
    with assms(1) show ?thesis unfolding dir_fine_def by blast
  qed
  show "is_view X s"
    unfolding is_view_def
  proof (intro allI iffI)
    fix i m assume i: "map_of (cache s) i = Some m"
    then obtain f a where f: "map_of (cache_files s) f = Some (a, i)" using ms by blast
    then obtain n where n: "note_of X s f = Some n" using noted by blast
    then have "map_of (cache s) (mem_id n) = Some n" "mem_id n = i" using ms known f by blast+
    with i n show "\<exists>f. note_of X s f = Some m \<and> mem_id m = i" by auto
  next
    fix i m assume "\<exists>f. note_of X s f = Some m \<and> mem_id m = i"
    then show "map_of (cache s) i = Some m" using ms known by blast
  qed
  show "table_ok X s"
    unfolding table_ok_def
  proof (intro conjI)
    show "\<forall>f g a b i. map_of (cache_files s) f = Some (a, i) \<longrightarrow> map_of (cache_files s) g = Some (b, i) \<longrightarrow> f = g"
    proof (intro allI impI)
      fix f g a b i assume fg: "map_of (cache_files s) f = Some (a, i)" "map_of (cache_files s) g = Some (b, i)"
      then obtain m n where "note_of X s f = Some m" "note_of X s g = Some n" using noted by blast
      moreover from this fg have "mem_id m = i" "mem_id n = i" using ms by blast+
      ultimately show "f = g" using assms(1) unfolding dir_fine_def by blast
    qed
  qed (use ms in blast)+
qed

lemma view_cong:
  "cache s' = cache t \<Longrightarrow> cache_files s' = cache_files t \<Longrightarrow> note_files s' = note_files t \<Longrightarrow>
   is_view X s' = is_view X t \<and> table_ok X s' = table_ok X t"
  by (simp add: is_view_def table_ok_def note_of_def mtime_of_def)

lemma sweep_cases:
  assumes "dir_ok s"
    and "t = fst (fold (sweep_file X) (map fst (note_files s))
    (fold evict_stale (filter (\<lambda>f. f \<notin> set (map fst (note_files s))) (map fst (cache_files s))) (s\<lparr>last_sweep := c_time clk\<rparr>),
     dirty s \<or> filter (\<lambda>f. f \<notin> set (map fst (note_files s))) (map fst (cache_files s)) \<noteq> []))"
  shows "sweep_vault_cache X clk s = t\<lparr>dirty := False\<rparr> \<or>
    sweep_vault_cache X clk s = t\<lparr>dirty := False, disk_cache := Payload (cache t, cache_files t)\<rparr>"
  using assms by (auto simp: sweep_vault_cache_def flush_vault_cache_def Let_def split_beta)

text \<open>
  C2: A sweep makes the cache the view of the directory. When every note parses and no two
  notes have one id, and the file table is consistent, then after a sweep the cache holds,
  for each id, exactly the memory its note parses to, whatever was added, changed (with a new
  modification time), renamed or deleted behind its back; the table is consistent again and
  the notes are untouched.
\<close>

theorem sweep_refines_directory:
  assumes "dir_ok s" "dir_fine X s" "table_ok X s" "s' = sweep_vault_cache X clk s"
  shows "is_view X s' \<and> table_ok X s' \<and> note_files s' = note_files s"
proof -
  let ?s = "s\<lparr>last_sweep := c_time clk\<rparr>"
  let ?paths = "map fst (note_files s)"
  let ?stale = "filter (\<lambda>f. f \<notin> set ?paths) (map fst (cache_files s))"
  let ?e = "fold evict_stale ?stale ?s"
  define t where "t = fst (fold (sweep_file X) ?paths (?e, dirty s \<or> ?stale \<noteq> []))"
  have "table_ok X ?s" using assms(3) by (simp add: table_ok_def note_of_def mtime_of_def)
  from after_evictions [OF this] have e: "mid_sweep X {} ?e" by simp
  have "dir_fine X ?e" using assms(2) by (simp add: dir_fine_def note_of_def)
  from sweep_files_inv [OF this e, of ?paths "dirty s \<or> ?stale \<noteq> []"]
  have t: "mid_sweep X (set ?paths) t" "note_files t = note_files s" by (simp_all add: t_def)
  have "dir_fine X t" using assms(2) t(2) by (simp add: dir_fine_def note_of_def)
  with mid_sweep_all t have view: "is_view X t \<and> table_ok X t" by simp
  have "s' = t\<lparr>dirty := False\<rparr> \<or> s' = t\<lparr>dirty := False, disk_cache := Payload (cache t, cache_files t)\<rparr>"
    unfolding assms(4) by (rule sweep_cases [OF assms(1) t_def])
  then have "cache s' = cache t" "cache_files s' = cache_files t" "note_files s' = note_files t"
    by (elim disjE; simp)+
  with view t(2) view_cong [of s' t X] show ?thesis by simp
qed

text \<open>A store with no notes, and one with a single note.\<close>

definition empty_store :: store where
  "empty_store =
     \<lparr>vault_ok = True, dir_ok = True, note_files = [], cache = [], cache_files = [], last_sweep = 0,
      cache_loaded = False, dirty = False, disk_cache = NoFile, legacy_cache = NoFile, quarantined = [],
      index_text = None, fts_db = \<lparr>rows = [], user_version = 3\<rparr>, edges = [], events = []\<rparr>"

definition sample_ext :: ext where
  "sample_ext =
     \<lparr>x_aliases = [], x_dumps = \<lambda>d b. ''---'',
      x_loads = \<lambda>t. Some (note_meta sample_note, essence sample_note), x_list_text = \<lambda>_. []\<rparr>"

definition sample_clock :: clock where
  "sample_clock = \<lparr>c_time = 100, c_iso = ''2026-06-12'', c_day = ''2026-06-12''\<rparr>"

lemma empty_table_ok: "cache s = [] \<Longrightarrow> cache_files s = [] \<Longrightarrow> table_ok X s"
  by (simp add: table_ok_def)

theorem sweep_refines_directory_witness:
  "is_view sample_ext (sweep_vault_cache sample_ext sample_clock
     (empty_store\<lparr>note_files := [(note_filename sample_note, ''---'', 5)]\<rparr>))"
proof -
  let ?s = "empty_store\<lparr>note_files := [(note_filename sample_note, ''---'', 5)]\<rparr>"
  have "mem_id (memory_of_note sample_ext (note_filename sample_note) (note_meta sample_note) (essence sample_note)) \<noteq> []"
    by (simp add: memory_of_note_def Let_def str_if_truthy_def note_meta_get sample_note_def)
  then have "dir_fine sample_ext ?s"
    by (auto simp: dir_fine_def note_of_def empty_store_def parse_note_def sample_ext_def lstrip_def py_space_def
        split: if_splits)
  moreover have "table_ok sample_ext ?s" by (rule empty_table_ok) (simp_all add: empty_store_def)
  ultimately show ?thesis
    using sweep_refines_directory [OF _ _ _ refl, of ?s sample_ext sample_clock] by (simp add: empty_store_def)
qed

section \<open>Finding by prefix\<close>

text \<open>
  The two lookups by id prefix. Both find an exact id first. On a prefix of at least
  eight characters the plain one returns the first match, the unambiguous one a memory only
  if it is the single match; so whenever the unambiguous one finds a memory the plain one
  finds the same, and the memory's key is the id or extends it.
\<close>

theorem lookup_prefix_contract:
  "(map_of c mid = Some m \<longrightarrow> lookup mid c = Some m \<and> lookup_unambiguous mid c = Some m) \<and>
   (lookup_unambiguous mid c = Some m \<longrightarrow>
      lookup mid c = Some m \<and>
      (\<exists>i. (i, m) \<in> set c \<and> starts_with i mid \<and>
         (map_of c mid = None \<longrightarrow> (\<forall>j n. (j, n) \<in> set c \<and> starts_with j mid \<longrightarrow> (j, n) = (i, m)))))"
proof (intro conjI impI)
  assume "map_of c mid = Some m"
  then show "lookup mid c = Some m" "lookup_unambiguous mid c = Some m"
    by (simp_all add: lookup_def lookup_unambiguous_def)
next
  assume u: "lookup_unambiguous mid c = Some m"
  have "lookup mid c = Some m \<and>
      (\<exists>i. (i, m) \<in> set c \<and> starts_with i mid \<and>
         (map_of c mid = None \<longrightarrow> (\<forall>j n. (j, n) \<in> set c \<and> starts_with j mid \<longrightarrow> (j, n) = (i, m))))"
  proof (cases "map_of c mid")
    case None
    then obtain i where one: "filter (\<lambda>(i, m). starts_with i mid) c = [(i, m)]" and "length mid \<ge> 8"
      using u by (auto simp: lookup_unambiguous_def split: if_splits list.splits)
    then have mem: "(j, n) \<in> set c \<and> starts_with j mid \<longleftrightarrow> (j, n) = (i, m)" for j n
    proof -
      have "(j, n) \<in> set (filter (\<lambda>(i, m). starts_with i mid) c) \<longleftrightarrow> (j, n) = (i, m)"
        unfolding one by simp
      then show ?thesis by simp
    qed
    have "find P c = (case filter P c of [] \<Rightarrow> None | x # xs \<Rightarrow> Some x)" for P :: "string \<times> memory \<Rightarrow> bool"
      by (induction c) auto
    with one None \<open>length mid \<ge> 8\<close> have "lookup mid c = Some m" by (simp add: lookup_def)
    with mem show ?thesis by blast
  next
    case (Some n)
    with u have "n = m" by (simp add: lookup_unambiguous_def)
    with Some show ?thesis by (auto simp: lookup_def dest: map_of_SomeD)
  qed
  then show "lookup mid c = Some m" "\<exists>i. (i, m) \<in> set c \<and> starts_with i mid \<and>
      (map_of c mid = None \<longrightarrow> (\<forall>j n. (j, n) \<in> set c \<and> starts_with j mid \<longrightarrow> (j, n) = (i, m)))"
    by blast+
qed

theorem lookup_prefix_contract_witness:
  "lookup_unambiguous ''aaaaaaaa'' [(''aaaaaaaa-1'', blank_memory ''aaaaaaaa-1'' ''T'' ''E'')]
     = Some (blank_memory ''aaaaaaaa-1'' ''T'' ''E'') \<and>
   lookup ''aaaaaaaa'' [(''aaaaaaaa-1'', blank_memory ''aaaaaaaa-1'' ''T'' ''E'')]
     = Some (blank_memory ''aaaaaaaa-1'' ''T'' ''E'')"
proof -
  have "lookup_unambiguous ''aaaaaaaa'' [(''aaaaaaaa-1'', blank_memory ''aaaaaaaa-1'' ''T'' ''E'')]
     = Some (blank_memory ''aaaaaaaa-1'' ''T'' ''E'')"
    by (simp add: lookup_unambiguous_def)
  with lookup_prefix_contract
    [of "[(''aaaaaaaa-1'', blank_memory ''aaaaaaaa-1'' ''T'' ''E'')]" "''aaaaaaaa''" "blank_memory ''aaaaaaaa-1'' ''T'' ''E''"]
  show ?thesis by blast
qed

end
