(* ===== verification/Store.thy ===== *)
theory Store
  imports VaultCache Security
begin

text \<open>
  The mutations of \<^verbatim>\<open>memem/obsidian_store.py\<close>: save, update, link, delete, invalidate,
  deprecate, purge. Each is the whole operation: the note, the cache, the index, the FTS
  table, the graph and the event log, in the order of the source. \<open>fts_match\<close> is SQLite's
  matching. The embedding upsert of a save never raises and keeps no state modelled here. An
  operation that raises returns the error with the state it leaves behind.
\<close>

text \<open>Helpers of the mutations: the neighbours of a memory, and the steps after a write.\<close>

definition suggest_for :: "ext \<Rightarrow> clock \<Rightarrow> memory \<Rightarrow> nat \<Rightarrow> store \<Rightarrow> string list \<times> store" where
  "suggest_for X clk m limit s =
     (let (ms, s) = obsidian_memories X clk None False s
      in (suggest_related (x_aliases X) m ms limit, s))"

definition refresh_edges :: "ext \<Rightarrow> clock \<Rightarrow> string \<Rightarrow> store \<Rightarrow> store" where
  "refresh_edges X clk mid s =
     (case find_memory X clk mid s of
        (None, s) \<Rightarrow> s
      | (Some m, s) \<Rightarrow>
          if mem_id m = [] \<or> \<not> is_active m
          then s\<lparr>edges := remove_edges_for_memory (mem_id m) (edges s)\<rparr>
          else
            let (ms, s) = obsidian_memories X clk None False s
            in s\<lparr>edges := fst (refresh_edges_for_memory (x_aliases X) (c_iso clk) ms m 8 (edges s))\<rparr>)"

definition update_index_line :: "clock \<Rightarrow> memory \<Rightarrow> store \<Rightarrow> store" where
  "update_index_line clk m s =
     s\<lparr>index_text := append_or_update_index_line (c_day clk) m (index_text s)\<rparr>"

definition drop_index_line :: "clock \<Rightarrow> string \<Rightarrow> store \<Rightarrow> store" where
  "drop_index_line clk mid s = s\<lparr>index_text := remove_index_line (c_day clk) mid (index_text s)\<rparr>"

definition fts_index :: "ext \<Rightarrow> memory \<Rightarrow> store \<Rightarrow> store" where
  "fts_index X m s = s\<lparr>fts_db := index_memory (x_aliases X) m (fts_db s)\<rparr>"

definition fts_remove :: "string \<Rightarrow> store \<Rightarrow> store" where
  "fts_remove mid s = s\<lparr>fts_db := remove_from_index mid (fts_db s)\<rparr>"

definition drop_edges :: "string \<Rightarrow> store \<Rightarrow> store" where
  "drop_edges mid s = s\<lparr>edges := remove_edges_for_memory mid (edges s)\<rparr>"

text \<open>\<^verbatim>\<open>_find_related\<close>: the graph's suggestions, or the lexical fallback when there are none.\<close>

definition find_related :: "ext \<Rightarrow> clock \<Rightarrow> string \<Rightarrow> string \<Rightarrow> string \<Rightarrow> nat \<Rightarrow> store \<Rightarrow> string list \<times> store" where
  "find_related X clk content exclude_id scope limit s =
     (let al = x_aliases X;
          candidate = (blank_memory exclude_id [] content)
            \<lparr>project := normalize_scope_id al scope, layer := Some DEFAULT_LAYER\<rparr>;
          (suggested, s) = suggest_for X clk candidate limit s
      in if suggested \<noteq> [] then (suggested, s)
         else let (ms, s) = obsidian_memories X clk None False s
              in (find_related_lexical al ms content exclude_id scope limit, s))"

section \<open>Contradictions\<close>

fun find_all :: "ext \<Rightarrow> clock \<Rightarrow> string list \<Rightarrow> store \<Rightarrow> memory list \<times> store" where
  "find_all X clk [] s = ([], s)"
| "find_all X clk (i # ids) s =
     (let (found, s) = find_memory X clk i s; (rest, s) = find_all X clk ids s
      in ((case found of None \<Rightarrow> rest | Some m \<Rightarrow> m # rest), s))"

definition contradicted :: "ext \<Rightarrow> fts_match \<Rightarrow> clock \<Rightarrow> string \<Rightarrow> string \<Rightarrow> store \<Rightarrow> string list \<times> store" where
  "contradicted X fm clk content scope s =
     (if \<exists>sig \<in> set negation_signals. contains (lower content) sig
      then let ids = search_fts (x_aliases X) fm (fts_db s) (take 200 content) scope 5;
               (candidates, s) = find_all X clk ids s
           in (contradictions_among candidates content, s)
      else ([], s))"

section \<open>Saving\<close>

text \<open>Up to the write: the contradictions and the related ids of the new memory.\<close>

definition prepare_save ::
  "ext \<Rightarrow> fts_match \<Rightarrow> clock \<Rightarrow> memory \<Rightarrow> store \<Rightarrow> memory \<times> store" where
  "prepare_save X fm clk m s =
     (let (contra, s) = contradicted X fm clk (essence m) (project m) s;
          m = (if contra \<noteq> [] then m\<lparr>contradicts := contra\<rparr> else m)
      in if essence m \<noteq> [] \<and> mem_id m \<noteq> []
         then let (rel, s) = suggest_for X clk m 3 s
              in (if rel \<noteq> [] then m\<lparr>related := rel\<rparr> else m, s)
         else (m, s))"

text \<open>After the write.\<close>

definition finish_save :: "ext \<Rightarrow> clock \<Rightarrow> memory \<Rightarrow> store \<Rightarrow> store" where
  "finish_save X clk m s =
     (let s = cache_refresh_from_disk X (mem_id m) s;
          s = (if index_text s \<noteq> None then update_index_line clk m s else s);
          s = log_event clk ''save'' (mem_id m) [(''title'', title m)] s;
          s = fts_index X m s
      in refresh_edges X clk (mem_id m) s)"

definition save_memory ::
  "ext \<Rightarrow> fts_match \<Rightarrow> clock \<Rightarrow> memory \<Rightarrow> store \<Rightarrow> (store_error + memory) \<times> store" where
  "save_memory X fm clk m s =
     (if \<not> vault_ok s then (Inl ObsidianUnavailable, s)
      else
        let (m, s) = prepare_save X fm clk m (s\<lparr>dir_ok := True\<rparr>)
        in case write_obsidian_memory X clk m s of
             Inl e \<Rightarrow> (Inl e, s)
           | Inr (m, s) \<Rightarrow> (Inr m, finish_save X clk m s))"

section \<open>Changing an existing memory\<close>

definition merge_new :: "string list \<Rightarrow> string list \<Rightarrow> string list" where
  "merge_new old extra = old @ filter (\<lambda>t. t \<noteq> [] \<and> t \<notin> set old) extra"

definition merged ::
  "clock \<Rightarrow> string \<Rightarrow> string \<Rightarrow> string list \<Rightarrow> string list \<Rightarrow> memory \<Rightarrow> memory" where
  "merged clk new_content new_title extra_tags extra_keys m =
     m\<lparr>essence := new_content,
       title := (if new_title \<noteq> [] then new_title else title m),
       domain_tags := merge_new (domain_tags m) extra_tags,
       keys := merge_new (keys m) extra_keys,
       updated_at := c_iso clk\<rparr>"

definition finish_update :: "ext \<Rightarrow> clock \<Rightarrow> string \<Rightarrow> memory \<Rightarrow> store \<Rightarrow> store" where
  "finish_update X clk mid m s =
     (let s = cache_refresh_from_disk X (mem_id m) (mutate_cached m s);
          s = update_index_line clk m s;
          s = log_event clk ''update'' mid [] s;
          s = fts_index X m s
      in refresh_edges X clk (mem_id m) s)"

definition update_memory ::
  "ext \<Rightarrow> clock \<Rightarrow> string \<Rightarrow> string \<Rightarrow> string \<Rightarrow> string list \<Rightarrow> string list \<Rightarrow> store \<Rightarrow> (store_error + unit) \<times> store" where
  "update_memory X clk mid new_content new_title extra_tags extra_keys s =
     (case scan_memory_content new_content of
        Some threat \<Rightarrow> (Inl (ValueError (''Update blocked: '' @ threat)), s)
      | None \<Rightarrow>
          (case find_memory X clk mid s of
             (None, s) \<Rightarrow> (Inl (ValueError (''Memory not found: '' @ mid)), s)
           | (Some m, s) \<Rightarrow>
               let m = merged clk new_content new_title extra_tags extra_keys m;
                   (rel, s) = suggest_for X clk m 3 (mutate_cached m s);
                   m = m\<lparr>related := rel\<rparr>;
                   s = mutate_cached m s
               in (case write_obsidian_memory X clk m s of
                     Inl e \<Rightarrow> (Inl e, s)
                   | Inr (m, s) \<Rightarrow> (Inr (), finish_update X clk mid m s))))"

definition finish_link :: "ext \<Rightarrow> clock \<Rightarrow> memory \<Rightarrow> store \<Rightarrow> store" where
  "finish_link X clk m s =
     (let s = cache_refresh_from_disk X (mem_id m) (mutate_cached m s);
          s = (if index_text s \<noteq> None then update_index_line clk m s else s);
          s = fts_index X m s
      in refresh_edges X clk (mem_id m) s)"

text \<open>One direction of a link; the flag says whether the memory changed.\<close>

definition link_one ::
  "ext \<Rightarrow> clock \<Rightarrow> memory \<Rightarrow> memory \<Rightarrow> store \<Rightarrow> (store_error + bool) \<times> store" where
  "link_one X clk current other s =
     (let rel = uniq (filter (\<lambda>i. i \<noteq> []) (map (\<lambda>i. id8 (strip i)) (related current)));
          short = id8 (mem_id other)
      in if short \<in> set rel then (Inr False, s)
         else
           let m = current\<lparr>related := rel @ [short], updated_at := c_iso clk\<rparr>;
               s = mutate_cached m s
           in (case write_obsidian_memory X clk m s of
                 Inl e \<Rightarrow> (Inl e, s)
               | Inr (m, s) \<Rightarrow> (Inr True, finish_link X clk m s)))"

datatype link_status = InvalidTarget | Linked | AlreadyLinked

definition add_related_link ::
  "ext \<Rightarrow> clock \<Rightarrow> string \<Rightarrow> string \<Rightarrow> store \<Rightarrow> (store_error + link_status) \<times> store" where
  "add_related_link X clk mid rid s =
     (let (a, s) = find_memory X clk mid s; (b, s) = find_memory X clk rid s in
      case (a, b) of
        (Some m, Some n) \<Rightarrow>
          if mem_id m = [] \<or> mem_id n = [] \<or> mem_id m = mem_id n \<or>
             status m = ''deprecated'' \<or> status n = ''deprecated''
          then (Inr InvalidTarget, s)
          else if \<not> vault_ok s then (Inl ObsidianUnavailable, s)
          else
            (case link_one X clk m n (s\<lparr>dir_ok := True\<rparr>) of
               (Inl e, s) \<Rightarrow> (Inl e, s)
             | (Inr c1, s) \<Rightarrow>
                 (case link_one X clk n m s of
                    (Inl e, s) \<Rightarrow> (Inl e, s)
                  | (Inr c2, s) \<Rightarrow>
                      if c1 \<or> c2
                      then (Inr Linked,
                            log_event clk ''link_related'' (mem_id m) [(''related_id'', id8 (mem_id n))] s)
                      else (Inr AlreadyLinked, s)))
      | _ \<Rightarrow> (Inr InvalidTarget, s))"

section \<open>Removing\<close>

text \<open>
  \<^verbatim>\<open>_delete_memory\<close> catches every exception and answers \<open>False\<close>: a memory without a path
  makes \<^verbatim>\<open>unlink\<close> fail on the directory, before anything else has happened.
\<close>

definition finish_delete :: "clock \<Rightarrow> string \<Rightarrow> string \<Rightarrow> store \<Rightarrow> store" where
  "finish_delete clk mid full_id s =
     (let s = cache_evict full_id s;
          s = drop_index_line clk mid s;
          s = log_event clk ''delete'' mid [] s;
          s = fts_remove mid s
      in drop_edges full_id s)"

definition delete_memory :: "ext \<Rightarrow> clock \<Rightarrow> string \<Rightarrow> store \<Rightarrow> bool \<times> store" where
  "delete_memory X clk mid s =
     (case find_memory X clk mid s of
        (None, s) \<Rightarrow> (True, finish_delete clk mid mid s)
      | (Some m, s) \<Rightarrow>
          if mem_file m = [] then (False, s)
          else (True, finish_delete clk mid (mem_id m)
                        (s\<lparr>note_files := AList.delete (mem_file m) (note_files s)\<rparr>)))"

text \<open>Invalidating and deprecating rewrite the note the same way.\<close>

definition rewrite_found ::
  "ext \<Rightarrow> clock \<Rightarrow> string \<Rightarrow> (memory \<Rightarrow> memory) \<Rightarrow> (memory \<Rightarrow> store \<Rightarrow> store) \<Rightarrow> store \<Rightarrow>
   (store_error + bool) \<times> store" where
  "rewrite_found X clk mid change finish s =
     (case find_memory X clk mid s of
        (None, s) \<Rightarrow> (Inr False, s)
      | (Some m, s) \<Rightarrow>
          let m = change m; s = mutate_cached m s
          in (case write_obsidian_memory X clk m s of
                Inl e \<Rightarrow> (Inl e, s)
              | Inr (m, s) \<Rightarrow>
                  (Inr True, finish m (cache_refresh_from_disk X (mem_id m) (mutate_cached m s)))))"

definition invalidate_memory ::
  "ext \<Rightarrow> clock \<Rightarrow> string \<Rightarrow> string option \<Rightarrow> store \<Rightarrow> (store_error + bool) \<times> store" where
  "invalidate_memory X clk mid successor s =
     rewrite_found X clk mid
       (\<lambda>m. m\<lparr>invalid_at := Some (c_iso clk),
              replaced_by := (if successor \<noteq> None \<and> successor \<noteq> Some [] then successor else replaced_by m)\<rparr>)
       (\<lambda>m s. log_event clk ''invalidate'' mid
                [(''replaced_by'', case successor of None \<Rightarrow> ''null'' | Some r \<Rightarrow> r)] (fts_remove mid s)) s"

definition deprecate_memory ::
  "ext \<Rightarrow> clock \<Rightarrow> string \<Rightarrow> string \<Rightarrow> store \<Rightarrow> (store_error + bool) \<times> store" where
  "deprecate_memory X clk mid reason s =
     rewrite_found X clk mid
       (\<lambda>m. m\<lparr>status := ''deprecated'', valid_to := c_iso clk\<rparr>)
       (\<lambda>m s. drop_edges (mem_id m)
          (fts_remove mid (log_event clk ''deprecate'' mid [(''reason'', reason)] (drop_index_line clk mid s)))) s"

text \<open>
  \<^verbatim>\<open>purge_mined_memories\<close>. A mined memory without a path would raise on the directory
  itself (\<open>None\<close>); the file of mined sessions is emptied when it exists.
\<close>

fun purge_each :: "clock \<Rightarrow> memory list \<Rightarrow> store \<times> nat \<Rightarrow> (store \<times> nat) option" where
  "purge_each clk [] sn = Some sn"
| "purge_each clk (m # ms) (s, n) =
     (if ''mined'' \<notin> set (domain_tags m) then purge_each clk ms (s, n)
      else if mem_file m = [] then None
      else if map_of (note_files s) (mem_file m) = None then purge_each clk ms (s, n)
      else
        let s = s\<lparr>note_files := AList.delete (mem_file m) (note_files s)\<rparr>;
            s = (if mem_id m = [] then s
                 else drop_index_line clk (mem_id m) (fts_remove (mem_id m) (cache_evict (mem_id m) s)))
        in purge_each clk ms (s, n + 1))"

definition purge_mined_memories ::
  "ext \<Rightarrow> clock \<Rightarrow> string option \<Rightarrow> store \<Rightarrow> (store \<times> nat \<times> string option) option" where
  "purge_mined_memories X clk mined_sessions s =
     (let (ms, s) = obsidian_memories X clk None False s in
      map_option (\<lambda>(s, n). (s, n, map_option (\<lambda>_. []) mined_sessions)) (purge_each clk ms (s, 0)))"

text \<open>\<^verbatim>\<open>_rebuild_search_index\<close> and \<^verbatim>\<open>_rebuild_graph\<close> on the store.\<close>

definition rebuild_fts :: "ext \<Rightarrow> clock \<Rightarrow> store \<Rightarrow> nat \<times> store" where
  "rebuild_fts X clk s =
     (let (ms, s) = obsidian_memories X clk None False s;
          (db, n) = rebuild_search_index (x_aliases X) ms (fts_db s)
      in (n, s\<lparr>fts_db := db\<rparr>))"

section \<open>What reading leaves alone\<close>

text \<open>Everything beside the notes and their cache.\<close>

definition others :: "store \<Rightarrow> bool \<times> search_db \<times> graph \<times> event list \<times> string option" where
  "others s = (vault_ok s, fts_db s, edges s, events s, index_text s)"

lemma others_fields [simp]:
  "others (cache_update f s) = others s"
  "others (cache_files_update g s) = others s"
  "others (dirty_update h s) = others s"
  "others (dir_ok_update h s) = others s"
  "others (last_sweep_update t s) = others s"
  "others (cache_loaded_update h s) = others s"
  "others (disk_cache_update k s) = others s"
  "others (legacy_cache_update k s) = others s"
  "others (note_files_update n s) = others s"
  "others (quarantined_update q s) = others s"
  by (simp_all add: others_def)

lemma others_quarantine [simp]: "others (quarantine_note f s) = others s"
  by (simp add: quarantine_note_def handle_malformed_def split: option.split)

lemma others_evict_stale [simp]: "others (evict_stale f s) = others s"
  by (simp add: evict_stale_def split: option.split)

interpretation evict_tables: quiet_step others evict_stale
  by unfold_locales simp

lemma others_fold_evict [simp]: "others (fold evict_stale fs s) = others s"
  by (rule evict_tables.fold_quiet)

lemma others_sweep_file [simp]: "others (fst (sweep_file X f sc)) = others (fst sc)"
  by (simp add: sweep_file_def Let_def split: option.split parsed.split)

interpretation sweep_tables: quiet_step "\<lambda>sc. others (fst sc)" "sweep_file X" for X
  by unfold_locales simp

lemma others_sweep_files [simp]: "others (fst (fold (sweep_file X) fs sc)) = others (fst sc)"
  by (rule sweep_tables.fold_quiet)

lemma others_sweep [simp]: "others (sweep_vault_cache X clk s) = others s"
  by (simp add: sweep_vault_cache_def flush_vault_cache_def Let_def split_beta)

lemma others_load [simp]: "others (snd (load_vault_cache s)) = others s"
  by (simp add: load_vault_cache_def adopt_payload_def Let_def split: disk_cache.split)

lemma others_warm [simp]: "others (ensure_cache_warm X clk s) = others s"
  by (simp add: ensure_cache_warm_def Let_def)

lemma others_refresh [simp]: "others (cache_refresh_from_disk X mid s) = others s"
  by (simp add: cache_refresh_from_disk_def Let_def split: list.split option.split parsed.split)

lemma others_evict [simp]: "others (cache_evict mid s) = others s"
  by (simp add: cache_evict_def)

lemma others_find [simp]: "others (snd (find_memory X clk mid s)) = others s"
  by (simp add: find_memory_def Let_def)

lemma others_memories [simp]: "others (snd (obsidian_memories X clk sc b s)) = others s"
  by (simp add: obsidian_memories_def Let_def)

lemma others_suggest [simp]: "others (snd (suggest_for X clk m n s)) = others s"
  by (simp add: suggest_for_def split_beta)

lemma others_find_all [simp]: "others (snd (find_all X clk ids s)) = others s"
  by (induction ids arbitrary: s) (simp_all add: split_beta)

lemma others_contradicted [simp]: "others (snd (contradicted X fm clk c sc s)) = others s"
  by (simp add: contradicted_def split_beta Let_def)

lemma others_mutate [simp]: "others (mutate_cached m s) = others s"
  by (simp add: mutate_cached_def)

lemma others_write: "write_obsidian_memory X clk m s = Inr (m', s') \<Longrightarrow> others s' = others s"
  by (auto simp: write_obsidian_memory_def Let_def split: if_splits)

section \<open>Histories\<close>

text \<open>
  What every mutation keeps: the index tables stay well-formed and the event log only grows.
  A step that touches neither carries the relation along, so the operations are chains of
  the rules below.
\<close>

definition tables_ok :: "store \<Rightarrow> bool" where
  "tables_ok s \<longleftrightarrow> wf_rows (fts_db s) \<and> graph_ok (edges s)"

definition evolves :: "store \<Rightarrow> store \<Rightarrow> bool" where
  "evolves s t \<longleftrightarrow> (tables_ok s \<longrightarrow> tables_ok t) \<and> prefix (events s) (events t)"

named_theorems evolving "steps of the store that keep its tables well-formed and its log growing"

lemma evolves_refl [evolving]: "evolves s s"
  by (simp add: evolves_def)

lemma evolves_trans: "evolves r s \<Longrightarrow> evolves s t \<Longrightarrow> evolves r t"
  using prefix_order.trans by (auto simp: evolves_def)

lemma evolves_others: "others t' = others t \<Longrightarrow> evolves s t \<Longrightarrow> evolves s t'"
  by (simp add: evolves_def tables_ok_def others_def)

lemma evolves_fields [evolving]:
  "evolves s t \<Longrightarrow> evolves s (t\<lparr>dir_ok := b\<rparr>)"
  "evolves s t \<Longrightarrow> evolves s (t\<lparr>note_files := n\<rparr>)"
  "evolves s t \<Longrightarrow> evolves s (t\<lparr>index_text := i\<rparr>)"
  by (simp_all add: evolves_def tables_ok_def)

lemma evolves_reads [evolving]:
  "evolves s t \<Longrightarrow> evolves s (ensure_cache_warm X clk t)"
  "evolves s t \<Longrightarrow> evolves s (cache_refresh_from_disk X mid t)"
  "evolves s t \<Longrightarrow> evolves s (cache_evict mid t)"
  "evolves s t \<Longrightarrow> evolves s (mutate_cached m t)"
  "evolves s t \<Longrightarrow> evolves s (snd (find_memory X clk mid t))"
  "evolves s t \<Longrightarrow> evolves s (snd (obsidian_memories X clk sc b t))"
  "evolves s t \<Longrightarrow> evolves s (snd (suggest_for X clk m n t))"
  "evolves s t \<Longrightarrow> evolves s (snd (contradicted X fm clk c sd t))"
  by (erule evolves_others [rotated], simp)+

lemma evolves_update_line [evolving]: "evolves s t \<Longrightarrow> evolves s (update_index_line clk m t)"
  by (simp add: update_index_line_def evolves_fields)

lemma evolves_drop_line [evolving]: "evolves s t \<Longrightarrow> evolves s (drop_index_line clk i t)"
  by (simp add: drop_index_line_def evolves_fields)

lemma evolves_log [evolving]: "evolves s t \<Longrightarrow> evolves s (log_event clk op mid ds t)"
  by (simp add: evolves_def tables_ok_def log_event_def)

lemma evolves_fts_index [evolving]: "evolves s t \<Longrightarrow> evolves s (fts_index X m t)"
  by (simp add: evolves_def tables_ok_def fts_index_def index_memory_put fts.wf_put)

lemma evolves_fts_remove [evolving]: "evolves s t \<Longrightarrow> evolves s (fts_remove mid t)"
  by (simp add: evolves_def tables_ok_def fts_remove_def remove_from_index_def fts.wf_del)

lemma evolves_drop_edges [evolving]: "evolves s t \<Longrightarrow> evolves s (drop_edges mid t)"
  by (simp add: evolves_def tables_ok_def drop_edges_def graph_ok_remove)

lemma evolves_edges: "evolves s t \<Longrightarrow> (graph_ok (edges t) \<Longrightarrow> graph_ok g) \<Longrightarrow> evolves s (t\<lparr>edges := g\<rparr>)"
  by (simp add: evolves_def tables_ok_def)

lemma evolves_refresh_edges [evolving]:
  assumes "evolves s t"
  shows "evolves s (refresh_edges X clk mid t)"
proof -
  obtain r u where f: "find_memory X clk mid t = (r, u)" by fastforce
  then have u: "evolves s u" using evolves_reads(5) [OF assms, of X clk mid] by simp
  obtain ms v where ms: "obsidian_memories X clk None False u = (ms, v)" by fastforce
  then have v: "evolves s v" using evolves_reads(6) [OF u, of X clk None False] by simp
  show ?thesis
  proof (cases r)
    case (Some m)
    then show ?thesis using u v
      by (simp add: refresh_edges_def f ms evolves_edges graph_ok_remove graph_ok_refresh)
  qed (simp add: refresh_edges_def f u)
qed

lemma evolves_write:
  "evolves s t \<Longrightarrow> write_obsidian_memory X clk m t = Inr (m', t') \<Longrightarrow> evolves s t'"
  by (rule evolves_others [OF others_write])

lemma evolves_prepare_save [evolving]: "evolves s t \<Longrightarrow> evolves s (snd (prepare_save X fm clk m t))"
  unfolding prepare_save_def Let_def by (simp add: split_beta evolving)

lemma evolves_finish [evolving]:
  "evolves s t \<Longrightarrow> evolves s (finish_save X clk m t)"
  "evolves s t \<Longrightarrow> evolves s (finish_update X clk mid m t)"
  "evolves s t \<Longrightarrow> evolves s (finish_link X clk m t)"
  "evolves s t \<Longrightarrow> evolves s (finish_delete clk mid i t)"
  by (simp_all add: finish_save_def finish_update_def finish_link_def finish_delete_def Let_def evolving)

text \<open>Finding or preparing, then a write, then the steps that follow it.\<close>

lemma evolves_save: "evolves s (snd (save_memory X fm clk m s))"
proof -
  obtain m1 s1 where p: "prepare_save X fm clk m (s\<lparr>dir_ok := True\<rparr>) = (m1, s1)" by fastforce
  then have "evolves s s1"
    using evolves_prepare_save [of s "s\<lparr>dir_ok := True\<rparr>" X fm clk m] by (simp add: evolving)
  then show ?thesis
  proof (cases "write_obsidian_memory X clk m1 s1")
    case (Inr mt)
    obtain m2 t where mt: "mt = (m2, t)" by fastforce
    with Inr \<open>evolves s s1\<close> have "evolves s t" using evolves_write by blast
    then have "evolves s (finish_save X clk m2 t)" by (rule evolves_finish(1))
    with Inr mt show ?thesis by (simp add: save_memory_def p evolves_refl)
  qed (simp add: save_memory_def p evolves_refl)
qed

lemma evolves_update: "evolves s (snd (update_memory X clk mid c ti tags ks s))"
proof (cases "scan_memory_content c")
  case None
  obtain r s1 where f: "find_memory X clk mid s = (r, s1)" by fastforce
  then have s1: "evolves s s1" using evolves_reads(5) [OF evolves_refl, of s X clk mid] by simp
  show ?thesis
  proof (cases r)
    case (Some m)
    define m1 where "m1 = merged clk c ti tags ks m"
    obtain rel s2 where g: "suggest_for X clk m1 3 (mutate_cached m1 s1) = (rel, s2)" by fastforce
    then have "evolves s s2"
      using evolves_reads(7) [OF evolves_reads(4) [OF s1], of X clk m1 3 m1] by simp
    then have s3: "evolves s (mutate_cached (m1\<lparr>related := rel\<rparr>) s2)" by (rule evolves_reads(4))
    show ?thesis
    proof (cases "write_obsidian_memory X clk (m1\<lparr>related := rel\<rparr>) (mutate_cached (m1\<lparr>related := rel\<rparr>) s2)")
      case (Inr mt)
      obtain m2 t where mt: "mt = (m2, t)" by fastforce
      with Inr s3 have "evolves s t" using evolves_write by blast
      then have "evolves s (finish_update X clk mid m2 t)" by (rule evolves_finish(2))
      with Inr mt show ?thesis by (simp add: update_memory_def None f Some Let_def m1_def [symmetric] g)
    qed (simp add: update_memory_def None f Some Let_def m1_def [symmetric] g s3)
  qed (simp add: update_memory_def None f s1)
qed (simp add: update_memory_def evolves_refl)

lemma evolves_rewrite:
  assumes "\<And>t m. evolves s t \<Longrightarrow> evolves s (finish m t)"
  shows "evolves s (snd (rewrite_found X clk mid change finish s))"
proof -
  obtain r s1 where f: "find_memory X clk mid s = (r, s1)" by fastforce
  then have s1: "evolves s s1" using evolves_reads(5) [OF evolves_refl, of s X clk mid] by simp
  show ?thesis
  proof (cases r)
    case (Some m)
    have s2: "evolves s (mutate_cached (change m) s1)" using s1 by (rule evolves_reads(4))
    show ?thesis
    proof (cases "write_obsidian_memory X clk (change m) (mutate_cached (change m) s1)")
      case (Inr ms)
      obtain m' t where mt: "ms = (m', t)" by fastforce
      with Inr s2 have "evolves s t" using evolves_write by blast
      then have "evolves s (cache_refresh_from_disk X (mem_id m') (mutate_cached m' t))"
        by (intro evolves_reads(2,4))
      with Inr mt show ?thesis by (simp add: rewrite_found_def f Some Let_def assms)
    qed (simp add: rewrite_found_def f Some Let_def s2)
  qed (simp add: rewrite_found_def f s1)
qed

lemma evolves_invalidate: "evolves s (snd (invalidate_memory X clk mid r s))"
  unfolding invalidate_memory_def by (rule evolves_rewrite) (intro evolves_log evolves_fts_remove)

lemma evolves_deprecate: "evolves s (snd (deprecate_memory X clk mid r s))"
  unfolding deprecate_memory_def
  by (rule evolves_rewrite) (intro evolves_drop_edges evolves_fts_remove evolves_log evolves_drop_line)

lemma evolves_delete: "evolves s (snd (delete_memory X clk mid s))"
proof -
  obtain r s1 where f: "find_memory X clk mid s = (r, s1)" by fastforce
  then have "evolves s s1" using evolves_reads(5) [OF evolves_refl, of s X clk mid] by simp
  then show ?thesis by (cases r) (simp_all add: delete_memory_def f evolving)
qed

lemma evolves_link_one [evolving]:
  assumes "evolves s t"
  shows "evolves s (snd (link_one X clk m n t))"
proof -
  define m1 where "m1 = m\<lparr>related := uniq (filter (\<lambda>i. i \<noteq> []) (map (\<lambda>i. id8 (strip i)) (related m)))
    @ [id8 (mem_id n)], updated_at := c_iso clk\<rparr>"
  have t1: "evolves s (mutate_cached m1 t)" using assms by (rule evolves_reads(4))
  show ?thesis
  proof (cases "write_obsidian_memory X clk m1 (mutate_cached m1 t)")
    case (Inr mt)
    obtain m2 u where mt: "mt = (m2, u)" by fastforce
    with Inr t1 have "evolves s u" using evolves_write by blast
    then have "evolves s (finish_link X clk m2 u)" by (rule evolves_finish(3))
    with Inr mt show ?thesis by (simp add: link_one_def Let_def m1_def [symmetric] assms)
  qed (simp add: link_one_def Let_def m1_def [symmetric] t1 assms)
qed

lemma evolves_link: "evolves s (snd (add_related_link X clk i j s))"
proof -
  obtain a s1 where a: "find_memory X clk i s = (a, s1)" by fastforce
  then have s1: "evolves s s1" using evolves_reads(5) [OF evolves_refl, of s X clk i] by simp
  obtain b s2 where b: "find_memory X clk j s1 = (b, s2)" by fastforce
  then have s2: "evolves s s2" using evolves_reads(5) [OF s1, of X clk j] by simp
  show ?thesis
  proof (cases a; cases b)
    fix m n assume ab: "a = Some m" "b = Some n"
    obtain r1 s3 where l1: "link_one X clk m n (s2\<lparr>dir_ok := True\<rparr>) = (r1, s3)" by fastforce
    then have s3: "evolves s s3"
      using evolves_link_one [OF evolves_fields(1) [OF s2], of X clk m n True] by simp
    obtain r2 s4 where l2: "link_one X clk n m s3 = (r2, s4)" by fastforce
    then have s4: "evolves s s4" using evolves_link_one [OF s3, of X clk n m] by simp
    show ?thesis
      by (cases r1; cases r2) (simp_all add: add_related_link_def a b ab l1 l2 s2 s3 s4 evolves_log)
  qed (simp_all add: add_related_link_def a b s2)
qed

lemma evolves_purge: "purge_each clk ms (t, n) = Some (t', n') \<Longrightarrow> evolves s t \<Longrightarrow> evolves s t'"
  by (induction ms arbitrary: t n)
    (auto simp: Let_def split: if_splits
      intro!: evolves_drop_line evolves_fts_remove evolves_reads evolves_fields)

lemma evolves_purge_mined: "purge_mined_memories X clk f s = Some (t, n, f') \<Longrightarrow> evolves s t"
  using evolves_reads(6) [OF evolves_refl, of s X clk None False]
  by (auto simp: purge_mined_memories_def split: prod.splits dest: evolves_purge)

text \<open>The mutations as a history, and what each run answers.\<close>

datatype store_op =
    Save memory
  | Update string string string "string list" "string list"
  | Link string string
  | Delete string
  | Invalidate string "string option"
  | Deprecate string string
  | Bump string

fun run_store_op ::
  "ext \<Rightarrow> fts_match \<Rightarrow> clock \<Rightarrow> store_op \<Rightarrow> store \<Rightarrow> store_error option \<times> store" where
  "run_store_op X fm clk (Save m) s =
     (let (r, t) = save_memory X fm clk m s in (case r of Inl e \<Rightarrow> Some e | Inr _ \<Rightarrow> None, t))"
| "run_store_op X fm clk (Update i c ti ts ks) s =
     (let (r, t) = update_memory X clk i c ti ts ks s in (case r of Inl e \<Rightarrow> Some e | Inr _ \<Rightarrow> None, t))"
| "run_store_op X fm clk (Link i j) s =
     (let (r, t) = add_related_link X clk i j s in (case r of Inl e \<Rightarrow> Some e | Inr _ \<Rightarrow> None, t))"
| "run_store_op X fm clk (Delete i) s = (None, snd (delete_memory X clk i s))"
| "run_store_op X fm clk (Invalidate i r) s =
     (let (r, t) = invalidate_memory X clk i r s in (case r of Inl e \<Rightarrow> Some e | Inr _ \<Rightarrow> None, t))"
| "run_store_op X fm clk (Deprecate i r) s =
     (let (r, t) = deprecate_memory X clk i r s in (case r of Inl e \<Rightarrow> Some e | Inr _ \<Rightarrow> None, t))"
| "run_store_op X fm clk (Bump i) s =
     (let (r, t) = bump_access X clk i s in (case r of Inl e \<Rightarrow> Some e | Inr _ \<Rightarrow> None, t))"

inductive store_reach :: "ext \<Rightarrow> fts_match \<Rightarrow> store \<Rightarrow> store \<Rightarrow> bool" for X fm where
  start: "store_reach X fm s s"
| step: "store_reach X fm s t \<Longrightarrow> store_reach X fm s (snd (run_store_op X fm clk x t))"
| purge: "store_reach X fm s t \<Longrightarrow> purge_mined_memories X clk f t = Some (u, n, f') \<Longrightarrow> store_reach X fm s u"



lemma others_bump: "others (snd (bump_access X clk i s)) = others s"
proof -
  obtain r s1 where f: "find_memory X clk i s = (r, s1)" by fastforce
  then have s1: "others s1 = others s" using others_find [of X clk i s] by simp
  show ?thesis
  proof (cases r)
    case (Some m)
    define m1 where "m1 = m\<lparr>access_count := access_count m + 1, last_accessed_at := c_iso clk\<rparr>"
    show ?thesis
    proof (cases "write_obsidian_memory X clk m1 s1")
      case (Inr mt)
      obtain m2 t where mt: "mt = (m2, t)" by fastforce
      with Inr have "others t = others s1" using others_write by blast
      with Inr mt s1 show ?thesis by (simp add: bump_access_def f Some Let_def m1_def [symmetric])
    qed (simp add: bump_access_def f Some Let_def m1_def [symmetric] s1)
  qed (simp add: bump_access_def f s1)
qed

lemma evolves_run: "evolves s (snd (run_store_op X fm clk x s))"
proof (cases x)
  case (Bump i)
  then show ?thesis using evolves_others [OF others_bump evolves_refl] by (simp add: split_beta)
qed (simp_all add: split_beta evolves_save evolves_update evolves_link evolves_delete evolves_invalidate evolves_deprecate)

lemma evolves_reach: "store_reach X fm s t \<Longrightarrow> evolves s t"
  by (induction rule: store_reach.induct)
    (blast intro: evolves_refl evolves_run evolves_purge_mined evolves_trans)+

text \<open>
  C1: The derived tables stay well-formed through every history of the store. Whatever
  sequence of saves, updates, links, deletions, invalidations, deprecations, access bumps and
  purges runs, succeeding or failing, there is at most one FTS row per memory id, the graph
  keeps its invariant (unique key, no self-loop, bounded scores, symmetric relations both
  ways), and no event that was logged is ever lost or reordered.
\<close>

theorem store_history_invariant:
  assumes "store_reach X fm s t" "wf_rows (fts_db s)" "graph_ok (edges s)"
  shows "wf_rows (fts_db t) \<and> graph_ok (edges t) \<and> prefix (events s) (events t)"
  using evolves_reach [OF assms(1)] assms(2,3) by (simp add: evolves_def tables_ok_def)

theorem store_history_invariant_witness:
  "wf_rows (fts_db (snd (run_store_op sample_ext (\<lambda>q r. r) sample_clock (Save sample_note) empty_store)))"
proof (rule store_history_invariant [THEN conjunct1])
  show "store_reach sample_ext (\<lambda>q r. r) empty_store
      (snd (run_store_op sample_ext (\<lambda>q r. r) sample_clock (Save sample_note) empty_store))"
    by (intro store_reach.intros)
  show "wf_rows (fts_db empty_store)" "graph_ok (edges empty_store)"
    by (simp_all add: empty_store_def wf_rows_def)
qed

section \<open>Operations that fail, and what a save or a deletion does\<close>

lemma others_prepare [simp]: "others (snd (prepare_save X fm clk m s)) = others s"
  by (simp add: prepare_save_def Let_def split_beta)

lemma write_fails: "write_obsidian_memory X clk m s = Inl e \<Longrightarrow> \<not> vault_ok s"
  by (simp add: write_obsidian_memory_def Let_def split: if_splits)

lemma others_vault: "others s = others t \<Longrightarrow> vault_ok s = vault_ok t"
  by (simp add: others_def)

text \<open>Every step that follows a write keeps the vault available.\<close>

lemma vault_after_finish:
  "vault_ok (finish_link X clk m s) = vault_ok s"
proof -
  have warm: "vault_ok (cache_refresh_from_disk X i u) = vault_ok u" for i u
    by (rule others_vault) simp
  have vk: "vault_ok (mutate_cached m s) = vault_ok s" by (rule others_vault) simp
  have re: "vault_ok (refresh_edges X clk i u) = vault_ok u" for i u
  proof -
    obtain r v where f: "find_memory X clk i u = (r, v)" by fastforce
    have v: "vault_ok v = vault_ok u" using others_vault [OF others_find [of X clk i u]] f by simp
    obtain ms w where g: "obsidian_memories X clk None False v = (ms, w)" by fastforce
    have w: "vault_ok w = vault_ok v" using others_vault [OF others_memories [of X clk None False v]] g by simp
    show ?thesis by (cases r) (simp_all add: refresh_edges_def f g v w)
  qed
  show ?thesis
    by (simp add: finish_link_def Let_def re fts_index_def update_index_line_def warm vk)
qed

lemma link_one_fails:
  assumes "link_one X clk m n s = (Inl e, t)"
  shows "\<not> vault_ok s \<and> others t = others s"
proof -
  obtain k where w: "write_obsidian_memory X clk k (mutate_cached k s) = Inl e" "t = mutate_cached k s"
    using assms by (auto simp: link_one_def Let_def split: if_splits sum.splits)
  from write_fails [OF w(1)] have "\<not> vault_ok (mutate_cached k s)" .
  with others_vault [OF others_mutate] w(2) show ?thesis by simp
qed

lemma link_one_vault:
  assumes "link_one X clk m n s = (Inr b, t)"
  shows "vault_ok t = vault_ok s"
proof -
  have "vault_ok u = vault_ok s" if "write_obsidian_memory X clk k (mutate_cached k s) = Inr (l, u)" for k l u
    using others_write [OF that] others_vault [of u s] by simp
  then show ?thesis
    using assms by (auto simp: link_one_def Let_def vault_after_finish split: if_splits sum.splits prod.splits)
qed

lemma link_fails:
  assumes "add_related_link X clk i j s = (Inl e, t)"
  shows "others t = others s"
proof -
  obtain a s1 where a: "find_memory X clk i s = (a, s1)" by fastforce
  then have s1: "others s1 = others s" using others_find [of X clk i s] by simp
  obtain b s2 where b: "find_memory X clk j s1 = (b, s2)" by fastforce
  then have s2: "others s2 = others s" using others_find [of X clk j s1] s1 by simp
  show ?thesis
  proof (cases a; cases b)
    fix m n assume ab: "a = Some m" "b = Some n"
    obtain r1 s3 where l1: "link_one X clk m n (s2\<lparr>dir_ok := True\<rparr>) = (r1, s3)" by fastforce
    show ?thesis
    proof (cases r1)
      case (Inl e1)
      with l1 have "others s3 = others s" using link_one_fails s2 by fastforce
      with assms s2 show ?thesis
        by (auto simp: add_related_link_def a b ab l1 Inl split: if_splits)
    next
      case (Inr c1)
      with l1 have v3: "vault_ok s3 = vault_ok s2" using link_one_vault by fastforce
      obtain r2 s4 where l2: "link_one X clk n m s3 = (r2, s4)" by fastforce
      have "\<exists>e. r2 = Inl e" if "vault_ok s2" "\<not> vault_ok s3" using that v3 by simp
      moreover have "r2 \<noteq> Inl e" if "vault_ok s2" for e
        using that v3 l2 link_one_fails by fastforce
      ultimately show ?thesis using assms s2
        by (cases r2) (auto simp: add_related_link_def a b ab l1 Inr l2 split: if_splits)
    qed
  qed (use assms in \<open>auto simp: add_related_link_def a b\<close>)
qed

lemma rewrite_fails:
  assumes "rewrite_found X clk i c fin s = (Inl e, t)"
  shows "others t = others s"
proof -
  obtain a s1 where a: "find_memory X clk i s = (a, s1)" by fastforce
  then have s1: "others s1 = others s" using others_find [of X clk i s] by simp
  show ?thesis using assms
    by (cases a) (auto simp: rewrite_found_def a s1 Let_def split: sum.splits)
qed

lemma update_fails:
  assumes "update_memory X clk i c ti ts ks s = (Inl e, t)"
  shows "others t = others s"
proof (cases "scan_memory_content c")
  case None
  obtain a s1 where a: "find_memory X clk i s = (a, s1)" by fastforce
  then have s1: "others s1 = others s" using others_find [of X clk i s] by simp
  show ?thesis
  proof (cases a)
    case (Some m)
    define m1 where "m1 = merged clk c ti ts ks m"
    obtain rel s2 where g: "suggest_for X clk m1 3 (mutate_cached m1 s1) = (rel, s2)" by fastforce
    then have "others s2 = others s" using others_suggest [of X clk m1 3 "mutate_cached m1 s1"] s1 by simp
    with assms show ?thesis
      by (auto simp: update_memory_def None a Some Let_def m1_def [symmetric] g split: sum.splits)
  qed (use assms s1 in \<open>auto simp: update_memory_def None a\<close>)
qed (use assms in \<open>auto simp: update_memory_def\<close>)

lemma save_fails: "save_memory X fm clk m s = (Inl e, t) \<Longrightarrow> t = s \<and> \<not> vault_ok s"
proof -
  assume a: "save_memory X fm clk m s = (Inl e, t)"
  obtain m1 s1 where p: "prepare_save X fm clk m (s\<lparr>dir_ok := True\<rparr>) = (m1, s1)" by fastforce
  then have "vault_ok s1 = vault_ok s"
    using others_prepare [of X fm clk m "s\<lparr>dir_ok := True\<rparr>"] others_vault [of s1 s] by simp
  then have "write_obsidian_memory X clk m1 s1 \<noteq> Inl d" if "vault_ok s" for d
    using that write_fails by metis
  with a p show ?thesis by (auto simp: save_memory_def split: if_splits sum.splits)
qed

text \<open>
  C4: An operation that raises leaves everything but the notes and their cache as it was.
  When a save, an update, a link, an invalidation, a deprecation or an access bump ends in
  an error (a blocked or unknown memory, a missing vault), the FTS table, the graph, the
  index file and the event log are exactly those from before it: no log entry and no index
  row is left by half an operation.
\<close>

theorem failed_operation_leaves_tables:
  assumes "run_store_op X fm clk x s = (Some e, t)"
  shows "fts_db t = fts_db s \<and> edges t = edges s \<and> events t = events s \<and> index_text t = index_text s"
proof -
  have "others t = others s"
  proof (cases x)
    case (Save m)
    obtain r u where r: "save_memory X fm clk m s = (r, u)" by fastforce
    with assms Save show ?thesis by (auto split: sum.splits dest: save_fails)
  next
    case (Update i c ti ts ks)
    obtain r u where r: "update_memory X clk i c ti ts ks s = (r, u)" by fastforce
    with assms Update show ?thesis by (auto split: sum.splits dest: update_fails)
  next
    case (Link i j)
    obtain r u where r: "add_related_link X clk i j s = (r, u)" by fastforce
    with assms Link show ?thesis by (auto split: sum.splits dest: link_fails)
  next
    case (Invalidate i d)
    obtain r u where r: "invalidate_memory X clk i d s = (r, u)" by fastforce
    with assms Invalidate show ?thesis
      by (auto simp: invalidate_memory_def split: sum.splits dest: rewrite_fails)
  next
    case (Deprecate i d)
    obtain r u where r: "deprecate_memory X clk i d s = (r, u)" by fastforce
    with assms Deprecate show ?thesis
      by (auto simp: deprecate_memory_def split: sum.splits dest: rewrite_fails)
  next
    case (Bump i)
    obtain r u where r: "bump_access X clk i s = (r, u)" by fastforce
    with assms Bump others_bump [of X clk i s] show ?thesis by (auto split: sum.splits)
  qed (use assms in simp)
  then show ?thesis by (simp add: others_def)
qed

theorem failed_operation_leaves_tables_witness:
  "\<exists>e t. run_store_op sample_ext (\<lambda>q r. r) sample_clock (Save sample_note) (empty_store\<lparr>vault_ok := False\<rparr>) = (Some e, t)
     \<and> fts_db t = fts_db empty_store \<and> events t = events empty_store"
proof -
  let ?s = "empty_store\<lparr>vault_ok := False\<rparr>"
  have r: "run_store_op sample_ext (\<lambda>q r. r) sample_clock (Save sample_note) ?s = (Some ObsidianUnavailable, ?s)"
    by (simp add: save_memory_def empty_store_def)
  from failed_operation_leaves_tables [OF r] have
    "fts_db ?s = fts_db empty_store \<and> events ?s = events empty_store" by simp
  with r show ?thesis by blast
qed

lemma row_for_index: "row_for (fts_db (fts_index X m s)) = (row_for (fts_db s))(mem_id m \<mapsto> row_of (x_aliases X) m)"
  by (simp add: fts_index_def index_memory_put row_for_put)

lemma fts_refresh_edges: "fts_db (refresh_edges X clk i s) = fts_db s \<and> events (refresh_edges X clk i s) = events s"
proof -
  obtain r v where f: "find_memory X clk i s = (r, v)" by fastforce
  then have v: "others v = others s" using others_find [of X clk i s] by simp
  obtain ms w where g: "obsidian_memories X clk None False v = (ms, w)" by fastforce
  then have "others w = others v" using others_memories [of X clk None False v] by simp
  with v show ?thesis by (cases r) (simp_all add: refresh_edges_def f g others_def)
qed

lemma write_keeps: "write_obsidian_memory X clk m s = Inr (m', t) \<Longrightarrow> m' = m\<lparr>obsidian_file := note_filename m\<rparr>"
  by (auto simp: write_obsidian_memory_def Let_def split: if_splits)

lemma prepare_keeps:
  "prepare_save X fm clk m s = (m', t) \<Longrightarrow>
     mem_id m' = mem_id m \<and> essence m' = essence m \<and> title m' = title m \<and> project m' = project m"
  by (auto simp: prepare_save_def Let_def split: prod.splits if_splits)

text \<open>
  A successful save publishes exactly one memory. It needs the vault; the memory it
  answers has the id, title, content and project it was given; the FTS table maps its id to
  that memory's row and is otherwise the table from before; and one event, naming it, is
  appended to the log.
\<close>

theorem save_publishes_memory:
  assumes "save_memory X fm clk m s = (Inr m', t)"
  shows "vault_ok s \<and> mem_id m' = mem_id m \<and> essence m' = essence m \<and> title m' = title m \<and> project m' = project m \<and>
    row_for (fts_db t) = (row_for (fts_db s))(mem_id m \<mapsto> row_of (x_aliases X) m') \<and>
    events t = events s @ [\<lparr>ev_op = ''save'', ev_id = mem_id m, ev_details = [(''title'', title m)], ev_time = c_iso clk\<rparr>]"
proof -
  have v: "vault_ok s" using assms by (auto simp: save_memory_def split: if_splits)
  obtain m1 s1 where p: "prepare_save X fm clk m (s\<lparr>dir_ok := True\<rparr>) = (m1, s1)" by fastforce
  then have s1: "others s1 = others s" using others_prepare [of X fm clk m "s\<lparr>dir_ok := True\<rparr>"] by simp
  obtain t1 where w: "write_obsidian_memory X clk m1 s1 = Inr (m', t1)" and t: "t = finish_save X clk m' t1"
    using assms v by (auto simp: save_memory_def p split: sum.splits)
  note m' = write_keeps [OF w] prepare_keeps [OF p]
  define t2 where "t2 = cache_refresh_from_disk X (mem_id m') t1"
  define t3 where "t3 = (if index_text t2 \<noteq> None then update_index_line clk m' t2 else t2)"
  have "others t1 = others s" using others_write [OF w] s1 by simp
  then have t2: "others t2 = others s" by (simp add: t2_def)
  then have t3: "fts_db t3 = fts_db s \<and> events t3 = events s"
    by (simp add: t3_def others_def update_index_line_def)
  have "t = refresh_edges X clk (mem_id m') (fts_index X m' (log_event clk ''save'' (mem_id m') [(''title'', title m')] t3))"
    unfolding t finish_save_def Let_def t2_def t3_def by (rule refl)
  then have "row_for (fts_db t) = (row_for (fts_db s))(mem_id m' \<mapsto> row_of (x_aliases X) m') \<and>
    events t = events s @ [\<lparr>ev_op = ''save'', ev_id = mem_id m', ev_details = [(''title'', title m')], ev_time = c_iso clk\<rparr>]"
    using t3 by (simp add: fts_refresh_edges row_for_index) (simp add: fts_index_def log_event_def)
  with v m' show ?thesis by simp
qed

lemma save_in_vault:
  assumes "vault_ok s"
  shows "\<exists>m' t. save_memory X fm clk m s = (Inr m', t)"
proof -
  obtain m1 s1 where p: "prepare_save X fm clk m (s\<lparr>dir_ok := True\<rparr>) = (m1, s1)" by fastforce
  then have "vault_ok s1"
    using others_prepare [of X fm clk m "s\<lparr>dir_ok := True\<rparr>"] others_vault [of s1 s] assms by simp
  then show ?thesis
    using assms write_fails by (cases "write_obsidian_memory X clk m1 s1") (fastforce simp: save_memory_def p)+
qed

theorem save_publishes_memory_witness:
  "\<exists>m' t. save_memory sample_ext (\<lambda>q r. r) sample_clock sample_note empty_store = (Inr m', t) \<and>
     row_for (fts_db t) (mem_id sample_note) = Some (row_of [] m') \<and> length (events t) = 1"
proof -
  obtain m' t where r: "save_memory sample_ext (\<lambda>q r. r) sample_clock sample_note empty_store = (Inr m', t)"
    using save_in_vault [of empty_store sample_ext "\<lambda>q r. r" sample_clock sample_note] by (auto simp: empty_store_def)
  from save_publishes_memory [OF r] r show ?thesis
    by (auto simp: empty_store_def sample_ext_def)
qed

section \<open>Deleting\<close>

text \<open>
  C5: A deletion by full id leaves no trace in any table. When the id names a cached memory
  (with a note) or none at all, the answer is \<open>True\<close> and afterwards the note, the cache entry,
  the FTS row, every graph edge at the id, and every index entry mentioning it are gone;
  the rows of other memories and the edges between others are untouched, and the deletion is
  logged.
\<close>

theorem delete_leaves_no_trace:
  assumes "find_memory X clk mid s = (found, s1)" "mid \<noteq> []" "wf_rows (fts_db s)" "graph_ok (edges s)"
    and "\<forall>m. found = Some m \<longrightarrow> mem_id m = mid \<and> mem_file m \<noteq> []"
    and "delete_memory X clk mid s = (answer, t)"
  shows "answer \<and> map_of (cache t) mid = None \<and>
    (\<forall>m. found = Some m \<longrightarrow> map_of (note_files t) (mem_file m) = None) \<and>
    row_for (fts_db t) = (row_for (fts_db s))(mid := None) \<and>
    (\<forall>k. score_at (edges t) k = (if touches mid k then None else score_at (edges s) k)) \<and>
    events t = events s @ [\<lparr>ev_op = ''delete'', ev_id = mid, ev_details = [], ev_time = c_iso clk\<rparr>] \<and>
    index_text t = remove_index_line (c_day clk) mid (index_text s)"
proof -
  have s1: "others s1 = others s" using others_find [of X clk mid s] assms(1) by simp
  define u where "u = (case found of None \<Rightarrow> s1 | Some m \<Rightarrow> s1\<lparr>note_files := AList.delete (mem_file m) (note_files s1)\<rparr>)"
  have u: "others u = others s" using s1 by (simp add: u_def split: option.split)
  have "(answer, t) = (True, finish_delete clk mid mid u)"
    using assms(1,5,6) by (auto simp: delete_memory_def u_def split: option.splits if_splits)
  then have at: "answer" "t = finish_delete clk mid mid u" by simp_all
  have tables: "fts_db u = fts_db s" "edges u = edges s" "events u = events s" "index_text u = index_text s"
    using u by (simp_all add: others_def)
  have fd: "fts_db t = remove_from_index mid (fts_db s)" "edges t = remove_edges_for_memory mid (edges s)"
      "events t = events s @ [\<lparr>ev_op = ''delete'', ev_id = mid, ev_details = [], ev_time = c_iso clk\<rparr>]"
      "index_text t = remove_index_line (c_day clk) mid (index_text s)"
      "cache t = AList.delete mid (cache u)" "note_files t = note_files u"
    using assms(2) tables
    by (simp_all add: at(2) finish_delete_def Let_def drop_edges_def fts_remove_def log_event_def
        drop_index_line_def cache_evict_def)
  have "wf_dict (edges s)" using assms(4) by (simp add: graph_ok_def)
  then have e: "\<forall>k. score_at (edges t) k = (if touches mid k then None else score_at (edges s) k)"
    using assms(2) by (simp add: fd(2) score_at_remove)
  have "row_for (fts_db t) = (row_for (fts_db s))(mid := None)"
    using assms(3) by (simp add: fd(1) remove_from_index_def row_for_delete)
  moreover have "\<forall>m. found = Some m \<longrightarrow> map_of (note_files t) (mem_file m) = None"
    by (auto simp: fd(6) u_def delete_conv)
  ultimately show ?thesis using at(1) e fd by (auto simp: delete_conv)
qed

theorem delete_leaves_no_trace_witness:
  "\<exists>t. delete_memory sample_ext sample_clock ''aaaaaaaa'' empty_store = (True, t) \<and>
     map_of (cache t) ''aaaaaaaa'' = None \<and> length (events t) = 1"
proof -
  obtain found s1 where f: "find_memory sample_ext sample_clock ''aaaaaaaa'' empty_store = (found, s1)" by fastforce
  then have "found = None"
    by (auto simp: find_memory_def ensure_cache_warm_def Let_def empty_store_def sample_clock_def SWEEP_INTERVAL_def
        load_vault_cache_def sweep_vault_cache_def flush_vault_cache_def lookup_def split: if_splits)
  moreover obtain a t where d: "delete_memory sample_ext sample_clock ''aaaaaaaa'' empty_store = (a, t)" by fastforce
  ultimately have "a \<and> map_of (cache t) ''aaaaaaaa'' = None \<and>
      events t = events empty_store @ [\<lparr>ev_op = ''delete'', ev_id = ''aaaaaaaa'', ev_details = [], ev_time = c_iso sample_clock\<rparr>]"
    using delete_leaves_no_trace [OF f _ _ _ _ d] by (simp add: empty_store_def wf_rows_def)
  with d show ?thesis by (auto simp: empty_store_def)
qed

text \<open>A deletion by an 8-character prefix finds the memory, yet its FTS row survives.\<close>

theorem prefix_delete_keeps_row:
  assumes "find_memory X clk mid s = (Some m, s1)" "mem_id m \<noteq> mid" "delete_memory X clk mid s = (True, t)"
  shows "row_for (fts_db t) (mem_id m) = row_for (fts_db s) (mem_id m)"
proof -
  have "others s1 = others s" using others_find [of X clk mid s] assms(1) by simp
  then have db: "fts_db s1 = fts_db s" by (simp add: others_def)
  have "mem_file m \<noteq> []" using assms(1,3) by (auto simp: delete_memory_def)
  with assms have "t = finish_delete clk mid (mem_id m) (s1\<lparr>note_files := AList.delete (mem_file m) (note_files s1)\<rparr>)"
    by (simp add: delete_memory_def)
  then have "fts_db t = remove_from_index mid (fts_db s)"
    by (simp add: finish_delete_def Let_def drop_edges_def fts_remove_def log_event_def drop_index_line_def cache_evict_def db)
  with assms(2) show ?thesis by (simp add: remove_from_index_def row_for_delete)
qed

end
