(* ===== verification/AtomicWrite.thy ===== *)
theory AtomicWrite
  imports Prelude
begin

text \<open>
  \<^verbatim>\<open>memem/io_utils.py\<close>: \<^verbatim>\<open>atomic_write_text\<close> and \<^verbatim>\<open>atomic_write_bytes\<close>, one model for both (an
  element of \<open>'a list\<close> is a character or a byte). The call is a sequence of steps on a directory;
  between two steps the process may be killed, another process may look, and each call to the
  operating system may raise. \<^verbatim>\<open>os.replace\<close> is the atomic rename of POSIX.
\<close>

section \<open>Steps\<close>

text \<open>Where the call is: the content still to write, after the write, after the flush, and the ends.\<close>

datatype 'a write_pc =
    Start
  | Writing "'a list"
  | Closed
  | Handler
  | Raised
  | Returned

record 'a write_state =
  pc :: "'a write_pc"
  dir :: "(string, 'a list) dict"

text \<open>
  \<open>tmp\<close> is the name \<^verbatim>\<open>mkstemp\<close> gives, one that does not exist. With \<open>do_fsync\<close> the data is
  flushed before the file is closed; without it closing flushes as well, so both leave the
  complete content in the file.
\<close>

inductive write_step ::
  "string \<Rightarrow> 'a list \<Rightarrow> string \<Rightarrow> 'a write_state \<Rightarrow> 'a write_state \<Rightarrow> bool"
  for target :: string and content :: "'a list" and tmp :: string where
  mkstemp: "tmp \<noteq> target \<Longrightarrow> map_of d tmp = None \<Longrightarrow>
    write_step target content tmp \<lparr>pc = Start, dir = d\<rparr>
      \<lparr>pc = Writing content, dir = AList.update tmp [] d\<rparr>"
| mkstemp_fails: "write_step target content tmp \<lparr>pc = Start, dir = d\<rparr> \<lparr>pc = Raised, dir = d\<rparr>"
| chunk: "map_of d tmp = Some c \<Longrightarrow> part \<noteq> [] \<Longrightarrow> rest \<noteq> [] \<Longrightarrow>
    write_step target content tmp \<lparr>pc = Writing (part @ rest), dir = d\<rparr>
      \<lparr>pc = Writing rest, dir = AList.update tmp (c @ part) d\<rparr>"
| close: "map_of d tmp = Some c \<Longrightarrow>
    write_step target content tmp \<lparr>pc = Writing rest, dir = d\<rparr>
      \<lparr>pc = Closed, dir = AList.update tmp (c @ rest) d\<rparr>"
| write_fails: "write_step target content tmp \<lparr>pc = Writing rest, dir = d\<rparr> \<lparr>pc = Handler, dir = d\<rparr>"
| replace: "map_of d tmp = Some c \<Longrightarrow>
    write_step target content tmp \<lparr>pc = Closed, dir = d\<rparr>
      \<lparr>pc = Returned, dir = AList.update target c (AList.delete tmp d)\<rparr>"
| replace_fails: "write_step target content tmp \<lparr>pc = Closed, dir = d\<rparr> \<lparr>pc = Handler, dir = d\<rparr>"
| unlink: "write_step target content tmp \<lparr>pc = Handler, dir = d\<rparr> \<lparr>pc = Raised, dir = AList.delete tmp d\<rparr>"
| unlink_fails: "write_step target content tmp \<lparr>pc = Handler, dir = d\<rparr> \<lparr>pc = Raised, dir = d\<rparr>"

inductive_cases write_stepE: "write_step target content tmp s t"

inductive write_reach ::
  "string \<Rightarrow> 'a list \<Rightarrow> string \<Rightarrow> (string, 'a list) dict \<Rightarrow> 'a write_state \<Rightarrow> bool"
  for target :: string and content :: "'a list" and tmp :: string and d0 :: "(string, 'a list) dict" where
  call: "write_reach target content tmp d0 \<lparr>pc = Start, dir = d0\<rparr>"
| step: "write_reach target content tmp d0 s \<Longrightarrow> write_step target content tmp s t \<Longrightarrow>
    write_reach target content tmp d0 t"

text \<open>The call when nothing fails.\<close>

definition atomic_write :: "string \<Rightarrow> 'a list \<Rightarrow> string \<Rightarrow> (string, 'a list) dict \<Rightarrow> (string, 'a list) dict" where
  "atomic_write target content tmp d =
     AList.update target content (AList.delete tmp (AList.update tmp content (AList.update tmp [] d)))"

section \<open>No torn file\<close>

text \<open>What holds of the directory at each point of the call.\<close>

definition others_kept :: "string \<Rightarrow> string \<Rightarrow> (string, 'a list) dict \<Rightarrow> (string, 'a list) dict \<Rightarrow> bool" where
  "others_kept target tmp d0 d \<longleftrightarrow> (\<forall>f. f \<noteq> target \<and> f \<noteq> tmp \<longrightarrow> map_of d f = map_of d0 f)"

definition write_inv ::
  "string \<Rightarrow> 'a list \<Rightarrow> string \<Rightarrow> (string, 'a list) dict \<Rightarrow> 'a write_state \<Rightarrow> bool" where
  "write_inv target content tmp d0 s \<longleftrightarrow>
     others_kept target tmp d0 (dir s) \<and>
     (case pc s of
        Start \<Rightarrow> dir s = d0
      | Writing rest \<Rightarrow> tmp \<noteq> target \<and> map_of (dir s) target = map_of d0 target \<and>
          (\<exists>written. map_of (dir s) tmp = Some written \<and> written @ rest = content)
      | Closed \<Rightarrow> tmp \<noteq> target \<and> map_of (dir s) target = map_of d0 target \<and> map_of (dir s) tmp = Some content
      | Handler \<Rightarrow> tmp \<noteq> target \<and> map_of (dir s) target = map_of d0 target
      | Raised \<Rightarrow> map_of (dir s) target = map_of d0 target
      | Returned \<Rightarrow> map_of (dir s) target = Some content \<and> map_of (dir s) tmp = None)"

lemma write_inv_step:
  "write_step target content tmp s t \<Longrightarrow> write_inv target content tmp d0 s \<Longrightarrow> write_inv target content tmp d0 t"
  by (erule write_stepE)
    (auto simp: write_inv_def others_kept_def update_conv' delete_conv')

lemma write_inv_reach: "write_reach target content tmp d0 s \<Longrightarrow> write_inv target content tmp d0 s"
proof (induction rule: write_reach.induct)
  case call
  then show ?case by (simp add: write_inv_def others_kept_def)
next
  case (step s t)
  then show ?case using write_inv_step by blast
qed

text \<open>
  C35: A reader never sees a torn file. Wherever the call has got to, killed or still running,
  the target is either exactly what it was or exactly the new content, and no other file has
  changed; it is the new content, with no temporary file left, when the call returned, and the
  old one when it raised.
\<close>

theorem atomic_write_never_torn:
  assumes "write_reach target content tmp d0 s"
  shows "map_of (dir s) target \<in> {map_of d0 target, Some content} \<and>
    (\<forall>f. f \<noteq> target \<and> f \<noteq> tmp \<longrightarrow> map_of (dir s) f = map_of d0 f) \<and>
    (pc s = Returned \<longrightarrow> map_of (dir s) target = Some content \<and> map_of (dir s) tmp = None) \<and>
    (pc s = Raised \<longrightarrow> map_of (dir s) target = map_of d0 target)"
  using write_inv_reach [OF assms] by (cases "pc s") (auto simp: write_inv_def others_kept_def)

text \<open>A run in which the process is killed half way through the write.\<close>

theorem atomic_write_never_torn_witness:
  "map_of [(''a'', ''old''), (''t'', ''n'')] ''a'' \<in> {map_of [(''a'', ''old'')] ''a'', Some ''new''}"
proof -
  let ?d = "[(''a'', ''old'')]"
  have "write_step ''a'' ''new'' ''t'' \<lparr>pc = Start, dir = ?d\<rparr> \<lparr>pc = Writing ''new'', dir = AList.update ''t'' [] ?d\<rparr>"
    by (rule write_step.mkstemp) simp_all
  then have 1: "write_reach ''a'' ''new'' ''t'' ?d \<lparr>pc = Writing ''new'', dir = AList.update ''t'' [] ?d\<rparr>"
    by (rule write_reach.step [OF write_reach.call])
  have "write_step ''a'' ''new'' ''t'' \<lparr>pc = Writing (''n'' @ ''ew''), dir = AList.update ''t'' [] ?d\<rparr>
      \<lparr>pc = Writing ''ew'', dir = AList.update ''t'' ([] @ ''n'') (AList.update ''t'' [] ?d)\<rparr>"
    by (rule write_step.chunk) simp_all
  then have "write_reach ''a'' ''new'' ''t'' ?d \<lparr>pc = Writing ''ew'', dir = [(''a'', ''old''), (''t'', ''n'')]\<rparr>"
    using write_reach.step [OF 1] by simp
  from atomic_write_never_torn [OF this] show ?thesis by simp
qed

section \<open>The call ends\<close>

fun steps_left :: "'a list \<Rightarrow> 'a write_pc \<Rightarrow> nat" where
  "steps_left content Start = length content + 4"
| "steps_left content (Writing rest) = length rest + 3"
| "steps_left content Closed = 2"
| "steps_left content Handler = 1"
| "steps_left content Raised = 0"
| "steps_left content Returned = 0"

lemma write_step_decreases:
  "write_step target content tmp s t \<Longrightarrow> steps_left content (pc t) < steps_left content (pc s)"
  by (erule write_stepE) auto

lemma write_steps_decrease:
  "(write_step target content tmp ^^ k) s t \<Longrightarrow> steps_left content (pc t) + k \<le> steps_left content (pc s)"
proof (induction k arbitrary: t)
  case (Suc k)
  then obtain u where "(write_step target content tmp ^^ k) s u" "write_step target content tmp u t" by auto
  with Suc.IH [of u] write_step_decreases [of target content tmp u t] show ?case by simp
qed simp

lemma write_steps_reach:
  "(write_step target content tmp ^^ k) \<lparr>pc = Start, dir = d0\<rparr> t \<Longrightarrow> write_reach target content tmp d0 t"
  by (induction k arbitrary: t) (auto intro: write_reach.intros)

lemma write_step_progress:
  assumes "pc s \<noteq> Returned" "pc s \<noteq> Raised"
  shows "\<exists>t. write_step target content tmp s t"
proof (cases s)
  case (fields q d)
  with assms show ?thesis
    by (cases q) (blast intro: mkstemp_fails write_fails replace_fails unlink_fails | simp)+
qed



text \<open>The run in which nothing fails does what the callers count on.\<close>

lemma atomic_write_run:
  assumes "tmp \<noteq> target" "map_of d tmp = None"
  shows "\<exists>k. (write_step target content tmp ^^ k) \<lparr>pc = Start, dir = d\<rparr>
    \<lparr>pc = Returned, dir = atomic_write target content tmp d\<rparr>"
proof -
  let ?d1 = "AList.update tmp [] d" and ?R = "write_step target content tmp"
  have 1: "?R \<lparr>pc = Start, dir = d\<rparr> \<lparr>pc = Writing content, dir = ?d1\<rparr>" using assms by (rule mkstemp)
  have 2: "?R \<lparr>pc = Writing content, dir = ?d1\<rparr> \<lparr>pc = Closed, dir = AList.update tmp content ?d1\<rparr>"
    using close [of ?d1 tmp "[]" target content content] by (simp add: update_conv')
  have 3: "?R \<lparr>pc = Closed, dir = AList.update tmp content ?d1\<rparr>
      \<lparr>pc = Returned, dir = atomic_write target content tmp d\<rparr>"
    using replace [of "AList.update tmp content ?d1" tmp content target content]
    by (simp add: update_conv' atomic_write_def)
  from 1 2 3 have "(?R ^^ 3) \<lparr>pc = Start, dir = d\<rparr> \<lparr>pc = Returned, dir = atomic_write target content tmp d\<rparr>"
    by (auto simp: numeral_3_eq_3)
  then show ?thesis ..
qed

end
