(* ===== verification/Json.thy ===== *)
theory Json
  imports Prelude
begin

text \<open>
  JSON values, and \<^verbatim>\<open>json.loads\<close> of Python's standard library as the source uses it: on the
  answers of the language model, on transcripts, and on the program's own files. A file that is
  only written and read as JSON is a \<open>json_file\<close>: what \<^verbatim>\<open>json.loads(path.read_text())\<close> gives.
  An escape for a code point beyond Latin-1 is read as \<^verbatim>\<open>?\<close>; \<^verbatim>\<open>NaN\<close> and the infinities keep
  their names.
\<close>

section \<open>Values\<close>

datatype json =
    JNull
  | JBool bool
  | JInt int
  | JReal real
  | JNonFinite string
  | JStr string
  | JArr "json list"
  | JObj "(string \<times> json) list"

datatype json_file = Missing | Unreadable | Doc json

text \<open>What the source lets escape when a value has the wrong type.\<close>

datatype py_error = AttributeError | TypeError | KeyError | IndexError

fun json_truthy :: "json \<Rightarrow> bool" where
  "json_truthy JNull = False"
| "json_truthy (JBool b) = b"
| "json_truthy (JInt i) = (i \<noteq> 0)"
| "json_truthy (JReal r) = (r \<noteq> 0)"
| "json_truthy (JNonFinite _) = True"
| "json_truthy (JStr s) = (s \<noteq> [])"
| "json_truthy (JArr xs) = (xs \<noteq> [])"
| "json_truthy (JObj kvs) = (kvs \<noteq> [])"

text \<open>\<^verbatim>\<open>d.get(k)\<close> and \<^verbatim>\<open>d.get(k, default)\<close> on a dictionary.\<close>

definition jget :: "(string \<times> json) list \<Rightarrow> string \<Rightarrow> json" where
  "jget d k = (case map_of d k of None \<Rightarrow> JNull | Some v \<Rightarrow> v)"

definition jget_or :: "(string \<times> json) list \<Rightarrow> string \<Rightarrow> json \<Rightarrow> json" where
  "jget_or d k v0 = (case map_of d k of None \<Rightarrow> v0 | Some v \<Rightarrow> v)"

section \<open>Reading\<close>

definition json_ws :: "char \<Rightarrow> bool" where
  "json_ws c \<longleftrightarrow> c \<in> {CHR '' '', CHR 0x09, NL, CHR 0x0D}"

definition skip_ws :: "string \<Rightarrow> string" where
  "skip_ws s = dropWhile json_ws s"

definition hex_value :: "char \<Rightarrow> nat option" where
  "hex_value c =
     (if is_digit c then Some (of_char c - 48)
      else if CHR ''a'' \<le> c \<and> c \<le> CHR ''f'' then Some (of_char c - 87)
      else if CHR ''A'' \<le> c \<and> c \<le> CHR ''F'' then Some (of_char c - 55) else None)"

fun hex_number :: "string \<Rightarrow> nat \<Rightarrow> nat option" where
  "hex_number [] acc = Some acc"
| "hex_number (c # s) acc =
     (case hex_value c of None \<Rightarrow> None | Some v \<Rightarrow> hex_number s (16 * acc + v))"

definition char_of_code :: "nat \<Rightarrow> char" where
  "char_of_code n = (if n < 256 then char_of n else CHR ''?'')"

definition escape_char :: "char \<Rightarrow> char option" where
  "escape_char c =
     map_of [(CHR 0x22, CHR 0x22), (CHR 0x5C, CHR 0x5C), (CHR ''/'', CHR ''/''), (CHR ''b'', CHR 0x08),
       (CHR ''f'', CHR 0x0C), (CHR ''n'', NL), (CHR ''r'', CHR 0x0D), (CHR ''t'', CHR 0x09)] c"

text \<open>The rest of a string literal, after its opening quote.\<close>

fun json_string :: "string \<Rightarrow> (string \<times> string) option" where
  "json_string [] = None"
| "json_string [c] = (if c = CHR 0x22 then Some ([], []) else None)"
| "json_string (c # d # s) =
     (if c = CHR 0x22 then Some ([], d # s)
      else if c = CHR 0x5C then
        (if d = CHR ''u'' then
           (case s of
              e # f # g # h # t \<Rightarrow>
                (case hex_number [e, f, g, h] 0 of
                   None \<Rightarrow> None
                 | Some n \<Rightarrow> map_option (\<lambda>(x, r). (char_of_code n # x, r)) (json_string t))
            | _ \<Rightarrow> None)
         else (case escape_char d of
                 None \<Rightarrow> None
               | Some x \<Rightarrow> map_option (\<lambda>(y, r). (x # y, r)) (json_string s)))
      else if (of_char c :: nat) < 32 then None
      else map_option (\<lambda>(x, r). (c # x, r)) (json_string (d # s)))"

fun digits_value :: "string \<Rightarrow> nat \<Rightarrow> nat" where
  "digits_value [] acc = acc"
| "digits_value (c # s) acc = digits_value s (10 * acc + (of_char c - 48))"

text \<open>\<^verbatim>\<open>NUMBER_RE\<close>: an integer part, then an optional fraction and exponent.\<close>

definition json_int_part :: "string \<Rightarrow> (nat \<times> string) option" where
  "json_int_part s =
     (case s of
        c # t \<Rightarrow> if c = CHR ''0'' then Some (0, t)
                else if is_digit c then Some (digits_value (takeWhile is_digit s) 0, dropWhile is_digit s)
                else None
      | [] \<Rightarrow> None)"

definition json_fraction :: "string \<Rightarrow> (real \<times> string) option" where
  "json_fraction s =
     (case s of
        c # t \<Rightarrow>
          let ds = takeWhile is_digit t in
          if c = CHR ''.'' \<and> ds \<noteq> []
          then Some (real (digits_value ds 0) / 10 ^ length ds, dropWhile is_digit t) else None
      | [] \<Rightarrow> None)"

definition json_exponent :: "string \<Rightarrow> (int \<times> string) option" where
  "json_exponent s =
     (case s of
        c # t \<Rightarrow>
          if c = CHR ''e'' \<or> c = CHR ''E'' then
            let u = (case t of d # u \<Rightarrow> if d = CHR ''-'' \<or> d = CHR ''+'' then u else t | [] \<Rightarrow> t);
                ds = takeWhile is_digit u;
                n = int (digits_value ds 0)
            in if ds = [] then None
               else Some (if t \<noteq> [] \<and> hd t = CHR ''-'' then - n else n, dropWhile is_digit u)
          else None
      | [] \<Rightarrow> None)"

definition ten_power :: "int \<Rightarrow> real" where
  "ten_power e = (if e \<ge> 0 then 10 ^ nat e else 1 / 10 ^ nat (- e))"

definition rest_after :: "('a \<times> string) option \<Rightarrow> string \<Rightarrow> string" where
  "rest_after found s = (case found of None \<Rightarrow> s | Some (_, r) \<Rightarrow> r)"

definition json_number :: "string \<Rightarrow> (json \<times> string) option" where
  "json_number s =
     (let neg = (s \<noteq> [] \<and> hd s = CHR ''-''); sign = (if neg then - 1 else 1) in
      case json_int_part (if neg then tl s else s) of
        None \<Rightarrow> None
      | Some (i, r) \<Rightarrow>
          let fr = json_fraction r; r1 = rest_after fr r;
              ex = json_exponent r1; r2 = rest_after ex r1
          in Some (if fr = None \<and> ex = None then JInt (sign * int i)
                   else JReal (real_of_int sign * (real i + (case fr of None \<Rightarrow> 0 | Some (f, _) \<Rightarrow> f))
                                * (case ex of None \<Rightarrow> 1 | Some (e, _) \<Rightarrow> ten_power e)), r2))"

definition json_words :: "(string \<times> json) list" where
  "json_words =
     [(''null'', JNull), (''true'', JBool True), (''false'', JBool False),
      (''NaN'', JNonFinite ''NaN''), (''Infinity'', JNonFinite ''Infinity''),
      (''-Infinity'', JNonFinite ''-Infinity'')]"

definition json_word :: "string \<Rightarrow> (json \<times> string) option" where
  "json_word s =
     (case find (\<lambda>(w, v). starts_with s w) json_words of
        None \<Rightarrow> None
      | Some (w, v) \<Rightarrow> Some (v, drop (length w) s))"

definition dict_of :: "(string \<times> json) list \<Rightarrow> (string \<times> json) list" where
  "dict_of kvs = fold (\<lambda>(k, v). AList.update k v) kvs []"

text \<open>A member's key with its colon, and what follows a value: the closing bracket or a comma.\<close>

definition json_key :: "string \<Rightarrow> (string \<times> string) option" where
  "json_key s =
     (case skip_ws s of
        [] \<Rightarrow> None
      | c # t \<Rightarrow>
          if c \<noteq> CHR 0x22 then None
          else (case json_string t of
                  None \<Rightarrow> None
                | Some (k, r) \<Rightarrow>
                    (case skip_ws r of [] \<Rightarrow> None | d # u \<Rightarrow> if d = CHR '':'' then Some (k, u) else None)))"

definition json_sep :: "char \<Rightarrow> string \<Rightarrow> (bool \<times> string) option" where
  "json_sep close s =
     (case skip_ws s of
        [] \<Rightarrow> None
      | e # x \<Rightarrow> if e = close then Some (True, x) else if e = CHR '','' then Some (False, x) else None)"

text \<open>
  Values, the members of an object and the elements of an array. The fuel bounds the length of
  the text; \<open>json_fuel\<close> below shows that the length is always enough.
\<close>

fun json_value :: "nat \<Rightarrow> string \<Rightarrow> (json \<times> string) option"
and json_members :: "nat \<Rightarrow> string \<Rightarrow> ((string \<times> json) list \<times> string) option"
and json_elements :: "nat \<Rightarrow> string \<Rightarrow> (json list \<times> string) option" where
  "json_value 0 s = None"
| "json_value (Suc n) s =
     (case skip_ws s of
        [] \<Rightarrow> None
      | c # t \<Rightarrow>
          if c = CHR 0x22 then map_option (\<lambda>(x, r). (JStr x, r)) (json_string t)
          else if c = CHR ''{'' then
            (case skip_ws t of
               d # r \<Rightarrow>
                 if d = CHR ''}'' then Some (JObj [], r)
                 else map_option (\<lambda>(kvs, r). (JObj (dict_of kvs), r)) (json_members n t)
             | [] \<Rightarrow> None)
          else if c = CHR ''['' then
            (case skip_ws t of
               d # r \<Rightarrow>
                 if d = CHR '']'' then Some (JArr [], r)
                 else map_option (\<lambda>(xs, r). (JArr xs, r)) (json_elements n t)
             | [] \<Rightarrow> None)
          else (case json_word (c # t) of Some vr \<Rightarrow> Some vr | None \<Rightarrow> json_number (c # t)))"
| "json_members 0 s = None"
| "json_members (Suc n) s =
     (case json_key s of
        None \<Rightarrow> None
      | Some (k, u) \<Rightarrow>
          (case json_value n u of
             None \<Rightarrow> None
           | Some (v, w) \<Rightarrow>
               (case json_sep (CHR ''}'') w of
                  None \<Rightarrow> None
                | Some (ended, x) \<Rightarrow>
                    if ended then Some ([(k, v)], x)
                    else map_option (\<lambda>(kvs, y). ((k, v) # kvs, y)) (json_members n x))))"
| "json_elements 0 s = None"
| "json_elements (Suc n) s =
     (case json_value n s of
        None \<Rightarrow> None
      | Some (v, w) \<Rightarrow>
          (case json_sep (CHR '']'') w of
             None \<Rightarrow> None
           | Some (ended, x) \<Rightarrow>
               if ended then Some ([v], x)
               else map_option (\<lambda>(vs, y). (v # vs, y)) (json_elements n x)))"

text \<open>\<^verbatim>\<open>json.loads\<close>; \<open>None\<close> is the \<^verbatim>\<open>JSONDecodeError\<close>.\<close>

definition json_loads :: "string \<Rightarrow> json option" where
  "json_loads s =
     (case json_value (2 * length s + 1) s of
        Some (v, r) \<Rightarrow> if skip_ws r = [] then Some v else None
      | None \<Rightarrow> None)"

section \<open>The fuel is enough\<close>

lemma skip_ws_length: "length (skip_ws s) \<le> length s"
  by (simp add: skip_ws_def length_dropWhile_le)

lemma skip_ws_Cons: "skip_ws s = c # t \<Longrightarrow> length t < length s"
  using skip_ws_length [of s] by simp

lemma json_string_length: "json_string s = Some (x, r) \<Longrightarrow> length r < length s"
  by (induction s arbitrary: x r rule: json_string.induct)
    (auto split: if_splits option.splits list.splits; fastforce)+

lemma json_number_length: "json_number s = Some (v, r) \<Longrightarrow> length r < length s"
proof -
  have i: "length r < length s" if "json_int_part s = Some (i, r)" for i r s
  proof (cases s)
    case (Cons c t)
    with that show ?thesis
      using length_dropWhile_le [of is_digit t] by (auto simp: json_int_part_def split: if_splits)
  qed (use that in \<open>simp add: json_int_part_def\<close>)
  have f: "length r \<le> length s" if "json_fraction s = Some (i, r)" for i r s
  proof (cases s)
    case (Cons c t)
    with that show ?thesis
      using length_dropWhile_le [of is_digit t] by (auto simp: json_fraction_def Let_def split: if_splits)
  qed (use that in \<open>simp add: json_fraction_def\<close>)
  have e: "length r \<le> length s" if "json_exponent s = Some (i, r)" for i r s
  proof (cases s)
    case (Cons c t)
    have "length (dropWhile is_digit u) \<le> Suc (length t)" if "u = t \<or> t = d # u" for u d
      using that length_dropWhile_le [of is_digit u] by auto
    with that Cons show ?thesis
      by (auto simp: json_exponent_def Let_def split: if_splits list.splits)
  qed (use that in \<open>simp add: json_exponent_def\<close>)
  assume n: "json_number s = Some (v, r)"
  define t where "t = (if s \<noteq> [] \<and> hd s = CHR ''-'' then tl s else s)"
  obtain k r0 where k: "json_int_part t = Some (k, r0)"
    using n by (auto simp: json_number_def Let_def t_def split: option.splits)
  then have r: "r = rest_after (json_exponent (rest_after (json_fraction r0) r0)) (rest_after (json_fraction r0) r0)"
    using n unfolding json_number_def Let_def t_def [symmetric] by simp
  have "length r \<le> length (rest_after (json_fraction r0) r0)"
    unfolding r using e by (auto simp: rest_after_def split: option.split)
  moreover have "length (rest_after (json_fraction r0) r0) \<le> length r0"
    using f by (auto simp: rest_after_def split: option.split)
  moreover have "length t \<le> length s" by (simp add: t_def)
  ultimately show ?thesis using i [OF k] by linarith
qed

lemma json_word_length: "json_word s = Some (v, r) \<Longrightarrow> length r < length s"
proof -
  assume "json_word s = Some (v, r)"
  then obtain w where w: "find (\<lambda>(w, v). starts_with s w) json_words = Some (w, v)" "r = drop (length w) s"
    by (auto simp: json_word_def split: option.splits)
  then have "(w, v) \<in> set json_words" "starts_with s w"
    using find_Some_iff [of "\<lambda>(w, v). starts_with s w" json_words "(w, v)"] by (auto simp: in_set_conv_nth)
  then have "w \<noteq> []" "starts_with s w" by (auto simp: json_words_def)
  then show ?thesis using w(2) starts_with_length [of s w] by (cases w; simp)
qed

lemma json_key_length: "json_key s = Some (k, u) \<Longrightarrow> length u < length s"
  by (auto simp: json_key_def split: list.splits if_splits option.splits
      dest!: skip_ws_Cons json_string_length)

lemma json_sep_length: "json_sep c s = Some (b, u) \<Longrightarrow> length u < length s"
  by (auto simp: json_sep_def split: list.splits if_splits dest!: skip_ws_Cons)

lemma json_lengths:
  "(json_value n s = Some (v, r) \<longrightarrow> length r < length s) \<and>
   (json_members n s = Some (kvs, r) \<longrightarrow> length r < length s) \<and>
   (json_elements n s = Some (xs, r) \<longrightarrow> length r < length s)"
proof (induction n arbitrary: s v r kvs xs)
  case (Suc n)
  have V: "\<And>s v r. json_value n s = Some (v, r) \<Longrightarrow> length r < length s"
    and M: "\<And>s kvs r. json_members n s = Some (kvs, r) \<Longrightarrow> length r < length s"
    and E: "\<And>s xs r. json_elements n s = Some (xs, r) \<Longrightarrow> length r < length s"
    using Suc.IH by blast+
  show ?case
  proof (intro conjI impI)
    assume "json_value (Suc n) s = Some (v, r)"
    then show "length r < length s"
      by (auto split: list.splits if_splits option.splits dest!: skip_ws_Cons json_string_length M E
          json_word_length json_number_length)
  next
    assume "json_members (Suc n) s = Some (kvs, r)"
    then show "length r < length s"
      by (auto split: if_splits option.splits dest!: json_key_length json_sep_length M V)
  next
    assume "json_elements (Suc n) s = Some (xs, r)"
    then show "length r < length s"
      by (auto split: if_splits option.splits dest!: json_sep_length E V)
  qed
qed simp

lemma json_fuel_step:
  "(2 * length s \<le> n \<longrightarrow> json_value (Suc n) s = json_value n s) \<and>
   (2 * length s \<le> n \<longrightarrow> json_members (Suc n) s = json_members n s) \<and>
   (2 * length s < n \<longrightarrow> json_elements (Suc n) s = json_elements n s)"
proof (induction n arbitrary: s)
  case 0
  then show ?case by (simp add: skip_ws_def json_key_def)
next
  case (Suc n)
  have V: "\<And>s. 2 * length s \<le> n \<Longrightarrow> json_value (Suc n) s = json_value n s"
    and M: "\<And>s. 2 * length s \<le> n \<Longrightarrow> json_members (Suc n) s = json_members n s"
    and E: "\<And>s. 2 * length s < n \<Longrightarrow> json_elements (Suc n) s = json_elements n s"
    using Suc.IH by blast+
  have shorter: "length x + 1 < length s" if "json_value n s = Some (v, w)" "json_sep c w = Some (b, x)" for s v w c b x
    using json_lengths [of n s v w "[]" "[]", THEN conjunct1] json_sep_length [OF that(2)] that(1) by auto
  show ?case
  proof (intro conjI impI)
    assume n: "2 * length s \<le> Suc n"
    show "json_value (Suc (Suc n)) s = json_value (Suc n) s"
    proof (cases "skip_ws s")
      case (Cons c t)
      with n skip_ws_Cons have "2 * length t < n" by fastforce
      then have "json_members (Suc n) t = json_members n t" "json_elements (Suc n) t = json_elements n t"
        using M E by simp_all
      then show ?thesis unfolding json_value.simps Cons by (simp del: json_members.simps json_elements.simps split: list.split)
    qed simp
  next
    assume n: "2 * length s \<le> Suc n"
    show "json_members (Suc (Suc n)) s = json_members (Suc n) s"
    proof (cases "json_key s")
      case (Some ku)
      obtain k u where ku: "ku = (k, u)" by fastforce
      then have u: "length u < length s" using Some json_key_length by simp
      have v: "json_value (Suc n) u = json_value n u" by (rule V) (use n u in linarith)
      have "json_members (Suc n) x = json_members n x" if "json_value n u = Some (y, w)" "json_sep c w = Some (b, x)" for y w c b x
        by (rule M) (use n u shorter [OF that] in linarith)
      then show ?thesis
        unfolding json_members.simps(2) [of "Suc n" s] json_members.simps(2) [of n s] Some ku v option.case prod.case
        by (simp del: json_members.simps json_value.simps split: option.split)
    qed simp
  next
    assume n: "2 * length s < Suc n"
    have v: "json_value (Suc n) s = json_value n s" by (rule V) (use n in linarith)
    have "json_elements (Suc n) x = json_elements n x" if "json_value n s = Some (y, w)" "json_sep c w = Some (b, x)" for y w c b x
      by (rule E) (use n shorter [OF that] in linarith)
    then show "json_elements (Suc (Suc n)) s = json_elements (Suc n) s"
      unfolding json_elements.simps(2) [of "Suc n" s] json_elements.simps(2) [of n s] v
      by (simp del: json_elements.simps json_value.simps split: option.split)
  qed
qed

lemma json_fuel: "2 * length s \<le> n \<Longrightarrow> json_value n s = json_value (2 * length s) s"
proof (induction n)
  case (Suc n)
  then show ?case
  proof (cases "2 * length s \<le> n")
    case True
    with json_fuel_step Suc.IH show ?thesis by metis
  next
    case False
    with Suc.prems have "Suc n = 2 * length s" by linarith
    then show ?thesis by simp
  qed
qed simp

lemma json_loads_examples:
  "json_loads ''{\"a\": [1, true], \"a\": null }'' = Some (JObj [(''a'', JNull)])"
  "json_loads ''[1, ]'' = None"
  by code_simp+

end
