(* ===== verification/Telemetry.thy ===== *)
theory Telemetry
  imports Json Models
begin

text \<open>
  \<^verbatim>\<open>memem/telemetry.py\<close>: the access counts beside the memories, and which memories a session
  recalled. A file is what \<^verbatim>\<open>json.loads\<close> makes of it; the whole read-modify-write cycle runs
  under one file lock and ends in an atomic replace, so an operation is a function from the file
  to the file. The event log of this module is \<open>log_event\<close> in theory \<open>VaultCache\<close>.
\<close>

section \<open>Access counts\<close>

definition get_telemetry :: "string \<Rightarrow> json_file \<Rightarrow> py_error + (json \<times> json)" where
  "get_telemetry memory_id f =
     (case f of
        Doc (JObj d) \<Rightarrow>
          (case jget_or d (id8 memory_id) (JObj []) of
             JObj e \<Rightarrow> Inr (jget_or e ''access_count'' (JInt 0), jget_or e ''last_accessed'' (JStr []))
           | _ \<Rightarrow> Inl AttributeError)
      | Doc _ \<Rightarrow> Inl AttributeError
      | _ \<Rightarrow> Inr (JInt 0, JStr []))"

definition json_plus_one :: "json \<Rightarrow> json option" where
  "json_plus_one v =
     (case v of
        JInt i \<Rightarrow> Some (JInt (i + 1))
      | JBool b \<Rightarrow> Some (JInt (of_bool b + 1))
      | JReal r \<Rightarrow> Some (JReal (r + 1))
      | JNonFinite x \<Rightarrow> Some (JNonFinite x)
      | _ \<Rightarrow> None)"

text \<open>The state: the file, and the corrupt files that were renamed out of the way.\<close>

record telemetry =
  t_file :: json_file
  t_backups :: nat

definition record_access :: "string \<Rightarrow> string \<Rightarrow> telemetry \<Rightarrow> (py_error + unit) \<times> telemetry" where
  "record_access now memory_id t =
     (let start = (case t_file t of Doc v \<Rightarrow> v | _ \<Rightarrow> JObj []);
          t = (if t_file t = Unreadable then t\<lparr>t_file := Missing, t_backups := t_backups t + 1\<rparr> else t)
      in case start of
           JObj d \<Rightarrow>
             (case jget_or d (id8 memory_id) (JObj [(''access_count'', JInt 0), (''last_accessed'', JStr [])]) of
                JObj e \<Rightarrow>
                  (case json_plus_one (jget_or e ''access_count'' (JInt 0)) of
                     None \<Rightarrow> (Inl TypeError, t)
                   | Some n \<Rightarrow>
                       let e = AList.update ''last_accessed'' (JStr now) (AList.update ''access_count'' n e)
                       in (Inr (), t\<lparr>t_file := Doc (JObj (AList.update (id8 memory_id) (JObj e) d))\<rparr>))
              | _ \<Rightarrow> (Inl AttributeError, t))
         | _ \<Rightarrow> (Inl AttributeError, t))"

section \<open>Recalls of a session\<close>

definition entry_recalls :: "json \<Rightarrow> json" where
  "entry_recalls entry =
     (case entry of
        JArr xs \<Rightarrow> JArr xs
      | JObj e \<Rightarrow> jget_or e ''recalls'' (JArr [])
      | _ \<Rightarrow> JArr [])"

definition max_age_us :: int where "max_age_us = 30 * 86400 * 1000000"

text \<open>The instant of an entry, when it has a timestamp that parses.\<close>

definition entry_time :: "json \<Rightarrow> int option" where
  "entry_time entry =
     (case entry of
        JObj e \<Rightarrow>
          (case map_of e ''ts'' of
             Some (JStr s) \<Rightarrow> map_option (\<lambda>(us, off). us - (case off of None \<Rightarrow> 0 | Some o' \<Rightarrow> o')) (fromisoformat s)
           | _ \<Rightarrow> None)
      | _ \<Rightarrow> None)"

definition prune_old_recalls :: "int \<Rightarrow> (string \<times> json) list \<Rightarrow> (string \<times> json) list" where
  "prune_old_recalls now_us d =
     filter (\<lambda>(k, entry). case entry_time entry of None \<Rightarrow> True | Some t \<Rightarrow> \<not> t < now_us - max_age_us) d"

definition record_session_recall ::
  "string \<Rightarrow> int \<Rightarrow> string \<Rightarrow> string \<Rightarrow> json_file \<Rightarrow> (py_error + unit) \<times> json_file" where
  "record_session_recall now now_us session_id memory_id f =
     (if session_id = [] \<or> memory_id = [] then (Inr (), f)
      else
        let start = (case f of Doc v \<Rightarrow> v | _ \<Rightarrow> JObj []) in
        case start of
          JObj d \<Rightarrow>
            let d = prune_old_recalls now_us d;
                key = take 12 session_id; mid = JStr (id8 memory_id)
            in (case entry_recalls (jget d key) of
                  JArr recalls \<Rightarrow>
                    let recalls = (if mid \<in> set recalls then recalls else recalls @ [mid])
                    in (Inr (), Doc (JObj (AList.update key (JObj [(''ts'', JStr now), (''recalls'', JArr recalls)]) d)))
                | _ \<Rightarrow> (Inl TypeError, f))
        | _ \<Rightarrow> (Inl AttributeError, f))"

definition get_session_recalls :: "string \<Rightarrow> json_file \<Rightarrow> py_error + json" where
  "get_session_recalls session_id f =
     (case f of
        Doc (JObj d) \<Rightarrow> Inr (entry_recalls (jget d (take 12 session_id)))
      | Doc _ \<Rightarrow> Inl AttributeError
      | _ \<Rightarrow> Inr (JArr []))"

section \<open>Counting\<close>

text \<open>A file as the program leaves it: an object whose entries count accesses.\<close>

definition counts :: "json_file \<Rightarrow> string \<Rightarrow> int" where
  "counts f key =
     (case f of
        Doc (JObj d) \<Rightarrow>
          (case map_of d key of Some (JObj e) \<Rightarrow> (case jget_or e ''access_count'' (JInt 0) of JInt n \<Rightarrow> n | _ \<Rightarrow> 0) | _ \<Rightarrow> 0)
      | _ \<Rightarrow> 0)"

definition counting :: "json_file \<Rightarrow> bool" where
  "counting f \<longleftrightarrow>
     (case f of
        Doc (JObj d) \<Rightarrow> \<forall>v \<in> set (map snd d). \<exists>e n. v = JObj e \<and> jget_or e ''access_count'' (JInt 0) = JInt n
      | Doc _ \<Rightarrow> False
      | _ \<Rightarrow> True)"

lemma jget_or_update [simp]:
  "jget_or (AList.update k v d) j v0 = (if j = k then v else jget_or d j v0)"
  by (simp add: jget_or_def update_conv')

lemma record_access_step:
  assumes "counting (t_file t)"
  shows "fst (record_access now i t) = Inr () \<and> counting (t_file (snd (record_access now i t))) \<and>
    (\<forall>k. counts (t_file (snd (record_access now i t))) k = counts (t_file t) k + of_bool (k = id8 i))"
proof -
  define d where "d = (case t_file t of Doc (JObj d) \<Rightarrow> d | _ \<Rightarrow> [])"
  have start: "(case t_file t of Doc v \<Rightarrow> v | _ \<Rightarrow> JObj []) = JObj d"
    using assms by (auto simp: d_def counting_def split: json_file.splits json.splits)
  have d_ok: "\<forall>v \<in> set (map snd d). \<exists>e n. v = JObj e \<and> jget_or e ''access_count'' (JInt 0) = JInt n"
    using assms by (auto simp: d_def counting_def split: json_file.splits json.splits)
  have counts_d: "counts (t_file t) k = counts (Doc (JObj d)) k" for k
    by (auto simp: counts_def d_def split: json_file.splits json.splits)
  obtain e n where e: "jget_or d (id8 i) (JObj [(''access_count'', JInt 0), (''last_accessed'', JStr [])]) = JObj e"
      "jget_or e ''access_count'' (JInt 0) = JInt n"
      and n: "counts (Doc (JObj d)) (id8 i) = n"
  proof (cases "map_of d (id8 i)")
    case None
    then show ?thesis
      by (intro that [of "[(''access_count'', JInt 0), (''last_accessed'', JStr [])]" 0]) (simp_all add: jget_or_def counts_def)
  next
    case (Some v)
    then have "v \<in> set (map snd d)" by (force dest: map_of_SomeD)
    with d_ok obtain e n where "v = JObj e" "jget_or e ''access_count'' (JInt 0) = JInt n" by blast
    with Some show ?thesis by (intro that [of e n]) (simp_all add: jget_or_def counts_def)
  qed
  define e' where "e' = AList.update ''last_accessed'' (JStr now) (AList.update ''access_count'' (JInt (n + 1)) e)"
  have run: "fst (record_access now i t) = Inr ()"
      "t_file (snd (record_access now i t)) = Doc (JObj (AList.update (id8 i) (JObj e') d))"
    unfolding record_access_def start Let_def json.case e json_plus_one_def e'_def by simp_all
  have e'n: "jget_or e' ''access_count'' (JInt 0) = JInt (n + 1)" by (simp add: e'_def)
  have "counts (Doc (JObj (AList.update (id8 i) (JObj e') d))) k = counts (Doc (JObj d)) k + of_bool (k = id8 i)" for k
    using n e'n by (auto simp: counts_def update_conv')
  moreover have "set (map snd (AList.update (id8 i) (JObj e') d)) \<subseteq> insert (JObj e') (set (map snd d))"
    by (induction d) auto
  then have "counting (Doc (JObj (AList.update (id8 i) (JObj e') d)))"
    using d_ok e'n unfolding counting_def json_file.case json.case by blast
  ultimately show ?thesis using run counts_d by simp
qed

text \<open>
  No access is lost or counted twice. Starting from a file the program wrote (or none, or
  an unreadable one, which is put aside), any sequence of recorded accesses succeeds, and then
  the count of a key has grown by exactly the number of accesses to ids with that prefix.
\<close>

theorem accesses_counted_exactly:
  assumes "counting (t_file t)" "t' = fold (\<lambda>(now, i) t. snd (record_access now i t)) acs t"
  shows "counting (t_file t') \<and>
    (\<forall>k. counts (t_file t') k = counts (t_file t) k + int (length (filter (\<lambda>(now, i). id8 i = k) acs)))"
  using assms
proof (induction acs arbitrary: t)
  case (Cons a acs)
  obtain now i where a: "a = (now, i)" by fastforce
  have "counting (t_file (snd (record_access now i t)))"
      "\<forall>k. counts (t_file (snd (record_access now i t))) k = counts (t_file t) k + of_bool (k = id8 i)"
    using record_access_step [OF Cons.prems(1), of now i] by auto
  with Cons.IH [OF this(1)] Cons.prems(2) a show ?case by auto
qed simp

theorem accesses_counted_exactly_witness:
  "counts (t_file (fold (\<lambda>(now, i) t. snd (record_access now i t))
      [(''t1'', ''aaaaaaaa-1''), (''t2'', ''aaaaaaaa-1'')] \<lparr>t_file = Unreadable, t_backups = 0\<rparr>)) ''aaaaaaaa'' = 2"
proof -
  have "counting (t_file \<lparr>t_file = Unreadable, t_backups = 0\<rparr>)" by (simp add: counting_def)
  from accesses_counted_exactly [OF this refl, of "[(''t1'', ''aaaaaaaa-1''), (''t2'', ''aaaaaaaa-1'')]"]
  show ?thesis by (simp add: counts_def)
qed

lemma map_of_prune:
  "wf_dict d \<Longrightarrow> map_of (prune_old_recalls now d) k =
     (case map_of d k of None \<Rightarrow> None
      | Some e \<Rightarrow> (case entry_time e of None \<Rightarrow> Some e | Some t \<Rightarrow> if t < now - max_age_us then None else Some e))"
  unfolding prune_old_recalls_def by (simp add: map_of_filter_wf split: option.split)

text \<open>
  A session's recalls are recorded once and kept. Recording a recall on a well-formed file
  keeps the recalls of the session's unexpired entry in order and adds the new id at the end
  only if it is not there yet; what any other session reads is its entry from before, or
  nothing if that entry is older than 30 days; and a list without duplicates stays one.
\<close>

theorem recalls_recorded_once:
  assumes "sid \<noteq> []" "mid \<noteq> []" "wf_dict d"
    and "entry_recalls (jget (prune_old_recalls now_us d) (take 12 sid)) = JArr rs"
    and "record_session_recall now now_us sid mid (Doc (JObj d)) = (r, f)"
  shows "r = Inr () \<and>
    (\<exists>rs'. get_session_recalls sid f = Inr (JArr rs') \<and> prefix rs rs' \<and>
       set rs' = insert (JStr (id8 mid)) (set rs) \<and> (distinct rs \<longrightarrow> distinct rs')) \<and>
    (\<forall>other e. take 12 other \<noteq> take 12 sid \<longrightarrow> map_of d (take 12 other) = Some e \<longrightarrow>
       get_session_recalls other f =
         Inr (if \<exists>t. entry_time e = Some t \<and> t < now_us - max_age_us then JArr [] else entry_recalls e))"
proof -
  define rs' where "rs' = (if JStr (id8 mid) \<in> set rs then rs else rs @ [JStr (id8 mid)])"
  have rf: "r = Inr ()" "f = Doc (JObj (AList.update (take 12 sid)
      (JObj [(''ts'', JStr now), (''recalls'', JArr rs')]) (prune_old_recalls now_us d)))"
    using assms by (auto simp: record_session_recall_def rs'_def Let_def)
  have "get_session_recalls sid f = Inr (JArr rs')"
    by (simp add: rf(2) get_session_recalls_def jget_def update_conv' entry_recalls_def jget_or_def)
  moreover have "prefix rs rs'" "set rs' = insert (JStr (id8 mid)) (set rs)" "distinct rs \<longrightarrow> distinct rs'"
    by (auto simp: rs'_def)
  moreover have "get_session_recalls other f =
         Inr (if \<exists>t. entry_time e = Some t \<and> t < now_us - max_age_us then JArr [] else entry_recalls e)"
    if "take 12 other \<noteq> take 12 sid" "map_of d (take 12 other) = Some e" for other e
    using that map_of_prune [OF assms(3), of now_us "take 12 other"]
    by (auto simp: rf(2) get_session_recalls_def jget_def update_conv' entry_recalls_def split: option.splits)
  ultimately show ?thesis using rf(1) by blast
qed

theorem recalls_recorded_once_witness:
  "\<exists>f. record_session_recall ''now'' 0 ''s1'' ''aaaaaaaa-1'' (Doc (JObj [(''s2'', JArr [JStr ''b''])])) = (Inr (), f) \<and>
     get_session_recalls ''s2'' f = Inr (JArr [JStr ''b''])"
proof -
  let ?d = "[(''s2'', JArr [JStr ''b''])]"
  obtain r f where rf: "record_session_recall ''now'' 0 ''s1'' ''aaaaaaaa-1'' (Doc (JObj ?d)) = (r, f)" by fastforce
  have none: "entry_recalls (jget (prune_old_recalls 0 ?d) (take 12 ''s1'')) = JArr []"
    by (simp add: prune_old_recalls_def entry_time_def jget_def entry_recalls_def)
  have "r = Inr () \<and> get_session_recalls ''s2'' f = Inr (JArr [JStr ''b''])"
    using recalls_recorded_once [OF _ _ _ none rf] by (simp add: wf_dict_def entry_time_def entry_recalls_def)
  with rf show ?thesis by blast
qed

end
