(* ===== verification/Feedback.thy ===== *)
theory Feedback
  imports Telemetry Regex
begin

text \<open>
  \<^verbatim>\<open>memem/feedback.py\<close>: how a session went, read off the user's last messages, and the
  moving average of outcomes kept for each recalled memory. The scores file is a dictionary of
  numbers; its read-modify-write runs under one lock.
\<close>

section \<open>The outcome of a session\<close>

definition TAIL_MESSAGES :: nat where "TAIL_MESSAGES = 10"

definition positive_patterns :: "re list" where
  "positive_patterns =
     [cats [WordB, ialts [''yes'', ''perfect'', ''exactly'', ''great'', ''good'', ''correct'', ''nice'',
        ''thanks'', ''approved'', ''lgtm'', ''ship it''], WordB],
      cats [WordB, Alt (Cat (ilit ''work'') (opt (ilit ''s''))) (ialts [''working'', ''done'', ''merged'', ''pushed'', ''committed'']), WordB]]"

definition negative_patterns :: "re list" where
  "negative_patterns =
     [cats [WordB, ialts [''wrong'', ''don'' @ [CHR 0x27] @ ''t'', ''stop'', ''revert'', ''undo'', ''rollback'', ''broken'', ''bug'',
        ''fail'', ''incorrect''], WordB],
      cats [WordB, ialts [''that'' @ [CHR 0x27] @ ''s not right'', ''not what I'', ''try again'', ''start over'', ''scrap''], WordB]]"

definition hits :: "re list \<Rightarrow> string list \<Rightarrow> nat" where
  "hits pats msgs = sum_list (map (\<lambda>m. sum_list (map (\<lambda>p. length (re_findall p (drop 6 m))) pats)) msgs)"

definition classify_session_outcome :: "string list \<Rightarrow> real" where
  "classify_session_outcome messages =
     (let user = filter (\<lambda>m. starts_with m ''User: '') messages;
          tail = (if length user > TAIL_MESSAGES then drop (length user - TAIL_MESSAGES) user else user)
      in if length tail < 2 then 0
         else
           let pos = hits positive_patterns tail; neg = hits negative_patterns tail in
           if pos + neg = 0 then 0
           else max (- 1) (min 1 ((real pos - real neg) / real (pos + neg))))"

section \<open>Relevance scores\<close>

definition EMA_ALPHA :: real where "EMA_ALPHA = 0.3"

datatype scores_file = NoScores | BadScores | Scores "(string, real) dict"

definition load_relevance_scores :: "scores_file \<Rightarrow> (string, real) dict" where
  "load_relevance_scores f = (case f of Scores d \<Rightarrow> d | _ \<Rightarrow> [])"

definition save_relevance_scores :: "(string, real) dict \<Rightarrow> scores_file" where
  "save_relevance_scores d = Scores d"

definition score_or_zero :: "(string, real) dict \<Rightarrow> string \<Rightarrow> real" where
  "score_or_zero d k = (case map_of d k of None \<Rightarrow> 0 | Some r \<Rightarrow> r)"

definition get_relevance_score :: "string \<Rightarrow> scores_file \<Rightarrow> real" where
  "get_relevance_score memory_id f = score_or_zero (load_relevance_scores f) (id8 memory_id)"

definition ema_one :: "real \<Rightarrow> string \<Rightarrow> (string, real) dict \<Rightarrow> (string, real) dict" where
  "ema_one outcome mid d =
     AList.update (id8 mid) ((1 - EMA_ALPHA) * score_or_zero d (id8 mid) + EMA_ALPHA * outcome) d"

definition update_relevance_scores :: "string list \<Rightarrow> real \<Rightarrow> scores_file \<Rightarrow> scores_file" where
  "update_relevance_scores recalled outcome f =
     (if recalled = [] then f
      else save_relevance_scores (fold (ema_one outcome) recalled (load_relevance_scores f)))"

section \<open>Bounds and convergence\<close>

text \<open>
  The outcome of a session is within -1 and 1 and the clamp is idle. It is 1 exactly when
  there is a hit and none is negative, -1 when there is one and none is positive, and fewer
  than two user messages, or none with a signal, are neutral. Only messages of the user count.
\<close>

theorem session_outcome_bounds:
  "- 1 \<le> classify_session_outcome ms \<and> classify_session_outcome ms \<le> 1 \<and>
   classify_session_outcome ms = classify_session_outcome (filter (\<lambda>m. starts_with m ''User: '') ms) \<and>
   (let user = filter (\<lambda>m. starts_with m ''User: '') ms;
        tail = drop (length user - TAIL_MESSAGES) user;
        p = hits positive_patterns tail; n = hits negative_patterns tail
    in classify_session_outcome ms =
         (if length tail < 2 \<or> p + n = 0 then 0 else (real p - real n) / (real p + real n)))"
proof -
  have clamp: "- 1 \<le> (real p - real n) / (real p + real n)" "(real p - real n) / (real p + real n) \<le> 1"
      "max (- 1) (min 1 ((real p - real n) / real (p + n))) = (real p - real n) / (real p + real n)"
    if "p + n \<noteq> 0" for p n
  proof -
    have "real p + real n > 0" using that by linarith
    then show "- 1 \<le> (real p - real n) / (real p + real n)" "(real p - real n) / (real p + real n) \<le> 1"
      by (simp_all add: field_simps)
    then show "max (- 1) (min 1 ((real p - real n) / real (p + n))) = (real p - real n) / (real p + real n)"
      by simp
  qed
  have tail: "(if length u > TAIL_MESSAGES then drop (length u - TAIL_MESSAGES) u else u) = drop (length u - TAIL_MESSAGES) u"
    for u :: "string list" by simp
  define last_ones where "last_ones = (\<lambda>u. drop (length u - TAIL_MESSAGES) u :: string list)"
  define p where "p = hits positive_patterns (last_ones (filter (\<lambda>m. starts_with m ''User: '') ms))"
  define n where "n = hits negative_patterns (last_ones (filter (\<lambda>m. starts_with m ''User: '') ms))"
  define few where "few \<longleftrightarrow> length (last_ones (filter (\<lambda>m. starts_with m ''User: '') ms)) < 2"
  have is_if: "classify_session_outcome ms = (if few then 0 else if p + n = 0 then 0
      else max (- 1) (min 1 ((real p - real n) / real (p + n))))"
    unfolding classify_session_outcome_def Let_def tail p_def n_def few_def last_ones_def ..
  have "classify_session_outcome ms = (if few \<or> p + n = 0 then 0 else (real p - real n) / (real p + real n))"
    unfolding is_if using clamp(3) [of p n] by (auto simp del: of_nat_add max_def min_def)
  moreover from this have "- 1 \<le> classify_session_outcome ms \<and> classify_session_outcome ms \<le> 1"
    using clamp(1,2) [of p n] by (simp only: split: if_split) auto
  moreover have "classify_session_outcome ms = classify_session_outcome (filter (\<lambda>m. starts_with m ''User: '') ms)"
    by (simp add: classify_session_outcome_def)
  ultimately show ?thesis
    unfolding Let_def p_def n_def few_def last_ones_def by blast
qed

definition scores_bounded :: "(string, real) dict \<Rightarrow> bool" where
  "scores_bounded d \<longleftrightarrow> (\<forall>k. \<bar>score_or_zero d k\<bar> \<le> 1)"

lemma score_ema: "score_or_zero (ema_one o' i d) k =
    (if k = id8 i then (1 - EMA_ALPHA) * score_or_zero d k + EMA_ALPHA * o' else score_or_zero d k)"
  by (simp add: ema_one_def score_or_zero_def update_conv')

lemma score_fold:
  "score_or_zero (fold (ema_one o') is d) k =
     (let n = length (filter (\<lambda>i. id8 i = k) is) in
      (1 - EMA_ALPHA) ^ n * score_or_zero d k + (1 - (1 - EMA_ALPHA) ^ n) * o')"
proof (induction "is" arbitrary: d)
  case (Cons i "is")
  show ?case
    by (simp add: Cons.IH score_ema Let_def) (simp add: algebra_simps)
qed simp

text \<open>
  The relevance scores are an exponential moving average that cannot run away. After a
  session with outcome o the score of a memory that was recalled n times is
  0.7^n times its old score plus (1 - 0.7^n) times o, of every other memory its old score; so
  scores within -1 and 1 stay there, and a recalled memory moves towards the outcome.
\<close>

theorem relevance_scores_average:
  assumes "\<bar>o'\<bar> \<le> 1" "scores_bounded (load_relevance_scores f)"
  shows "scores_bounded (load_relevance_scores (update_relevance_scores is o' f)) \<and>
    (\<forall>i. get_relevance_score i (update_relevance_scores is o' f) =
       (let n = length (filter (\<lambda>j. id8 j = id8 i) is) in
        0.7 ^ n * get_relevance_score i f + (1 - 0.7 ^ n) * o') \<and>
      \<bar>get_relevance_score i (update_relevance_scores is o' f) - o'\<bar> \<le> \<bar>get_relevance_score i f - o'\<bar>)"
proof -
  have alpha: "1 - EMA_ALPHA = 0.7" by (simp add: EMA_ALPHA_def)
  have load: "load_relevance_scores (update_relevance_scores is o' f) = fold (ema_one o') is (load_relevance_scores f)"
    by (simp add: update_relevance_scores_def save_relevance_scores_def load_relevance_scores_def)
  have val: "score_or_zero (load_relevance_scores (update_relevance_scores is o' f)) k =
      (let n = length (filter (\<lambda>j. id8 j = k) is) in
       0.7 ^ n * score_or_zero (load_relevance_scores f) k + (1 - 0.7 ^ n) * o')" for k
    unfolding load score_fold alpha by (simp add: Let_def)
  have bounds: "\<bar>a * x + (1 - a) * y\<bar> \<le> 1 \<and> \<bar>a * x + (1 - a) * y - y\<bar> \<le> \<bar>x - y\<bar>"
    if "0 \<le> a" "a \<le> 1" "\<bar>x\<bar> \<le> 1" "\<bar>y\<bar> \<le> 1" for a x y :: real
  proof
    have "\<bar>a * x + (1 - a) * y\<bar> \<le> a * \<bar>x\<bar> + (1 - a) * \<bar>y\<bar>"
      using that(1,2) abs_triangle_ineq [of "a * x" "(1 - a) * y"] by (simp add: abs_mult)
    also have "\<dots> \<le> a * 1 + (1 - a) * 1" using that by (intro add_mono mult_left_mono) auto
    finally show "\<bar>a * x + (1 - a) * y\<bar> \<le> 1" by simp
    have "a * x + (1 - a) * y - y = a * (x - y)" by (simp add: algebra_simps)
    then show "\<bar>a * x + (1 - a) * y - y\<bar> \<le> \<bar>x - y\<bar>"
      using that(1,2) by (simp add: abs_mult mult_left_le_one_le)
  qed
  have pow: "0 \<le> (0.7::real) ^ n" "(0.7::real) ^ n \<le> 1" for n by (simp_all add: power_le_one)
  have old: "\<bar>score_or_zero (load_relevance_scores f) k\<bar> \<le> 1" for k
    using assms(2) by (simp add: scores_bounded_def)
  show ?thesis
    unfolding scores_bounded_def get_relevance_score_def val Let_def
    using bounds [OF pow old assms(1)] by blast
qed

theorem relevance_scores_average_witness:
  "get_relevance_score ''aaaaaaaa-1'' (update_relevance_scores [''aaaaaaaa''] 1 NoScores) = 0.3"
proof -
  have "scores_bounded (load_relevance_scores NoScores)"
    by (simp add: scores_bounded_def load_relevance_scores_def score_or_zero_def)
  from relevance_scores_average [OF _ this, of 1 "[''aaaaaaaa'']"]
  have "get_relevance_score ''aaaaaaaa-1'' (update_relevance_scores [''aaaaaaaa''] 1 NoScores) =
      0.7 ^ 1 * get_relevance_score ''aaaaaaaa-1'' NoScores + (1 - 0.7 ^ 1) * 1"
    by (simp add: Let_def)
  then show ?thesis by (simp add: get_relevance_score_def load_relevance_scores_def score_or_zero_def)
qed

end
