(* ===== verification/Decay.thy ===== *)
theory Decay
  imports Telemetry
begin

text \<open>
  \<^verbatim>\<open>memem/decay.py\<close>: the strength of a memory, which falls with the time since it was last
  accessed, more slowly the more often it was, and the layer it should move to. Access counts
  come from the telemetry file.
\<close>

definition DECAY_HALF_LIFE_DAYS :: real where "DECAY_HALF_LIFE_DAYS = 30"
definition ACCESS_REINFORCEMENT :: real where "ACCESS_REINFORCEMENT = 0.5"
definition DEMOTE_THRESHOLD :: real where "DEMOTE_THRESHOLD = 0.2"
definition PHI_DAMPING_KNEE :: int where "PHI_DAMPING_KNEE = 5"
definition LOG_DAMPING_KNEE :: int where "LOG_DAMPING_KNEE = 20"

definition hours_since :: "string \<Rightarrow> int \<Rightarrow> real" where
  "hours_since ts now =
     (case parse_iso_dt ts of
        None \<Rightarrow> 0
      | Some t \<Rightarrow> max 0 (seconds_between now t / 3600))"

definition compute_decay_factor :: "int \<Rightarrow> real" where
  "compute_decay_factor accesses =
     (let n = max 0 accesses in
      if n \<le> PHI_DAMPING_KNEE then 1
      else if n \<le> LOG_DAMPING_KNEE
      then 1 - 0.5 * (real_of_int (n - PHI_DAMPING_KNEE) / real_of_int (max 1 (LOG_DAMPING_KNEE - PHI_DAMPING_KNEE)))
      else 0.5 / (1 + ln (1 + real_of_int (n - LOG_DAMPING_KNEE))))"

text \<open>
  The telemetry of the memory: its access count and last access. A memory without an
  importance has 3, and so has one of importance 0.
\<close>

definition strength_of :: "int \<Rightarrow> string \<Rightarrow> memory \<Rightarrow> int \<Rightarrow> real" where
  "strength_of accesses tel_last m now =
     (let imp = (if importance m = 0 then 3 else real_of_int (importance m));
          last_access = (if tel_last \<noteq> [] then tel_last else if last_accessed_at m \<noteq> [] then last_accessed_at m
                         else if updated_at m \<noteq> [] then updated_at m else created_at m);
          hours = hours_since last_access now;
          effective_m = 1 + ACCESS_REINFORCEMENT * real_of_int accesses * compute_decay_factor accesses;
          tau = DECAY_HALF_LIFE_DAYS * 24 * effective_m / ln 2
      in (if tau > 0 then exp (- hours / tau) else 0) * (0.6 + 0.2 * (imp - 1)))"

text \<open>
  Reading the telemetry: \<^verbatim>\<open>int(count or 0)\<close> and \<^verbatim>\<open>last or ...\<close>. A count that is not a number
  and a last access that is not a string are errors (\<open>None\<close>).
\<close>

definition count_of :: "json \<Rightarrow> int option" where
  "count_of v =
     (if \<not> json_truthy v then Some 0
      else case v of
        JInt i \<Rightarrow> Some i
      | JBool b \<Rightarrow> Some (of_bool b)
      | JReal r \<Rightarrow> Some (if r < 0 then - \<lfloor>- r\<rfloor> else \<lfloor>r\<rfloor>)
      | _ \<Rightarrow> None)"

definition last_of :: "json \<Rightarrow> string option" where
  "last_of v = (if \<not> json_truthy v then Some [] else case v of JStr s \<Rightarrow> Some s | _ \<Rightarrow> None)"

definition compute_strength :: "json_file \<Rightarrow> memory \<Rightarrow> int \<Rightarrow> real option" where
  "compute_strength tel m now =
     (case get_telemetry (mem_id m) tel of
        Inl _ \<Rightarrow> None
      | Inr (c, l) \<Rightarrow>
          (case (count_of c, last_of l) of
             (Some n, Some s) \<Rightarrow> Some (strength_of n s m now)
           | _ \<Rightarrow> None))"

definition is_immune :: "memory \<Rightarrow> bool" where
  "is_immune m \<longleftrightarrow> (case layer m of None \<Rightarrow> DEFAULT_LAYER | Some l \<Rightarrow> l) = LAYER_L0 \<or> decay_immune m"

definition should_demote :: "json_file \<Rightarrow> memory \<Rightarrow> int \<Rightarrow> int option option" where
  "should_demote tel m now =
     (if is_immune m then Some None
      else map_option
        (\<lambda>strength.
           if strength \<ge> DEMOTE_THRESHOLD then None
           else let current = (case layer m of None \<Rightarrow> DEFAULT_LAYER | Some l \<Rightarrow> l) in
                if current \<ge> 3 then None else Some (current + 1))
        (compute_strength tel m now))"

section \<open>Damping\<close>

lemma decay_factor_cases:
  "n \<le> 5 \<Longrightarrow> compute_decay_factor n = 1"
  "5 < n \<Longrightarrow> n \<le> 20 \<Longrightarrow> compute_decay_factor n = 1 - real_of_int (n - 5) / 30"
  "20 < n \<Longrightarrow> compute_decay_factor n = 0.5 / (1 + ln (real_of_int (n - 19)))"
  by (simp_all add: compute_decay_factor_def PHI_DAMPING_KNEE_def LOG_DAMPING_KNEE_def)

lemma damped:
  "0 \<le> x \<Longrightarrow> 0 < 0.5 / (1 + x) \<and> 0.5 / (1 + x) \<le> (0.5 :: real)"
  "0 \<le> x \<Longrightarrow> x \<le> y \<Longrightarrow> 0.5 / (1 + y) \<le> (0.5 :: real) / (1 + x)"
  by (simp add: divide_le_eq) (rule frac_le, simp_all)

lemma decay_factor_bounds: "0 < compute_decay_factor n \<and> compute_decay_factor n \<le> 1"
proof -
  consider "n \<le> 5" | "5 < n" "n \<le> 20" | "20 < n" by linarith
  then show ?thesis
  proof cases
    case 2
    have "0 \<le> real_of_int (n - 5)" "real_of_int (n - 5) \<le> 15" using 2 by linarith+
    then show ?thesis using decay_factor_cases(2) [OF 2] by (simp add: field_simps)
  next
    case 3
    then have "0 \<le> ln (real_of_int (n - 19))" by simp
    then show ?thesis using decay_factor_cases(3) [OF 3] damped(1) by fastforce
  qed (simp add: decay_factor_cases)
qed

lemma decay_factor_log: "20 < n \<Longrightarrow> compute_decay_factor n \<le> 0.5"
proof -
  assume n: "20 < n"
  then have "0 \<le> ln (real_of_int (n - 19))" by simp
  then show ?thesis using decay_factor_cases(3) [OF n] damped(1) by simp
qed

text \<open>
  The damping only ever tightens. The factor is 1 up to 5 accesses, at most 1/2 beyond 20,
  always above 0, and more accesses never raise it, across both changes of phase.
\<close>

theorem decay_factor_antitone:
  assumes "n \<le> k"
  shows "compute_decay_factor k \<le> compute_decay_factor n \<and> 0 < compute_decay_factor k \<and>
    (n \<le> 5 \<longrightarrow> compute_decay_factor n = 1) \<and> (20 < k \<longrightarrow> compute_decay_factor k \<le> 0.5)"
proof -
  consider "n \<le> 5" | "5 < n" "n \<le> 20" "k \<le> 20" | "5 < n" "n \<le> 20" "20 < k" | "20 < n" by linarith
  then have "compute_decay_factor k \<le> compute_decay_factor n"
  proof cases
    case 1
    then show ?thesis using decay_factor_bounds [of k] by (simp add: decay_factor_cases)
  next
    case 2
    then have "5 < k" using assms by linarith
    with 2 assms show ?thesis by (simp add: decay_factor_cases field_simps)
  next
    case 3
    have "real_of_int (n - 5) \<le> 15" using 3 by linarith
    then have "0.5 \<le> compute_decay_factor n" using decay_factor_cases(2) [OF 3(1,2)] by (simp add: field_simps)
    with decay_factor_log [OF 3(3)] show ?thesis by linarith
  next
    case 4
    then have "ln (real_of_int (n - 19)) \<le> ln (real_of_int (k - 19))" "0 \<le> ln (real_of_int (n - 19))"
      using assms by simp_all
    then have "0.5 / (1 + ln (real_of_int (k - 19))) \<le> 0.5 / (1 + ln (real_of_int (n - 19)))"
      by (intro damped(2))
    moreover have "20 < k" using 4 assms by linarith
    ultimately show ?thesis using decay_factor_cases(3) [OF 4] decay_factor_cases(3) [of k] by simp
  qed
  then show ?thesis using decay_factor_bounds decay_factor_log decay_factor_cases(1) by blast
qed

theorem decay_factor_antitone_witness:
  "compute_decay_factor 21 \<le> compute_decay_factor 20 \<and> compute_decay_factor 21 \<le> 0.5"
  using decay_factor_antitone [of 20 21] by simp

section \<open>Strength and demotion\<close>

text \<open>The time constant and the weight of \<open>strength_of\<close>.\<close>

definition tau_of :: "int \<Rightarrow> real" where
  "tau_of n = DECAY_HALF_LIFE_DAYS * 24 * (1 + ACCESS_REINFORCEMENT * real_of_int n * compute_decay_factor n) / ln 2"

definition weight_of :: "memory \<Rightarrow> real" where
  "weight_of m = 0.6 + 0.2 * ((if importance m = 0 then 3 else real_of_int (importance m)) - 1)"

definition last_seen :: "string \<Rightarrow> memory \<Rightarrow> string" where
  "last_seen tel_last m = (if tel_last \<noteq> [] then tel_last else if last_accessed_at m \<noteq> [] then last_accessed_at m
     else if updated_at m \<noteq> [] then updated_at m else created_at m)"

lemma strength_of_eq:
  assumes "0 \<le> n"
  shows "strength_of n l m now = exp (- hours_since (last_seen l m) now / tau_of n) * weight_of m" "0 < tau_of n"
proof -
  have "0 \<le> ACCESS_REINFORCEMENT * real_of_int n * compute_decay_factor n"
    using assms decay_factor_bounds [of n] by (simp add: ACCESS_REINFORCEMENT_def)
  then show "0 < tau_of n" by (simp add: tau_of_def DECAY_HALF_LIFE_DAYS_def)
  then show "strength_of n l m now = exp (- hours_since (last_seen l m) now / tau_of n) * weight_of m"
    unfolding strength_of_def Let_def tau_of_def [symmetric] weight_of_def last_seen_def by simp
qed

lemma weight_bounds: "1 \<le> importance m \<Longrightarrow> importance m \<le> 5 \<Longrightarrow> 0.6 \<le> weight_of m \<and> weight_of m \<le> 1.4"
  by (simp add: weight_of_def)

lemma hours_since_nonneg: "0 \<le> hours_since ts now"
  by (simp add: hours_since_def split: option.split)

lemma hours_since_mono: "now \<le> now' \<Longrightarrow> hours_since ts now \<le> hours_since ts now'"
proof (cases "parse_iso_dt ts")
  case (Some t)
  assume "now \<le> now'"
  then have "seconds_between now t / 3600 \<le> seconds_between now' t / 3600"
    by (simp add: seconds_between_def divide_right_mono)
  then show ?thesis unfolding hours_since_def Some option.case by (rule max.mono [OF order_refl])
qed (simp add: hours_since_def)

text \<open>
  Strength is bounded and only falls with time. For a memory of importance 1 to 5 and any
  number of accesses the strength is above 0 and at most 1.4 (importance 5, just accessed), and
  at a later time it is not higher.
\<close>

theorem strength_bounded_and_falling:
  assumes "0 \<le> n" "1 \<le> importance m" "importance m \<le> 5" "now \<le> now'"
  shows "0 < strength_of n l m now \<and> strength_of n l m now \<le> 1.4 \<and> strength_of n l m now' \<le> strength_of n l m now"
proof -
  note eq = strength_of_eq(1) [OF assms(1), of l m] and tau = strength_of_eq(2) [OF assms(1)]
  have w: "0.6 \<le> weight_of m" "weight_of m \<le> 1.4" using weight_bounds assms(2,3) by blast+
  have "exp (- hours_since (last_seen l m) now / tau_of n) \<le> 1"
    using tau hours_since_nonneg by (simp add: divide_nonneg_pos)
  then have "exp (- hours_since (last_seen l m) now / tau_of n) * weight_of m \<le> 1 * 1.4"
    using w by (intro mult_mono) simp_all
  moreover have "exp (- hours_since (last_seen l m) now' / tau_of n) \<le> exp (- hours_since (last_seen l m) now / tau_of n)"
    using tau hours_since_mono [OF assms(4)] by (simp add: divide_right_mono)
  then have "exp (- hours_since (last_seen l m) now' / tau_of n) * weight_of m \<le> exp (- hours_since (last_seen l m) now / tau_of n) * weight_of m"
    by (rule mult_right_mono) (use w in linarith)
  moreover have "0 < exp (- hours_since (last_seen l m) now / tau_of n) * weight_of m"
    using w by (intro mult_pos_pos) simp_all
  ultimately show ?thesis unfolding eq by simp
qed

theorem strength_bounded_and_falling_witness:
  "strength_of 0 [] (blank_memory ''a1'' ''T'' ''E'') 5 \<le> 1.4"
  using strength_bounded_and_falling [of 0 "blank_memory ''a1'' ''T'' ''E''" 5 5 "[]"] by simp

text \<open>
  C37: A memory nobody asks for is eventually offered for demotion. Take a memory below the
  last layer that is neither pinned to layer 0 nor exempt, with importance 1 to 5, whose
  telemetry can be read and whose last access has a readable timestamp: from some time on,
  as long as it is not accessed again, every check suggests exactly the next layer.
\<close>

theorem unused_memory_is_demoted:
  assumes "\<not> is_immune m" "1 \<le> importance m" "importance m \<le> 5"
    and "get_telemetry (mem_id m) tel = Inr (c, l)" "count_of c = Some n" "0 \<le> n" "last_of l = Some s"
    and "parse_iso_dt (last_seen s m) = Some t"
    and "(case layer m of None \<Rightarrow> DEFAULT_LAYER | Some l \<Rightarrow> l) < 3"
  shows "\<exists>since. \<forall>now \<ge> since. should_demote tel m now =
    Some (Some ((case layer m of None \<Rightarrow> DEFAULT_LAYER | Some l \<Rightarrow> l) + 1))"
proof (intro exI allI impI)
  fix now assume now: "now \<ge> t + \<lceil>tau_of n * ln 8 * 3600000000\<rceil>"
  note eq = strength_of_eq(1) [OF assms(6), of s m now] and tau = strength_of_eq(2) [OF assms(6)]
  have w: "weight_of m \<le> 1.4" "0.6 \<le> weight_of m" using weight_bounds assms(2,3) by blast+
  have "tau_of n * ln 8 * 3600000000 \<le> real_of_int (now - t)" using now by linarith
  then have "tau_of n * ln 8 \<le> real_of_int (now - t) / 3600000000" by simp
  then have "tau_of n * ln 8 \<le> hours_since (last_seen s m) now"
    by (simp add: hours_since_def assms(8) seconds_between_def le_max_iff_disj)
  then have "ln 8 \<le> hours_since (last_seen s m) now / tau_of n" using tau by (simp add: field_simps)
  then have "exp (- hours_since (last_seen s m) now / tau_of n) \<le> exp (- ln 8)" by simp
  also have "exp (- ln 8) = (1 / 8 :: real)" by (simp add: exp_minus inverse_eq_divide)
  finally have "exp (- hours_since (last_seen s m) now / tau_of n) * weight_of m \<le> 1 / 8 * 1.4"
    using w by (intro mult_mono) simp_all
  then have "strength_of n s m now < DEMOTE_THRESHOLD" by (simp add: eq DEMOTE_THRESHOLD_def)
  then show "should_demote tel m now = Some (Some ((case layer m of None \<Rightarrow> DEFAULT_LAYER | Some l \<Rightarrow> l) + 1))"
    using assms(1,9) by (simp add: should_demote_def compute_strength_def assms(4,5,7) Let_def)
qed

theorem unused_memory_is_demoted_witness:
  "\<exists>since. \<forall>now \<ge> since. should_demote Missing ((blank_memory ''a1'' ''T'' ''E'')\<lparr>created_at := ''2026-06-11''\<rparr>) now = Some (Some 3)"
proof -
  let ?m = "(blank_memory ''a1'' ''T'' ''E'')\<lparr>created_at := ''2026-06-11''\<rparr>"
  obtain t where t: "parse_iso_dt ''2026-06-11'' = Some t"
    using parse_iso_examples(1) by (cases "parse_iso_dt ''2026-06-11''") (simp, code_simp)
  have "last_seen [] ?m = ''2026-06-11''" "layer ?m = None" "decay_immune ?m = False"
    by (simp_all add: last_seen_def blank_memory_def)
  with unused_memory_is_demoted [of ?m Missing "JInt 0" "JStr []" 0 "[]" t] t show ?thesis
    by (simp add: is_immune_def get_telemetry_def count_of_def last_of_def DEFAULT_LAYER_def LAYER_L0_def)
qed

end
