(* ===== verification/MineDelta.thy ===== *)
theory MineDelta
  imports Json Notes Security
begin

text \<open>
  The reading half of \<^verbatim>\<open>memem/mine_delta.py\<close>: the new part of a transcript, the text of its
  turns, the digest of tool calls, the paths a session worked on, and the two predicates that
  skip a delta. A transcript is its bytes (as \<open>char\<close>s), one JSON object per line; \<open>other\<close> is
  Python's \<^verbatim>\<open>str\<close> on the values whose text is not modelled (floats, lists, dictionaries). \<open>None\<close>
  is a \<^verbatim>\<open>TypeError\<close> that the function lets escape. Code points beyond Latin-1 are read as \<^verbatim>\<open>?\<close>.
\<close>

section \<open>Reading the delta\<close>

definition continuation :: "char \<Rightarrow> bool" where
  "continuation c \<longleftrightarrow> (of_char c :: nat) div 64 = 2"

definition utf8_length :: "char \<Rightarrow> nat" where
  "utf8_length c =
     (let n = of_char c :: nat in
      if n < 128 then 1 else if 194 \<le> n \<and> n < 224 then 2 else if 224 \<le> n \<and> n < 240 then 3
      else if 240 \<le> n \<and> n < 245 then 4 else 0)"

text \<open>The code points of the bytes, \<open>None\<close> for a byte that is not part of one.\<close>

function utf8_points :: "string \<Rightarrow> char option list" where
  "utf8_points [] = []"
| "utf8_points (b # s) =
     (let n = utf8_length b; cs = take (n - 1) s in
      if n = 1 then Some b # utf8_points s
      else if n \<ge> 2 \<and> length cs = n - 1 \<and> list_all continuation cs
      then Some (if n = 2 \<and> (b = CHR 0xC2 \<or> b = CHR 0xC3)
                 then char_of ((of_char b :: nat) mod 4 * 64 + of_char (hd cs) mod 64) else CHR ''?'')
             # utf8_points (drop (n - 1) s)
      else None # utf8_points s)"
  by pat_completeness auto
termination
  by (relation "measure length") (auto simp: Let_def)

definition decode_replace :: "string \<Rightarrow> string" where
  "decode_replace bs = map (\<lambda>p. case p of None \<Rightarrow> CHR ''?'' | Some c \<Rightarrow> c) (utf8_points bs)"

definition decode_ignore :: "string \<Rightarrow> string" where
  "decode_ignore bs = List.map_filter id (utf8_points bs)"

definition decode_strict :: "string \<Rightarrow> string option" where
  "decode_strict bs = (if None \<in> set (utf8_points bs) then None else Some (decode_ignore bs))"

type_synonym turn = "(string \<times> json) list"

definition turn_of_line :: "string \<Rightarrow> turn list" where
  "turn_of_line raw =
     (let line = strip (decode_replace raw) in
      if line = [] then []
      else (case json_loads line of Some (JObj d) \<Rightarrow> [d] | _ \<Rightarrow> []))"

text \<open>Iterating over a binary file: lines end after each newline, the last may have none.\<close>

definition turns_of_bytes :: "string \<Rightarrow> turn list" where
  "turns_of_bytes bs = concat (map turn_of_line (split_char NL bs))"

definition read_delta :: "string option \<Rightarrow> nat \<Rightarrow> turn list \<times> nat" where
  "read_delta transcript offset =
     (case transcript of
        None \<Rightarrow> ([], offset)
      | Some bs \<Rightarrow> (turns_of_bytes (drop offset bs), max offset (length bs)))"

section \<open>Text of a turn\<close>

definition py_text :: "(json \<Rightarrow> string) \<Rightarrow> json \<Rightarrow> string" where
  "py_text other v =
     (case v of
        JStr s \<Rightarrow> s | JNull \<Rightarrow> ''None'' | JBool b \<Rightarrow> if b then ''True'' else ''False''
      | JInt i \<Rightarrow> str_of_int i | _ \<Rightarrow> other v)"

definition jor :: "json \<Rightarrow> json \<Rightarrow> json" where  \<comment> \<open>\<^verbatim>\<open>v or w\<close>\<close>
  "jor v w = (if json_truthy v then v else w)"

definition message_of :: "turn \<Rightarrow> turn option" where
  "message_of t = (case jget t ''message'' of JObj d \<Rightarrow> Some d | _ \<Rightarrow> None)"

text \<open>\<^verbatim>\<open>" ".join(...)\<close> over values: a \<^verbatim>\<open>TypeError\<close> unless all are strings.\<close>

fun strings_of :: "json list \<Rightarrow> string list option" where
  "strings_of [] = Some []"
| "strings_of (v # vs) =
     (case v of JStr s \<Rightarrow> map_option (\<lambda>ss. s # ss) (strings_of vs) | _ \<Rightarrow> None)"

definition text_blocks :: "(turn \<Rightarrow> json) \<Rightarrow> json list \<Rightarrow> json list" where
  "text_blocks f bs =
     concat (map (\<lambda>b. case b of JObj d \<Rightarrow> if jget d ''type'' = JStr ''text'' then [f d] else [] | _ \<Rightarrow> []) bs)"

definition role_of :: "turn \<Rightarrow> turn \<Rightarrow> json" where
  "role_of inner t = jor (jget inner ''role'') (jor (jget t ''type'') (JStr []))"

definition extract_role_text :: "turn \<Rightarrow> (json \<times> string) option" where
  "extract_role_text t =
     (let (role, content) =
        (case message_of t of
           Some inner \<Rightarrow> (role_of inner t, jget inner ''content'')
         | None \<Rightarrow> (role_of t t, if jget t ''text'' \<noteq> JNull then jget t ''text'' else jget t ''content''))
      in case content of
           JStr s \<Rightarrow> Some (role, s)
         | JArr bs \<Rightarrow>
             map_option (\<lambda>ss. (role, join '' '' ss)) (strings_of (text_blocks (\<lambda>d. jget_or d ''text'' (JStr [])) bs))
         | _ \<Rightarrow> Some (role, []))"

fun role_texts :: "turn list \<Rightarrow> (json \<times> string) list option" where
  "role_texts [] = Some []"
| "role_texts (t # ts) =
     (case extract_role_text t of
        None \<Rightarrow> None
      | Some rt \<Rightarrow> map_option (\<lambda>rts. rt # rts) (role_texts ts))"

definition turns_to_text :: "(json \<Rightarrow> string) \<Rightarrow> turn list \<Rightarrow> string option" where
  "turns_to_text other turns =
     map_option (\<lambda>rts. join [NL]
         (map (\<lambda>(role, text). if json_truthy role then py_text other role @ '': '' @ text else text)
           (filter (\<lambda>(role, text). text \<noteq> []) rts)))
       (role_texts turns)"

definition messages_of :: "(json \<times> string) list \<Rightarrow> string list" where
  "messages_of rts =
     concat (map (\<lambda>(role, text).
       if text = [] then []
       else if role = JStr ''user'' then [''User: '' @ text]
       else if role = JStr ''assistant'' then [''Assistant: '' @ text] else []) rts)"

definition turns_to_messages :: "turn list \<Rightarrow> string list option" where
  "turns_to_messages turns = map_option messages_of (role_texts turns)"

section \<open>Tool calls\<close>

definition tool_salient_arg :: "(string, string) dict" where
  "tool_salient_arg =
     [(''Edit'', ''file_path''), (''Write'', ''file_path''), (''Read'', ''file_path''),
      (''NotebookEdit'', ''file_path''), (''Bash'', ''command''), (''Grep'', ''query''), (''Glob'', ''pattern'')]"

definition TOOL_DIGEST_CAP :: nat where "TOOL_DIGEST_CAP = 600"

definition file_path_tools :: "string list" where
  "file_path_tools = [''Edit'', ''Write'', ''Read'', ''NotebookEdit'']"

definition error_re :: re where
  "error_re = ialts [''error'', ''traceback'', ''failed'', ''exception'']"

definition first_line_80 :: "string \<Rightarrow> string" where
  "first_line_80 s = take 80 (hd (split_char NL s))"

text \<open>A list or dictionary as the tool's name cannot be looked up (\<open>None\<close>).\<close>

definition hashable :: "json \<Rightarrow> bool" where
  "hashable v \<longleftrightarrow> (case v of JArr _ \<Rightarrow> False | JObj _ \<Rightarrow> False | _ \<Rightarrow> True)"

definition dict_or_empty :: "json \<Rightarrow> turn" where
  "dict_or_empty v = (case v of JObj d \<Rightarrow> d | _ \<Rightarrow> [])"

text \<open>The entry of one block, \<open>Some None\<close> when there is none.\<close>

definition use_entry :: "(json \<Rightarrow> string) \<Rightarrow> turn \<Rightarrow> string option option" where
  "use_entry other block =
     (let name = jor (jget block ''name'') (JStr []); inp = dict_or_empty (jget block ''input'') in
      if \<not> hashable name then None
      else case name of
        JStr n \<Rightarrow>
          (case map_of tool_salient_arg n of
             None \<Rightarrow> Some None
           | Some key \<Rightarrow>
               let raw = py_text other (jor (jget inp key) (JStr [])) in
               if raw = [] then Some None
               else if n = ''Bash'' then Some (Some (''Bash: '' @ first_line_80 raw))
               else if n = ''Grep'' \<or> n = ''Glob'' then Some (Some (n @ '': '' @ take 80 raw))
               else Some (Some (n @ '' '' @ raw)))
      | _ \<Rightarrow> Some None)"

definition error_entry :: "string \<Rightarrow> string option" where
  "error_entry result_text =
     (if \<not> re_search error_re (take 200 result_text) then None
      else let l = (if result_text \<noteq> [] then take 200 (hd (splitlines result_text)) else []) in
           if l = [] then None else Some (''ERR: '' @ l))"

definition result_entry :: "turn \<Rightarrow> string option option" where
  "result_entry block =
     (case jor (jget block ''content'') (JStr []) of
        JArr bs \<Rightarrow>
          map_option (\<lambda>ss. error_entry (join '' '' ss))
            (strings_of (text_blocks (\<lambda>d. jor (jget_or d ''text'' (JStr [])) (JStr [])) bs))
      | JStr s \<Rightarrow> Some (error_entry s)
      | _ \<Rightarrow> Some None)"

definition block_entry :: "(json \<Rightarrow> string) \<Rightarrow> json \<Rightarrow> json \<Rightarrow> string option option" where
  "block_entry other role b =
     (case b of
        JObj block \<Rightarrow>
          if jget block ''type'' = JStr ''tool_use'' \<and> role = JStr ''assistant'' then use_entry other block
          else if jget block ''type'' = JStr ''tool_result'' \<and> role = JStr ''user'' then result_entry block
          else Some None
      | _ \<Rightarrow> Some None)"

fun entries_from :: "string option option list \<Rightarrow> string list option" where
  "entries_from [] = Some []"
| "entries_from (e # es) =
     (case e of
        None \<Rightarrow> None
      | Some x \<Rightarrow> map_option (\<lambda>xs. (case x of None \<Rightarrow> xs | Some l \<Rightarrow> l # xs)) (entries_from es))"

definition turn_entries :: "(json \<Rightarrow> string) \<Rightarrow> turn \<Rightarrow> string option option list" where
  "turn_entries other t =
     (case message_of t of
        None \<Rightarrow> []
      | Some inner \<Rightarrow>
          (case jget inner ''content'' of
             JArr bs \<Rightarrow> map (block_entry other (role_of inner t)) bs
           | _ \<Rightarrow> []))"

text \<open>Lines that fit, and how many were dropped; a later, shorter line can still fit.\<close>

fun cap_entries :: "nat \<Rightarrow> string list \<Rightarrow> string list \<times> nat" where
  "cap_entries used [] = ([], 0)"
| "cap_entries used (e # es) =
     (if used + (length e + 1) \<le> TOOL_DIGEST_CAP
      then (let (ls, n) = cap_entries (used + (length e + 1)) es in (e # ls, n))
      else (let (ls, n) = cap_entries used es in (ls, n + 1)))"

definition digest_text :: "string list \<Rightarrow> string" where
  "digest_text entries =
     (if entries = [] then []
      else let (ls, dropped) = cap_entries 0 entries in
           join [NL] (ls @ (if dropped > 0 then [[ellipsis] @ ''[+'' @ str_of_nat dropped @ '' more]''] else [])))"

definition build_tool_digest :: "(json \<Rightarrow> string) \<Rightarrow> turn list \<Rightarrow> string option" where
  "build_tool_digest other turns =
     map_option (\<lambda>es. digest_text (uniq es)) (entries_from (concat (map (turn_entries other) turns)))"

section \<open>Dominant paths\<close>

definition path_char :: "char \<Rightarrow> bool" where
  "path_char c \<longleftrightarrow> \<not> py_space c \<and> c \<notin> {CHR '';'', CHR 0x22, CHR 0x27}"

definition ascii_alpha :: "char \<Rightarrow> bool" where
  "ascii_alpha c \<longleftrightarrow> is_word_ascii c \<and> \<not> is_digit c \<and> c \<noteq> CHR ''_''"

definition path_re :: re where
  "path_re =
     Alt (Cat (Chars (\<lambda>c. c = CHR ''/'' \<or> c = CHR ''~'')) (plus (Chars path_char)))
         (cats [Chars is_word_ascii, Star (Chars path_char), lit ''.'', Chars ascii_alpha, upto 5 (Chars ascii_alpha)])"

text \<open>The path that starts here and is followed by a space or the end, and what is left.\<close>

definition path_body :: "string \<Rightarrow> (string \<times> string) option" where
  "path_body s =
     (case find (\<lambda>q. snd q = [] \<or> py_space (hd (snd q))) (ends path_re (None, s)) of
        None \<Rightarrow> None
      | Some q \<Rightarrow> Some (take (length s - length (snd q)) s, tl (snd q)))"

definition path_here :: "bool \<Rightarrow> string \<Rightarrow> (string \<times> string) option" where
  "path_here at_start s =
     (case (if at_start then path_body s else None) of
        Some r \<Rightarrow> Some r
      | None \<Rightarrow> (case s of [] \<Rightarrow> None | c # t \<Rightarrow> if py_space c then path_body t else None))"

function bash_paths :: "bool \<Rightarrow> string \<Rightarrow> string list" where
  "bash_paths at_start s =
     (case path_here at_start s of
        Some (p, r) \<Rightarrow> if length r < length s then p # bash_paths False r else [p]
      | None \<Rightarrow> (case s of [] \<Rightarrow> [] | c # t \<Rightarrow> bash_paths False t))"
  by pat_completeness auto
termination
  by (relation "measure (length \<circ> snd)") auto

declare bash_paths.simps [simp del]

definition use_paths :: "(json \<Rightarrow> string) \<Rightarrow> turn \<Rightarrow> string list option" where
  "use_paths other block =
     (let name = jor (jget block ''name'') (JStr []); inp = dict_or_empty (jget block ''input'') in
      if \<not> hashable name then None
      else case name of
        JStr n \<Rightarrow>
          if n \<in> set file_path_tools
          then (let p = strip (py_text other (jor (jget inp ''file_path'') (JStr []))) in Some (if p = [] then [] else [p]))
          else if n = ''Bash''
          then Some (filter (\<lambda>p. CHR ''/'' \<in> set p \<or> CHR ''.'' \<in> set p)
                 (map strip (bash_paths True (first_line_80 (py_text other (jor (jget inp ''command'') (JStr [])))))))
          else Some []
      | _ \<Rightarrow> Some [])"

definition turn_paths :: "(json \<Rightarrow> string) \<Rightarrow> turn \<Rightarrow> string list option list" where
  "turn_paths other t =
     (case message_of t of
        None \<Rightarrow> []
      | Some inner \<Rightarrow>
          if role_of inner t \<noteq> JStr ''assistant'' then []
          else (case jget inner ''content'' of
             JArr bs \<Rightarrow>
               concat (map (\<lambda>b. case b of
                   JObj block \<Rightarrow> if jget block ''type'' = JStr ''tool_use'' then [use_paths other block] else []
                 | _ \<Rightarrow> []) bs)
           | _ \<Rightarrow> []))"

fun all_paths :: "string list option list \<Rightarrow> string list option" where
  "all_paths [] = Some []"
| "all_paths (p # ps) = (case p of None \<Rightarrow> None | Some xs \<Rightarrow> map_option (\<lambda>ys. xs @ ys) (all_paths ps))"

definition PATH_MIN_FREQ :: nat where "PATH_MIN_FREQ = 3"
definition PATH_TOP_N :: nat where "PATH_TOP_N = 3"

definition extract_dominant_paths :: "(json \<Rightarrow> string) \<Rightarrow> turn list \<Rightarrow> string list option" where
  "extract_dominant_paths other turns =
     map_option (\<lambda>ps. take PATH_TOP_N
         (map fst (filter (\<lambda>(p, n). n \<ge> PATH_MIN_FREQ) (most_common (PATH_TOP_N * 3) (counter ps)))))
       (all_paths (concat (map (turn_paths other) turns)))"

section \<open>Skipping\<close>

definition MIN_DELTA_CHARS :: nat where "MIN_DELTA_CHARS = 100"

definition ack_re :: re where
  "ack_re = cats [Star space, ialts [''ok'', ''yes'', ''go'', ''thanks'', ''sure'', ''nope'', ''no''],
     Star space, opt (lit ''.''), Star space]"

definition role_prefix_re :: re where
  "role_prefix_re = cats [ialts [''user'', ''assistant''], lit '':'', Star space]"

definition is_trivial_delta :: "string \<Rightarrow> bool" where
  "is_trivial_delta delta_text =
     (if length delta_text < MIN_DELTA_CHARS then True
      else
        let ls = filter (\<lambda>l. l \<noteq> [])
              (map (\<lambda>l. strip (re_drop_prefix role_prefix_re l)) (filter (\<lambda>l. strip l \<noteq> []) (splitlines delta_text)))
        in ls = [] \<or> (\<exists>q \<in> set (ends ack_re (None, join '' '' ls)). snd q = []))"

text \<open>\<^verbatim>\<open>_project_from_transcript_path\<close>, with the home directory as a parameter.\<close>

definition parent_name :: "string \<Rightarrow> string" where
  "parent_name path =
     (let comps = filter (\<lambda>c. c \<noteq> [] \<and> c \<noteq> ''.'') (split_char (CHR ''/'') path) in
      if length comps < 2 then [] else comps ! (length comps - 2))"

definition project_from_transcript_path :: "string \<Rightarrow> string \<Rightarrow> string" where
  "project_from_transcript_path home path =
     (let parent = parent_name path; munged = replace_char (CHR ''/'') ''-'' home in
      if parent = munged then ''general''
      else if starts_with parent (munged @ ''-'') then drop (length munged + 1) parent
      else or_else parent ''general'')"

section \<open>Backoff\<close>

text \<open>
  The empty-streak file, as the program writes it; missing or unreadable it is \<open>(0, 0)\<close>. One
  delta that is not trivial either is skipped, or is mined and finds something or nothing.
\<close>

definition EMPTY_STREAK_THRESHOLD :: nat where "EMPTY_STREAK_THRESHOLD = 3"
definition EMPTY_STREAK_SKIP :: nat where "EMPTY_STREAK_SKIP = 5"

type_synonym streak = "nat \<times> nat"

definition read_empty_streak :: "streak option \<Rightarrow> streak" where
  "read_empty_streak f = (case f of None \<Rightarrow> (0, 0) | Some s \<Rightarrow> s)"

definition backs_off :: "streak \<Rightarrow> bool" where
  "backs_off s \<longleftrightarrow> fst s \<ge> EMPTY_STREAK_THRESHOLD \<and> snd s > 0"

definition streak_skipped :: "streak \<Rightarrow> streak" where
  "streak_skipped s = (fst s, snd s - 1)"

definition streak_mined :: "bool \<Rightarrow> streak \<Rightarrow> streak" where
  "streak_mined found s =
     (if found then (0, 0)
      else (fst s + 1, if fst s + 1 \<ge> EMPTY_STREAK_THRESHOLD then EMPTY_STREAK_SKIP else 0))"

definition streak_step :: "bool \<Rightarrow> streak \<Rightarrow> bool \<times> streak" where
  "streak_step found s = (if backs_off s then (False, streak_skipped s) else (True, streak_mined found s))"

section \<open>Incremental reading is complete\<close>

lemma split_char_sep: "split_char d (a @ d # b) = split_char d a @ split_char d b"
proof (induction a)
  case (Cons c a)
  show ?case
  proof (cases "split_char d a")
    case (Cons w ws)
    with Cons.IH show ?thesis by simp
  qed simp
qed simp

lemma turns_of_bytes_Nil [simp]: "turns_of_bytes [] = []"
  by (simp add: turns_of_bytes_def turn_of_line_def decode_replace_def)

lemma turns_of_bytes_append:
  assumes "a = [] \<or> last a = NL"
  shows "turns_of_bytes (a @ b) = turns_of_bytes a @ turns_of_bytes b"
proof (cases "a = []")
  case False
  with assms obtain c where a: "a = c @ [NL]" by (cases a rule: rev_cases) auto
  have "turns_of_bytes (c @ NL # b) = turns_of_bytes c @ turns_of_bytes b" for b
    by (simp add: turns_of_bytes_def split_char_sep)
  from this [of b] this [of "[]"] show ?thesis by (simp add: a)
qed simp

text \<open>
  C29: Mining a transcript piece by piece misses nothing, as long as each piece ends with a
  complete line: the turns read now and those read later from the returned offset are together
  exactly the turns one read of the grown file gives, in order, and the offsets agree.
\<close>

theorem incremental_reading:
  assumes "bs1 = [] \<or> last bs1 = NL" "offset \<le> length bs1"
    and "read_delta (Some bs1) offset = (t1, e1)" "read_delta (Some (bs1 @ bs2)) e1 = (t2, e2)"
  shows "read_delta (Some (bs1 @ bs2)) offset = (t1 @ t2, e2)"
proof -
  have "drop offset bs1 = [] \<or> last (drop offset bs1) = NL"
    using assms(1) by (cases "length bs1 \<le> offset") (auto simp: last_drop)
  from turns_of_bytes_append [OF this, of bs2] assms(2-4) show ?thesis by (auto simp: read_delta_def)
qed

theorem incremental_reading_witness:
  "\<exists>t. read_delta (Some (''{\"a\": 1}'' @ [NL] @ ''{}'')) 0 = ([[(''a'', JInt 1)]] @ t, 11)"
proof -
  let ?b = "''{\"a\": 1}'' @ [NL]"
  have 1: "read_delta (Some ?b) 0 = ([[(''a'', JInt 1)]], 9)"
    unfolding read_delta_def turns_of_bytes_def turn_of_line_def by code_simp
  obtain t2 e2 where 2: "read_delta (Some (?b @ ''{}'')) 9 = (t2, e2)" by fastforce
  from incremental_reading [OF _ _ 1 2] 2 show ?thesis by (auto simp: read_delta_def)
qed

text \<open>
  A line that is still being written when the file is read is lost: it is dropped, the offset
  moves past it, and what follows of it is no JSON object of its own.
\<close>

theorem partial_line_is_lost:
  "let whole = ''{\"role\": \"user\"}'' @ [NL]; seen = take 9 whole;
       (t1, e1) = read_delta (Some seen) 0; (t2, e2) = read_delta (Some whole) e1
   in t1 @ t2 = [] \<and> fst (read_delta (Some whole) 0) \<noteq> []"
  unfolding read_delta_def turns_of_bytes_def turn_of_line_def by code_simp

section \<open>The digest is bounded\<close>

lemma cap_entries_bound:
  "cap_entries used es = (ls, n) \<Longrightarrow>
     used + sum_list (map (\<lambda>l. length l + 1) ls) \<le> max used TOOL_DIGEST_CAP \<and>
     length ls + n = length es \<and> subseq ls es \<and>
     (n = 0 \<longrightarrow> ls = es)"
proof (induction es arbitrary: used ls n)
  case (Cons e es)
  show ?case
  proof (cases "used + (length e + 1) \<le> TOOL_DIGEST_CAP")
    case True
    obtain ls' n' where r: "cap_entries (used + (length e + 1)) es = (ls', n')" by fastforce
    with True Cons.prems have "ls = e # ls'" "n = n'" by simp_all
    with Cons.IH [OF r] True show ?thesis by auto
  next
    case False
    obtain ls' n' where r: "cap_entries used es = (ls', n')" by fastforce
    with False Cons.prems have "ls = ls'" "n = n' + 1" by simp_all
    with Cons.IH [OF r] show ?thesis by auto
  qed
qed simp

lemma subseq_distinct: "subseq xs ys \<Longrightarrow> distinct ys \<Longrightarrow> distinct xs \<and> set xs \<subseteq> set ys"
  by (induction rule: list_emb.induct) auto

lemma length_join_NL_eq: "ls \<noteq> [] \<Longrightarrow> length (join [NL] ls) + 1 = sum_list (map (\<lambda>l. length l + 1) ls)"
  by (induction ls rule: induct_list012) auto

text \<open>
  The digest of tool calls stays small and repeats nothing. It consists of whole distinct
  entries in the order of the calls, at most 600 characters of them with their line ends,
  followed, exactly when some did not fit, by one note with their number.
\<close>

theorem digest_bounded:
  assumes "build_tool_digest other turns = Some d"
  shows "\<exists>es ls n. entries_from (concat (map (turn_entries other) turns)) = Some es \<and>
    d = join [NL] (ls @ (if n > 0 then [[ellipsis] @ ''[+'' @ str_of_nat n @ '' more]''] else [])) \<and>
    subseq ls (uniq es) \<and> distinct ls \<and> length ls + n = length (uniq es) \<and>
    length (join [NL] ls) \<le> TOOL_DIGEST_CAP"
proof -
  obtain es where es: "entries_from (concat (map (turn_entries other) turns)) = Some es" "d = digest_text (uniq es)"
    using assms by (auto simp: build_tool_digest_def)
  obtain ls n where ls: "cap_entries 0 (uniq es) = (ls, n)" by fastforce
  note b = cap_entries_bound [OF ls]
  have "length (join [NL] ls) \<le> TOOL_DIGEST_CAP"
    using b length_join_NL_eq [of ls] by (cases "ls = []") (auto simp: TOOL_DIGEST_CAP_def)
  moreover have "d = join [NL] (ls @ (if n > 0 then [[ellipsis] @ ''[+'' @ str_of_nat n @ '' more]''] else []))"
    using b ls by (auto simp: es(2) digest_text_def)
  moreover have "distinct ls" using b distinct_uniq [of es] subseq_distinct by blast
  ultimately show ?thesis using es(1) b by blast
qed

theorem digest_bounded_witness:
  "\<exists>d. build_tool_digest (\<lambda>_. []) [[(''message'', JObj [(''role'', JStr ''assistant''),
      (''content'', JArr [JObj [(''type'', JStr ''tool_use''), (''name'', JStr ''Read''),
        (''input'', JObj [(''file_path'', JStr ''a.py'')])]])])]] = Some d \<and>
     (\<exists>ls. length ls \<le> 1 \<and> d = join [NL] (ls @ (if ls = [] then [[ellipsis] @ ''[+1 more]''] else [])) \<and> length (join [NL] ls) \<le> 600)"
proof -
  let ?t = "[[(''message'', JObj [(''role'', JStr ''assistant''),
      (''content'', JArr [JObj [(''type'', JStr ''tool_use''), (''name'', JStr ''Read''),
        (''input'', JObj [(''file_path'', JStr ''a.py'')])]])])]]"
  have e: "entries_from (concat (map (turn_entries (\<lambda>_. [])) ?t)) = Some [''Read a.py'']" by code_simp
  then obtain d where d: "build_tool_digest (\<lambda>_. []) ?t = Some d" by (auto simp: build_tool_digest_def)
  from digest_bounded [OF d] e obtain ls n where
    ls: "d = join [NL] (ls @ (if n > 0 then [[ellipsis] @ ''[+'' @ str_of_nat n @ '' more]''] else []))"
      "length ls + n = 1" "length (join [NL] ls) \<le> 600"
    by (auto simp: uniq_def add_new_def TOOL_DIGEST_CAP_def)
  have "str_of_nat 1 = ''1''" by (simp add: str_of_nat.simps) code_simp
  with ls have "length ls \<le> 1 \<and> d = join [NL] (ls @ (if ls = [] then [[ellipsis] @ ''[+1 more]''] else [])) \<and>
      length (join [NL] ls) \<le> 600"
    by (cases ls) auto
  with d show ?thesis by blast
qed

section \<open>Dominant paths\<close>

text \<open>
  The dominant paths are the session's most frequent ones. There are at most three, all
  different, each occurs at least three times among the tool calls, they come most frequent
  first, and a path that occurs at least three times is missing only if three others that
  occur at least as often are reported.
\<close>

theorem dominant_paths_most_frequent:
  assumes "extract_dominant_paths other turns = Some ds"
  shows "\<exists>ps. all_paths (concat (map (turn_paths other) turns)) = Some ps \<and>
    length ds \<le> 3 \<and> distinct ds \<and> (\<forall>d \<in> set ds. count_list ps d \<ge> 3) \<and>
    sorted_wrt (\<lambda>d e. count_list ps e \<le> count_list ps d) ds \<and>
    (\<forall>p. count_list ps p \<ge> 3 \<and> p \<notin> set ds \<longrightarrow> length ds = 3 \<and> (\<forall>d \<in> set ds. count_list ps p \<le> count_list ps d))"
proof -
  obtain ps where ps: "all_paths (concat (map (turn_paths other) turns)) = Some ps"
    and ds: "ds = take PATH_TOP_N (map fst (filter (\<lambda>(p, n). n \<ge> PATH_MIN_FREQ) (most_common (PATH_TOP_N * 3) (counter ps))))"
    using assms by (auto simp: extract_dominant_paths_def)
  define srt where "srt = sort_desc snd (counter ps)"
  have srt_sorted: "sorted_wrt (\<lambda>x y. snd y \<le> snd x) srt" by (simp add: srt_def sorted_sort_desc)
  have item: "(p, n) \<in> set srt \<longleftrightarrow> p \<in> set ps \<and> n = count_list ps p" for p n
    by (simp add: srt_def counter_item)
  have "distinct (map fst srt)" using wf_counter [of ps] by (simp add: srt_def wf_dict_def)
  define big where "big = filter (\<lambda>x. 3 \<le> snd x) srt"
  have filter_take: "filter P (take n xs) = take (length (filter P (take n xs))) (filter P xs)" for P n and xs :: "(string \<times> nat) list"
    by (metis append_eq_conv_conj append_take_drop_id filter_append)
  have "take 3 (filter (\<lambda>x. 3 \<le> snd x) (take 9 srt)) = take 3 big"
  proof (cases "length srt \<le> 9")
    case True
    then show ?thesis by (simp add: big_def)
  next
    case False
    show ?thesis
    proof (cases "\<forall>x \<in> set (take 9 srt). 3 \<le> snd x")
      case True
      then have "filter (\<lambda>x. 3 \<le> snd x) (take 9 srt) = take 9 srt" by simp
      with False filter_take [of "\<lambda>x. 3 \<le> snd x" 9 srt] have "take 9 srt = take 9 big"
        by (simp add: big_def)
      then have "take 3 (take 9 srt) = take 3 (take 9 big)" by simp
      with \<open>filter _ (take 9 srt) = take 9 srt\<close> show ?thesis by simp
    next
      case False
      then obtain x where x: "x \<in> set (take 9 srt)" "snd x < 3" by force
      have "snd y < 3" if "y \<in> set (drop 9 srt)" for y
        using sorted_wrt_take_drop [OF srt_sorted x(1) that] x(2) by simp
      then have "filter (\<lambda>x. 3 \<le> snd x) (drop 9 srt) = []" by (auto simp: filter_empty_conv not_le)
      then have "big = filter (\<lambda>x. 3 \<le> snd x) (take 9 srt)"
        unfolding big_def by (metis append_Nil2 append_take_drop_id filter_append)
      then show ?thesis by simp
    qed
  qed
  then have ds3: "ds = map fst (take 3 big)"
    by (simp add: ds PATH_TOP_N_def PATH_MIN_FREQ_def most_common_def srt_def [symmetric] take_map case_prod_unfold)
  have big_item: "x \<in> set big \<Longrightarrow> snd x = count_list ps (fst x) \<and> 3 \<le> count_list ps (fst x)" for x
    using item [of "fst x" "snd x"] by (simp add: big_def)
  have big_sorted: "sorted_wrt (\<lambda>x y. snd y \<le> snd x) big"
    unfolding big_def using srt_sorted by (rule sorted_wrt_filter)
  have "distinct (map fst big)" unfolding big_def using \<open>distinct (map fst srt)\<close> by (rule distinct_map_filter)
  then have "distinct ds" by (simp add: ds3 flip: take_map)
  moreover have "\<forall>d \<in> set ds. count_list ps d \<ge> 3" using big_item by (auto simp: ds3 dest: in_set_takeD)
  moreover have "sorted_wrt (\<lambda>x y. count_list ps (fst y) \<le> count_list ps (fst x)) (take 3 big)"
    using sorted_wrt_take [OF big_sorted, of 3] by (rule sorted_wrt_mono_rel [rotated]) (auto dest!: in_set_takeD big_item)
  then have "sorted_wrt (\<lambda>d e. count_list ps e \<le> count_list ps d) ds" by (simp add: ds3 sorted_wrt_map)
  moreover have "length ds = 3 \<and> (\<forall>d \<in> set ds. count_list ps p \<le> count_list ps d)"
    if p: "count_list ps p \<ge> 3" "p \<notin> set ds" for p
  proof -
    have "p \<in> set ps" using p(1) by (metis count_list_0_iff not_numeral_le_zero)
    then have "(p, count_list ps p) \<in> set big" using p(1) item by (simp add: big_def)
    moreover have "(p, count_list ps p) \<notin> set (take 3 big)" using p(2) by (force simp: ds3)
    ultimately have late: "(p, count_list ps p) \<in> set (drop 3 big)"
      by (metis Un_iff append_take_drop_id set_append)
    then have "3 < length big" by (metis drop_all empty_iff list.set(1) not_le)
    moreover have "count_list ps p \<le> count_list ps d" if "d \<in> set ds" for d
    proof -
      from that have "d \<in> fst ` set (take 3 big)" by (simp add: ds3)
      then obtain x where x: "x \<in> set (take 3 big)" "d = fst x" by blast
      from sorted_wrt_take_drop [OF big_sorted x(1) late] big_item [OF in_set_takeD [OF x(1)]] x(2)
      show ?thesis by simp
    qed
    ultimately show ?thesis by (simp add: ds3)
  qed
  moreover have "length ds \<le> 3" by (simp add: ds3)
  ultimately show ?thesis using ps by blast
qed

theorem dominant_paths_most_frequent_witness:
  "\<exists>ds. extract_dominant_paths (\<lambda>_. []) [] = Some ds \<and> length ds \<le> 3"
proof -
  obtain ds where ds: "extract_dominant_paths (\<lambda>_. []) [] = Some ds" by (simp add: extract_dominant_paths_def)
  with dominant_paths_most_frequent [OF ds] show ?thesis by blast
qed

section \<open>Backoff never starves mining\<close>

fun streak_run :: "bool list \<Rightarrow> streak \<Rightarrow> bool list \<times> streak" where
  "streak_run [] s = ([], s)"
| "streak_run (found # fs) s =
     (let (mined, s) = streak_step found s; (ms, s) = streak_run fs s in (mined # ms, s))"

lemma streak_step_skip: "snd s \<le> EMPTY_STREAK_SKIP \<Longrightarrow> snd (snd (streak_step f s)) \<le> EMPTY_STREAK_SKIP"
  by (auto simp: streak_step_def streak_skipped_def streak_mined_def EMPTY_STREAK_SKIP_def)

lemma streak_runs_out:
  "snd s < length fs \<Longrightarrow> \<exists>m \<in> set (fst (streak_run fs s)). m"
proof (induction fs arbitrary: s)
  case (Cons f fs)
  show ?case
  proof (cases "backs_off s")
    case True
    then have "streak_step f s = (False, streak_skipped s)" "snd (streak_skipped s) < length fs"
      using Cons.prems by (auto simp: streak_step_def backs_off_def streak_skipped_def)
    with Cons.IH [of "streak_skipped s"] show ?thesis by (auto simp: split_beta)
  next
    case False
    then show ?thesis by (simp add: streak_step_def split_beta)
  qed
qed simp

lemma streak_run_skip: "snd s \<le> EMPTY_STREAK_SKIP \<Longrightarrow> snd (snd (streak_run fs s)) \<le> EMPTY_STREAK_SKIP"
  by (induction fs arbitrary: s) (simp_all add: split_beta streak_step_skip)

text \<open>
  The backoff delays mining, it never stops it. From a state the program wrote, after any
  history of deltas, among any six further non-trivial deltas at least one is mined; and one
  delta that yields something ends the backoff at once.
\<close>

theorem backoff_never_starves:
  assumes "snd s \<le> EMPTY_STREAK_SKIP" "length fs = 6"
  shows "(\<exists>m \<in> set (fst (streak_run fs (snd (streak_run history s)))). m) \<and>
    \<not> backs_off (streak_mined True s)"
proof
  have "snd (snd (streak_run history s)) < length fs"
    using streak_run_skip [OF assms(1), of history] assms(2) by (simp add: EMPTY_STREAK_SKIP_def)
  then show "\<exists>m \<in> set (fst (streak_run fs (snd (streak_run history s)))). m" by (rule streak_runs_out)
qed (simp add: streak_mined_def backs_off_def EMPTY_STREAK_THRESHOLD_def)

theorem backoff_never_starves_witness:
  "\<exists>m \<in> set (fst (streak_run (replicate 6 False) (snd (streak_run (replicate 3 False) (0, 0))))). m"
  using backoff_never_starves [of "(0, 0)" "replicate 6 False" "replicate 3 False"]
  by (simp add: EMPTY_STREAK_SKIP_def)

end
