(* ===== verification/Transcripts.thy ===== *)
theory Transcripts
  imports MineDelta Mining
begin

text \<open>
  \<^verbatim>\<open>memem/transcripts.py\<close>: parsing session transcripts, the search table with one row per
  exchange, searching it and the files, and the paths a session touched last. A session file is
  its name, size and bytes; \<open>None\<close> from a parser is an exception that leaves it.
\<close>

section \<open>Text of a message\<close>

text \<open>\<^verbatim>\<open>value.strip()\<close> on what should be a string.\<close>

definition strip_json :: "json \<Rightarrow> string option" where
  "strip_json v = (case v of JStr s \<Rightarrow> Some (strip s) | _ \<Rightarrow> None)"

fun collect_parts :: "string list option list \<Rightarrow> string list option" where
  "collect_parts [] = Some []"
| "collect_parts (p # ps) = (case p of None \<Rightarrow> None | Some xs \<Rightarrow> map_option (\<lambda>ys. xs @ ys) (collect_parts ps))"

definition on_blocks :: "(turn \<Rightarrow> string list option) \<Rightarrow> json list \<Rightarrow> string list option" where
  "on_blocks f bs = collect_parts (map (\<lambda>b. case b of JObj d \<Rightarrow> f d | _ \<Rightarrow> Some []) bs)"

definition text_part :: "turn \<Rightarrow> string list option" where
  "text_part d = map_option (\<lambda>s. if s = [] then [] else [s]) (strip_json (jget_or d ''text'' (JStr [])))"

definition extract_text_only :: "json \<Rightarrow> string option" where
  "extract_text_only content =
     (case content of
        JStr s \<Rightarrow> Some (strip s)
      | JArr bs \<Rightarrow>
          map_option (join [NL]) (on_blocks (\<lambda>d. if jget d ''type'' = JStr ''text'' then text_part d else Some []) bs)
      | _ \<Rightarrow> Some [])"

text \<open>The one-line summary of a tool call.\<close>

definition tool_part :: "(json \<Rightarrow> string) \<Rightarrow> turn \<Rightarrow> string list option" where
  "tool_part other d =
     (let name = jget_or d ''name'' (JStr []); inp = jget_or d ''input'' (JObj []); txt = py_text other in
      if name \<in> {JStr ''Read'', JStr ''Glob'', JStr ''Grep''}
      then (case inp of
              JObj e \<Rightarrow> Some [''[Tool: '' @ txt name @ '' ''
                                @ txt (jget_or e ''file_path'' (jget_or e ''pattern'' (JStr []))) @ '']'']
            | _ \<Rightarrow> None)
      else if name \<in> {JStr ''Edit'', JStr ''Write''}
      then (case inp of
              JObj e \<Rightarrow> Some [''[Tool: '' @ txt name @ '' '' @ txt (jget_or e ''file_path'' (JStr [])) @ '']'']
            | _ \<Rightarrow> None)
      else if name = JStr ''Bash''
      then (case inp of
              JObj e \<Rightarrow> map_option (\<lambda>v. [''[Tool: Bash] '' @ txt v]) (slice 200 (jget_or e ''command'' (JStr [])))
            | _ \<Rightarrow> None)
      else Some [''[Tool: '' @ txt name @ '']''])"

definition extract_tool_use_summary :: "(json \<Rightarrow> string) \<Rightarrow> json \<Rightarrow> string option option" where
  "extract_tool_use_summary other content =
     (case content of
        JArr bs \<Rightarrow>
          map_option (\<lambda>ps. if ps = [] then None else Some (join [NL] ps))
            (on_blocks (\<lambda>d. if jget d ''type'' = JStr ''tool_use'' then tool_part other d else Some []) bs)
      | _ \<Rightarrow> Some None)"

section \<open>The canonical parser\<close>

record message =
  m_role :: string
  m_text :: string
  m_ts :: json
  m_tool_use :: "string option"

definition content_of :: "turn \<Rightarrow> json option" where  \<comment> \<open>\<^verbatim>\<open>obj.get("message", {}).get("content", "")\<close>\<close>
  "content_of d =
     (case jget_or d ''message'' (JObj []) of JObj m \<Rightarrow> Some (jget_or m ''content'' (JStr [])) | _ \<Rightarrow> None)"

text \<open>One line: \<open>Some []\<close> when it is skipped.\<close>

definition parse_message :: "(json \<Rightarrow> string) \<Rightarrow> json \<Rightarrow> message list option" where
  "parse_message other v =
     (case v of
        JObj d \<Rightarrow>
          (case jget_or d ''type'' (JStr []) of
             JStr role \<Rightarrow>
               if role \<notin> {''user'', ''assistant'', ''system''} then Some []
               else
                 (case content_of d of
                    None \<Rightarrow> None
                  | Some c \<Rightarrow>
                      (case (extract_text_only c, extract_tool_use_summary other c) of
                         (Some text, Some tool) \<Rightarrow>
                           Some (if text = [] \<and> (tool = None \<or> tool = Some []) then []
                                 else [\<lparr>m_role = role, m_text = text,
                                        m_ts = jor (jget d ''timestamp'') (jor (jget d ''ts'') JNull), m_tool_use = tool\<rparr>])
                       | _ \<Rightarrow> None))
           | _ \<Rightarrow> Some [])
      | _ \<Rightarrow> None)"

fun parse_all :: "(string \<Rightarrow> 'a list option) \<Rightarrow> string list \<Rightarrow> 'a list option" where
  "parse_all f [] = Some []"
| "parse_all f (l # ls) =
     (case f (strip l) of None \<Rightarrow> None | Some xs \<Rightarrow> map_option (\<lambda>ys. xs @ ys) (parse_all f ls))"

definition parse_line :: "(json \<Rightarrow> 'a list option) \<Rightarrow> string \<Rightarrow> 'a list option" where
  "parse_line f line =
     (if line = [] then Some [] else (case json_loads line of None \<Rightarrow> Some [] | Some v \<Rightarrow> f v))"

definition parse_jsonl_session :: "(json \<Rightarrow> string) \<Rightarrow> string option \<Rightarrow> nat \<Rightarrow> message list option" where
  "parse_jsonl_session other bytes start_offset =
     (case bytes of
        None \<Rightarrow> Some []
      | Some bs \<Rightarrow>
          parse_all (parse_line (parse_message other)) (splitlines (decode_ignore (drop start_offset bs))))"

section \<open>Exchanges\<close>

definition result_part :: "(json \<Rightarrow> string) \<Rightarrow> turn \<Rightarrow> string list option" where
  "result_part other d =
     (let c = jget_or d ''content'' (JStr []) in
      if json_truthy (jget_or d ''is_error'' (JBool False))
      then Some [''[Error] '' @ take 500 (py_text other c)]
      else case c of
        JStr s \<Rightarrow> Some (if strip s \<noteq> [] then [''[Result] '' @ take 500 s] else [])
      | JArr subs \<Rightarrow>
          on_blocks (\<lambda>e. if jget e ''type'' = JStr ''text''
                         then map_option (\<lambda>s. if s = [] then [] else [''[Result] '' @ take 500 s])
                                (strip_json (jget_or e ''text'' (JStr [])))
                         else Some []) subs
      | _ \<Rightarrow> Some [])"

definition extract_all_content :: "(json \<Rightarrow> string) \<Rightarrow> json \<Rightarrow> string option" where
  "extract_all_content other content =
     (case content of
        JStr s \<Rightarrow> Some (strip s)
      | JArr bs \<Rightarrow>
          map_option (join [NL])
            (on_blocks (\<lambda>d. let ty = jget_or d ''type'' (JStr []) in
               if ty = JStr ''text'' then text_part d
               else if ty = JStr ''tool_use'' then tool_part other d
               else if ty = JStr ''tool_result'' then result_part other d else Some []) bs)
      | _ \<Rightarrow> Some [])"

definition parse_exchange :: "(json \<Rightarrow> string) \<Rightarrow> json \<Rightarrow> (bool \<times> string) list option" where
  \<comment> \<open>the flag says whether the user speaks\<close>
  "parse_exchange other v =
     (case v of
        JObj d \<Rightarrow>
          if jget d ''type'' \<noteq> JStr ''user'' \<and> jget d ''type'' \<noteq> JStr ''assistant'' then Some []
          else (case content_of d of
                  None \<Rightarrow> None
                | Some c \<Rightarrow>
                    map_option (\<lambda>t. if t = [] then [] else [(jget d ''type'' = JStr ''user'', t)]) (extract_all_content other c))
      | _ \<Rightarrow> None)"

type_synonym exchange = "string \<times> string"

definition flush_exchange :: "string list \<Rightarrow> string list \<Rightarrow> exchange list" where
  "flush_exchange us as = (if us \<noteq> [] \<and> as \<noteq> [] then [(join [NL] us, join [NL] as)] else [])"

fun pair_up :: "string list \<Rightarrow> string list \<Rightarrow> (bool \<times> string) list \<Rightarrow> exchange list" where
  "pair_up us as [] = flush_exchange us as"
| "pair_up us as ((user, t) # ms) =
     (if user \<and> as \<noteq> [] then flush_exchange us as @ pair_up [t] [] ms
      else if user then pair_up (us @ [t]) as ms
      else pair_up us (as @ [t]) ms)"

text \<open>Text mode: any of the three line ends, and a \<^verbatim>\<open>UnicodeDecodeError\<close> on bad bytes.\<close>

definition text_lines :: "string \<Rightarrow> string list" where
  "text_lines s = concat (map (split_char (CHR 0x0D)) (split_char NL s))"

definition parse_session_pairs :: "(json \<Rightarrow> string) \<Rightarrow> string option \<Rightarrow> exchange list option" where
  "parse_session_pairs other bytes =
     (case bytes of
        None \<Rightarrow> None
      | Some bs \<Rightarrow>
          (case decode_strict bs of
             None \<Rightarrow> None
           | Some s \<Rightarrow> map_option (pair_up [] []) (parse_all (parse_line (parse_exchange other)) (text_lines s))))"

section \<open>Conversation lines\<close>

definition command_tags :: "string list" where
  "command_tags = [''local-command-caveat'', ''command-name'', ''command-message'', ''command-args'', ''local-command-stdout'']"

text \<open>
  The patterns repeat lazily: a match ends at the first closing tag. \<open>lazy_end\<close> is the text
  after it.
\<close>

fun lazy_end :: "string list \<Rightarrow> string \<Rightarrow> string option" where
  "lazy_end closers [] = None"
| "lazy_end closers (c # s) =
     (case find (starts_with (c # s)) closers of
        Some w \<Rightarrow> Some (drop (length w) (c # s))
      | None \<Rightarrow> lazy_end closers s)"

function drop_tagged :: "string list \<Rightarrow> string list \<Rightarrow> string \<Rightarrow> string" where
  "drop_tagged openers closers [] = []"
| "drop_tagged openers closers (c # s) =
     (case find (starts_with (c # s)) openers of
        None \<Rightarrow> c # drop_tagged openers closers s
      | Some w \<Rightarrow>
          (case lazy_end closers (drop (length w) (c # s)) of
             None \<Rightarrow> c # drop_tagged openers closers s
           | Some r \<Rightarrow> if length r < length (c # s) then drop_tagged openers closers r else []))"
  by pat_completeness auto
termination
  by (relation "measure (\<lambda>(_, _, s). length s)") auto

definition strip_system_noise :: "string \<Rightarrow> string" where
  "strip_system_noise text =
     strip (drop_tagged (map (\<lambda>t. ''<'' @ t @ ''>'') command_tags) (map (\<lambda>t. ''</'' @ t @ ''>'') command_tags)
       (drop_tagged [''<system-reminder>''] [''</system-reminder>''] text))"

definition extract_conversation :: "(json \<Rightarrow> string) \<Rightarrow> string option \<Rightarrow> string list option" where
  "extract_conversation other bytes =
     map_option (\<lambda>ms. concat (map (\<lambda>m.
         if m_role m = ''user''
         then (let c = strip_system_noise (m_text m) in if c \<noteq> [] then [''User: '' @ c] else [])
         else if m_role m = ''assistant'' \<and> m_text m \<noteq> [] then [''Assistant: '' @ m_text m] else []) ms))
       (parse_jsonl_session other bytes 0)"

section \<open>The search table\<close>

record trow =
  t_session :: string
  t_date :: string
  t_project :: string
  t_user :: string
  t_assistant :: string
  t_content :: string

datatype tdb = NoDb | OldSchema | Table "trow list"

definition open_fts_db :: "tdb \<Rightarrow> trow list" where
  "open_fts_db db = (case db of Table rows \<Rightarrow> rows | _ \<Rightarrow> [])"

text \<open>A session file: path, size (\<open>None\<close> if it cannot be read), date of its last change, bytes.\<close>

record sfile =
  f_path :: string
  f_size :: "nat option"
  f_date :: string
  f_bytes :: "string option"

definition base_name :: "string \<Rightarrow> string" where
  "base_name p = last (split_char (CHR ''/'') p)"

text \<open>\<^verbatim>\<open>Path.stem\<close> of a file name: what stands before its last dot.\<close>

definition path_stem :: "string \<Rightarrow> string" where
  "path_stem n =
     (let parts = split_char (CHR ''.'') n; s = join ''.'' (butlast parts) in
      if s = [] \<or> last parts = [] then n else s)"

definition session_of :: "sfile \<Rightarrow> string" where
  "session_of f = path_stem (base_name (f_path f))"

definition rows_of_session :: "string \<Rightarrow> sfile \<Rightarrow> exchange list \<Rightarrow> trow list" where
  "rows_of_session home f pairs =
     concat (map (\<lambda>(u, a).
         let c = strip (u @ '' '' @ a) in
         if c = [] then []
         else [\<lparr>t_session = session_of f, t_date = f_date f, t_project = project_from_transcript_path home (f_path f),
                t_user = u, t_assistant = a, t_content = c\<rparr>]) pairs)"

definition index_session :: "(json \<Rightarrow> string) \<Rightarrow> string \<Rightarrow> sfile \<Rightarrow> tdb \<Rightarrow> tdb" where
  "index_session other home f db =
     (case parse_session_pairs other (f_bytes f) of
        None \<Rightarrow> db
      | Some pairs \<Rightarrow>
          if pairs = [] then db
          else Table (filter (\<lambda>r. t_session r \<noteq> session_of f) (open_fts_db db) @ rows_of_session home f pairs))"

definition skipped :: "sfile \<Rightarrow> bool" where
  "skipped f \<longleftrightarrow> contains (f_path f) ''/subagents/'' \<or> (case f_size f of None \<Rightarrow> True | Some n \<Rightarrow> n < 5000)"

definition rebuild_transcript_index :: "(json \<Rightarrow> string) \<Rightarrow> string \<Rightarrow> sfile list list \<Rightarrow> tdb \<Rightarrow> tdb \<times> nat" where
  "rebuild_transcript_index other home dirs db =
     (let fs = filter (\<lambda>f. \<not> skipped f) (concat dirs)
      in (fold (index_session other home) fs db, length fs))"

definition fts5_escape_query :: "string \<Rightarrow> string" where
  "fts5_escape_query q =
     (let terms = filter (\<lambda>t. t \<noteq> []) (map (filter (\<lambda>c. c \<noteq> CHR 0x22)) (split_ws q)) in
      if terms = [] then [CHR 0x22, CHR 0x22]
      else join '' '' (map (\<lambda>t. CHR 0x22 # t @ [CHR 0x22]) terms))"

text \<open>SQLite's matching and \<^verbatim>\<open>bm25\<close>: the matching rows, best first; \<open>None\<close> is an error.\<close>

type_synonym tmatch = "string \<Rightarrow> trow list \<Rightarrow> trow list option"

definition transcript_search_fts :: "tmatch \<Rightarrow> string \<Rightarrow> nat \<Rightarrow> tdb \<Rightarrow> (exchange \<times> string) list option" where
  "transcript_search_fts tmatch q limit db =
     (if db = NoDb then None
      else if fts5_escape_query q = [CHR 0x22, CHR 0x22] then None
      else case db of
        Table rows \<Rightarrow>
          if rows = [] then None
          else (case tmatch (fts5_escape_query q) rows of
                  None \<Rightarrow> None
                | Some hits \<Rightarrow>
                    let rs = map (\<lambda>r. ((t_user r, t_assistant r), t_session r @ ''.jsonl'')) (take limit hits)
                    in if rs = [] then None else Some rs)
      | _ \<Rightarrow> None)"

section \<open>Searching the files\<close>

definition MAX_FALLBACK_FILE_BYTES :: nat where "MAX_FALLBACK_FILE_BYTES = 10 * 1024 * 1024"
definition MAX_FALLBACK_FILES :: nat where "MAX_FALLBACK_FILES = 500"
definition FALLBACK_TIME_BUDGET_S :: real where "FALLBACK_TIME_BUDGET_S = 5"

definition overlap :: "string set \<Rightarrow> exchange \<Rightarrow> real" where
  "overlap ws p =
     real (card (ws \<inter> set (split_ws (lower (fst p @ '' '' @ snd p))))) / real (card ws)"

definition score_file :: "(json \<Rightarrow> string) \<Rightarrow> string set \<Rightarrow> sfile \<Rightarrow> (real \<times> exchange \<times> string) list" where
  "score_file other ws f =
     (case parse_session_pairs other (f_bytes f) of
        None \<Rightarrow> []
      | Some ps \<Rightarrow>
          filter (\<lambda>x. fst x > 0) (map (\<lambda>p. (overlap ws p, p, base_name (f_path f))) ps))"

text \<open>The scan; each file comes with the time that has passed when its turn comes.\<close>

fun grep_scan ::
  "(json \<Rightarrow> string) \<Rightarrow> string set \<Rightarrow> nat \<Rightarrow> (real \<times> sfile) list \<Rightarrow> (real \<times> exchange \<times> string) list \<times> nat" where
  "grep_scan other ws n [] = ([], n)"
| "grep_scan other ws n ((elapsed, f) # fs) =
     (if elapsed \<ge> FALLBACK_TIME_BUDGET_S \<or> n \<ge> MAX_FALLBACK_FILES then ([], n)
      else if skipped f \<or> (case f_size f of None \<Rightarrow> True | Some s \<Rightarrow> s > MAX_FALLBACK_FILE_BYTES)
      then grep_scan other ws n fs
      else let (rest, k) = grep_scan other ws (n + 1) fs in (score_file other ws f @ rest, k))"

definition format_results :: "(exchange \<times> string) list \<Rightarrow> string" where
  "format_results rs =
     join [NL, NL] (map (\<lambda>((u, a), name).
       ''- **Q:** '' @ take 300 u @ [NL] @ ''  **A:** '' @ take 500 a @ [NL] @ ''  *Session: '' @ name @ ''*'') rs)"

definition NO_TRANSCRIPTS :: string where "NO_TRANSCRIPTS = ''No matching transcripts found''"

definition transcript_search ::
  "(json \<Rightarrow> string) \<Rightarrow> tmatch \<Rightarrow> (real \<times> sfile) list \<Rightarrow> string \<Rightarrow> nat \<Rightarrow> tdb \<Rightarrow> string" where
  "transcript_search other tmatch timed_files q limit db =
     (let ws = set (split_ws (lower q)) in
      if ws = {} then NO_TRANSCRIPTS
      else (case transcript_search_fts tmatch q limit db of
              Some rs \<Rightarrow> format_results rs
            | None \<Rightarrow>
                let scored = fst (grep_scan other ws 0 timed_files) in
                if scored = [] then NO_TRANSCRIPTS
                else format_results (map snd (take limit (sort_desc fst scored)))))"

section \<open>Paths of a session\<close>

definition block_paths :: "(json \<Rightarrow> string) \<Rightarrow> turn \<Rightarrow> string list option" where
  "block_paths other block =
     (let name = jor (jget block ''name'') (JStr []); inp = dict_or_empty (jget block ''input'') in
      if jget block ''type'' \<noteq> JStr ''tool_use'' then Some []
      else if \<not> hashable name then None
      else case name of
        JStr n \<Rightarrow>
          if n \<in> set file_path_tools
          then (let p = strip (py_text other (jor (jget inp ''file_path'') (JStr []))) in Some (if p = [] then [] else [p]))
          else if n = ''Bash''
          then Some (filter (\<lambda>p. starts_with p ''/'' \<or> starts_with p ''~'' \<or> CHR ''.'' \<in> set p \<and> CHR ''/'' \<in> set p)
                 (map strip (bash_paths True (first_line_80 (py_text other (jor (jget inp ''command'') (JStr [])))))))
          else Some []
      | _ \<Rightarrow> Some [])"

definition extract_paths_from_content_blocks :: "(json \<Rightarrow> string) \<Rightarrow> json \<Rightarrow> string list option" where
  "extract_paths_from_content_blocks other content =
     (case content of JArr bs \<Rightarrow> on_blocks (block_paths other) bs | _ \<Rightarrow> Some [])"

definition assistant_paths :: "(json \<Rightarrow> string) \<Rightarrow> json \<Rightarrow> string list option" where
  "assistant_paths other v =
     (case v of
        JObj d \<Rightarrow>
          if jget d ''type'' \<noteq> JStr ''assistant'' then Some []
          else Option.bind (content_of d) (extract_paths_from_content_blocks other)
      | _ \<Rightarrow> None)"

text \<open>
  The walk over the lines, newest first; it returns as soon as it has enough, so an exception
  further up the file no longer matters.
\<close>

fun take_new :: "nat \<Rightarrow> string list \<Rightarrow> string list \<Rightarrow> bool \<times> string list" where
  "take_new limit acc [] = (False, acc)"
| "take_new limit acc (p # ps) =
     (if p = [] \<or> p \<in> set acc then take_new limit acc ps
      else if length acc + 1 \<ge> limit then (True, acc @ [p])
      else take_new limit (acc @ [p]) ps)"

fun walk_lines :: "(json \<Rightarrow> string) \<Rightarrow> nat \<Rightarrow> string list \<Rightarrow> string list \<Rightarrow> string list" where
  "walk_lines other limit acc [] = acc"
| "walk_lines other limit acc (l # ls) =
     (case parse_line (assistant_paths other) (strip l) of
        None \<Rightarrow> []
      | Some ps \<Rightarrow>
          (let (full, acc) = take_new limit acc ps in
           if full then acc else walk_lines other limit acc ls))"

definition TAIL_BYTES :: nat where "TAIL_BYTES = 512 * 1024"

definition tail_of :: "string \<Rightarrow> string" where
  "tail_of bs =
     (if length bs > TAIL_BYTES
      then tl (dropWhile (\<lambda>c. c \<noteq> NL) (drop (length bs - TAIL_BYTES) bs)) else bs)"

definition find_session_file :: "string \<Rightarrow> string \<Rightarrow> (string \<times> sfile list) list \<Rightarrow> sfile option" where
  "find_session_file cwd sid dirs =
     (let slug = replace_char (CHR ''.'') ''-'' (replace_char (CHR ''/'') ''-'' cwd);
          direct = List.map_filter (\<lambda>(base, fs). find (\<lambda>f. f_path f = base @ ''/'' @ slug @ ''/'' @ sid @ ''.jsonl'') fs) dirs;
          any = List.map_filter (\<lambda>(base, fs). find (\<lambda>f. base_name (f_path f) = sid @ ''.jsonl'') fs) dirs
      in case direct @ any of [] \<Rightarrow> None | f # _ \<Rightarrow> Some f)"

definition recent_session_paths ::
  "(json \<Rightarrow> string) \<Rightarrow> string \<Rightarrow> (string \<times> sfile list) list \<Rightarrow> string \<Rightarrow> nat \<Rightarrow> string list" where
  "recent_session_paths other cwd dirs sid limit =
     (if sid = [] then []
      else (case find_session_file cwd sid dirs of
              None \<Rightarrow> []
            | Some f \<Rightarrow>
                (case f_bytes f of
                   None \<Rightarrow> []
                 | Some bs \<Rightarrow> walk_lines other limit [] (rev (splitlines (decode_ignore (tail_of bs)))))))"

section \<open>Properties\<close>

text \<open>
  What an exchange is, said without the loop's two buffers: skip the assistant's turns before the
  first user turn, then a run of user turns and the run of assistant turns that answers it, and
  so on; a last run of user turns without an answer is no exchange.
\<close>

definition says :: "bool \<Rightarrow> bool \<times> string \<Rightarrow> bool" where
  "says user m \<longleftrightarrow> fst m = user"

function exchanges :: "(bool \<times> string) list \<Rightarrow> exchange list" where
  "exchanges ms =
     (let asked = dropWhile (says False) ms;
          us = takeWhile (says True) asked;
          rest = dropWhile (says True) asked;
          ans = takeWhile (says False) rest in
      if ans = [] then []
      else (join [NL] (map snd us), join [NL] (map snd ans)) # exchanges (dropWhile (says False) rest))"
  by pat_completeness auto
termination
proof (relation "measure length", simp)
  fix ms asked us rest ans :: "(bool \<times> string) list"
  assume "asked = dropWhile (says False) ms" "rest = dropWhile (says True) asked"
    and ans: "ans = takeWhile (says False) rest" "ans \<noteq> []"
  then have "length rest \<le> length ms"
    by (metis length_dropWhile_le order_trans)
  moreover have "length (dropWhile (says False) rest) < length rest"
    using ans by (cases rest) (auto simp: less_Suc_eq_le length_dropWhile_le split: if_splits)
  ultimately show "(dropWhile (says False) rest, ms) \<in> measure length" by simp
qed

declare exchanges.simps [simp del]

lemma exchanges_skip: "exchanges ((False, t) # ms) = exchanges ms"
  by (subst (1 2) exchanges.simps) (simp add: says_def)

lemma exchanges_answered:
  assumes "us \<noteq> []" "ans \<noteq> []"
  shows "exchanges (map (Pair True) us @ map (Pair False) ans @ ms)
    = (if ms = [] \<or> says True (hd ms) then (join [NL] us, join [NL] ans) # exchanges ms
       else exchanges (map (Pair True) us @ map (Pair False) (ans @ [snd (hd ms)]) @ tl ms))"
proof (cases "ms = [] \<or> says True (hd ms)")
  case True
  obtain u us' where us: "us = u # us'" using assms by (cases us) auto
  obtain a ans' where ans: "ans = a # ans'" using assms by (cases ans) auto
  have "takeWhile (says False) ms = []" "dropWhile (says False) ms = ms"
    using True by (cases ms; simp add: says_def)+
  moreover have "takeWhile (says True) (map (Pair True) us @ map (Pair False) ans @ ms) = map (Pair True) us"
    "dropWhile (says True) (map (Pair True) us @ map (Pair False) ans @ ms) = map (Pair False) ans @ ms"
    "takeWhile (says False) (map (Pair False) ans @ ms) = map (Pair False) ans @ takeWhile (says False) ms"
    "dropWhile (says False) (map (Pair False) ans @ ms) = dropWhile (says False) ms"
    by (subst takeWhile_append2 dropWhile_append2; force simp: says_def ans)+
  moreover have "dropWhile (says False) (map (Pair True) us @ zs) = map (Pair True) us @ zs" for zs
    by (simp add: us says_def)
  ultimately show ?thesis
    using True assms by (subst exchanges.simps) (simp add: Let_def comp_def)
next
  case False
  then obtain t ms' where "ms = (False, t) # ms'" by (cases ms) (auto simp: says_def)
  then show ?thesis by (simp add: says_def)
qed

lemma exchanges_unanswered: "exchanges (map (Pair True) us) = []"
proof -
  have "dropWhile (says False) (map (Pair True) us) = map (Pair True) us"
    by (cases us) (simp_all add: says_def)
  moreover have "dropWhile (says True) (map (Pair True) us) = []" by (simp add: says_def)
  ultimately show ?thesis by (subst exchanges.simps) (simp add: Let_def del: dropWhile_eq_Nil_conv)
qed

lemma pair_up_exchanges:
  "pair_up us ans ms = exchanges ((if us = [] then [] else map (Pair True) us @ map (Pair False) ans) @ ms)"
proof (induction us ans ms rule: pair_up.induct)
  case (1 us ans)
  show ?case
    using exchanges_answered [of us ans "[]"] exchanges_unanswered [of us] exchanges_unanswered [of "[]"]
    by (auto simp: flush_exchange_def)
next
  case (2 us ans user t ms)
  consider "user" "ans \<noteq> []" | "user" "ans = []" | "\<not> user" by blast
  then show ?case
  proof cases
    case 1
    then show ?thesis
      using 2(1) exchanges_answered [of us ans "(user, t) # ms"] by (auto simp: flush_exchange_def says_def)
  next
    case open_run: 2
    then show ?thesis using 2(2) by (auto simp: exchanges_skip)
  next
    case 3
    then show ?thesis using 2(3) by (auto simp: exchanges_skip)
  qed
qed

text \<open>
  Pairing a transcript into exchanges is exact. The buffered loop of the session parser gives
  the same exchanges ans the reference definition: each run of user turns with the run of
  assistant turns that answers it, in order, nothing merged across exchanges and nothing dropped
  but assistant turns before the first question and a last question without an answer.
\<close>

theorem pairs_are_exchanges: "pair_up [] [] ms = exchanges ms"
  by (simp add: pair_up_exchanges)

text \<open>
  Indexing a session replaces exactly its own rows. After indexing a session file the rows of
  every other session are as before and the session's rows are those of the file's exchanges
  (never more than one per exchange); a file that cannot be read, or has no exchange, changes
  nothing; and indexing the same file again changes nothing.
\<close>

theorem index_session_replaces_rows:
  "let db' = index_session other home f db;
       own = \<lambda>rows. filter (\<lambda>r. t_session r = session_of f) rows;
       others = \<lambda>rows. filter (\<lambda>r. t_session r \<noteq> session_of f) rows in
   others (open_fts_db db') = others (open_fts_db db)
   \<and> (case parse_session_pairs other (f_bytes f) of
        None \<Rightarrow> db' = db
      | Some ps \<Rightarrow> if ps = [] then db' = db
                  else own (open_fts_db db') = rows_of_session home f ps \<and> length (own (open_fts_db db')) \<le> length ps)
   \<and> index_session other home f db' = db'"
proof -
  have own: "t_session r = session_of f" if "r \<in> set (rows_of_session home f ps)" for r ps
    using that by (auto simp: rows_of_session_def Let_def split: if_splits)
  have *: "filter (\<lambda>r. t_session r = session_of f) (rows_of_session home f ps) = rows_of_session home f ps"
    "filter (\<lambda>r. t_session r \<noteq> session_of f) (rows_of_session home f ps) = []"
    for ps using own by (auto simp: filter_id_conv filter_empty_conv)
  have "length (rows_of_session home f ps) \<le> length ps" for ps
    by (induction ps) (auto simp: rows_of_session_def Let_def)
  then show ?thesis
    by (cases "parse_session_pairs other (f_bytes f)")
       (auto simp: index_session_def open_fts_db_def * Let_def)
qed

lemma take_new_sound:
  assumes "take_new limit acc ps = (full, acc')" "distinct acc" "[] \<notin> set acc" "length acc < max 1 limit"
  shows "distinct acc' \<and> [] \<notin> set acc' \<and> set acc' \<subseteq> set acc \<union> set ps
    \<and> length acc' \<le> max 1 limit \<and> (\<not> full \<longrightarrow> length acc' < max 1 limit)"
  using assms by (induction limit acc ps rule: take_new.induct) (fastforce split: if_splits)+

lemma walk_lines_sound:
  assumes "distinct acc" "[] \<notin> set acc" "length acc < max 1 limit"
  shows "distinct (walk_lines other limit acc ls) \<and> [] \<notin> set (walk_lines other limit acc ls)
    \<and> length (walk_lines other limit acc ls) \<le> max 1 limit"
  using assms
proof (induction ls arbitrary: acc)
  case (Cons l ls)
  show ?case
  proof (cases "parse_line (assistant_paths other) (strip l)")
    case (Some ps)
    obtain full acc' where t: "take_new limit acc ps = (full, acc')" by (cases "take_new limit acc ps")
    show ?thesis
      using take_new_sound [OF t] Cons by (simp add: Some t)
  qed simp
qed simp

text \<open>
  The recent paths of a session are a bounded list without repeats. There are at most as
  many as asked for (one, if none was asked for), all distinct and none empty, whatever the
  session file holds.
\<close>

theorem recent_paths_bounded:
  "let ps = recent_session_paths other cwd dirs sid limit in distinct ps \<and> [] \<notin> set ps \<and> length ps \<le> max 1 limit"
  using walk_lines_sound [of "[]" limit other]
  by (auto simp: recent_session_paths_def Let_def split: option.splits)

text \<open>
  The scan of the session files is bounded. It reads at most 500 files, and every exchange it
  answers comes from a file it may read: no subagent's, of 5,000 bytes to ten megabytes, whose
  turn came within the time budget.
\<close>

theorem transcript_scan_bounded:
  "snd (grep_scan other ws 0 timed) \<le> MAX_FALLBACK_FILES
   \<and> (\<forall>x \<in> set (fst (grep_scan other ws 0 timed)). \<exists>(t, f) \<in> set timed.
        x \<in> set (score_file other ws f) \<and> t < FALLBACK_TIME_BUDGET_S \<and> \<not> contains (f_path f) ''/subagents/''
        \<and> (\<exists>n. f_size f = Some n \<and> 5000 \<le> n \<and> n \<le> MAX_FALLBACK_FILE_BYTES))"
proof -
  have "snd (grep_scan other ws n timed) \<le> max n MAX_FALLBACK_FILES
    \<and> (\<forall>x \<in> set (fst (grep_scan other ws n timed)). \<exists>(t, f) \<in> set timed.
        x \<in> set (score_file other ws f) \<and> t < FALLBACK_TIME_BUDGET_S \<and> \<not> contains (f_path f) ''/subagents/''
        \<and> (\<exists>n. f_size f = Some n \<and> 5000 \<le> n \<and> n \<le> MAX_FALLBACK_FILE_BYTES))" for n
  proof (induction other ws n timed rule: grep_scan.induct)
    case (2 other ws n elapsed f fs)
    consider "elapsed \<ge> FALLBACK_TIME_BUDGET_S \<or> n \<ge> MAX_FALLBACK_FILES"
      | "\<not> (elapsed \<ge> FALLBACK_TIME_BUDGET_S \<or> n \<ge> MAX_FALLBACK_FILES)"
        "skipped f \<or> (case f_size f of None \<Rightarrow> True | Some s \<Rightarrow> s > MAX_FALLBACK_FILE_BYTES)"
      | s where "elapsed < FALLBACK_TIME_BUDGET_S" "n < MAX_FALLBACK_FILES" "\<not> skipped f"
        "f_size f = Some s" "s \<le> MAX_FALLBACK_FILE_BYTES"
      by (cases "f_size f") force+
    then show ?case
    proof cases
      case 3
      then show ?thesis
        using 2(2) by (auto simp: split_beta skipped_def)
    qed (use 2(1) in \<open>auto simp: split_beta\<close>)
  qed simp
  from this [of 0] show ?thesis by simp
qed

definition small_session :: sfile where
  "small_session = \<lparr>f_path = ''/x/s.jsonl'', f_size = Some 6000, f_date = [],
     f_bytes = Some (concat (map (\<lambda>role. ''{\"type\":\"'' @ role @ ''\",\"message\":{\"content\":\"hi\"}}'' @ [NL])
                 [''user'', ''assistant'']))\<rparr>"

lemma small_session_scanned:
  "grep_scan (\<lambda>_. []) {''hi''} 0 [(0, small_session)] = ([(1, (''hi'', ''hi''), ''s.jsonl'')], 1)"
proof -
  have "parse_session_pairs (\<lambda>_. []) (f_bytes small_session) = Some [(''hi'', ''hi'')]" by code_simp
  moreover have "\<not> skipped small_session" "base_name (f_path small_session) = ''s.jsonl''" "f_size small_session = Some 6000"
    by code_simp+
  moreover have "split_ws (lower (''hi'' @ '' '' @ ''hi'')) = [''hi'', ''hi'']" by code_simp
  then have "overlap {''hi''} (''hi'', ''hi'') = 1" by (simp only: overlap_def fst_conv snd_conv) simp
  ultimately show ?thesis
    by (simp add: score_file_def FALLBACK_TIME_BUDGET_S_def MAX_FALLBACK_FILES_def MAX_FALLBACK_FILE_BYTES_def)
qed

theorem transcript_scan_bounded_witness:
  "let r = grep_scan (\<lambda>_. []) {''hi''} 0 [(0, small_session)] in
   snd r = 1 \<and> snd r \<le> MAX_FALLBACK_FILES \<and> (1, (''hi'', ''hi''), ''s.jsonl'') \<in> set (fst r)
   \<and> (1, (''hi'', ''hi''), ''s.jsonl'') \<in> set (score_file (\<lambda>_. []) {''hi''} small_session)"
  using transcript_scan_bounded [of "\<lambda>_. []" "{''hi''}" "[(0, small_session)]"]
  by (simp add: small_session_scanned Let_def del: grep_scan.simps)

text \<open>
  The two parsers split lines differently: a raw next-line character inside a message (which JSON
  allows) ends the line for the canonical parser, so the message is lost to mining, while the
  exchange parser, which splits at newlines only, indexes it.
\<close>

definition nel_line :: "string \<Rightarrow> string" where
  "nel_line role = ''{\"type\":\"'' @ role @ ''\",\"message\":{\"content\":\"a'' @ [CHR 0xC2, CHR 0x85] @ ''b\"}}'' @ [NL]"

lemma next_line_character_splits_message:
  "parse_jsonl_session other (Some (nel_line ''user'' @ nel_line ''assistant'')) 0 = Some []"
  "parse_session_pairs other (Some (nel_line ''user'' @ nel_line ''assistant'')) = Some [([CHR ''a'', CHR 0x85, CHR ''b''], [CHR ''a'', CHR 0x85, CHR ''b''])]"
  by code_simp+

end
