(* ===== verification/JsonText.thy ===== *)
theory JsonText
  imports Json
begin

text \<open>
  \<^verbatim>\<open>json.dumps\<close> of Python's standard library with its default separators, as the source writes
  log rows and payloads with it; \<open>repr\<close> is the text of a float. Reading back what was written
  gives the value again.
\<close>

section \<open>Writing\<close>

definition low_hex :: "nat \<Rightarrow> char" where
  "low_hex n = ''0123456789abcdef'' ! n"

definition json_escape :: "char \<Rightarrow> string" where
  "json_escape c =
     (if c = CHR 0x22 then [CHR 0x5C, CHR 0x22]
      else if c = CHR 0x5C then [CHR 0x5C, CHR 0x5C]
      else if c = NL then [CHR 0x5C, CHR ''n'']
      else if c = CHR 0x0D then [CHR 0x5C, CHR ''r'']
      else if c = CHR 0x09 then [CHR 0x5C, CHR ''t'']
      else if c = CHR 0x08 then [CHR 0x5C, CHR ''b'']
      else if c = CHR 0x0C then [CHR 0x5C, CHR ''f'']
      else if CHR '' '' \<le> c \<and> c \<le> CHR ''~'' then [c]
      else [CHR 0x5C, CHR ''u'', CHR ''0'', CHR ''0'', low_hex (of_char c div 16), low_hex (of_char c mod 16)])"

definition quoted :: "string \<Rightarrow> string" where
  "quoted s = CHR 0x22 # concat (map json_escape s) @ [CHR 0x22]"

fun json_dumps :: "(real \<Rightarrow> string) \<Rightarrow> json \<Rightarrow> string" where
  "json_dumps repr JNull = ''null''"
| "json_dumps repr (JBool b) = (if b then ''true'' else ''false'')"
| "json_dumps repr (JInt i) = str_of_int i"
| "json_dumps repr (JReal r) = repr r"
| "json_dumps repr (JNonFinite w) = w"
| "json_dumps repr (JStr s) = quoted s"
| "json_dumps repr (JArr xs) = ''['' @ join '', '' (map (json_dumps repr) xs) @ '']''"
| "json_dumps repr (JObj kvs) = ''{'' @ join '', '' (map (\<lambda>(k, v). quoted k @ '': '' @ json_dumps repr v) kvs) @ ''}''"

section \<open>Reading back\<close>

text \<open>The values the source writes: no floats, and the keys of a dictionary are distinct.\<close>

fun plain :: "json \<Rightarrow> bool" where
  "plain (JReal r) = False"
| "plain (JNonFinite w) = False"
| "plain (JArr xs) = list_all plain xs"
| "plain (JObj kvs) = (distinct (map fst kvs) \<and> list_all (\<lambda>kv. plain (snd kv)) kvs)"
| "plain _ = True"

lemma of_char_less_256: "(of_char c :: nat) < 256"
  by (metis of_char_mod_256 mod_less_divisor zero_less_numeral)

lemma char_of_code_of_char [simp]: "char_of_code (of_char c) = c"
  using of_char_less_256 [of c] by (simp add: char_of_code_def)

lemma hex_value_digit: "n < 16 \<Longrightarrow> hex_value (low_hex n) = Some n"
proof -
  assume "n < 16"
  then have "n \<in> set [0..<16]" by simp
  moreover have "\<forall>n \<in> set [0..<16]. hex_value (low_hex n) = Some n" by code_simp
  ultimately show ?thesis by blast
qed

lemma hex_number_of_char:
  "hex_number [CHR ''0'', CHR ''0'', low_hex (of_char c div 16), low_hex (of_char c mod 16)] 0 = Some (of_char c)"
proof -
  have "hex_value (CHR ''0'') = Some 0" by code_simp
  moreover have "of_char c div 16 < (16 :: nat)" using of_char_less_256 [of c] by linarith
  ultimately show ?thesis by (simp add: hex_value_digit del: char_of_code_of_char)
qed

lemma json_escape_cases:
  obtains "json_escape c = [c]" "c \<noteq> CHR 0x22" "c \<noteq> CHR 0x5C" "\<not> (of_char c :: nat) < 32"
  | d where "json_escape c = [CHR 0x5C, d]" "d \<noteq> CHR ''u''" "escape_char d = Some c"
  | x y where "json_escape c = [CHR 0x5C, CHR ''u'', CHR ''0'', CHR ''0'', x, y]"
      "hex_number [CHR ''0'', CHR ''0'', x, y] 0 = Some (of_char c)"
proof (cases "c \<in> {CHR 0x22, CHR 0x5C, NL, CHR 0x0D, CHR 0x09, CHR 0x08, CHR 0x0C}")
  case True
  then obtain d where "json_escape c = [CHR 0x5C, d]" "d \<noteq> CHR ''u''" "escape_char d = Some c"
    by (auto simp: json_escape_def escape_char_def)
  then show ?thesis by (rule that(2))
next
  case False
  show ?thesis
  proof (cases "CHR '' '' \<le> c \<and> c \<le> CHR ''~''")
    case True
    then have "(of_char (CHR '' '') :: nat) \<le> of_char c" by (simp only: less_eq_char_def)
    then show ?thesis using False True by (intro that(1)) (simp_all add: json_escape_def)
  next
    case out: False
    then show ?thesis using False hex_number_of_char [of c] by (intro that(3)) (simp_all add: json_escape_def del: hex_number.simps)
  qed
qed

lemma json_string_quoted: "json_string (concat (map json_escape s) @ CHR 0x22 # r) = Some (s, r)"
proof (induction s)
  case Nil
  then show ?case by (cases r) simp_all
next
  case (Cons c s)
  obtain d t where t: "concat (map json_escape s) @ CHR 0x22 # r = d # t" by (cases "concat (map json_escape s) @ CHR 0x22 # r") auto
  show ?case
    by (rule json_escape_cases [of c]) (use Cons t in \<open>simp_all del: hex_number.simps\<close>)
qed

text \<open>What may follow a value so that a number ends where it was written.\<close>

definition ends_value :: "string \<Rightarrow> bool" where
  "ends_value r \<longleftrightarrow> r = [] \<or> \<not> is_digit (hd r) \<and> hd r \<notin> {CHR ''.'', CHR ''e'', CHR ''E''}"

lemma digits_value_append: "digits_value (a @ b) n = digits_value b (digits_value a n)"
  by (induction a arbitrary: n) simp_all

lemma digit_char:
  assumes "k < 10"
  shows "(of_char (char_of (48 + k) :: char) :: nat) = 48 + k" "is_digit (char_of (48 + k))" "char_of (48 + k) = CHR ''0'' \<longleftrightarrow> k = 0"
proof -
  have "k \<in> set [0..<10]" using assms by simp
  moreover have "\<forall>k \<in> set [0..<10]. (of_char (char_of (48 + k) :: char) :: nat) = 48 + k \<and> is_digit (char_of (48 + k))
      \<and> (char_of (48 + k) = CHR ''0'' \<longleftrightarrow> k = 0)" by code_simp
  ultimately show "(of_char (char_of (48 + k) :: char) :: nat) = 48 + k" "is_digit (char_of (48 + k))"
      "char_of (48 + k) = CHR ''0'' \<longleftrightarrow> k = 0" by blast+
qed

lemma digits_value_str_of_nat: "digits_value (str_of_nat n) 0 = n"
proof (induction n rule: less_induct)
  case (less n)
  show ?case
  proof (cases "n < 10")
    case True
    then show ?thesis by (subst str_of_nat.simps) (simp add: digit_char)
  next
    case False
    have "digits_value (str_of_nat n) 0 = 10 * (n div 10) + n mod 10"
      using less [of "n div 10"] False
      by (subst str_of_nat.simps) (simp add: digits_value_append digit_char)
    then show ?thesis by simp
  qed
qed

lemma str_of_nat_Cons:
  obtains c t where "str_of_nat n = c # t" "is_digit c" "c = CHR ''0'' \<Longrightarrow> n = 0 \<and> t = []"
proof -
  have "\<exists>c t. str_of_nat n = c # t \<and> is_digit c \<and> (c = CHR ''0'' \<longrightarrow> n = 0 \<and> t = [])"
  proof (induction n rule: less_induct)
    case (less n)
    show ?case
    proof (cases "n < 10")
      case True
      then show ?thesis by (subst str_of_nat.simps) (simp add: digit_char)
    next
      case False
      obtain c t where "str_of_nat (n div 10) = c # t" "is_digit c" "c = CHR ''0'' \<longrightarrow> n div 10 = 0"
        using less [of "n div 10"] False by auto
      then show ?thesis using False by (subst str_of_nat.simps) auto
    qed
  qed
  then show ?thesis using that by blast
qed

lemma json_int_part_nat:
  assumes "ends_value r"
  shows "json_int_part (str_of_nat n @ r) = Some (n, r)"
proof -
  obtain c t where n: "str_of_nat n = c # t" "is_digit c" "c = CHR ''0'' \<Longrightarrow> n = 0 \<and> t = []"
    using str_of_nat_Cons [of n] by blast
  have digits: "\<forall>d \<in> set (str_of_nat n). is_digit d" using set_str_of_nat by blast
  have "takeWhile is_digit r = []" "dropWhile is_digit r = r"
    using assms by (cases r; simp add: ends_value_def)+
  then have "takeWhile is_digit (str_of_nat n @ r) = str_of_nat n" "dropWhile is_digit (str_of_nat n @ r) = r"
    using digits by simp_all
  then show ?thesis
    using n digits_value_str_of_nat [of n] by (cases "c = CHR ''0''") (simp_all add: json_int_part_def)
qed

lemma json_number_int:
  assumes "ends_value r"
  shows "json_number (str_of_int i @ r) = Some (JInt i, r)"
proof -
  have r: "json_fraction r = None" "json_exponent r = None"
    using assms by (cases r; simp add: ends_value_def json_fraction_def json_exponent_def)+
  obtain c t where c: "str_of_nat (nat i) = c # t" "is_digit c" by (rule str_of_nat_Cons)
  moreover have "json_int_part (c # t @ r) = Some (nat i, r)" using json_int_part_nat [OF assms, of "nat i"] c by simp
  moreover have "c \<noteq> CHR ''-''" if "is_digit c" for c using that by (auto simp: is_digit_def less_eq_char_def)
  ultimately show ?thesis
    using json_int_part_nat [OF assms] r
    by (cases "i < 0") (auto simp: json_number_def str_of_int_def rest_after_def)
qed

section \<open>Round trip\<close>

lemma skip_ws_Cons_eq: "\<not> json_ws c \<Longrightarrow> skip_ws (c # s) = c # s"
  by (simp add: skip_ws_def)

lemma json_value_int:
  assumes "ends_value r" "0 < n"
  shows "json_value n (str_of_int i @ r) = Some (JInt i, r)"
proof -
  obtain c t where c: "str_of_nat (nat \<bar>i\<bar>) = c # t" "is_digit c" by (rule str_of_nat_Cons)
  have digit: "c \<notin> {CHR 0x22, CHR ''{'', CHR ''['', CHR ''-'', CHR ''n'', CHR ''t'', CHR ''f'', CHR ''N'', CHR ''I''}" "\<not> json_ws c"
    using c(2) by (auto simp: is_digit_def less_eq_char_def json_ws_def)
  obtain d u where d: "str_of_int i @ r = d # u" "d \<notin> {CHR 0x22, CHR ''{'', CHR ''[''}" "\<not> json_ws d" "json_word (d # u) = None"
  proof (cases "i < 0")
    case True
    then have "str_of_int i @ r = CHR ''-'' # c # t @ r" using c(1) by (simp add: str_of_int_def)
    then show ?thesis using digit by (intro that [of "CHR ''-''" "c # t @ r"]) (auto simp: json_word_def json_words_def json_ws_def)
  next
    case False
    then have "str_of_int i @ r = c # t @ r" using c(1) by (simp add: str_of_int_def)
    then show ?thesis using digit by (intro that [of c "t @ r"]) (auto simp: json_word_def json_words_def)
  qed
  obtain m where "n = Suc m" using assms(2) gr0_implies_Suc by blast
  then show ?thesis using json_number_int [OF assms(1), of i] d by (simp add: skip_ws_Cons_eq)
qed

lemma space_before:
  "json_value n (CHR '' '' # s) = json_value n s" "json_members n (CHR '' '' # s) = json_members n s"
  "json_elements n (CHR '' '' # s) = json_elements n s"
proof -
  have skip: "skip_ws (CHR '' '' # s) = skip_ws s" by (simp add: skip_ws_def json_ws_def)
  show v: "json_value n (CHR '' '' # s) = json_value n s" for n by (cases n) (simp_all add: skip)
  show "json_members n (CHR '' '' # s) = json_members n s" by (cases n) (simp_all add: json_key_def skip)
  show "json_elements n (CHR '' '' # s) = json_elements n s" by (cases n) (simp_all add: v)
qed

lemma json_sep_next: "json_sep c (CHR '','' # r) = Some (c = CHR '','', r)" "\<not> json_ws c \<Longrightarrow> json_sep c (c # r) = Some (True, r)"
  by (simp_all add: json_sep_def skip_ws_Cons_eq json_ws_def)

lemma json_key_quoted: "json_key (quoted k @ CHR '':'' # r) = Some (k, r)"
  using json_string_quoted [of k "CHR '':'' # r"]
  by (simp add: json_key_def quoted_def skip_ws_Cons_eq json_ws_def)

lemma update_new: "k \<notin> fst ` set al \<Longrightarrow> AList.update k v al = al @ [(k, v)]"
  by (induction al) auto

lemma dict_of_distinct: "distinct (map fst kvs) \<Longrightarrow> dict_of kvs = kvs"
proof -
  have "distinct (map fst (acc @ kvs)) \<Longrightarrow> fold (\<lambda>(k, v). AList.update k v) kvs acc = acc @ kvs" for acc
  proof (induction kvs arbitrary: acc)
    case (Cons kv kvs)
    then show ?case using Cons.IH [of "acc @ [kv]"] by (cases kv) (auto simp: update_new)
  qed simp
  from this [of "[]"] show "distinct (map fst kvs) \<Longrightarrow> dict_of kvs = kvs" by (simp add: dict_of_def)
qed

definition reads_back :: "(real \<Rightarrow> string) \<Rightarrow> json \<Rightarrow> bool" where
  "reads_back repr v \<longleftrightarrow>
     (\<forall>r n. ends_value r \<longrightarrow> 2 * length (json_dumps repr v @ r) \<le> n \<longrightarrow> json_value n (json_dumps repr v @ r) = Some (v, r))"

lemma elements_read_back:
  assumes "\<And>x. x \<in> set xs \<Longrightarrow> reads_back repr x" "xs \<noteq> []"
    and "2 * length (join '', '' (map (json_dumps repr) xs) @ CHR '']'' # r) < n"
  shows "json_elements n (join '', '' (map (json_dumps repr) xs) @ CHR '']'' # r) = Some (xs, r)"
  using assms
proof (induction xs arbitrary: n)
  case (Cons x xs)
  obtain m where n: "n = Suc m" using Cons.prems(3) by (cases n) auto
  show ?case
  proof (cases xs)
    case Nil
    have "json_value m (json_dumps repr x @ CHR '']'' # r) = Some (x, CHR '']'' # r)"
      using Cons.prems(1) [of x] Cons.prems(3) unfolding reads_back_def by (simp add: Nil n ends_value_def is_digit_def less_eq_char_def)
    then show ?thesis by (simp add: n Nil json_sep_next json_ws_def)
  next
    case (Cons y ys)
    let ?rest = "join '', '' (map (json_dumps repr) xs) @ CHR '']'' # r"
    have shape: "join '', '' (map (json_dumps repr) (x # xs)) @ CHR '']'' # r = json_dumps repr x @ CHR '','' # CHR '' '' # ?rest"
      by (simp add: Cons)
    have "json_value m (json_dumps repr x @ CHR '','' # CHR '' '' # ?rest) = Some (x, CHR '','' # CHR '' '' # ?rest)"
      using Cons.prems(1) [of x] Cons.prems(3) unfolding reads_back_def shape
      by (simp add: n ends_value_def is_digit_def less_eq_char_def)
    moreover have "json_elements m ?rest = Some (xs, r)"
      using Cons.prems Cons by (intro Cons.IH) (auto simp: n)
    ultimately show ?thesis unfolding shape n by (simp add: json_sep_next space_before)
  qed
qed simp

lemma members_read_back:
  assumes "\<And>k v. (k, v) \<in> set kvs \<Longrightarrow> reads_back repr v" "kvs \<noteq> []"
    and "2 * length (join '', '' (map (\<lambda>(k, v). quoted k @ '': '' @ json_dumps repr v) kvs) @ CHR ''}'' # r) \<le> n"
  shows "json_members n (join '', '' (map (\<lambda>(k, v). quoted k @ '': '' @ json_dumps repr v) kvs) @ CHR ''}'' # r) = Some (kvs, r)"
  using assms
proof (induction kvs arbitrary: n)
  case (Cons kv kvs)
  obtain k v where kv: "kv = (k, v)" by fastforce
  obtain m where n: "n = Suc m" using Cons.prems(3) by (cases n) auto
  have val: "json_value m (json_dumps repr v @ c # u) = Some (v, c # u)" if "2 * length (json_dumps repr v @ c # u) \<le> m" "c \<in> {CHR '','', CHR ''}''}" for c u
    using Cons.prems(1) [of k v] that unfolding reads_back_def kv by (auto simp: ends_value_def is_digit_def less_eq_char_def)
  show ?case
  proof (cases kvs)
    case Nil
    have "json_value m (json_dumps repr v @ CHR ''}'' # r) = Some (v, CHR ''}'' # r)"
      using Cons.prems(3) by (intro val) (simp_all add: Nil kv n quoted_def)
    then show ?thesis by (simp add: n Nil kv json_key_quoted space_before json_sep_next json_ws_def)
  next
    case (Cons y ys)
    let ?rest = "join '', '' (map (\<lambda>(k, v). quoted k @ '': '' @ json_dumps repr v) kvs) @ CHR ''}'' # r"
    have shape: "join '', '' (map (\<lambda>(k, v). quoted k @ '': '' @ json_dumps repr v) (kv # kvs)) @ CHR ''}'' # r
      = quoted k @ CHR '':'' # CHR '' '' # json_dumps repr v @ CHR '','' # CHR '' '' # ?rest"
      by (simp add: Cons kv)
    have "json_value m (json_dumps repr v @ CHR '','' # CHR '' '' # ?rest) = Some (v, CHR '','' # CHR '' '' # ?rest)"
      using Cons.prems(3) unfolding shape by (intro val) (simp_all add: n quoted_def)
    moreover have "json_members m ?rest = Some (kvs, r)"
      using Cons.prems Cons unfolding shape by (intro Cons.IH) (auto simp: n quoted_def)
    ultimately show ?thesis unfolding shape n by (simp add: json_key_quoted json_sep_next space_before json_ws_def kv)
  qed
qed simp

lemma json_dumps_Cons:
  assumes "plain v"
  obtains d u where "json_dumps repr v = d # u" "d \<noteq> CHR '']''" "\<not> json_ws d"
proof (cases v)
  case (JInt i)
  obtain c t where c: "str_of_nat (nat \<bar>i\<bar>) = c # t" "is_digit c" using str_of_nat_Cons [of "nat \<bar>i\<bar>"] by blast
  then have "c \<noteq> CHR '']''" "\<not> json_ws c" by (auto simp: is_digit_def less_eq_char_def json_ws_def)
  then show ?thesis using c that by (cases "i < 0") (auto simp: JInt str_of_int_def json_ws_def)
next
  case (JBool b)
  then show ?thesis using that by (cases b) (auto simp: json_ws_def)
qed (use assms that in \<open>auto simp: json_ws_def quoted_def\<close>)

lemma reads_backI:
  assumes "\<And>m r. ends_value r \<Longrightarrow> json_value (Suc m) (json_dumps repr v @ r) = Some (v, r)" "json_dumps repr v \<noteq> []"
  shows "reads_back repr v"
  unfolding reads_back_def
proof (intro allI impI)
  fix r n assume "ends_value r" "2 * length (json_dumps repr v @ r) \<le> n"
  then show "json_value n (json_dumps repr v @ r) = Some (v, r)" using assms by (cases n) auto
qed

lemma plain_reads_back: "plain v \<Longrightarrow> reads_back repr v"
proof (induction v)
  case (JArr xs)
  then have xs: "reads_back repr x" if "x \<in> set xs" for x using that by (auto simp: list_all_iff)
  show ?case unfolding reads_back_def
  proof (intro allI impI)
    fix r n assume n: "2 * length (json_dumps repr (JArr xs) @ r) \<le> n"
    then obtain m where m: "n = Suc m" by (cases n) auto
    show "json_value n (json_dumps repr (JArr xs) @ r) = Some (JArr xs, r)"
    proof (cases xs)
      case (Cons x ys)
      then have "plain x" using JArr.prems by simp
      then obtain d u where "json_dumps repr x = d # u" "d \<noteq> CHR '']''" "\<not> json_ws d" by (rule json_dumps_Cons)
      then obtain w where w: "join '', '' (map (json_dumps repr) xs) @ CHR '']'' # r = d # w" "d \<noteq> CHR '']''" "\<not> json_ws d"
        using Cons by (cases ys) auto
      have "json_elements m (join '', '' (map (json_dumps repr) xs) @ CHR '']'' # r) = Some (xs, r)"
        using n xs Cons by (intro elements_read_back) (simp_all add: m)
      then show ?thesis using w by (simp add: m skip_ws_Cons_eq json_ws_def del: json_elements.simps)
    qed (simp add: m skip_ws_Cons_eq json_ws_def)
  qed
next
  case (JObj kvs)
  then have vs: "reads_back repr v" if "(k, v) \<in> set kvs" for k v
    using that by (fastforce simp: list_all_iff)
  show ?case unfolding reads_back_def
  proof (intro allI impI)
    fix r n assume n: "2 * length (json_dumps repr (JObj kvs) @ r) \<le> n"
    then obtain m where m: "n = Suc m" by (cases n) auto
    let ?body = "join '', '' (map (\<lambda>(k, v). quoted k @ '': '' @ json_dumps repr v) kvs) @ CHR ''}'' # r"
    show "json_value n (json_dumps repr (JObj kvs) @ r) = Some (JObj kvs, r)"
    proof (cases kvs)
      case (Cons kv ys)
      obtain w where w: "?body = CHR 0x22 # w" by (cases kv; cases ys) (auto simp: Cons quoted_def)
      have "json_members m ?body = Some (kvs, r)"
        using n vs Cons by (intro members_read_back) (simp_all add: m)
      then show ?thesis using w JObj.prems by (simp add: m skip_ws_Cons_eq json_ws_def dict_of_distinct del: json_members.simps)
    qed (simp add: m skip_ws_Cons_eq json_ws_def)
  qed
next
  case JNull
  have "json_value (Suc m) (''null'' @ r) = Some (JNull, r)" for m r
    by (simp add: skip_ws_Cons_eq json_ws_def json_word_def json_words_def)
  then show ?case by (intro reads_backI) simp_all
next
  case (JBool b)
  have "json_value (Suc m) (json_dumps repr (JBool b) @ r) = Some (JBool b, r)" for m r
    by (simp add: skip_ws_Cons_eq json_ws_def json_word_def json_words_def)
  then show ?case by (intro reads_backI) simp_all
next
  case (JStr s)
  have "json_value (Suc m) (json_dumps repr (JStr s) @ r) = Some (JStr s, r)" for m r
    using json_string_quoted [of s r] by (simp add: quoted_def skip_ws_Cons_eq json_ws_def)
  then show ?case by (intro reads_backI) (simp_all add: quoted_def)
next
  case (JInt i)
  have "json_value (Suc m) (str_of_int i @ r) = Some (JInt i, r)" if "ends_value r" for m r
    by (rule json_value_int) (use that in simp_all)
  moreover have "str_of_int i \<noteq> []" by (auto simp: str_of_int_def) (metis list.distinct(1) str_of_nat_Cons)
  ultimately show ?case by (intro reads_backI) simp_all
qed simp_all

lemma json_reads_back:
  assumes "plain v"
  shows "json_loads (json_dumps repr v) = Some v"
proof -
  have "json_value (2 * length (json_dumps repr v) + 1) (json_dumps repr v @ []) = Some (v, [])"
    using plain_reads_back [OF assms, of repr] unfolding reads_back_def by (simp add: ends_value_def del: json_value.simps)
  then show ?thesis by (simp add: json_loads_def skip_ws_def del: json_value.simps)
qed

text \<open>
  What is written as JSON is read back. For every value without floats whose dictionaries
  have distinct keys, \<^verbatim>\<open>json.loads(json.dumps(v))\<close> is the value, whatever its strings contain.
\<close>

theorem json_roundtrip: "plain v \<Longrightarrow> json_loads (json_dumps repr v) = Some v"
  by (rule json_reads_back)

theorem json_roundtrip_witness:
  "let v = JObj [(''a\"b'', JArr [JInt (- 120), JBool True, JNull]), (''c'', JStr [NL, CHR 0x97])] in
   json_loads (json_dumps (\<lambda>r. []) v) = Some v"
  unfolding Let_def by (rule json_roundtrip) simp

end
