(* ===== verification/RecallLog.thy ===== *)
theory RecallLog
  imports JsonText Transcripts
begin

text \<open>
  \<^verbatim>\<open>memem/recall_log.py\<close>: the append-only log of recalls and citations, one JSON row per line,
  and its analysis. The log is the bytes of its file, \<open>None\<close> when there is none; \<open>src\<close> is the
  variable \<^verbatim>\<open>MEMEM_TELEMETRY_SOURCE\<close>.
\<close>

section \<open>Writing\<close>

definition no_floats :: "real \<Rightarrow> string" where
  "no_floats r = []"

definition append_row :: "turn \<Rightarrow> string option \<Rightarrow> string option" where
  "append_row row stored = Some ((case stored of None \<Rightarrow> [] | Some t \<Rightarrow> t) @ json_dumps no_floats (JObj row) @ [NL])"

definition recall_row ::
  "string \<Rightarrow> string \<Rightarrow> string \<Rightarrow> string \<Rightarrow> string list \<Rightarrow> int \<Rightarrow> string \<Rightarrow> string \<Rightarrow> turn" where
  "recall_row src stamp call_type query returned_ids latency_ms source session_id =
     [(''ts'', JStr stamp), (''call_type'', JStr call_type), (''query'', JStr (take 500 query)),
      (''returned_ids'', JArr (map JStr (take 20 returned_ids))), (''latency_ms'', JInt latency_ms),
      (''source'', JStr source)]
     @ (if session_id \<noteq> [] then [(''session_id'', JStr session_id)] else [])
     @ (if src \<noteq> [] then [(''source_tag'', JStr src)] else [])"

definition log_recall ::
  "string \<Rightarrow> string \<Rightarrow> string \<Rightarrow> string \<Rightarrow> string list \<Rightarrow> int \<Rightarrow> string \<Rightarrow> string \<Rightarrow> string option \<Rightarrow> string option" where
  "log_recall src stamp call_type query returned_ids latency_ms source session_id stored =
     (if src = ''test'' then stored
      else append_row (recall_row src stamp call_type query returned_ids latency_ms source session_id) stored)"

definition citation_entry :: "string \<Rightarrow> string \<Rightarrow> string \<Rightarrow> string list \<Rightarrow> string \<Rightarrow> turn" where
  "citation_entry src stamp session_id cited_ids source =
     [(''ts'', JStr stamp), (''type'', JStr ''citation''), (''session_id'', JStr session_id),
      (''cited_ids'', JArr (map JStr cited_ids)), (''source'', JStr source)]
     @ (if src \<noteq> [] then [(''source_tag'', JStr src)] else [])"

definition log_citation ::
  "string \<Rightarrow> string \<Rightarrow> string \<Rightarrow> string list \<Rightarrow> string \<Rightarrow> string option \<Rightarrow> string option" where
  "log_citation src stamp session_id cited_ids source stored =
     (if src = ''test'' then stored else append_row (citation_entry src stamp session_id cited_ids source) stored)"

section \<open>Reading\<close>

text \<open>
  The lines of the file in text mode, each decoded; a line that is no JSON is \<open>None\<close>. Bytes
  that are not UTF-8 raise.
\<close>

definition log_rows :: "string \<Rightarrow> json option list option" where
  "log_rows bytes = map_option (\<lambda>s. map (\<lambda>l. json_loads (strip l)) (text_lines s)) (decode_strict bytes)"

text \<open>\<open>Some None\<close>: a \<^verbatim>\<open>KeyError\<close> or \<^verbatim>\<open>ValueError\<close>, after which the row is skipped.\<close>

definition row_time :: "(int \<Rightarrow> int) \<Rightarrow> json option \<Rightarrow> int option option" where
  "row_time local v =
     (case v of
        None \<Rightarrow> Some None
      | Some (JStr s) \<Rightarrow>
          Some (map_option (\<lambda>(us, off). case off of None \<Rightarrow> local us | Some f \<Rightarrow> us - f) (fromisoformat s))
      | Some _ \<Rightarrow> None)"

fun all_some :: "'a option list \<Rightarrow> 'a list option" where
  "all_some [] = Some []"
| "all_some (x # xs) = (case x of None \<Rightarrow> None | Some y \<Rightarrow> map_option ((#) y) (all_some xs))"

text \<open>What a row adds: nothing, or itself.\<close>

definition recent_row :: "(int \<Rightarrow> int) \<Rightarrow> int \<Rightarrow> bool \<Rightarrow> json option \<Rightarrow> turn list option" where
  "recent_row local cutoff include_tagged line =
     (case line of
        None \<Rightarrow> Some []
      | Some (JObj e) \<Rightarrow>
          map_option (\<lambda>t. case t of
              None \<Rightarrow> []
            | Some ts \<Rightarrow> if ts < cutoff \<or> \<not> include_tagged \<and> json_truthy (jget e ''source_tag'') then [] else [e])
            (row_time local (map_of e ''ts''))
      | Some _ \<Rightarrow> None)"

definition is_citation :: "turn \<Rightarrow> bool" where
  "is_citation e \<longleftrightarrow> jget e ''type'' = JStr ''citation''"

section \<open>Analysis\<close>

text \<open>A dictionary key: \<^verbatim>\<open>True\<close>, \<^verbatim>\<open>1\<close> and \<^verbatim>\<open>1.0\<close> are the same key; lists and dictionaries are none.\<close>

definition py_key :: "json \<Rightarrow> json option" where
  "py_key v =
     (case v of
        JArr _ \<Rightarrow> None
      | JObj _ \<Rightarrow> None
      | JBool b \<Rightarrow> Some (JInt (of_bool b))
      | JReal r \<Rightarrow> Some (if r = real_of_int \<lfloor>r\<rfloor> then JInt \<lfloor>r\<rfloor> else JReal r)
      | _ \<Rightarrow> Some v)"

definition iterate :: "json \<Rightarrow> json list option" where
  "iterate v =
     (case v of
        JArr xs \<Rightarrow> Some xs
      | JStr s \<Rightarrow> Some (map (\<lambda>c. JStr [c]) s)
      | JObj d \<Rightarrow> Some (map (JStr \<circ> fst) d)
      | _ \<Rightarrow> None)"

definition ids_of :: "turn \<Rightarrow> string \<Rightarrow> json list option" where
  "ids_of e field = iterate (jor (jget e field) (JArr []))"

definition call_type_of :: "turn \<Rightarrow> json option" where
  "call_type_of e = py_key (jget_or e ''call_type'' (JStr ''?''))"

definition query_of :: "turn \<Rightarrow> string option" where
  "query_of e = (case jget_or e ''query'' (JStr []) of JStr s \<Rightarrow> Some (take 80 s) | _ \<Rightarrow> None)"

definition day_of :: "turn \<Rightarrow> string" where
  "day_of e = (case jget e ''ts'' of JStr s \<Rightarrow> take 10 s | _ \<Rightarrow> [])"

text \<open>Latencies are integers, as the writer makes them; any other value is left out of the model.\<close>

definition latency_of :: "turn \<Rightarrow> int option" where
  "latency_of e = (case jget_or e ''latency_ms'' (JInt 0) of JInt i \<Rightarrow> Some i | _ \<Rightarrow> None)"

definition median :: "int list \<Rightarrow> int" where
  "median xs =
     (let s = sort xs; n = length s in
      if n = 0 then 0 else if odd n then s ! (n div 2) else (s ! (n div 2 - 1) + s ! (n div 2)) div 2)"

definition add_to :: "'k \<Rightarrow> 'v list \<Rightarrow> ('k, 'v list) dict \<Rightarrow> ('k, 'v list) dict" where
  "add_to k vs d = AList.update k ((case map_of d k of None \<Rightarrow> [] | Some us \<Rightarrow> us) @ vs) d"

record analysis =
  a_total :: nat
  a_by_type :: "(json, nat) dict"
  a_top_queries :: "(string \<times> nat) list"
  a_median :: "(json \<times> int) list"
  a_per_day :: "(string, nat) dict"
  a_citation_rate :: "(json \<times> real) list"
  a_top_cited :: "(json \<times> nat) list"
  a_returned :: nat

definition no_analysis :: analysis where
  "no_analysis =
     \<lparr>a_total = 0, a_by_type = [], a_top_queries = [], a_median = [], a_per_day = [], a_citation_rate = [],
      a_top_cited = [], a_returned = 0\<rparr>"

text \<open>What is read off a recall row; \<open>None\<close> raises.\<close>

definition facts_of :: "turn \<Rightarrow> (json \<times> int \<times> string \<times> string \<times> json list) option" where
  "facts_of e =
     (case (call_type_of e, latency_of e, query_of e, ids_of e ''returned_ids'') of
        (Some ct, Some l, Some q, Some ids) \<Rightarrow> Some (ct, l, q, day_of e, ids)
      | _ \<Rightarrow> None)"

definition analyze_rows :: "(json \<Rightarrow> string) \<Rightarrow> turn list \<Rightarrow> analysis option" where
  "analyze_rows other rows =
     (case (all_some (map facts_of (filter (\<lambda>e. \<not> is_citation e) rows)),
            all_some (map (\<lambda>e. ids_of e ''cited_ids'') (filter is_citation rows))) of
        (Some facts, Some cited) \<Rightarrow>
          (case all_some (map py_key (concat cited)) of
             None \<Rightarrow> None
           | Some cited_keys \<Rightarrow>
               let short = (\<lambda>vs. map (\<lambda>v. id8 (py_text other v)) (filter json_truthy vs));
                   all_cited = set (short (concat cited));
                   returned = fold (\<lambda>(ct, _, _, _, ids). if ids = [] then id else add_to ct (short ids)) facts []
               in Some
                 \<lparr>a_total = length facts,
                  a_by_type = counter (map (\<lambda>(ct, _). ct) facts),
                  a_top_queries = most_common 10 (counter (map (\<lambda>(_, _, q, _). q) facts)),
                  a_median = map (\<lambda>(ct, ls). (ct, median ls)) (fold (\<lambda>(ct, l, _). add_to ct [l]) facts []),
                  a_per_day = counter (map (\<lambda>(_, _, _, d, _). d) facts),
                  a_citation_rate =
                    map (\<lambda>(ct, ids). (ct, if ids = [] then 0
                           else real (card (set ids \<inter> all_cited)) / real (card (set ids)))) returned,
                  a_top_cited = most_common 5 (counter cited_keys),
                  a_returned = sum_list (map (\<lambda>(_, _, _, _, ids). length ids) facts)\<rparr>)
      | _ \<Rightarrow> None)"

definition analyze_recalls ::
  "(json \<Rightarrow> string) \<Rightarrow> (int \<Rightarrow> int) \<Rightarrow> int \<Rightarrow> int \<Rightarrow> bool \<Rightarrow> string option \<Rightarrow> analysis option" where
  "analyze_recalls other local now days include_tagged stored =
     (case stored of
        None \<Rightarrow> Some no_analysis
      | Some bytes \<Rightarrow>
          Option.bind (log_rows bytes) (\<lambda>lines.
          Option.bind (all_some (map (recent_row local (now - days * (86400 * 1000000)) include_tagged) lines)) (\<lambda>rows.
            analyze_rows other (concat rows))))"

section \<open>The log reads back\<close>

lemma json_escape_printable: "d \<in> set (json_escape c) \<Longrightarrow> CHR '' '' \<le> d \<and> d \<le> CHR ''~''"
proof -
  have hex: "\<forall>n \<in> set [0..<16]. CHR '' '' \<le> low_hex n \<and> low_hex n \<le> CHR ''~''" by code_simp
  have "of_char c div 16 < (16 :: nat)" using of_char_less_256 [of c] by linarith
  then have "of_char c div 16 \<in> set [0..<16]" "of_char c mod 16 \<in> set [0..<16]" by simp_all
  with hex have "CHR '' '' \<le> low_hex (of_char c div 16)" "low_hex (of_char c div 16) \<le> CHR ''~''"
    "CHR '' '' \<le> low_hex (of_char c mod 16)" "low_hex (of_char c mod 16) \<le> CHR ''~''" by blast+
  then show "d \<in> set (json_escape c) \<Longrightarrow> CHR '' '' \<le> d \<and> d \<le> CHR ''~''"
    by (auto simp: json_escape_def less_eq_char_def split: if_splits)
qed

definition printable :: "string \<Rightarrow> bool" where
  "printable s \<longleftrightarrow> (\<forall>d \<in> set s. CHR '' '' \<le> d \<and> d \<le> CHR ''~'')"

lemma printable_simps [simp]:
  "printable []" "printable (c # s) \<longleftrightarrow> CHR '' '' \<le> c \<and> c \<le> CHR ''~'' \<and> printable s"
  "printable (s @ t) \<longleftrightarrow> printable s \<and> printable t"
  by (auto simp: printable_def)

lemma printable_quoted: "printable (quoted s)"
  using json_escape_printable by (fastforce simp: quoted_def printable_def less_eq_char_def)

lemma printable_join: "list_all printable ws \<Longrightarrow> printable (join '', '' ws)"
  by (induction "'', ''" ws rule: join.induct) (auto simp: less_eq_char_def)

lemma printable_int: "printable (str_of_int i)"
proof -
  have "CHR '' '' \<le> c \<and> c \<le> CHR ''~''" if "is_digit c" for c
    using that by (auto simp: is_digit_def less_eq_char_def)
  then show ?thesis using set_str_of_nat by (auto simp: str_of_int_def printable_def less_eq_char_def)
qed

lemma printable_dumps: "plain v \<Longrightarrow> printable (json_dumps repr v)"
proof (induction v)
  case (JArr xs)
  then have "list_all printable (map (json_dumps repr) xs)" by (auto simp: list_all_iff)
  then show ?case by (auto simp: printable_join less_eq_char_def)
next
  case (JObj kvs)
  then have "list_all printable (map (\<lambda>(k, v). quoted k @ '': '' @ json_dumps repr v) kvs)"
    by (fastforce simp: list_all_iff printable_quoted less_eq_char_def)
  then show ?case by (auto simp: printable_join less_eq_char_def)
qed (auto simp: printable_quoted printable_int less_eq_char_def)

text \<open>A log text: one printable line per row.\<close>

lemma utf8_points_ascii:
  assumes "\<forall>c \<in> set s. (of_char c :: nat) < 128"
  shows "utf8_points (s @ t) = map Some s @ utf8_points t"
  using assms by (induction s) (simp_all add: utf8_length_def)

lemma printable_ascii: "printable s \<Longrightarrow> \<forall>c \<in> set (s @ [NL]). (of_char c :: nat) < 128"
  by (fastforce simp: printable_def less_eq_char_def)

lemma decode_strict_ascii: "\<forall>c \<in> set s. (of_char c :: nat) < 128 \<Longrightarrow> decode_strict s = Some s"
  using utf8_points_ascii [of s "[]"] by (auto simp: decode_strict_def decode_ignore_def List.map_filter_def comp_def)

lemma text_lines_rows:
  assumes "list_all printable ls"
  shows "text_lines (concat (map (\<lambda>l. l @ [NL]) ls)) = ls @ [[]]"
proof -
  have clean: "NL \<notin> set l" "CHR 0x0D \<notin> set l" if "l \<in> set ls" for l
    using assms that by (fastforce simp: list_all_iff printable_def less_eq_char_def)+
  then have "split_char NL (concat (map (\<lambda>l. l @ [NL]) ls)) = ls @ [[]]"
    by (induction ls) (simp_all add: split_char_append)
  moreover have "concat (map (split_char (CHR 0x0D)) ls) = ls"
    using clean by (induction ls) (simp_all add: split_char_free)
  ultimately show ?thesis by (simp add: text_lines_def)
qed

datatype log_op =
    Recall string string string "string list" int string string
  | Cite string string "string list" string

fun row_of :: "string \<Rightarrow> log_op \<Rightarrow> turn" where
  "row_of src (Recall stamp ct q ids ms source sid) = recall_row src stamp ct q ids ms source sid"
| "row_of src (Cite stamp sid ids source) = citation_entry src stamp sid ids source"

fun run_log_op :: "string \<Rightarrow> log_op \<Rightarrow> string option \<Rightarrow> string option" where
  "run_log_op src (Recall stamp ct q ids ms source sid) = log_recall src stamp ct q ids ms source sid"
| "run_log_op src (Cite stamp sid ids source) = log_citation src stamp sid ids source"

lemma run_log_op_row: "run_log_op src op stored = (if src = ''test'' then stored else append_row (row_of src op) stored)"
  by (cases op) (simp_all add: log_recall_def log_citation_def)

lemma plain_row: "plain (JObj (row_of src op))"
  by (cases op) (auto simp: recall_row_def citation_entry_def list_all_iff)

definition row_text :: "string \<Rightarrow> log_op \<Rightarrow> string" where
  "row_text src op = json_dumps no_floats (JObj (row_of src op))"

lemma log_text:
  assumes "src \<noteq> ''test''"
  shows "fold (run_log_op src) ops (Some t) = Some (t @ concat (map (\<lambda>op. row_text src op @ [NL]) ops))"
  by (induction ops arbitrary: t) (simp_all add: assms run_log_op_row append_row_def row_text_def)

lemma log_rows_of_ops:
  "log_rows (concat (map (\<lambda>op. row_text src op @ [NL]) ops)) = Some (map (\<lambda>op. Some (JObj (row_of src op))) ops @ [None])"
proof -
  let ?ls = "map (row_text src) ops"
  have p: "printable (row_text src op)" for op using printable_dumps [OF plain_row] by (simp add: row_text_def)
  have ascii: "\<forall>c \<in> set (concat (map (\<lambda>l. l @ [NL]) ?ls)). (of_char c :: nat) < 128"
  proof
    fix c assume "c \<in> set (concat (map (\<lambda>l. l @ [NL]) ?ls))"
    then obtain op where "c \<in> set (row_text src op @ [NL])" by (auto simp only: set_concat set_map)
    then show "(of_char c :: nat) < 128" using printable_ascii [OF p [of op]] by blast
  qed
  have "json_loads (strip (row_text src op)) = Some (JObj (row_of src op))" for op
  proof -
    have "strip (row_text src op) = row_text src op"
      by (rule strip_stripped) (auto simp: row_text_def stripped_def py_space_def)
    then show ?thesis using json_reads_back [OF plain_row] by (simp add: row_text_def)
  qed
  moreover have "json_loads (strip []) = None" by code_simp
  moreover have "text_lines (concat (map (\<lambda>l. l @ [NL]) ?ls)) = ?ls @ [[]]"
    using p by (intro text_lines_rows) (simp add: list_all_iff)
  ultimately show ?thesis
    using decode_strict_ascii [OF ascii] by (simp add: log_rows_def comp_def)
qed

text \<open>
  The recall log keeps every row. Whatever queries, ids and sessions are logged, in any
  order, the file read back gives exactly the rows logged, in order, one per line; from the test
  source nothing is written.
\<close>

theorem recall_log_reads_back:
  "(case fold (run_log_op src) ops (Some []) of
      None \<Rightarrow> False
    | Some t \<Rightarrow> log_rows t = Some (map (\<lambda>op. Some (JObj (row_of src op))) (if src = ''test'' then [] else ops) @ [None]))"
proof (cases "src = ''test''")
  case True
  then have "fold (run_log_op src) ops (Some []) = Some []" by (induction ops) (simp_all add: run_log_op_row)
  moreover have "log_rows [] = Some [None]" by code_simp
  ultimately show ?thesis using True by simp
qed (simp add: log_text log_rows_of_ops)

section \<open>The analysis counts what was logged\<close>

lemma all_some_map: "(\<And>x. x \<in> set xs \<Longrightarrow> f x = Some (g x)) \<Longrightarrow> all_some (map f xs) = Some (map g xs)"
  by (induction xs) simp_all

fun is_recall :: "log_op \<Rightarrow> bool" where
  "is_recall (Recall _ _ _ _ _ _ _) = True"
| "is_recall (Cite _ _ _ _) = False"

fun stamp_of :: "log_op \<Rightarrow> string" where
  "stamp_of (Recall stamp _ _ _ _ _ _) = stamp"
| "stamp_of (Cite stamp _ _ _) = stamp"

fun returned_of :: "log_op \<Rightarrow> string list" where
  "returned_of (Recall _ _ _ ids _ _ _) = take 20 ids"
| "returned_of (Cite _ _ _ _) = []"

definition in_window :: "(int \<Rightarrow> int) \<Rightarrow> int \<Rightarrow> log_op \<Rightarrow> bool" where
  "in_window local cutoff op \<longleftrightarrow>
     (case row_time local (Some (JStr (stamp_of op))) of Some (Some ts) \<Rightarrow> ts \<ge> cutoff | _ \<Rightarrow> False)"

lemma recent_row_op:
  "in_window local cutoff op \<Longrightarrow> recent_row local cutoff tagged (Some (JObj (row_of [] op))) = Some [row_of [] op]"
  by (cases op) (auto simp: in_window_def recent_row_def recall_row_def citation_entry_def jget_def row_time_def
      split: option.splits)

lemma is_citation_op: "is_citation (row_of [] op) \<longleftrightarrow> \<not> is_recall op"
  by (cases op) (auto simp: is_citation_def recall_row_def citation_entry_def jget_def)

fun facts_of_op :: "log_op \<Rightarrow> json \<times> int \<times> string \<times> string \<times> json list" where
  "facts_of_op (Recall stamp ct q ids ms source sid) = (JStr ct, ms, take 80 (take 500 q), take 10 stamp, map JStr (take 20 ids))"
| "facts_of_op (Cite stamp sid ids source) = (JNull, 0, [], [], [])"

fun cited_of_op :: "log_op \<Rightarrow> json list" where
  "cited_of_op (Cite stamp sid ids source) = map JStr ids"
| "cited_of_op (Recall stamp ct q ids ms source sid) = []"

lemma facts_of_row: "is_recall op \<Longrightarrow> facts_of (row_of [] op) = Some (facts_of_op op)"
  by (cases op) (auto simp: facts_of_def recall_row_def call_type_of_def latency_of_def query_of_def ids_of_def day_of_def
      jget_def jget_or_def py_key_def iterate_def jor_def split: if_splits)

lemma cited_of_row: "\<not> is_recall op \<Longrightarrow> ids_of (row_of [] op) ''cited_ids'' = Some (cited_of_op op)"
  by (cases op) (auto simp: citation_entry_def ids_of_def jget_def iterate_def jor_def)

lemma all_some_append:
  "all_some xs = Some as \<Longrightarrow> all_some ys = Some bs \<Longrightarrow> all_some (xs @ ys) = Some (as @ bs)"
  by (induction xs arbitrary: as) (auto split: option.splits)

lemma sum_bump: "sum_list (map snd (bump n d k)) = n + sum_list (map snd d)"
  by (induction d) (auto simp: bump_def)

lemma sum_counter: "sum_list (map snd (counter xs)) = length xs"
proof -
  have "sum_list (map snd (foldl (bump 1) d xs)) = length xs + sum_list (map snd d)" for d :: "('a, nat) dict"
    by (induction xs arbitrary: d) (simp_all add: sum_bump del: One_nat_def)
  then show ?thesis by (simp add: counter_def)
qed

lemma rows_in_window:
  assumes "list_all (in_window local cutoff) ops"
  shows "all_some (map (recent_row local cutoff tagged) (map (\<lambda>op. Some (JObj (row_of [] op))) ops @ [None]))
    = Some (map (\<lambda>op. [row_of [] op]) ops @ [[]])"
proof -
  have "all_some (map (recent_row local cutoff tagged) (map (\<lambda>op. Some (JObj (row_of [] op))) ops)) = Some (map (\<lambda>op. [row_of [] op]) ops)"
    unfolding map_map comp_def using assms by (intro all_some_map recent_row_op) (simp add: list_all_iff)
  then show ?thesis unfolding map_append by (rule all_some_append) (simp add: recent_row_def)
qed

lemma facts_of_ops:
  "all_some (map facts_of (filter (\<lambda>e. \<not> is_citation e) (map (row_of []) ops))) = Some (map facts_of_op (filter is_recall ops))"
  using all_some_map [of "filter is_recall ops" "\<lambda>op. facts_of (row_of [] op)" facts_of_op] facts_of_row
  by (simp add: filter_map is_citation_op comp_def)

lemma cited_of_ops:
  "all_some (map (\<lambda>e. ids_of e ''cited_ids'') (filter is_citation (map (row_of []) ops)))
     = Some (map cited_of_op (filter (\<lambda>op. \<not> is_recall op) ops))"
  using all_some_map [of "filter (\<lambda>op. \<not> is_recall op) ops" "\<lambda>op. ids_of (row_of [] op) ''cited_ids''" cited_of_op] cited_of_row
  by (simp add: filter_map is_citation_op comp_def)

lemma cited_keys_of_ops:
  "all_some (map py_key (concat (map cited_of_op ops))) = Some (concat (map cited_of_op ops))"
proof -
  have "v \<in> set (cited_of_op op) \<Longrightarrow> py_key v = Some v" for v op by (cases op) (auto simp: py_key_def)
  then show ?thesis using all_some_map [of "concat (map cited_of_op ops)" py_key "\<lambda>v. v"] by fastforce
qed

lemma returned_by_ops:
  "sum_list (map (\<lambda>(_, _, _, _, ids). length ids) (map facts_of_op (filter is_recall ops))) = sum_list (map (\<lambda>op. length (returned_of op)) ops)"
  by (induction ops rule: list.induct) (simp, rename_tac op ops, case_tac op, simp_all)

text \<open>
  The analysis counts what was logged. For a log of recalls and citations of the production
  source whose times lie in the window, the analysis succeeds; its total, its counts by call
  type and by day each add up to the number of recalls, it counts every id returned (at most 20
  per recall), and every citation rate is between 0 and 1.
\<close>

theorem analysis_counts_recalls:
  assumes "list_all (in_window local (now - days * (86400 * 1000000))) ops"
  shows "\<exists>a. analyze_recalls other local now days tagged (fold (run_log_op []) ops (Some [])) = Some a
    \<and> a_total a = length (filter is_recall ops)
    \<and> sum_list (map snd (a_by_type a)) = a_total a \<and> sum_list (map snd (a_per_day a)) = a_total a
    \<and> a_returned a = sum_list (map (\<lambda>op. length (returned_of op)) ops)
    \<and> list_all (\<lambda>(ct, r). 0 \<le> r \<and> r \<le> 1) (a_citation_rate a)"
proof -
  let ?rates = "\<lambda>A. map (\<lambda>(ct, ids). (ct, if ids = [] then 0 else real (card (set ids \<inter> A)) / real (card (set ids))))"
  have rates: "list_all (\<lambda>(ct, r). 0 \<le> r \<and> r \<le> 1) (?rates A xs)" for A :: "string set" and xs :: "(json \<times> string list) list"
    by (auto simp: list_all_iff divide_le_eq_1 card_gt_0_iff intro!: card_mono)
  have log: "fold (run_log_op []) ops (Some []) = Some (concat (map (\<lambda>op. row_text [] op @ [NL]) ops))"
    using log_text [of "[]" ops "[]"] by simp
  have rows: "concat (map (\<lambda>op. [row_of [] op]) ops @ [[]]) = map (row_of []) ops" by (induction ops) simp_all
  have "analyze_recalls other local now days tagged (fold (run_log_op []) ops (Some [])) = analyze_rows other (map (row_of []) ops)"
    by (simp only: analyze_recalls_def log option.case log_rows_of_ops Option.bind.simps rows_in_window [OF assms] rows)
  moreover have "\<exists>a. analyze_rows other (map (row_of []) ops) = Some a
    \<and> a_total a = length (filter is_recall ops)
    \<and> sum_list (map snd (a_by_type a)) = a_total a \<and> sum_list (map snd (a_per_day a)) = a_total a
    \<and> a_returned a = sum_list (map (\<lambda>op. length (returned_of op)) ops)
    \<and> list_all (\<lambda>(ct, r). 0 \<le> r \<and> r \<le> 1) (a_citation_rate a)"
    unfolding analyze_rows_def facts_of_ops cited_of_ops option.case prod.case cited_keys_of_ops Let_def
    by (intro exI conjI, rule refl) (simp_all add: sum_counter returned_by_ops [unfolded map_map] rates)
  ultimately show ?thesis by simp
qed

definition sample_ops :: "log_op list" where
  "sample_ops =
     [Recall ''2026-04-01'' ''auto'' ''tabs?'' [''aaaaaaaa'', ''bbbbbbbb''] 12 ''hook'' ''s1'',
      Cite ''2026-04-01'' ''s1'' [''aaaaaaaa''] ''mine_delta'']"

theorem analysis_counts_recalls_witness:
  "\<exists>a. analyze_recalls (\<lambda>v. []) id 1775001600000000 7 False (fold (run_log_op []) sample_ops (Some [])) = Some a
    \<and> a_total a = 1 \<and> a_returned a = 2"
proof -
  have w: "list_all (in_window id (1775001600000000 - 7 * (86400 * 1000000))) sample_ops" by code_simp
  have "length (filter is_recall sample_ops) = 1" "sum_list (map (\<lambda>op. length (returned_of op)) sample_ops) = 2"
    by code_simp+
  then show ?thesis using analysis_counts_recalls [OF w, of "\<lambda>v. []" False] by auto
qed

end
