(* ===== verification/DreamApply.thy ===== *)
theory DreamApply
  imports Dreamer
begin

text \<open>
  The writing half of \<^verbatim>\<open>memem/dreamer.py\<close>: applying a diff to the vault, and the whole dream
  cycle under its lock. In a dry run nothing is written; in safe-auto mode only insights and
  tense rewrites are. Every exception of a write is caught and listed.
\<close>

record dreaming =
  q_store :: store
  q_fresh :: nat  \<comment> \<open>uuids drawn so far\<close>
  q_demoted :: nat
  q_invalidated :: nat
  q_clustered :: nat
  q_merged :: nat
  q_reflected :: nat
  q_rewritten :: nat
  q_errors :: "string list"

definition failed :: "string \<Rightarrow> dreaming \<Rightarrow> dreaming" where
  "failed msg q = q\<lparr>q_errors := q_errors q @ [msg]\<rparr>"

definition in_store :: "store \<Rightarrow> dreaming \<Rightarrow> dreaming" where
  "in_store s q = q\<lparr>q_store := s\<rparr>"

definition error_text :: "store_error \<Rightarrow> string" where
  "error_text e = (case e of ValueError msg \<Rightarrow> msg | ObsidianUnavailable \<Rightarrow> ''Obsidian vault not found'')"

text \<open>
  Changing a found memory in place and writing its note: the found dictionary is the cache's
  own, so the change stays in the cache even when the write fails.
\<close>

definition write_found :: "dream_env \<Rightarrow> clock \<Rightarrow> memory \<Rightarrow> store \<Rightarrow> (store_error + unit) \<times> store" where
  "write_found D clk m s =
     (let s = mutate_cached m s in
      case write_obsidian_memory (e_ext (d_env D)) clk m s of
        Inl e \<Rightarrow> (Inl e, s)
      | Inr (m, s) \<Rightarrow> (Inr (), mutate_cached m s))"

section \<open>Destructive categories\<close>

definition apply_demotion :: "dream_env \<Rightarrow> clock \<Rightarrow> bool \<Rightarrow> demotion \<Rightarrow> dreaming \<Rightarrow> dreaming" where
  "apply_demotion D clk destructive c q =
     (if dm_id c = [] then q
      else if \<not> destructive then q\<lparr>q_demoted := q_demoted q + 1\<rparr>
      else (case find_memory (e_ext (d_env D)) clk (dm_id c) (q_store q) of
              (None, s) \<Rightarrow> failed (''demote: not found '' @ dm_id c) (in_store s q)
            | (Some m, s) \<Rightarrow>
                if is_protected m then failed (''demote: protected '' @ dm_id c) (in_store s q)
                else (case write_found D clk (m\<lparr>layer := Some (dm_layer c)\<rparr>) s of
                        (Inl e, s) \<Rightarrow> failed (''demote '' @ dm_id c @ '': '' @ error_text e) (in_store s q)
                      | (Inr _, s) \<Rightarrow> in_store s (q\<lparr>q_demoted := q_demoted q + 1\<rparr>))))"

definition contradiction_prompt :: "pair \<Rightarrow> string" where
  "contradiction_prompt p =
     ''Two memories from a developer's vault contradict each other.'' @ [NL]
     @ ''Decide which is canonical (more recent, more specific, or more accurate).'' @ [NL, NL]
     @ ''Memory A (id='' @ p_a p @ '', created='' @ p_a_created p @ ''):'' @ [NL] @ ''  '' @ p_a_title p @ [NL, NL]
     @ ''Memory B (id='' @ p_b p @ '', created='' @ p_b_created p @ ''):'' @ [NL] @ ''  '' @ p_b_title p @ [NL, NL]
     @ ''Output ONLY a JSON object: {\"winner_id\": \"<id>\", \"loser_id\": \"<id>\", \"reasoning\": \"<one sentence>\"}''"

text \<open>The winner and the loser, each one of the pair's ids.\<close>

definition judge_contradiction :: "dream_env \<Rightarrow> pair \<Rightarrow> (string \<times> string) option" where
  "judge_contradiction D p =
     (case d_model D [] (contradiction_prompt p) of
        SpawnError _ \<Rightarrow> None
      | Finished code out err \<Rightarrow>
          if code \<noteq> 0 then None
          else (case Option.bind (upto_last (CHR ''}'') (dropWhile (\<lambda>c. c \<noteq> CHR ''{'') (strip out))) json_loads of
                  Some (JObj d) \<Rightarrow>
                    (case (jget d ''winner_id'', jget d ''loser_id'', slice 200 (jget_or d ''reasoning'' (JStr []))) of
                       (JStr w, JStr l, Some _) \<Rightarrow>
                         if w \<in> {p_a p, p_b p} \<and> l \<in> {p_a p, p_b p} then Some (w, l) else None
                     | _ \<Rightarrow> None)
                | _ \<Rightarrow> None))"

definition apply_contradiction :: "dream_env \<Rightarrow> clock \<Rightarrow> bool \<Rightarrow> pair \<Rightarrow> dreaming \<Rightarrow> dreaming" where
  "apply_contradiction D clk destructive p q =
     (if \<not> destructive then q\<lparr>q_invalidated := q_invalidated q + 1\<rparr>
      else (case judge_contradiction D p of
              None \<Rightarrow> failed (''contradiction: judgment failed '' @ p_a p @ '' vs '' @ p_b p) q
            | Some (winner, loser) \<Rightarrow>
                (case invalidate_memory (e_ext (d_env D)) clk loser (Some winner) (q_store q) of
                   (Inl e, s) \<Rightarrow> failed (''invalidate '' @ loser @ '': '' @ error_text e) (in_store s q)
                 | (Inr _, s) \<Rightarrow> in_store s (q\<lparr>q_invalidated := q_invalidated q + 1\<rparr>))))"

definition new_memory ::
  "dream_env \<Rightarrow> clock \<Rightarrow> string \<Rightarrow> string \<Rightarrow> string list \<Rightarrow> string \<Rightarrow> string \<Rightarrow> int \<Rightarrow> int option \<Rightarrow> dreaming \<Rightarrow> store_error + memory" where
  "new_memory D clk content ttl tags proj source imp lay q =
     make_memory scan_memory_content (e_uuid4 (d_env D) (q_fresh q)) (c_iso clk) content ttl tags proj source [] imp lay []"

definition drawn :: "dreaming \<Rightarrow> dreaming" where
  "drawn q = q\<lparr>q_fresh := q_fresh q + 1\<rparr>"

definition mark_constituent :: "dream_env \<Rightarrow> clock \<Rightarrow> string \<Rightarrow> string \<Rightarrow> dreaming \<Rightarrow> dreaming" where
  "mark_constituent D clk pattern_id i q =
     (case find_memory (e_ext (d_env D)) clk i (q_store q) of
        (None, s) \<Rightarrow> failed (''cluster constituent not found: '' @ i) (in_store s q)
      | (Some m, s) \<Rightarrow>
          (case write_found D clk (m\<lparr>clustered_into := Some pattern_id\<rparr>) s of
             (Inl e, s) \<Rightarrow> failed (''cluster constituent update '' @ i @ '': '' @ error_text e) (in_store s q)
           | (Inr _, s) \<Rightarrow> in_store s q))"

text \<open>The pattern's note is written without an entry in the index, the search table or the graph.\<close>

definition apply_summary :: "dream_env \<Rightarrow> clock \<Rightarrow> bool \<Rightarrow> summary \<Rightarrow> dreaming \<Rightarrow> dreaming" where
  "apply_summary D clk destructive p q =
     (if \<not> destructive then q
      else
        let fail = (\<lambda>e q. failed (''cluster pattern write failed for project '' @ s_project p @ '': '' @ error_text e) q) in
        (case new_memory D clk (s_content p) (s_title p) [''cluster-summary'', ''dreamer-synthesis''] (s_project p)
                ''user'' 3 (Some 2) q of
           Inl e \<Rightarrow> fail e q
         | Inr m \<Rightarrow>
             let q = drawn q in
             (case write_obsidian_memory (e_ext (d_env D)) clk m (q_store q) of
                Inl e \<Rightarrow> fail e q
              | Inr (m, s) \<Rightarrow>
                  let q = fold (mark_constituent D clk (mem_id m)) (s_ids p) (in_store s q)
                  in q\<lparr>q_clustered := q_clustered q + 1\<rparr>)))"

definition supporting_id8s :: "json list \<Rightarrow> string set" where
  "supporting_id8s xs = set (List.map_filter (\<lambda>v. case v of JStr s \<Rightarrow> Some (id8 s) | _ \<Rightarrow> None) xs)"

definition retire_member :: "dream_env \<Rightarrow> clock \<Rightarrow> string \<Rightarrow> string set \<Rightarrow> string \<Rightarrow> dreaming \<Rightarrow> dreaming" where
  "retire_member D clk canonical supporting i q =
     (if i = [] \<or> id8 i \<notin> supporting then q
      else (case find_memory (e_ext (d_env D)) clk i (q_store q) of
              (live, s) \<Rightarrow>
                let q = in_store s q in
                if (case live of None \<Rightarrow> False | Some m \<Rightarrow> is_protected m)
                then failed (''cluster_merge: member '' @ id8 i @ '' is protected '' @ [em_dash] @ '' not invalidated'') q
                else (case invalidate_memory (e_ext (d_env D)) clk i (Some canonical) s of
                        (Inl e, s) \<Rightarrow> failed (''cluster_merge: invalidate '' @ id8 i @ '': '' @ error_text e) (in_store s q)
                      | (Inr _, s) \<Rightarrow> in_store s q)))"

definition apply_merge :: "dream_env \<Rightarrow> clock \<Rightarrow> bool \<Rightarrow> merge \<Rightarrow> dreaming \<Rightarrow> dreaming" where
  "apply_merge D clk destructive p q =
     (if \<not> destructive then q\<lparr>q_merged := q_merged q + 1\<rparr>
      else
        let fail = (\<lambda>e q. failed (''cluster_merge: canonical save failed for project '' @ g_project p @ '': '' @ error_text e) q) in
        (case new_memory D clk (g_content p) (g_title p) (g_tags p) (g_project p) ''consolidated'' 3 None q of
           Inl e \<Rightarrow> fail e q
         | Inr m \<Rightarrow>
             let q = drawn q in
             (case save_memory (e_ext (d_env D)) (e_fts (d_env D)) clk m (q_store q) of
                (Inl e, s) \<Rightarrow> fail e (in_store s q)
              | (Inr m, s) \<Rightarrow>
                  let q = fold (retire_member D clk (mem_id m) (supporting_id8s (g_supporting p))) (g_ids p) (in_store s q)
                  in q\<lparr>q_merged := q_merged q + 1\<rparr>)))"

section \<open>Categories that only add\<close>

definition apply_insight :: "dream_env \<Rightarrow> clock \<Rightarrow> bool \<Rightarrow> insight \<Rightarrow> dreaming \<Rightarrow> dreaming" where
  "apply_insight D clk adding p q =
     (if \<not> adding then q\<lparr>q_reflected := q_reflected q + 1\<rparr>
      else
        let fail = (\<lambda>e q. failed (''reflection: save failed for '' @ [CHR 0x27] @ take 40 (i_name p) @ [CHR 0x27] @ '': '' @ error_text e) q) in
        (case new_memory D clk (i_body p) (i_name p) [''type:insight'', ''mined-reflection''] ''general'' ''mined'' 4 None q of
           Inl e \<Rightarrow> fail e q
         | Inr m \<Rightarrow>
             let q = drawn q; m = (if i_supporting p \<noteq> [] then m\<lparr>related := i_supporting p\<rparr> else m) in
             (case save_memory (e_ext (d_env D)) (e_fts (d_env D)) clk m (q_store q) of
                (Inl e, s) \<Rightarrow> fail e (in_store s q)
              | (Inr _, s) \<Rightarrow> in_store s (q\<lparr>q_reflected := q_reflected q + 1\<rparr>))))"

definition apply_rewrite :: "dream_env \<Rightarrow> clock \<Rightarrow> bool \<Rightarrow> rewrite \<Rightarrow> dreaming \<Rightarrow> dreaming" where
  "apply_rewrite D clk adding p q =
     (if \<not> adding then q\<lparr>q_rewritten := q_rewritten q + 1\<rparr>
      else if w_id p = [] \<or> w_essence p = [] then q
      else (case find_memory (e_ext (d_env D)) clk (w_id p) (q_store q) of
              (None, s) \<Rightarrow> failed (''tense_rewrite: memory not found '' @ id8 (w_id p)) (in_store s q)
            | (Some m, s) \<Rightarrow>
                let q = in_store s q in
                if is_protected m then failed (''tense_rewrite: protected memory '' @ id8 (w_id p)) q
                else if essence_sha D (essence m) \<noteq> w_hash p then q
                else if 2 * length (w_essence p) < length (essence m)
                then failed (''tense_rewrite: truncation guard fired on apply for '' @ id8 (w_id p) @ ''; skipping'') q
                else (case update_memory (e_ext (d_env D)) clk (w_id p) (w_essence p) [] [] [] s of
                        (Inl e, s) \<Rightarrow> failed (''tense_rewrite '' @ id8 (w_id p) @ '': '' @ error_text e) (in_store s q)
                      | (Inr _, s) \<Rightarrow> in_store s (q\<lparr>q_rewritten := q_rewritten q + 1\<rparr>))))"

section \<open>Applying a diff\<close>

definition dream_start :: "store \<Rightarrow> dreaming" where
  "dream_start s =
     \<lparr>q_store = s, q_fresh = 0, q_demoted = 0, q_invalidated = 0, q_clustered = 0, q_merged = 0,
      q_reflected = 0, q_rewritten = 0, q_errors = []\<rparr>"

definition apply_diff :: "dream_env \<Rightarrow> clock \<Rightarrow> bool \<Rightarrow> bool \<Rightarrow> diff \<Rightarrow> store \<Rightarrow> dreaming" where
  "apply_diff D clk dry_run safe_auto d s =
     (let destructive = (\<not> dry_run \<and> \<not> safe_auto); adding = (\<not> dry_run) in
      fold (apply_rewrite D clk adding) (x_rewrites d)
        (fold (apply_insight D clk adding) (x_insights d)
          (fold (apply_merge D clk destructive) (x_merges d)
            (fold (apply_summary D clk destructive) (x_summaries d)
              (fold (apply_contradiction D clk destructive) (x_pairs d)
                (fold (apply_demotion D clk destructive) (x_demotions d) (dream_start s)))))))"

section \<open>The cycle\<close>

text \<open>
  The state the cycle keeps beside the store: the diff log, by file name, and the file with the
  time of the last pass. \<open>held\<close> is another process's lock. \<open>None\<close>: building the diff raised,
  and nothing has been written but the cache of the notes.
\<close>

record dream_files =
  f_diffs :: "string \<rightharpoonup> diff"
  f_last_ts :: "string option"

record cycle =
  cy_path :: string
  cy_diff :: diff
  cy_result :: dreaming

definition write_diff_log :: "clock \<Rightarrow> diff \<Rightarrow> dream_files \<Rightarrow> string \<times> dream_files" where
  "write_diff_log clk d fs =
     (let path = replace_char (CHR '':'') ''-'' (take 19 (c_iso clk)) @ ''Z.json''
      in (path, fs\<lparr>f_diffs := (f_diffs fs)(path \<mapsto> d)\<rparr>))"

definition run_dream_cycle ::
  "dream_env \<Rightarrow> clock \<Rightarrow> bool \<Rightarrow> bool \<Rightarrow> bool \<Rightarrow> store \<Rightarrow> dream_files \<Rightarrow> cycle option option \<times> store \<times> dream_files" where
  \<comment> \<open>\<open>Some None\<close>: skipped, the lock is held\<close>
  "run_dream_cycle D clk held dry_run safe_auto s fs =
     (if held then (Some None, s, fs)
      else
        let (ms, s) = obsidian_memories (e_ext (d_env D)) clk None False s in
        (case build_diff D clk (f_last_ts fs) ms of
           None \<Rightarrow> (None, s, fs)
         | Some d \<Rightarrow>
             let (path, fs) = write_diff_log clk d fs;
                 q = apply_diff D clk dry_run safe_auto d s;
                 fs = (if dry_run then fs else fs\<lparr>f_last_ts := Some (c_iso clk)\<rparr>)
             in (Some (Some \<lparr>cy_path = path, cy_diff = d, cy_result = q\<rparr>), q_store q, fs)))"

section \<open>Modes\<close>

lemma held_back:
  "fold (apply_demotion D clk False) dms q
     = q\<lparr>q_demoted := q_demoted q + length (filter (\<lambda>c. dm_id c \<noteq> []) dms)\<rparr>"
  "fold (apply_contradiction D clk False) ps q = q\<lparr>q_invalidated := q_invalidated q + length ps\<rparr>"
  "fold (apply_summary D clk False) ss q = q"
  "fold (apply_merge D clk False) ms q = q\<lparr>q_merged := q_merged q + length ms\<rparr>"
  "fold (apply_insight D clk False) is q = q\<lparr>q_reflected := q_reflected q + length is\<rparr>"
  "fold (apply_rewrite D clk False) rs q = q\<lparr>q_rewritten := q_rewritten q + length rs\<rparr>"
  by (induction dms arbitrary: q, simp_all add: apply_demotion_def)
     (induction ps arbitrary: q, simp_all add: apply_contradiction_def,
      induction ss arbitrary: q, simp_all add: apply_summary_def,
      induction ms arbitrary: q, simp_all add: apply_merge_def,
      induction "is" arbitrary: q, simp_all add: apply_insight_def,
      induction rs arbitrary: q, simp_all add: apply_rewrite_def)

text \<open>
  C39: A dry run decides nothing. Whatever the models propose, a dry-run cycle leaves the search
  table, the graph, the index file and the event log as they were, adds or changes no note, and
  does not move the time of the last pass; its counts are what a full pass would be asked to do,
  with no error.
\<close>

theorem dry_run_changes_nothing:
  assumes "run_dream_cycle D clk held True safe_auto s fs = (r, t, fs')"
  shows "others t = others s \<and> (t = s \<or> t = snd (obsidian_memories (e_ext (d_env D)) clk None False s))
    \<and> f_last_ts fs' = f_last_ts fs
    \<and> (case r of Some (Some cy) \<Rightarrow>
          q_invalidated (cy_result cy) = length (x_pairs (cy_diff cy)) \<and> q_merged (cy_result cy) = length (x_merges (cy_diff cy))
          \<and> q_clustered (cy_result cy) = 0 \<and> q_errors (cy_result cy) = []
        | _ \<Rightarrow> t = s \<or> r = None)"
proof (cases held)
  case False
  obtain ms u where u: "obsidian_memories (e_ext (d_env D)) clk None False s = (ms, u)" by fastforce
  have "others u = others s" using others_memories [of "e_ext (d_env D)" clk None False s] u by simp
  moreover have "apply_diff D clk True safe_auto d u
    = (dream_start u)\<lparr>q_demoted := length (filter (\<lambda>c. dm_id c \<noteq> []) (x_demotions d)), q_invalidated := length (x_pairs d),
        q_merged := length (x_merges d), q_reflected := length (x_insights d), q_rewritten := length (x_rewrites d)\<rparr>" for d
    by (simp add: apply_diff_def held_back dream_start_def)
  ultimately show ?thesis
    using assms False u
    by (auto simp: run_dream_cycle_def write_diff_log_def Let_def dream_start_def split: option.splits)
qed (use assms in \<open>auto simp: run_dream_cycle_def\<close>)

lemma dreaming_fields [simp]:
  "q_store (drawn q) = q_store q" "q_reflected (drawn q) = q_reflected q" "q_rewritten (drawn q) = q_rewritten q"
  "q_store (failed msg q) = q_store q" "q_reflected (failed msg q) = q_reflected q" "q_rewritten (failed msg q) = q_rewritten q"
  "in_store t (in_store s q) = in_store t q"
  "q_fresh (drawn q) = q_fresh q + 1" "q_fresh (failed msg q) = q_fresh q" "q_fresh (in_store s q) = q_fresh q"
  "q_store (in_store s q) = s" "q_reflected (in_store s q) = q_reflected q" "q_rewritten (in_store s q) = q_rewritten q"
  by (simp_all add: drawn_def failed_def in_store_def)

lemma insight_kinds:
  "\<exists>k. kinds (q_store (apply_insight D clk True p q)) = kinds (q_store q) @ replicate k ''save''
     \<and> q_reflected (apply_insight D clk True p q) = q_reflected q + k
     \<and> q_rewritten (apply_insight D clk True p q) = q_rewritten q"
proof (cases "new_memory D clk (i_body p) (i_name p) [''type:insight'', ''mined-reflection''] ''general'' ''mined'' 4 None q")
  case (Inr m)
  define m' where "m' = (if i_supporting p \<noteq> [] then m\<lparr>related := i_supporting p\<rparr> else m)"
  obtain x t where x: "save_memory (e_ext (d_env D)) (e_fts (d_env D)) clk m' (q_store q) = (x, t)" by fastforce
  show ?thesis
  proof (cases x)
    case (Inr y)
    then show ?thesis
      using kinds_save(1) [OF x [unfolded Inr]] \<open>new_memory _ _ _ _ _ _ _ _ _ _ = Inr m\<close>
      by (intro exI [of _ 1]) (simp add: apply_insight_def Let_def m'_def [symmetric] x)
  next
    case (Inl e)
    then show ?thesis
      using kinds_save(2) [OF x [unfolded Inl]] Inr
      by (intro exI [of _ 0]) (simp add: apply_insight_def Let_def m'_def [symmetric] x)
  qed
qed (intro exI [of _ 0], simp add: apply_insight_def Let_def)

lemma rewrite_kinds:
  "\<exists>k. kinds (q_store (apply_rewrite D clk True p q)) = kinds (q_store q) @ replicate k ''update''
     \<and> q_rewritten (apply_rewrite D clk True p q) = q_rewritten q + k
     \<and> q_reflected (apply_rewrite D clk True p q) = q_reflected q"
proof -
  obtain a s where a: "find_memory (e_ext (d_env D)) clk (w_id p) (q_store q) = (a, s)" by fastforce
  obtain x t where x: "update_memory (e_ext (d_env D)) clk (w_id p) (w_essence p) [] [] [] s = (x, t)" by fastforce
  let ?r = "apply_rewrite D clk True p q"
  have t: "kinds t = kinds (q_store q) @ (case x of Inl e \<Rightarrow> [] | Inr u \<Rightarrow> [''update''])"
    using kinds_update [of "e_ext (d_env D)" clk "w_id p" "w_essence p" "[]" "[]" "[]" s] x kinds_find [OF a]
    by (cases x) auto
  have "?r \<in> {q, in_store s q} \<or> (\<exists>msg. ?r = failed msg (in_store s q)) \<or> (\<exists>msg e. x = Inl e \<and> ?r = failed msg (in_store t q))
    \<or> (\<exists>u. x = Inr u \<and> ?r = in_store t (q\<lparr>q_rewritten := q_rewritten q + 1\<rparr>))"
    by (cases a; cases x) (auto simp: apply_rewrite_def a x Let_def in_store_def)
  then show ?thesis
    using t kinds_find [OF a] by (auto intro: exI [of _ 0] exI [of _ 1])
qed

interpretation insights: tallied_step "\<lambda>q. kinds (q_store q)" "''save''" q_reflected q_rewritten "apply_insight D clk True" for D clk
  by unfold_locales (rule insight_kinds)

interpretation rewriting: tallied_step "\<lambda>q. kinds (q_store q)" "''update''" q_rewritten q_reflected "apply_rewrite D clk True" for D clk
  by unfold_locales (rule rewrite_kinds)

text \<open>What the steps depend on: the store and the ids drawn, not the counts.\<close>

definition core :: "dreaming \<Rightarrow> store \<times> nat" where
  "core q = (q_store q, q_fresh q)"

lemma core_insight:
  assumes "core q = core q'"
  shows "core (apply_insight D clk True p q) = core (apply_insight D clk True p q')"
proof -
  note core = assms [unfolded core_def, simplified]
  obtain z where z: "new_memory D clk (i_body p) (i_name p) [''type:insight'', ''mined-reflection''] ''general'' ''mined'' 4 None q' = z"
    "new_memory D clk (i_body p) (i_name p) [''type:insight'', ''mined-reflection''] ''general'' ''mined'' 4 None q = z"
    by (simp add: new_memory_def core)
  show ?thesis
  proof (cases z)
    case (Inr m)
    define m' where "m' = (if i_supporting p \<noteq> [] then m\<lparr>related := i_supporting p\<rparr> else m)"
    obtain x t where "save_memory (e_ext (d_env D)) (e_fts (d_env D)) clk m' (q_store q') = (x, t)" by fastforce
    then show ?thesis
      using core by (cases x) (simp_all add: apply_insight_def z Inr m'_def [symmetric] core_def Let_def)
  qed (use core in \<open>simp add: apply_insight_def z core_def Let_def\<close>)
qed

lemma core_rewrite:
  assumes "core q = core q'"
  shows "core (apply_rewrite D clk True p q) = core (apply_rewrite D clk True p q')"
proof -
  note core = assms [unfolded core_def, simplified]
  obtain a s where a: "find_memory (e_ext (d_env D)) clk (w_id p) (q_store q') = (a, s)" by fastforce
  obtain x t where "update_memory (e_ext (d_env D)) clk (w_id p) (w_essence p) [] [] [] s = (x, t)" by fastforce
  then show ?thesis
    using core by (cases a; cases x) (simp_all add: apply_rewrite_def a core_def Let_def)
qed

interpretation insight_core: respectful_step core "apply_insight D clk True" for D clk
  by unfold_locales (rule core_insight)

interpretation rewrite_core: respectful_step core "apply_rewrite D clk True" for D clk
  by unfold_locales (rule core_rewrite)

text \<open>
  C40: Safe-auto mode only adds. Applying a diff in safe-auto mode does to the vault exactly what
  a full application of the diff without its demotions, contradictions, summaries and merges
  does; its log grows by one save for each insight counted and one update for each rewrite
  counted, and by nothing else.
\<close>

theorem safe_auto_only_adds:
  "let q = apply_diff D clk False True d s;
       additive = d\<lparr>x_demotions := [], x_pairs := [], x_summaries := [], x_merges := []\<rparr> in
   q_store q = q_store (apply_diff D clk False False additive s)
   \<and> kinds (q_store q) = kinds s @ replicate (q_reflected q) ''save'' @ replicate (q_rewritten q) ''update''"
proof -
  define q0 where "q0 = (dream_start s)\<lparr>q_demoted := length (filter (\<lambda>c. dm_id c \<noteq> []) (x_demotions d)),
      q_invalidated := length (x_pairs d), q_merged := length (x_merges d)\<rparr>"
  define q1 where "q1 = fold (apply_insight D clk True) (x_insights d) q0"
  define q2 where "q2 = fold (apply_rewrite D clk True) (x_rewrites d) q1"
  have q2: "apply_diff D clk False True d s = q2"
    by (simp add: apply_diff_def held_back q2_def q1_def q0_def dream_start_def)
  obtain j where j: "kinds (q_store q1) = kinds (q_store q0) @ replicate j ''save''" "q_reflected q1 = q_reflected q0 + j"
    "q_rewritten q1 = q_rewritten q0"
    using insights.fold_tallied unfolding q1_def by blast
  obtain k where k: "kinds (q_store q2) = kinds (q_store q1) @ replicate k ''update''" "q_rewritten q2 = q_rewritten q1 + k"
    "q_reflected q2 = q_reflected q1"
    using rewriting.fold_tallied unfolding q2_def by blast
  define r0 where "r0 = dream_start s"
  define r1 where "r1 = fold (apply_insight D clk True) (x_insights d) r0"
  have "apply_diff D clk False False (d\<lparr>x_demotions := [], x_pairs := [], x_summaries := [], x_merges := []\<rparr>) s
    = fold (apply_rewrite D clk True) (x_rewrites d) r1"
    by (simp add: apply_diff_def r1_def r0_def)
  moreover have "core r1 = core q1"
    unfolding r1_def q1_def by (rule insight_core.fold_respects) (simp add: r0_def q0_def core_def)
  then have "core (fold (apply_rewrite D clk True) (x_rewrites d) r1) = core q2"
    unfolding q2_def by (rule rewrite_core.fold_respects)
  ultimately show ?thesis
    using j k by (simp add: q2 core_def Let_def q0_def dream_start_def)
qed

section \<open>Merging\<close>

lemma retire_kinds:
  "\<exists>k. kinds (q_store (retire_member D clk c S i q)) = kinds (q_store q) @ replicate k ''invalidate''
     \<and> k \<le> (if i \<noteq> [] \<and> id8 i \<in> S then 1 else 0) \<and> q_merged (retire_member D clk c S i q) = q_merged q"
proof (cases "i = [] \<or> id8 i \<notin> S")
  case False
  obtain live s where live: "find_memory (e_ext (d_env D)) clk i (q_store q) = (live, s)" by fastforce
  obtain x t where x: "invalidate_memory (e_ext (d_env D)) clk i (Some c) s = (x, t)" by fastforce
  obtain k where k: "kinds t = kinds (q_store q) @ replicate k ''invalidate''" "k \<le> 1"
    using kinds_invalidate [of "e_ext (d_env D)" clk i "Some c" s] x kinds_find [OF live]
    by (cases x) (auto intro: that [of 0] that [of 1] split: if_splits)
  let ?r = "retire_member D clk c S i q"
  have "q_merged ?r = q_merged q" "q_store ?r = s \<or> q_store ?r = t"
    using False by (cases x; auto simp: retire_member_def live x Let_def in_store_def failed_def)+
  then show ?thesis using k kinds_find [OF live] False by (auto intro: exI [of _ 0])
qed (auto simp: retire_member_def)

lemma retire_all_kinds:
  "\<exists>k. kinds (q_store (fold (retire_member D clk c S) is q)) = kinds (q_store q) @ replicate k ''invalidate''
     \<and> k \<le> length (filter (\<lambda>i. i \<noteq> [] \<and> id8 i \<in> S) is) \<and> q_merged (fold (retire_member D clk c S) is q) = q_merged q"
proof (induction "is" arbitrary: q)
  case (Cons i "is")
  let ?q = "retire_member D clk c S i q"
  obtain k where k: "kinds (q_store ?q) = kinds (q_store q) @ replicate k ''invalidate''"
    "k \<le> (if i \<noteq> [] \<and> id8 i \<in> S then 1 else 0)" "q_merged ?q = q_merged q" using retire_kinds by blast
  obtain j where "kinds (q_store (fold (retire_member D clk c S) is ?q)) = kinds (q_store ?q) @ replicate j ''invalidate''"
    "j \<le> length (filter (\<lambda>i. i \<noteq> [] \<and> id8 i \<in> S) is)" "q_merged (fold (retire_member D clk c S) is ?q) = q_merged ?q"
    using Cons by blast
  then show ?case using k by (intro exI [of _ "k + j"]) (auto simp: replicate_add split: if_splits)
qed simp

text \<open>
  A merge retires only what it covers, and only after it is saved. Applying a merge either
  fails and adds nothing to the log, or logs the save of the canonical memory first and after it
  at most one invalidation for each cluster member whose 8-character id the model's answer
  names as covered.
\<close>

theorem merge_retires_only_supported:
  "let q' = apply_merge D clk True p q;
       covered = filter (\<lambda>i. i \<noteq> [] \<and> id8 i \<in> supporting_id8s (g_supporting p)) (g_ids p) in
   (q_merged q' = q_merged q \<and> kinds (q_store q') = kinds (q_store q))
   \<or> (\<exists>k \<le> length covered. q_merged q' = q_merged q + 1
        \<and> kinds (q_store q') = kinds (q_store q) @ ''save'' # replicate k ''invalidate'')"
proof (cases "new_memory D clk (g_content p) (g_title p) (g_tags p) (g_project p) ''consolidated'' 3 None q")
  case (Inr m)
  obtain x t where x: "save_memory (e_ext (d_env D)) (e_fts (d_env D)) clk m (q_store q) = (x, t)" by fastforce
  show ?thesis
  proof (cases x)
    case (Inl e)
    then show ?thesis
      using kinds_save(2) [OF x [unfolded Inl]] \<open>new_memory _ _ _ _ _ _ _ _ _ _ = Inr m\<close>
      by (simp add: apply_merge_def x Let_def failed_def in_store_def drawn_def)
  next
    case (Inr m')
    let ?S = "supporting_id8s (g_supporting p)"
    obtain k where k: "kinds (q_store (fold (retire_member D clk (mem_id m') ?S) (g_ids p) (in_store t (drawn q))))
        = kinds t @ replicate k ''invalidate''" "k \<le> length (filter (\<lambda>i. i \<noteq> [] \<and> id8 i \<in> ?S) (g_ids p))"
      "q_merged (fold (retire_member D clk (mem_id m') ?S) (g_ids p) (in_store t (drawn q))) = q_merged q"
      using retire_all_kinds [of D clk "mem_id m'" ?S "g_ids p" "in_store t (drawn q)"] by (auto simp: in_store_def drawn_def)
    then show ?thesis
      using kinds_save(1) [OF x [unfolded Inr]] \<open>new_memory _ _ _ _ _ _ _ _ _ _ = Inr m\<close>
      unfolding Let_def by (intro disjI2 exI [of _ k]) (auto simp: apply_merge_def x Inr Let_def)
  qed
qed (simp add: apply_merge_def Let_def failed_def)

text \<open>
  A protected memory survives the dreamer. When the memory a proposal names turns out to be
  protected at the time of applying (it was promoted after the diff was built), a demotion, the
  retirement of a merge's member and a rewrite leave the store as looking the memory up left it.
\<close>

lemma protected_target_left_alone:
  assumes "find_memory (e_ext (d_env D)) clk i (q_store q) = (Some m, s)" "is_protected m"
  shows "dm_id c = i \<Longrightarrow> q_store (apply_demotion D clk True c q) \<in> {q_store q, s}"
    and "q_store (retire_member D clk canonical supporting i q) \<in> {q_store q, s}"
    and "w_id p = i \<Longrightarrow> q_store (apply_rewrite D clk True p q) \<in> {q_store q, s}"
  using assms by (auto simp: apply_demotion_def retire_member_def apply_rewrite_def Let_def)

section \<open>What goes wrong\<close>

text \<open>
  The judgment accepts one id as both winner and loser; the memory is then invalidated in favour
  of itself, and its rival stays.
\<close>

definition sample_pair :: pair where
  "sample_pair = \<lparr>p_a = ''a'', p_a_title = ''A'', p_b = ''b'', p_b_title = ''B'', p_a_created = [], p_b_created = []\<rparr>"

lemma winner_may_be_loser:
  "judge_contradiction (sample_dream\<lparr>d_model := \<lambda>sys prompt. Finished 0 ''{\"winner_id\":\"a\",\"loser_id\":\"a\"}'' []\<rparr>) sample_pair
     = Some (''a'', ''a'')"
  by code_simp

text \<open>
  The episodes an insight cites are put into its related ids, but saving replaces these by the
  graph's suggestions whenever there is one.
\<close>

lemma suggestions_replace_citations:
  assumes "contradicted X fm clk (essence m) (project m) s = ([], u)" "essence m \<noteq> []" "mem_id m \<noteq> []"
    and "suggest_for X clk (m\<lparr>related := cited\<rparr>) 3 u = (suggested, v)" "suggested \<noteq> []"
  shows "related (fst (prepare_save X fm clk (m\<lparr>related := cited\<rparr>) s)) = suggested"
  using assms by (simp add: prepare_save_def)

theorem dry_run_changes_nothing_witness:
  "\<exists>r t fs'. run_dream_cycle sample_dream sample_clock False True False empty_store \<lparr>f_diffs = Map.empty, f_last_ts = Some ''2026''\<rparr>
       = (r, t, fs') \<and> others t = others empty_store \<and> f_last_ts fs' = Some ''2026''"
proof -
  let ?fs = "\<lparr>f_diffs = Map.empty, f_last_ts = Some ''2026''\<rparr>"
  obtain r t fs' where r: "run_dream_cycle sample_dream sample_clock False True False empty_store ?fs = (r, t, fs')"
    using prod_cases3 by blast
  with dry_run_changes_nothing [OF r] show ?thesis by auto
qed

end
