(* ===== verification/MineRun.thy ===== *)
theory MineRun
  imports Reconcile RecallLog Feedback Telemetry
begin

text \<open>
  \<^verbatim>\<open>run\<close> of \<^verbatim>\<open>memem/mine_delta.py\<close>: one pass over the new part of a transcript, with the state
  files it keeps per session, the episode it writes, the citations it logs and the counter that
  starts the dreamer. Steps 5 to 10 run under the session's lock.
\<close>

section \<open>State\<close>

record mining =
  n_offsets :: "(string, nat) dict"  \<comment> \<open>a missing or malformed file reads as 0\<close>
  n_streaks :: "(string, streak) dict"
  n_mined :: "string option"         \<comment> \<open>text of \<^verbatim>\<open>.mined_sessions\<close>\<close>
  n_counter :: "int option"          \<comment> \<open>dream counter, \<open>None\<close>: missing or malformed\<close>
  n_log :: "string option"           \<comment> \<open>recall log\<close>
  n_table :: tdb
  n_scores :: scores_file
  n_world :: world
  n_passes :: nat                    \<comment> \<open>dream passes started\<close>

record mine_env =
  k_env :: env
  k_mine :: "string \<Rightarrow> proc"
  k_episode :: "string \<Rightarrow> proc"
  k_home :: string
  k_cwd :: string
  k_auto :: bool      \<comment> \<open>\<^verbatim>\<open>MEMEM_DREAM_AUTO\<close> is not 0\<close>
  k_source :: string  \<comment> \<open>\<^verbatim>\<open>MEMEM_TELEMETRY_SOURCE\<close>\<close>
  k_now :: int
  k_recalls :: json_file

definition read_offset :: "string \<Rightarrow> mining \<Rightarrow> nat" where
  "read_offset sid n = (case map_of (n_offsets n) sid of None \<Rightarrow> 0 | Some i \<Rightarrow> i)"

definition write_offset :: "string \<Rightarrow> nat \<Rightarrow> mining \<Rightarrow> mining" where
  "write_offset sid i n = n\<lparr>n_offsets := AList.update sid i (n_offsets n)\<rparr>"

definition write_empty_streak :: "string \<Rightarrow> streak \<Rightarrow> mining \<Rightarrow> mining" where
  "write_empty_streak sid s n = n\<lparr>n_streaks := AList.update sid s (n_streaks n)\<rparr>"

definition record_mined_session :: "string \<Rightarrow> mining \<Rightarrow> mining" where
  "record_mined_session sid n =
     (let t = (case n_mined n of None \<Rightarrow> [] | Some t \<Rightarrow> t) in
      if sid \<in> set (splitlines t) then n else n\<lparr>n_mined := Some (t @ sid @ [NL])\<rparr>)"

definition touched :: "string \<Rightarrow> nat \<Rightarrow> mining \<Rightarrow> mining" where
  "touched sid eof n = record_mined_session sid (write_offset sid eof n)"

section \<open>The episode\<close>

definition episode_prompt :: "string list \<Rightarrow> string" where
  "episode_prompt messages =
     ''=== BEGIN CONVERSATION ==='' @ [NL] @ join [NL, NL] messages @ [NL] @ ''=== END CONVERSATION ==='' @ [NL, NL]
     @ ''Summarize per the system instructions above.''"

text \<open>A message of the harness, not of the user.\<close>

definition harness_message :: "string \<Rightarrow> bool" where
  "harness_message s \<longleftrightarrow> strip s = [] \<or> starts_with (strip s) ''<'' \<or> starts_with (strip s) ''Caveat:''"

definition episode_title :: "string \<Rightarrow> string \<Rightarrow> string" where
  "episode_title sid first_user_msg =
     ''Session '' @ id8 sid @ '' '' @ [em_dash] @ '' ''
     @ or_else (if harness_message first_user_msg then [] else take 80 (strip first_user_msg)) ''(no user prompt)''"

text \<open>The episode of the session: under its stable id, or an older one found by its tag.\<close>

definition session_tag :: "string \<Rightarrow> string" where
  "session_tag sid = ''session:'' @ sid"

definition existing_episode :: "mine_env \<Rightarrow> clock \<Rightarrow> string \<Rightarrow> store \<Rightarrow> (memory option \<times> string) \<times> store" where
  "existing_episode K clk sid s =
     (let i = e_uuid5 (k_env K) (''memem-episode:'' @ sid); X = e_ext (k_env K) in
      case find_memory X clk i s of
        (Some m, s) \<Rightarrow> ((Some m, i), s)
      | (None, s) \<Rightarrow>
          let (ms, s) = obsidian_memories X clk None False s in
          (case find (\<lambda>m. source_type m = ''mined-episode'' \<and> session_tag sid \<in> set (domain_tags m)) ms of
             None \<Rightarrow> ((None, i), s)
           | Some m \<Rightarrow> ((Some m, or_else (mem_id m) i), s)))"

definition emit_session_episode ::
  "mine_env \<Rightarrow> clock \<Rightarrow> string \<Rightarrow> string list \<Rightarrow> string \<Rightarrow> string \<Rightarrow> store \<Rightarrow> bool \<times> store" where
  "emit_session_episode K clk sid messages first_user_msg path s =
     (case k_episode K (episode_prompt messages) of
        SpawnError _ \<Rightarrow> (False, s)
      | Finished code out err \<Rightarrow>
          let summary = strip out in
          if code \<noteq> 0 \<or> summary = [] then (False, s)
          else
            let proj = (if path \<noteq> [] then project_from_transcript_path (k_home K) path else or_else (k_cwd K) ''general'');
                ((found, i), s) = existing_episode K clk sid s;
                ttl = (case found of Some m \<Rightarrow> title m | None \<Rightarrow> episode_title sid first_user_msg)
            in (case make_memory scan_memory_content [] (c_iso clk) summary ttl [''type:episodic'', session_tag sid]
                       proj ''mined-episode'' sid 3 None [] of
                  Inl _ \<Rightarrow> (False, s)
                | Inr m \<Rightarrow>
                    let m = m\<lparr>mem_id := i\<rparr>;
                        m = (case found of
                               None \<Rightarrow> m
                             | Some e \<Rightarrow> m\<lparr>obsidian_file := obsidian_file e, mem_file := mem_file e, created_at := created_at e\<rparr>)
                    in (case save_memory (e_ext (k_env K)) (e_fts (k_env K)) clk m s of
                          (Inl _, s) \<Rightarrow> (False, s)
                        | (Inr _, s) \<Rightarrow> (True, s))))"

section \<open>Citations\<close>

definition RECALL_LOG_TAIL_LINES :: nat where "RECALL_LOG_TAIL_LINES = 200"
definition RECALL_MATCH_WINDOW_US :: int where "RECALL_MATCH_WINDOW_US = 30 * 60 * 1000000"
definition LOG_TAIL_BYTES :: nat where "LOG_TAIL_BYTES = 64 * 1024"

definition load_recall_log_tail :: "string option \<Rightarrow> json list" where
  "load_recall_log_tail stored =
     (case stored of
        None \<Rightarrow> []
      | Some bs \<Rightarrow>
          let ls = splitlines (decode_replace (drop (length bs - LOG_TAIL_BYTES) bs));
              ls = (if length bs > LOG_TAIL_BYTES then drop 1 ls else ls)
          in List.map_filter (\<lambda>l. if strip l = [] then None else json_loads (strip l))
               (drop (length ls - RECALL_LOG_TAIL_LINES) ls))"

text \<open>The ids a row offers to a session; \<open>None\<close> raises.\<close>

definition row_ids :: "int \<Rightarrow> string \<Rightarrow> json \<Rightarrow> json list option" where
  "row_ids now sid row =
     (case row of
        JObj e \<Rightarrow>
          if is_citation e then Some []
          else
            let row_session = jget_or e ''session_id'' (JStr []) in
            if json_truthy row_session
            then (if row_session = JStr sid then ids_of e ''returned_ids'' else Some [])
            else (case jget_or e ''ts'' (JStr []) of
                    JStr ts \<Rightarrow>
                      (case parse_iso_dt ts of
                         Some t \<Rightarrow> if \<bar>now - t\<bar> \<le> RECALL_MATCH_WINDOW_US then ids_of e ''returned_ids'' else Some []
                       | None \<Rightarrow> Some [])
                  | v \<Rightarrow> if json_truthy v then None else Some [])
      | _ \<Rightarrow> None)"

definition hex8_re :: re where
  "hex8_re =
     cats (WordB # replicate 8 (Chars (\<lambda>c. is_digit c \<or> CHR ''a'' \<le> c \<and> c \<le> CHR ''f'')) @ [WordB])"

definition assistant_tokens :: "(json \<times> string) list \<Rightarrow> string list" where
  "assistant_tokens rts =
     concat (map (\<lambda>(role, txt). if role = JStr ''assistant'' then re_findall hex8_re txt else []) rts)"

definition cited_ids :: "int \<Rightarrow> string \<Rightarrow> (json \<times> string) list \<Rightarrow> json list \<Rightarrow> string list option" where
  "cited_ids now sid rts logged =
     (case all_some (map (row_ids now sid) logged) of
        None \<Rightarrow> None
      | Some idss \<Rightarrow>
          if \<not> list_all hashable (concat idss) then None
          else map_option (\<lambda>ids. sort (filter (\<lambda>t. t \<in> set (map id8 ids)) (uniq (assistant_tokens rts))))
            (strings_of (filter json_truthy (concat idss))))"

definition emit_citations_if_any :: "mine_env \<Rightarrow> clock \<Rightarrow> string \<Rightarrow> (json \<times> string) list \<Rightarrow> mining \<Rightarrow> mining" where
  "emit_citations_if_any K clk sid rts n =
     (case cited_ids (k_now K) sid rts (load_recall_log_tail (n_log n)) of
        Some cited \<Rightarrow>
          if cited = [] then n
          else n\<lparr>n_log := log_citation (k_source K) (c_iso clk) sid cited ''mine_delta'' (n_log n)\<rparr>
      | None \<Rightarrow> n)"

section \<open>The steps under the lock\<close>

definition extraction_input :: "(json \<Rightarrow> string) \<Rightarrow> turn list \<Rightarrow> string list \<Rightarrow> string option" where
  "extraction_input other turns messages =
     map_option (\<lambda>digest. join [NL, NL] messages
         @ (if digest \<noteq> [] then [NL, NL] @ ''=== TOOL TRACE (digest) ==='' @ [NL] @ digest else []))
       (build_tool_digest other turns)"

definition extract_memories :: "mine_env \<Rightarrow> turn list \<Rightarrow> string list \<Rightarrow> item list" where
  "extract_memories K turns messages =
     (case extraction_input (e_text (k_env K)) turns messages of
        None \<Rightarrow> []
      | Some blob \<Rightarrow> (case extract_from_text (k_mine K) blob of Inl _ \<Rightarrow> [] | Inr items \<Rightarrow> items))"

definition annotation_paths :: "mine_env \<Rightarrow> turn list \<Rightarrow> string list" where
  "annotation_paths K turns =
     (case extract_dominant_paths (e_text (k_env K)) turns of
        Some ps \<Rightarrow> if length ps \<ge> 2 then ps else []
      | None \<Rightarrow> [])"

definition first_user_message :: "(json \<times> string) list \<Rightarrow> string" where
  "first_user_message rts =
     (case find (\<lambda>(role, txt). role = JStr ''user'' \<and> \<not> harness_message txt) rts of
        None \<Rightarrow> [] | Some (_, txt) \<Rightarrow> txt)"

definition feedback_step :: "mine_env \<Rightarrow> string \<Rightarrow> string list \<Rightarrow> mining \<Rightarrow> mining" where
  "feedback_step K sid messages n =
     (case get_session_recalls sid (k_recalls K) of
        Inl _ \<Rightarrow> n
      | Inr v \<Rightarrow>
          (case Option.bind (if json_truthy v then iterate v else Some []) strings_of of
             None \<Rightarrow> n
           | Some recalled \<Rightarrow>
               n\<lparr>n_scores := update_relevance_scores recalled (classify_session_outcome messages) (n_scores n)\<rparr>))"

definition DREAM_COUNTER_THRESHOLD :: int where "DREAM_COUNTER_THRESHOLD = 25"

definition dream_counter_step :: "mine_env \<Rightarrow> mining \<Rightarrow> mining" where
  "dream_counter_step K n =
     (let c = (case n_counter n of None \<Rightarrow> 0 | Some i \<Rightarrow> i) + 1 in
      if c \<ge> DREAM_COUNTER_THRESHOLD \<and> k_auto K
      then n\<lparr>n_counter := Some 0, n_passes := n_passes n + 1\<rparr>
      else n\<lparr>n_counter := Some c\<rparr>)"

definition mine_turns ::
  "mine_env \<Rightarrow> clock \<Rightarrow> string \<Rightarrow> sfile \<Rightarrow> turn list \<Rightarrow> (json \<times> string) list \<Rightarrow> nat \<Rightarrow> mining \<Rightarrow> mining" where
  "mine_turns K clk sid f turns rts eof n =
     (let messages = messages_of rts;
          items = extract_memories K turns messages;
          cands = map (candidate_of (k_env K) (annotation_paths K turns)) items;
          n = write_empty_streak sid (streak_mined (items \<noteq> []) (read_empty_streak (map_of (n_streaks n) sid))) n;
          (w, _) = reconcile_or_fallback (k_env K) clk sid cands (n_world n);
          w = (if items \<noteq> [] \<and> length turns \<ge> 3
               then w\<lparr>w_store := snd (emit_session_episode K clk sid messages (first_user_message rts) (f_path f) (w_store w))\<rparr>
               else w);
          n = emit_citations_if_any K clk sid rts (n\<lparr>n_world := w\<rparr>);
          n = n\<lparr>n_table := index_session (e_text (k_env K)) (k_home K) f (n_table n)\<rparr>;
          n = feedback_step K sid messages n;
          n = write_offset sid eof n;
          n = (if items \<noteq> [] then dream_counter_step K n else n)
      in record_mined_session sid n)"

section \<open>A run\<close>

text \<open>\<open>held\<close>: another run of the session has the lock. \<open>None\<close>: a \<^verbatim>\<open>TypeError\<close> before any write.\<close>

definition mine_run :: "mine_env \<Rightarrow> clock \<Rightarrow> bool \<Rightarrow> string \<Rightarrow> sfile \<Rightarrow> mining \<Rightarrow> mining option" where
  "mine_run K clk held sid f n =
     (let (turns, eof) = read_delta (f_bytes f) (read_offset sid n) in
      if turns = [] then Some (touched sid eof n)
      else (case (turns_to_text (e_text (k_env K)) turns, role_texts turns) of
              (Some delta, Some rts) \<Rightarrow>
                if is_trivial_delta delta then Some (touched sid eof n)
                else if held then Some n
                else
                  let s = read_empty_streak (map_of (n_streaks n) sid) in
                  if backs_off s then Some (touched sid eof (write_empty_streak sid (streak_skipped s) n))
                  else Some (mine_turns K clk sid f turns rts eof n)
            | _ \<Rightarrow> None))"


section \<open>What a run leaves behind\<close>

lemma splitlines_acc_cut:
  "splitlines_acc cur (u @ NL # s) = splitlines_acc cur (u @ [NL]) @ splitlines_acc [] s"
proof (induction cur u rule: splitlines_acc.induct)
  case (1 cur)
  show ?case by (cases s) auto
next
  case (2 cur c)
  show ?case by (cases s) auto
next
  case (3 cur c d u)
  then show ?case by simp
qed

lemma splitlines_add_line:
  assumes "\<forall>c \<in> set w. \<not> line_break c" and "t = [] \<or> last t = NL"
  shows "splitlines (t @ w @ [NL]) = splitlines t @ [w]"
proof (cases "t = []")
  case True
  then show ?thesis using splitlines_line [OF assms(1), of "[]"] by simp
next
  case False
  with assms(2) have "t = butlast t @ [NL]" by (metis append_butlast_last_id)
  then have "splitlines (t @ w @ [NL]) = splitlines_acc [] (butlast t @ NL # (w @ [NL]))"
    by (metis append.assoc append_Cons append_Nil splitlines_def)
  also have "\<dots> = splitlines t @ splitlines (w @ [NL])"
    using \<open>t = butlast t @ [NL]\<close> splitlines_acc_cut [of "[]" "butlast t" "w @ [NL]"]
    by (simp add: splitlines_def)
  finally show ?thesis using splitlines_line [OF assms(1), of "[]"] by simp
qed

definition mined_sessions :: "mining \<Rightarrow> string list" where
  "mined_sessions n = splitlines (case n_mined n of None \<Rightarrow> [] | Some t \<Rightarrow> t)"

definition mined_lines :: "mining \<Rightarrow> bool" where
  "mined_lines n \<longleftrightarrow> (case n_mined n of None \<Rightarrow> True | Some t \<Rightarrow> t = [] \<or> last t = NL)"

definition session_name :: "string \<Rightarrow> bool" where
  "session_name sid \<longleftrightarrow> (\<forall>c \<in> set sid. \<not> line_break c)"

lemma record_mined_session_mined:
  assumes "session_name sid" and "mined_lines n"
  shows "mined_sessions (record_mined_session sid n) = (if sid \<in> set (mined_sessions n) then mined_sessions n else mined_sessions n @ [sid])"
    and "mined_lines (record_mined_session sid n)"
  using assms splitlines_add_line [of sid "case n_mined n of None \<Rightarrow> [] | Some t \<Rightarrow> t"]
  by (auto simp: mined_sessions_def mined_lines_def session_name_def record_mined_session_def Let_def
      split: option.splits)

lemma record_mined_session_fields [simp]:
  "n_offsets (record_mined_session sid n) = n_offsets n" "n_streaks (record_mined_session sid n) = n_streaks n"
  "n_counter (record_mined_session sid n) = n_counter n" "n_passes (record_mined_session sid n) = n_passes n"
  "n_world (record_mined_session sid n) = n_world n" "n_log (record_mined_session sid n) = n_log n"
  by (simp_all add: record_mined_session_def Let_def)

lemma offset_fields [simp]:
  "n_offsets (write_offset sid i n) = AList.update sid i (n_offsets n)" "n_streaks (write_offset sid i n) = n_streaks n"
  "n_counter (write_offset sid i n) = n_counter n" "n_passes (write_offset sid i n) = n_passes n"
  "n_mined (write_offset sid i n) = n_mined n" "n_world (write_offset sid i n) = n_world n" "n_log (write_offset sid i n) = n_log n"
  by (simp_all add: write_offset_def)

lemma streak_fields [simp]:
  "n_streaks (write_empty_streak sid s n) = AList.update sid s (n_streaks n)"
  "n_offsets (write_empty_streak sid s n) = n_offsets n"
  "n_counter (write_empty_streak sid s n) = n_counter n" "n_passes (write_empty_streak sid s n) = n_passes n"
  "n_mined (write_empty_streak sid s n) = n_mined n" "n_world (write_empty_streak sid s n) = n_world n" "n_log (write_empty_streak sid s n) = n_log n"
  by (simp_all add: write_empty_streak_def)

lemma citation_fields [simp]:
  "n_offsets (emit_citations_if_any K clk sid rts n) = n_offsets n" "n_streaks (emit_citations_if_any K clk sid rts n) = n_streaks n"
  "n_counter (emit_citations_if_any K clk sid rts n) = n_counter n" "n_passes (emit_citations_if_any K clk sid rts n) = n_passes n"
  "n_mined (emit_citations_if_any K clk sid rts n) = n_mined n" "n_world (emit_citations_if_any K clk sid rts n) = n_world n"
  by (simp_all add: emit_citations_if_any_def split: option.split)

lemma feedback_fields [simp]:
  "n_offsets (feedback_step K sid ms n) = n_offsets n" "n_streaks (feedback_step K sid ms n) = n_streaks n"
  "n_counter (feedback_step K sid ms n) = n_counter n" "n_passes (feedback_step K sid ms n) = n_passes n"
  "n_mined (feedback_step K sid ms n) = n_mined n" "n_world (feedback_step K sid ms n) = n_world n"
  "n_log (feedback_step K sid ms n) = n_log n"
  by (simp_all add: feedback_step_def split: sum.split option.split)

lemma counter_fields [simp]:
  "n_offsets (dream_counter_step K n) = n_offsets n" "n_streaks (dream_counter_step K n) = n_streaks n"
  "n_mined (dream_counter_step K n) = n_mined n" "n_world (dream_counter_step K n) = n_world n" "n_log (dream_counter_step K n) = n_log n"
  by (simp_all add: dream_counter_step_def Let_def)

lemma mine_turns_offsets: "n_offsets (mine_turns K clk sid f turns rts eof n) = AList.update sid eof (n_offsets n)"
  by (simp add: mine_turns_def Let_def split: prod.split)

lemma mine_turns_streaks:
  "\<exists>s. n_streaks (mine_turns K clk sid f turns rts eof n) = AList.update sid s (n_streaks n)"
  unfolding mine_turns_def Let_def case_prod_beta
  by (rule exI [of _ "streak_mined (extract_memories K turns (messages_of rts) \<noteq> [])
    (read_empty_streak (map_of (n_streaks n) sid))"]) simp

lemma mine_turns_recorded:
  "\<exists>n0. mine_turns K clk sid f turns rts eof n = record_mined_session sid n0 \<and> n_mined n0 = n_mined n"
  unfolding mine_turns_def Let_def case_prod_beta by (intro exI conjI, rule refl) simp

definition ends_with_session :: "string \<Rightarrow> nat \<Rightarrow> mining \<Rightarrow> mining \<Rightarrow> bool" where
  "ends_with_session sid eof n n' \<longleftrightarrow>
     (\<exists>n0. n' = record_mined_session sid n0 \<and> n_mined n0 = n_mined n) \<and>
     n_offsets n' = AList.update sid eof (n_offsets n) \<and>
     (n_streaks n' = n_streaks n \<or> (\<exists>s. n_streaks n' = AList.update sid s (n_streaks n)))"

lemma touched_ends: "ends_with_session sid eof n (touched sid eof n)"
  unfolding ends_with_session_def touched_def by (metis offset_fields(1,2,5) record_mined_session_fields(1,2))

lemma touched_streak_ends: "ends_with_session sid eof n (touched sid eof (write_empty_streak sid s n))"
  unfolding ends_with_session_def touched_def
  by (metis offset_fields(1,2,5) streak_fields(1,2,5) record_mined_session_fields(1,2))

lemma mine_turns_ends: "ends_with_session sid eof n (mine_turns K clk sid f turns rts eof n)"
  using mine_turns_offsets mine_turns_streaks mine_turns_recorded by (simp add: ends_with_session_def)

lemma mine_run_ends:
  assumes "mine_run K clk False sid f n = Some n'" and "read_delta (f_bytes f) (read_offset sid n) = (turns, eof)"
  shows "ends_with_session sid eof n n'"
  using assms
  by (auto simp: mine_run_def Let_def touched_ends touched_streak_ends mine_turns_ends split: if_splits option.splits)

lemma update_same [simp]: "map_of xs k = Some v \<Longrightarrow> AList.update k v xs = xs"
  by (induction xs) (auto split: if_splits)

lemma read_delta_end: "read_delta b i = (ts, e) \<Longrightarrow> read_delta b e = ([], e)"
  by (auto simp: read_delta_def split: option.splits if_splits)

text \<open>C10: Once a run of a session has ended, every further run on the unchanged transcript changes
  nothing, whatever the clock, the answers of the model and the lock say: no turn is mined twice, and
  the session is listed as mined exactly once.\<close>

theorem run_again_is_noop:
  assumes "mine_run K clk False sid f n = Some n'" and "session_name sid" and "mined_lines n"
    and "distinct (mined_sessions n)"
  shows "mine_run K' clk' held sid f n' = Some n' \<and> count_list (mined_sessions n') sid = 1"
proof -
  obtain turns eof where d: "read_delta (f_bytes f) (read_offset sid n) = (turns, eof)" by fastforce
  note ends = mine_run_ends [OF assms(1) d]
  then obtain n0 where n0: "n' = record_mined_session sid n0" "n_mined n0 = n_mined n"
    by (auto simp: ends_with_session_def)
  have lines: "mined_lines n0" "mined_sessions n0 = mined_sessions n"
    using assms(3) n0(2) by (simp_all add: mined_lines_def mined_sessions_def)
  have listed: "sid \<in> set (mined_sessions n')" "distinct (mined_sessions n')"
    using record_mined_session_mined(1) [OF assms(2) lines(1)] n0(1) lines(2) assms(4) by auto
  then have "record_mined_session sid n' = n'"
    by (simp add: record_mined_session_def mined_sessions_def)
  moreover have off: "map_of (n_offsets n') sid = Some eof"
    using ends by (simp add: ends_with_session_def update_conv')
  then have "write_offset sid eof n' = n'" by (simp add: write_offset_def)
  moreover have "read_delta (f_bytes f) (read_offset sid n') = ([], eof)"
    using off read_delta_end [OF d] by (simp add: read_offset_def)
  moreover have "count_list (mined_sessions n') sid = 1"
    using listed by (simp add: count_list_eq_length_filter distinct_length_filter)
  ultimately show ?thesis by (simp add: mine_run_def touched_def)
qed

text \<open>A small delta is skipped and its session marked; a second run finds nothing.\<close>

theorem run_again_is_noop_witness:
  "\<forall>K clk K' clk' n.
     let f = \<lparr>f_path = ''s1.jsonl'', f_size = None, f_date = [], f_bytes = Some (''{\"type\": \"user\"}'' @ [NL])\<rparr>;
         n0 = n\<lparr>n_offsets := [(''s0'', 7)], n_mined := Some (''s0'' @ [NL])\<rparr>;
         n1 = touched ''s1'' 17 n0
     in mine_run K clk False ''s1'' f n0 = Some n1 \<and> mine_run K' clk' False ''s1'' f n1 = Some n1"
proof (unfold Let_def, intro allI)
  fix K K' clk clk' and n :: mining
  define f where "f = \<lparr>f_path = ''s1.jsonl'', f_size = None, f_date = [], f_bytes = Some (''{\"type\": \"user\"}'' @ [NL])\<rparr>"
  define n0 where "n0 = n\<lparr>n_offsets := [(''s0'', 7)], n_mined := Some (''s0'' @ [NL])\<rparr>"
  have "read_delta (f_bytes f) 0 = ([[(''type'', JStr ''user'')]], 17)"
    by (simp add: f_def) code_simp
  moreover have rts: "role_texts [[(''type'', JStr ''user'')]] = Some [(JStr ''user'', [])]"
    by code_simp
  moreover have "turns_to_text other [[(''type'', JStr ''user'')]] = Some []" for other
    by (simp add: turns_to_text_def rts del: role_texts.simps)
  moreover have "is_trivial_delta []" by code_simp
  ultimately have run: "mine_run K clk False ''s1'' f n0 = Some (touched ''s1'' 17 n0)"
    by (simp add: mine_run_def n0_def read_offset_def rts del: role_texts.simps)
  have "mined_sessions n0 = [''s0'']" "mined_lines n0"
    by (simp_all add: n0_def mined_sessions_def mined_lines_def) code_simp
  with run_again_is_noop [OF run, of K' clk' False] run
  show "mine_run K clk False ''s1'' f n0 = Some (touched ''s1'' 17 n0) \<and>
    mine_run K' clk' False ''s1'' f (touched ''s1'' 17 n0) = Some (touched ''s1'' 17 n0)"
    by (simp add: session_name_def line_break_def)
qed

section \<open>Sessions do not interfere\<close>

text \<open>A run of one session leaves the offset and the backoff of every other session alone, never
  moves its own offset back, and forgets no mined session.\<close>

theorem run_keeps_other_sessions:
  assumes "mine_run K clk held sid f n = Some n'" and "session_name sid" and "mined_lines n"
  shows "(\<forall>other. other \<noteq> sid \<longrightarrow>
      read_offset other n' = read_offset other n \<and> map_of (n_streaks n') other = map_of (n_streaks n) other) \<and>
    read_offset sid n \<le> read_offset sid n' \<and>
    set (mined_sessions n) \<subseteq> set (mined_sessions n') \<and> set (mined_sessions n') \<subseteq> insert sid (set (mined_sessions n))"
proof -
  obtain turns eof where d: "read_delta (f_bytes f) (read_offset sid n) = (turns, eof)" by fastforce
  then have le: "read_offset sid n \<le> eof" by (auto simp: read_delta_def split: option.splits)
  show ?thesis
  proof (cases "n' = n")
    case False
    then have "mine_run K clk False sid f n = Some n'"
      using assms(1) by (auto simp: mine_run_def Let_def split: if_splits option.splits prod.splits)
    note ends = mine_run_ends [OF this d]
    then obtain n0 where n0: "n' = record_mined_session sid n0" "n_mined n0 = n_mined n"
      by (auto simp: ends_with_session_def)
    then have "mined_sessions n0 = mined_sessions n" "mined_lines n0"
      using assms(3) by (simp_all add: mined_lines_def mined_sessions_def)
    then have "set (mined_sessions n') = insert sid (set (mined_sessions n))"
      using record_mined_session_mined(1) [OF assms(2)] n0(1) by auto
    then show ?thesis
      using ends le by (auto simp: ends_with_session_def read_offset_def update_conv')
  qed auto
qed

theorem run_keeps_other_sessions_witness:
  "\<forall>K clk n.
     let f = \<lparr>f_path = ''s1.jsonl'', f_size = None, f_date = [], f_bytes = None\<rparr>;
         n0 = n\<lparr>n_offsets := [(''s0'', 7), (''s1'', 4)], n_mined := Some (''s0'' @ [NL])\<rparr>;
         n1 = touched ''s1'' 4 n0
     in mine_run K clk False ''s1'' f n0 = Some n1 \<and> read_offset ''s0'' n1 = 7 \<and> ''s0'' \<in> set (mined_sessions n1)"
proof (unfold Let_def, intro allI)
  fix K clk and n :: mining
  define f where "f = \<lparr>f_path = ''s1.jsonl'', f_size = None, f_date = [], f_bytes = None :: string option\<rparr>"
  define n0 where "n0 = n\<lparr>n_offsets := [(''s0'', 7), (''s1'', 4)], n_mined := Some (''s0'' @ [NL])\<rparr>"
  have run: "mine_run K clk False ''s1'' f n0 = Some (touched ''s1'' 4 n0)"
    by (simp add: mine_run_def f_def n0_def read_delta_def read_offset_def)
  have "mined_sessions n0 = [''s0'']" "mined_lines n0"
    by (simp_all add: n0_def mined_sessions_def mined_lines_def) code_simp
  moreover have "read_offset ''s0'' n0 = 7" by (simp add: n0_def read_offset_def)
  ultimately show "mine_run K clk False ''s1'' f n0 = Some (touched ''s1'' 4 n0) \<and>
    read_offset ''s0'' (touched ''s1'' 4 n0) = 7 \<and> ''s0'' \<in> set (mined_sessions (touched ''s1'' 4 n0))"
    using run_keeps_other_sessions [OF run] run by (auto simp: session_name_def line_break_def)
qed

section \<open>The dream counter\<close>

definition dream_due :: "mining \<Rightarrow> int" where
  "dream_due n = DREAM_COUNTER_THRESHOLD * int (n_passes n) + (case n_counter n of None \<Rightarrow> 0 | Some i \<Rightarrow> i)"

definition counter_ok :: "mining \<Rightarrow> bool" where
  "counter_ok n \<longleftrightarrow> (case n_counter n of None \<Rightarrow> True | Some i \<Rightarrow> 0 \<le> i \<and> i < DREAM_COUNTER_THRESHOLD)"

lemma dream_counter_step_due:
  assumes "counter_ok n" and "k_auto K"
  shows "counter_ok (dream_counter_step K n)" "dream_due (dream_counter_step K n) = dream_due n + 1"
  using assms
  by (auto simp: counter_ok_def dream_due_def dream_counter_step_def Let_def DREAM_COUNTER_THRESHOLD_def
      algebra_simps split: option.splits)

lemma mine_turns_counter:
  "n_counter (mine_turns K clk sid f turns rts eof n)
     = n_counter (if extract_memories K turns (messages_of rts) \<noteq> [] then dream_counter_step K n else n)"
  "n_passes (mine_turns K clk sid f turns rts eof n)
     = n_passes (if extract_memories K turns (messages_of rts) \<noteq> [] then dream_counter_step K n else n)"
  by (simp_all add: mine_turns_def Let_def case_prod_beta dream_counter_step_def)

lemma counter_cong:
  assumes "n_counter m = n_counter n" and "n_passes m = n_passes n"
  shows "counter_ok m = counter_ok n" "dream_due m = dream_due n"
  using assms by (simp_all add: counter_ok_def dream_due_def)

lemma mine_turns_due:
  assumes "counter_ok n" and "k_auto K"
  shows "counter_ok (mine_turns K clk sid f turns rts eof n)"
    "dream_due (mine_turns K clk sid f turns rts eof n)
      = dream_due n + (if extract_memories K turns (messages_of rts) \<noteq> [] then 1 else 0)"
  using counter_cong [OF mine_turns_counter, of K clk sid f turns rts eof n] dream_counter_step_due [OF assms] assms(1)
  by simp_all


section \<open>Citations\<close>

lemma all_some_set: "all_some xs = Some ys \<Longrightarrow> y \<in> set ys \<longleftrightarrow> Some y \<in> set xs"
  by (induction xs arbitrary: ys) (auto split: option.splits)

lemma all_some_no_None: "all_some xs = Some ys \<Longrightarrow> None \<notin> set xs"
  by (induction xs arbitrary: ys) (auto split: option.splits)

lemma strings_of_set: "strings_of vs = Some ss \<Longrightarrow> s \<in> set ss \<longleftrightarrow> JStr s \<in> set vs"
  by (induction vs arbitrary: ss) (auto split: json.splits)

lemma assistant_tokens_set:
  "c \<in> set (assistant_tokens rts) \<longleftrightarrow> (\<exists>txt. (JStr ''assistant'', txt) \<in> set rts \<and> c \<in> set (re_findall hex8_re txt))"
  by (auto simp: assistant_tokens_def split: if_splits)




text \<open>A transcript with a text block whose text is null is never mined: every run raises before it
  writes anything, also its offset.\<close>

lemma null_text_block_is_never_mined:
  assumes "f_bytes f = Some (''{\"content\": [{\"type\": \"text\", \"text\": null}]}'' @ [NL])"
    and "read_offset sid n = 0"
  shows "mine_run K clk held sid f n = None"
proof -
  let ?t = "[(''content'', JArr [JObj [(''type'', JStr ''text''), (''text'', JNull)]])]"
  have "read_delta (Some (''{\"content\": [{\"type\": \"text\", \"text\": null}]}'' @ [NL])) 0 = ([?t], 46)"
    by code_simp
  moreover have "role_texts [?t] = None" by code_simp
  ultimately show ?thesis using assms by (simp add: mine_run_def turns_to_text_def del: role_texts.simps)
qed

end
