(* ===== verification/VaultIndex.thy ===== *)
theory VaultIndex
  imports VaultCache
begin

text \<open>
  The in-memory index of \<^verbatim>\<open>memem/retrieve.py\<close>: every note of the vault, read with one regular
  expression per field from its front matter, and the cache that is keyed by the newest
  modification time and the number of files.
\<close>

section \<open>Fields of the front matter\<close>

text \<open>\<^verbatim>\<open>s.find(sub)\<close>: \<open>None\<close> is \<^verbatim>\<open>-1\<close>.\<close>

fun find_sub :: "string \<Rightarrow> string \<Rightarrow> nat option" where
  "find_sub sub [] = (if sub = [] then Some 0 else None)"
| "find_sub sub (c # s) = (if starts_with (c # s) sub then Some 0 else map_option Suc (find_sub sub s))"

text \<open>The places where \<^verbatim>\<open>^\<close> matches under \<^verbatim>\<open>re.M\<close>.\<close>

fun after_newlines :: "string \<Rightarrow> string list" where
  "after_newlines [] = []"
| "after_newlines (c # s) = (if c = NL then s # after_newlines s else after_newlines s)"

definition line_starts :: "string \<Rightarrow> string list" where
  "line_starts s = s # after_newlines s"

fun first_some :: "('a \<Rightarrow> 'b option) \<Rightarrow> 'a list \<Rightarrow> 'b option" where
  "first_some f [] = None"
| "first_some f (x # xs) = (case f x of None \<Rightarrow> first_some f xs | Some y \<Rightarrow> Some y)"

definition field :: "string \<Rightarrow> (string \<Rightarrow> 'a option) \<Rightarrow> string \<Rightarrow> 'a option" where
  "field name reader front =
     first_some (\<lambda>t. if starts_with t name then reader (drop (length name) t) else None) (line_starts front)"

text \<open>
  What follows the name. The \<^verbatim>\<open>\s*\<close> of the patterns also takes line breaks, so an empty field
  reads the next line.
\<close>

definition rest_of_line :: "string \<Rightarrow> string option" where  \<comment> \<open>\<^verbatim>\<open>\s*(.*)$\<close>\<close>
  "rest_of_line t = Some (takeWhile (\<lambda>c. c \<noteq> NL) (lstrip t))"

definition quoted_text :: "string \<Rightarrow> string option" where  \<comment> \<open>\<^verbatim>\<open>\s*'?([^'\n]*)'?\<close>\<close>
  "quoted_text t =
     (let u = lstrip t; u = (if starts_with u [CHR 0x27] then tl u else u)
      in Some (takeWhile (\<lambda>c. c \<noteq> CHR 0x27 \<and> c \<noteq> NL) u))"

definition some_of :: "(char \<Rightarrow> bool) \<Rightarrow> string \<Rightarrow> string option" where  \<comment> \<open>\<^verbatim>\<open>\s*([...]+)\<close>\<close>
  "some_of P t = (let w = takeWhile P (lstrip t) in if w = [] then None else Some w)"

definition id_char :: "char \<Rightarrow> bool" where
  "id_char c \<longleftrightarrow> is_digit c \<or> CHR ''a'' \<le> c \<and> c \<le> CHR ''f'' \<or> c = CHR ''-''"

definition flag_word :: "string \<Rightarrow> string option" where  \<comment> \<open>\<^verbatim>\<open>\s*(true|false|yes|no)\<close>, any case\<close>
  "flag_word t = find (\<lambda>w. starts_with (lower (lstrip t)) w) [''true'', ''false'', ''yes'', ''no'']"

text \<open>\<^verbatim>\<open>int(...)\<close> of digits, with the default for more digits than Python converts.\<close>

definition number_or :: "nat \<Rightarrow> string option \<Rightarrow> nat" where
  "number_or n v = (case v of None \<Rightarrow> n | Some w \<Rightarrow> if length w > 4300 then n else nat_of_digits 0 w)"

text \<open>A block list \<^verbatim>\<open>name:\n((?:- .*(?:\n|$))+)\<close>: the texts after the dashes.\<close>

function dash_lines :: "string \<Rightarrow> string list" where
  "dash_lines s =
     (if starts_with s ''- ''
      then drop 2 (takeWhile (\<lambda>c. c \<noteq> NL) s) # dash_lines (drop 1 (dropWhile (\<lambda>c. c \<noteq> NL) s))
      else [])"
  by pat_completeness auto
termination
proof (relation "measure length", simp, clarsimp)
  fix s assume "starts_with s ''- ''"
  then obtain t where "s = CHR ''-'' # t" by (cases s) (auto simp: starts_with_def)
  then have "length (dropWhile (\<lambda>c. c \<noteq> NL) s) \<le> length t" by (simp add: length_dropWhile_le)
  then show "length (dropWhile (\<lambda>c. c \<noteq> NL) s) - Suc 0 < length s" using \<open>s = _\<close> by simp
qed

declare dash_lines.simps [simp del]

definition quotes :: string where "quotes = [CHR 0x27, CHR 0x22]"

definition block_items :: "string \<Rightarrow> string \<Rightarrow> string list" where
  "block_items name front =
     (case field (name @ '':'' @ [NL]) (\<lambda>t. let ls = dash_lines t in if ls = [] then None else Some ls) front of
        None \<Rightarrow> []
      | Some ls \<Rightarrow> filter (\<lambda>w. w \<noteq> []) (map (\<lambda>l. strip_of quotes (strip l)) (filter (\<lambda>l. l \<noteq> []) ls)))"

section \<open>One note\<close>

record index_entry =
  en_id :: string
  en_path :: string
  en_title :: string
  en_project :: string
  en_created :: string
  en_body :: string
  en_body_full :: string
  en_last :: string
  en_count :: nat
  en_valid :: string
  en_immune :: bool
  en_layer :: nat
  en_importance :: nat
  en_status :: string
  en_tags :: "string list"
  en_keys :: "string list"
  en_related :: "string list"

text \<open>The window in which fields are looked for, and the body.\<close>

definition front_end :: "string \<Rightarrow> nat option" where
  "front_end txt =
     (if starts_with txt ''---'' then map_option (\<lambda>i. i + 4) (find_sub (NL # ''---'') (drop 4 txt)) else None)"

definition front_of :: "string \<Rightarrow> string" where
  "front_of txt = (case front_end txt of Some i \<Rightarrow> take (i + 4) txt | None \<Rightarrow> take 2000 txt)"

definition body_of :: "string \<Rightarrow> string" where
  "body_of txt = (case front_end txt of Some i \<Rightarrow> dropWhile (\<lambda>c. c = NL) (drop (i + 4) txt) | None \<Rightarrow> txt)"

definition bare :: "string option \<Rightarrow> string \<Rightarrow> string" where
  "bare v d = strip_of (quotes @ '' '') (case v of None \<Rightarrow> d | Some w \<Rightarrow> w)"

definition status_field :: "string \<Rightarrow> string" where
  "status_field front =
     or_else (strip_of quotes (strip (case field ''status:'' rest_of_line front of None \<Rightarrow> ''active'' | Some w \<Rightarrow> w)))
       ''active''"

definition invalid_at_field :: "string \<Rightarrow> string" where
  "invalid_at_field front =
     strip_of quotes (strip (case field ''invalid_at:'' rest_of_line front of None \<Rightarrow> [] | Some w \<Rightarrow> w))"

definition file_name :: "string \<Rightarrow> string" where
  "file_name p = last (split_char (CHR ''/'') p)"

definition index_note :: "string \<Rightarrow> string \<Rightarrow> index_entry option" where
  "index_note p txt =
     (let front = front_of txt; body = body_of txt in
      case field ''id:'' (some_of id_char) front of
        None \<Rightarrow> None
      | Some i \<Rightarrow>
          let created = bare (field ''created:'' rest_of_line front) [] in
          if status_field front = ''deprecated'' \<or> invalid_at_field front \<noteq> [] then None
          else Some
            \<lparr>en_id = i, en_path = p,
             en_title = bare (field ''title:'' rest_of_line front) (file_name p),
             en_project = bare (field ''project:'' rest_of_line front) ''?'',
             en_created = created, en_body = take 300 body, en_body_full = take 2000 body,
             en_last = or_else (bare (field ''last_accessed_at:'' quoted_text front) []) created,
             en_count = number_or 0 (field ''access_count:'' (some_of is_digit) front),
             en_valid = or_else (bare (field ''valid_at:'' quoted_text front) []) created,
             en_immune = (case field ''decay_immune:'' flag_word front of None \<Rightarrow> False | Some w \<Rightarrow> w \<in> {''true'', ''yes''}),
             en_layer = number_or 2 (field ''layer:'' (some_of is_digit) front),
             en_importance = number_or 3 (field ''importance:'' (some_of is_digit) front),
             en_status = status_field front,
             en_tags = block_items ''tags'' front, en_keys = block_items ''keys'' front,
             en_related = block_items ''related'' front\<rparr>)"

section \<open>The index and its cache\<close>

type_synonym vault_index = "(string, index_entry) dict"

text \<open>A file of the vault: path, modification time, and its text unless reading it fails.\<close>

type_synonym vfile = "string \<times> real \<times> string option"

definition add_note :: "vault_index \<Rightarrow> vfile \<Rightarrow> vault_index" where
  "add_note idx f =
     (case f of (p, _, txt) \<Rightarrow>
        (case Option.bind txt (index_note p) of
           None \<Rightarrow> idx
         | Some e \<Rightarrow> AList.update (en_id e) e idx))"

definition build_index :: "vfile list \<Rightarrow> vault_index" where
  "build_index fs = foldl add_note [] fs"

record index_cache =
  ic_index :: "vault_index option"
  ic_mtime :: real
  ic_count :: nat

definition latest :: "vfile list \<Rightarrow> real" where
  "latest fs = (if fs = [] then 0 else Max (set (map (\<lambda>f. fst (snd f)) fs)))"

definition load_vault_index :: "vfile list option \<Rightarrow> index_cache \<Rightarrow> vault_index \<times> index_cache" where
  "load_vault_index dir c =
     (case dir of
        None \<Rightarrow> ([], c)
      | Some fs \<Rightarrow>
          (case ic_index c of
             Some idx \<Rightarrow>
               if ic_mtime c \<ge> latest fs \<and> ic_count c = length fs then (idx, c)
               else (let idx = build_index fs in (idx, \<lparr>ic_index = Some idx, ic_mtime = latest fs, ic_count = length fs\<rparr>))
           | None \<Rightarrow>
               (let idx = build_index fs in (idx, \<lparr>ic_index = Some idx, ic_mtime = latest fs, ic_count = length fs\<rparr>))))"

definition no_index :: index_cache where
  "no_index = \<lparr>ic_index = None, ic_mtime = 0, ic_count = 0\<rparr>"

text \<open>The notes of the store as such files.\<close>

definition vault_files :: "store \<Rightarrow> vfile list option" where
  "vault_files s = (if dir_ok s then Some (map (\<lambda>(f, txt, m). (f, m, Some txt)) (note_files s)) else None)"

section \<open>Which notes are served\<close>

lemma index_note_served:
  assumes "index_note p txt = Some e"
  shows "en_path e = p" "en_status e = status_field (front_of txt)" "en_status e \<noteq> ''deprecated''"
    "invalid_at_field (front_of txt) = []" "en_body e = take 300 (en_body_full e)" "length (en_body_full e) \<le> 2000"
  using assms by (auto simp: index_note_def Let_def min_def split: option.splits if_splits)

definition from_notes :: "vfile list \<Rightarrow> string \<times> index_entry \<Rightarrow> bool" where
  "from_notes fs x \<longleftrightarrow>
     en_id (snd x) = fst x \<and>
     (\<exists>m txt. (en_path (snd x), m, Some txt) \<in> set fs \<and> index_note (en_path (snd x)) txt = Some (snd x))"

lemma update_elem: "x \<in> set (AList.update k v d) \<Longrightarrow> x = (k, v) \<or> x \<in> set d"
  by (induction d) (auto split: if_splits)

lemma add_note_from:
  assumes "\<forall>x \<in> set d. from_notes fs x" and "f \<in> set fs" and "x \<in> set (add_note d f)"
  shows "from_notes fs x"
proof -
  obtain p m w where f: "f = (p, m, w)" by (cases f)
  show ?thesis
  proof (cases "Option.bind w (index_note p)")
    case (Some e)
    then obtain u where "w = Some u" "index_note p u = Some e" by (auto simp: bind_eq_Some_conv)
    then have "from_notes fs (en_id e, e)"
      using assms(2) f index_note_served(1) by (auto simp: from_notes_def)
    then show ?thesis using assms(1,3) update_elem [of x "en_id e" e d] Some f by (auto simp: add_note_def)
  qed (use assms f in \<open>auto simp: add_note_def\<close>)
qed

lemma build_index_from: "x \<in> set (build_index fs) \<Longrightarrow> from_notes fs x"
proof -
  have "\<forall>x \<in> set (foldl add_note d gs). from_notes fs x"
    if "\<forall>x \<in> set d. from_notes fs x" "set gs \<subseteq> set fs" for d gs
    using that
  proof (induction gs arbitrary: d)
    case (Cons f gs)
    have "\<forall>x \<in> set (add_note d f). from_notes fs x"
      using Cons.prems add_note_from [of d fs f] by (metis list.set_intros(1) subsetD)
    then show ?case using Cons.IH [of "add_note d f"] Cons.prems(2) by simp
  qed simp
  from this [of "[]" fs] show "x \<in> set (build_index fs) \<Longrightarrow> from_notes fs x" by (simp add: build_index_def)
qed

lemma wf_add_note: "wf_dict d \<Longrightarrow> wf_dict (add_note d f)"
  by (auto simp: add_note_def wf_dict_def distinct_update split: prod.splits option.splits)

lemma wf_build_index: "wf_dict (build_index fs)"
proof -
  have "wf_dict (foldl add_note d fs)" if "wf_dict d" for d
    using that by (induction fs arbitrary: d) (simp_all add: wf_add_note)
  then show ?thesis by (simp add: build_index_def wf_dict_def)
qed

section \<open>The cache and the directory\<close>

text \<open>The loads of a history of directories, and the latest time any of them showed.\<close>

fun loads :: "vfile list list \<Rightarrow> vault_index list \<times> index_cache" where
  "loads [] = ([], no_index)"
| "loads (fs # older) =
     (let (idxs, c) = loads older; (idx, c) = load_vault_index (Some fs) c in (idx # idxs, c))"

fun newest :: "vfile list list \<Rightarrow> real" where
  "newest [] = 0"
| "newest (fs # older) = max (latest fs) (newest older)"

text \<open>
  The condition under which the cache key is enough: a directory whose index differs from that of the
  load before has another number of files, or a file newer than any seen so far.
\<close>

fun visible_changes :: "vfile list list \<Rightarrow> bool" where
  "visible_changes (fs # gs # older) \<longleftrightarrow>
     (build_index fs = build_index gs \<or> length fs \<noteq> length gs \<or> latest fs > newest (gs # older))
     \<and> visible_changes (gs # older)"
| "visible_changes _ \<longleftrightarrow> True"

lemma loads_cache:
  assumes "visible_changes (fs # older)"
  shows "\<exists>c idxs. loads (fs # older) = (build_index fs # idxs, c) \<and> ic_index c = Some (build_index fs) \<and>
    ic_count c = length fs \<and> latest fs \<le> ic_mtime c \<and> ic_mtime c \<le> newest (fs # older)"
  using assms
proof (induction older arbitrary: fs)
  case Nil
  show ?case by (simp add: load_vault_index_def no_index_def Let_def)
next
  case (Cons gs older)
  then obtain c idxs where c: "loads (gs # older) = (build_index gs # idxs, c)" "ic_index c = Some (build_index gs)"
    "ic_count c = length gs" "latest gs \<le> ic_mtime c" "ic_mtime c \<le> newest (gs # older)"
    by (metis visible_changes.simps(1))
  have "build_index fs = build_index gs" if "ic_mtime c \<ge> latest fs" "length gs = length fs"
    using Cons.prems that c(5) by auto
  then show ?case using c by (auto simp: load_vault_index_def Let_def)
qed

text \<open>C31: Every load answers with the index of the directory as it is, built from it anew, as long as no
  change hides from the cache key: then the cache cannot be observed, over any history of loads.\<close>

theorem cached_index_is_fresh:
  assumes "visible_changes (fs # older)"
  shows "hd (fst (loads (fs # older))) = build_index fs"
  using loads_cache [OF assms] by auto

theorem cached_index_is_fresh_witness:
  "let nt = (\<lambda>i. Some (''---'' @ [NL] @ ''id: '' @ i @ [NL] @ ''title: Old'' @ [NL] @ ''---'' @ [NL] @ ''body''));
       old = [(''a.md'', 1, nt ''a0'')]; new = [(''a.md'', 2, nt ''a1'')]
   in map fst (hd (fst (loads [new, old]))) = [''a1'']"
proof -
  define nt where "nt = (\<lambda>i. Some (''---'' @ [NL] @ ''id: '' @ i @ [NL] @ ''title: Old'' @ [NL] @ ''---'' @ [NL] @ ''body''))"
  have "visible_changes [[(''a.md'', 2, nt ''a1'')], [(''a.md'', 1, nt ''a0'')]]"
    by (simp add: latest_def)
  moreover have "map fst (build_index [(''a.md'', 2, nt ''a1'')]) = [''a1'']"
    unfolding nt_def build_index_def by (simp add: add_note_def) code_simp
  ultimately show ?thesis
    unfolding Let_def nt_def [symmetric] by (simp only: cached_index_is_fresh)
qed

text \<open>
  The key does not see that a note was replaced by an older file, as restoring one does: the number of
  files is the same and the newest time does not grow, so the removed note is still served and the
  restored one is not.
\<close>

lemma replaced_note_still_served:
  "let nt = (\<lambda>i. Some (''---'' @ [NL] @ ''id: '' @ i @ [NL] @ ''---'' @ [NL] @ ''body''));
       old = [(''a.md'', 2, nt ''a1'')]; new = [(''b.md'', 1, nt ''b2'')]
   in map fst (hd (fst (loads [new, old]))) = [''a1''] \<and> map fst (build_index new) = [''b2'']"
proof -
  define nt where "nt = (\<lambda>i. Some (''---'' @ [NL] @ ''id: '' @ i @ [NL] @ ''---'' @ [NL] @ ''body''))"
  have "map fst (build_index [(''a.md'', 2, nt ''a1'')]) = [''a1'']" "map fst (build_index [(''b.md'', 1, nt ''b2'')]) = [''b2'']"
    unfolding nt_def build_index_def by (simp_all add: add_note_def) code_simp+
  then show ?thesis
    unfolding Let_def nt_def [symmetric]
    by (simp add: load_vault_index_def no_index_def latest_def Let_def)
qed

end
