(* ===== verification/Retrieve.thy ===== *)
theory Retrieve
  imports VaultIndex RecallLog Telemetry
begin

text \<open>
  \<^verbatim>\<open>memem/retrieve.py\<close> over the vault index: literal matches, the three ranked channels and their
  reciprocal rank fusion, the signals of a memory, the temporal boost, the diversification and the
  path bonus. The embedding model, the matrix of embeddings, BM25 and SQLite's matching are
  parameters; scores are real numbers.
\<close>

section \<open>Queries\<close>

definition version_re :: re where
  "version_re =
     cats [Chars (\<lambda>c. c = CHR ''v'' \<or> c = CHR ''V''), plus (Chars is_digit), lit ''.'', plus (Chars is_digit),
       opt (cats [lit ''.'', plus (Chars is_digit)])]"

definition date_re :: re where
  "date_re = cats [times 4 (Chars is_digit), lit ''-'', times 2 (Chars is_digit), lit ''-'', times 2 (Chars is_digit)]"

definition has_version_or_date_literal :: "string \<Rightarrow> bool" where
  "has_version_or_date_literal q \<longleftrightarrow> re_search version_re q \<or> re_search date_re q"

text \<open>
  \<^verbatim>\<open>_extract_temporal_range\<close>: \<open>None\<close> is the \<^verbatim>\<open>OverflowError\<close> of an instant before the year 1.
\<close>

definition day :: int where "day = 86400 * 1000000"
definition hour :: int where "hour = 3600 * 1000000"
definition first_instant :: int where "first_instant = days_from_civil 1 1 1 * day"

definition ago_re :: "string \<Rightarrow> re" where
  "ago_re unit = cats [plus (Chars is_digit), sp, lit unit, opt (lit ''s''), sp, lit ''ago'']"

definition ago_count :: "string \<Rightarrow> string \<Rightarrow> nat option" where
  "ago_count unit q =
     (case re_findall (ago_re unit) q of [] \<Rightarrow> None | w # _ \<Rightarrow> Some (nat_of_digits 0 (takeWhile is_digit w)))"

definition span_ago :: "int \<Rightarrow> int \<Rightarrow> nat \<Rightarrow> (int \<times> int) option option" where
  "span_ago now width n =
     (let start = now - (int n + 1) * width in
      if start < first_instant then None else Some (Some (start, now - int n * width)))"

definition extract_temporal_range :: "int \<Rightarrow> string \<Rightarrow> (int \<times> int) option option" where
  "extract_temporal_range now query =
     (let q = lower query in
      case ago_count ''day'' q of
        Some n \<Rightarrow> span_ago now day n
      | None \<Rightarrow>
          (case ago_count ''hour'' q of
             Some n \<Rightarrow> span_ago now hour n
           | None \<Rightarrow>
               Some
                 (if contains q ''this morning'' then Some (now - 24 * hour, now)
                  else if contains q ''yesterday'' then Some (now - 48 * hour, now - 24 * hour)
                  else if contains q ''last week'' then Some (now - 14 * day, now - 7 * day)
                  else if contains q ''this week'' then Some (now - 7 * day, now)
                  else if contains q ''today'' then Some (now - 24 * hour, now)
                  else None)))"

section \<open>Hits\<close>

record hit =
  h_mem :: index_entry
  h_score :: real
  h_cosine :: bool  \<comment> \<open>source \<^verbatim>\<open>cosine\<close>, else \<^verbatim>\<open>fts\<close>\<close>

definition literal_hit :: "index_entry \<Rightarrow> hit" where
  "literal_hit e = \<lparr>h_mem = e, h_score = 1, h_cosine = False\<rparr>"

definition literals :: "string \<Rightarrow> string list" where
  "literals q = map lower (re_findall version_re q @ re_findall date_re q)"

definition has_literal :: "string list \<Rightarrow> index_entry \<Rightarrow> bool" where
  "has_literal lits e \<longleftrightarrow> (\<exists>w \<in> set lits. contains (lower (en_title e @ '' '' @ en_body_full e)) w)"

definition fts_literal_search :: "string \<Rightarrow> vault_index \<Rightarrow> nat \<Rightarrow> hit list" where
  "fts_literal_search query idx max_results =
     (if literals query = [] then []
      else map literal_hit (take (max 1 max_results) (filter (has_literal (literals query)) (map snd idx))))"

definition in_range :: "int \<times> int \<Rightarrow> index_entry \<Rightarrow> bool" where
  "in_range r e \<longleftrightarrow> (case parse_iso_dt (en_created e) of None \<Rightarrow> False | Some t \<Rightarrow> fst r \<le> t \<and> t \<le> snd r)"

definition fts_temporal_search :: "int \<Rightarrow> string \<Rightarrow> vault_index \<Rightarrow> nat \<Rightarrow> hit list option" where
  "fts_temporal_search now query idx max_results =
     map_option (\<lambda>r. case r of
          None \<Rightarrow> []
        | Some r \<Rightarrow> map literal_hit (take (max 1 max_results) (filter (in_range r) (map snd idx))))
       (extract_temporal_range now query)"

section \<open>Channels\<close>

text \<open>
  The outside of the engine. \<open>r_scores\<close> are the rows of the embedding matrix with their similarity to
  the query, best first, and \<open>None\<close> without the model or the matrix; \<open>r_ids\<close> are the ids of the rows,
  \<open>r_rows\<close> the number of rows (ids and matrix are two files).
\<close>

record engine =
  r_aliases :: "(string, string) dict"
  r_now :: int
  r_stamp :: string
  r_scores :: "string \<Rightarrow> (nat \<times> real) list option"
  r_ids :: "string list"
  r_rows :: nat
  r_sim :: "nat \<Rightarrow> nat \<Rightarrow> real"
  r_bm25 :: "string list list \<Rightarrow> string list \<Rightarrow> real list"
  r_fts :: fts_match
  r_db :: search_db
  r_text :: "json \<Rightarrow> string"
  r_writeback :: bool  \<comment> \<open>\<^verbatim>\<open>MEMEM_WRITEBACK_ENABLED\<close>\<close>
  r_source :: string   \<comment> \<open>\<^verbatim>\<open>MEMEM_TELEMETRY_SOURCE\<close>\<close>
  r_brief :: json_file
  r_latency :: int

type_synonym scores = "(string, real) dict"

definition cosine_channel :: "engine \<Rightarrow> vault_index \<Rightarrow> string \<Rightarrow> scores" where
  "cosine_channel R idx query =
     (case r_scores R query of
        None \<Rightarrow> []
      | Some order \<Rightarrow>
          foldl (\<lambda>d (i, s). if i < length (r_ids R) \<and> r_ids R ! i \<in> fst ` set idx
                            then AList.update (r_ids R ! i) s d else d) [] order)"

definition bm25_text :: "index_entry \<Rightarrow> string" where
  "bm25_text e =
     (let ks = join '' '' (en_keys e) in
      lower (en_title e @ '' '' @ en_body_full e @ (if ks \<noteq> [] then '' '' @ ks else [])))"

definition build_bm25 :: "vault_index \<Rightarrow> string list \<times> string list list" where
  "build_bm25 idx =
     (let docs = filter (\<lambda>(_, ws). ws \<noteq> []) (map (\<lambda>(i, e). (i, split_ws (bm25_text e))) idx)
      in (map fst docs, map snd docs))"

definition bm25_channel :: "engine \<Rightarrow> vault_index \<Rightarrow> string \<Rightarrow> scores" where
  "bm25_channel R idx query =
     (let (ids, corpus) = build_bm25 idx; ws = split_ws (lower query) in
      if corpus = [] \<or> ws = [] then [] else zip ids (r_bm25 R corpus ws))"

definition fts_channel :: "engine \<Rightarrow> vault_index \<Rightarrow> string \<Rightarrow> scores" where
  "fts_channel R idx query =
     (let ids = search_fts (r_aliases R) (r_fts R) (r_db R) query ''default'' 20; n = length ids in
      foldl (\<lambda>d (rank, i). if i \<in> fst ` set idx then AList.update i (real n - real rank) d else d) []
        (enumerate 0 ids))"

text \<open>Reciprocal rank fusion. An id that a channel lacks gets the rank after the last.\<close>

definition ranks :: "scores \<Rightarrow> (string, nat) dict" where
  "ranks d = map (\<lambda>(r, i, _). (i, r)) (enumerate 1 (sort_key (\<lambda>x. - snd x) d))"

definition rank_of :: "(string, nat) dict \<Rightarrow> string \<Rightarrow> nat" where
  "rank_of rs i = (case map_of rs i of None \<Rightarrow> length rs + 1 | Some r \<Rightarrow> r)"

definition RRF_K :: nat where "RRF_K = 60"

definition reciprocal_rank :: "(string, nat) dict \<Rightarrow> string \<Rightarrow> real" where
  "reciprocal_rank rs i = 1 / (real RRF_K + real (rank_of rs i))"

definition rrf_fusion :: "scores \<Rightarrow> scores \<Rightarrow> scores \<Rightarrow> scores" where
  "rrf_fusion cosine bm25 fts =
     (let c = ranks cosine; b = ranks bm25; f = ranks fts
      in map (\<lambda>i. (i, reciprocal_rank c i + reciprocal_rank b i + (if f \<noteq> [] then reciprocal_rank f i else 0)))
           (uniq (map fst c @ map fst b @ map fst f)))"

section \<open>Candidates\<close>

definition POOL_SIZE :: nat where "POOL_SIZE = 20"

fun pool_from :: "vault_index \<Rightarrow> nat \<Rightarrow> string list \<Rightarrow> (string \<times> real) list \<Rightarrow> hit list" where
  "pool_from idx n seen [] = []"
| "pool_from idx n seen ((i, s) # rest) =
     (if n = 0 then []
      else case map_of idx i of
        None \<Rightarrow> pool_from idx n seen rest
      | Some e \<Rightarrow>
          if en_path e \<in> set seen then pool_from idx n seen rest
          else \<lparr>h_mem = e, h_score = s, h_cosine = True\<rparr> # pool_from idx (n - 1) (en_path e # seen) rest)"

definition candidate_pool :: "vault_index \<Rightarrow> string list \<Rightarrow> scores \<Rightarrow> hit list" where
  "candidate_pool idx seen fused = pool_from idx (min POOL_SIZE (length fused)) seen (sort_key (\<lambda>x. - snd x) fused)"

definition normalize_scores :: "hit list \<Rightarrow> hit list" where
  "normalize_scores hs =
     (if hs = [] then []
      else
        let lo = Min (set (map h_score hs)); hi = Max (set (map h_score hs)) in
        map (\<lambda>h. h\<lparr>h_score := if hi > lo then (h_score h - lo) / (hi - lo) else 1\<rparr>) hs)"

section \<open>Signals\<close>

text \<open>
  The telemetry of a memory: last access and access count. \<open>None\<close> is the error of a sidecar that is no
  object, of a count that is not a number above -1, of a last access that is no text.
\<close>

definition load_telemetry_bulk :: "json_file \<Rightarrow> json" where
  "load_telemetry_bulk f = (case f of Doc v \<Rightarrow> v | _ \<Rightarrow> JObj [])"

definition number_of :: "json \<Rightarrow> real option" where
  "number_of v =
     (case v of JInt i \<Rightarrow> Some (of_int i) | JBool b \<Rightarrow> Some (of_bool b) | JReal r \<Rightarrow> Some r | _ \<Rightarrow> None)"

definition frequency :: "json \<Rightarrow> real option" where  \<comment> \<open>\<^verbatim>\<open>min(1.0, log1p(n) / log1p(20))\<close>\<close>
  "frequency v =
     (case v of
        JNonFinite w \<Rightarrow> if w = ''-Infinity'' then None else Some 1
      | _ \<Rightarrow> (case number_of v of
               None \<Rightarrow> None
             | Some n \<Rightarrow> if n > -1 then Some (min 1 (ln (1 + n) / ln 21)) else None))"

text \<open>A last access so far in the future that \<^verbatim>\<open>2.0 ** x\<close> leaves the range of a float raises.\<close>

definition recency :: "int \<Rightarrow> json \<Rightarrow> real option" where
  "recency now v =
     (if \<not> json_truthy v then Some 0
      else case v of
        JStr s \<Rightarrow>
          (case parse_iso_dt s of
             None \<Rightarrow> Some 0
           | Some t \<Rightarrow>
               let x = - (seconds_between now t / 3600) / 168 in if x \<ge> 1024 then None else Some (2 powr x))
      | _ \<Rightarrow> None)"

definition usage_of :: "int \<Rightarrow> json \<Rightarrow> index_entry \<Rightarrow> real option" where
  "usage_of now tel e =
     (case tel of
        JObj d \<Rightarrow>
          (case jget_or d (id8 (en_id e)) (JObj []) of
             JObj t \<Rightarrow>
               (case (recency now (jor (jget_or t ''last_accessed'' (JStr [])) (JStr (en_last e))),
                      frequency (jor (jget_or t ''access_count'' (JInt 0)) (JInt (int (en_count e))))) of
                  (Some r, Some f) \<Rightarrow> Some (0.5 * r + 0.5 * f)
                | _ \<Rightarrow> None)
           | _ \<Rightarrow> None)
      | _ \<Rightarrow> None)"

definition scope_signal :: "(string, string) dict \<Rightarrow> string \<Rightarrow> index_entry \<Rightarrow> real" where
  "scope_signal al scope e =
     (let norm = (if scope \<noteq> [] then normalize_scope_id al scope else []) in
      if norm \<noteq> [] \<and> normalize_scope_id al (en_project e) = norm then 1 else 0)"

definition seed_links :: "hit list \<Rightarrow> string set" where
  "seed_links seeds =
     (\<Union>s \<in> set seeds. {r \<in> set (en_related (h_mem s)). r \<noteq> id8 (en_id (h_mem s))})"

definition seed_ids :: "hit list \<Rightarrow> string set" where
  "seed_ids seeds = (\<lambda>s. id8 (en_id (h_mem s))) ` {s \<in> set seeds. en_id (h_mem s) \<noteq> []}"

definition link_signal :: "hit list \<Rightarrow> index_entry \<Rightarrow> real" where
  "link_signal seeds e =
     (let i = id8 (en_id e) in
      if en_id e \<noteq> [] \<and> (i \<in> seed_links seeds \<or> (\<exists>r \<in> set (en_related e). r \<in> seed_ids seeds \<and> r \<noteq> i)) then 1 else 0)"

definition importance_signal :: "index_entry \<Rightarrow> real" where
  "importance_signal e = real (en_importance e) / 5"

definition W_USE :: real where "W_USE = 0.15"
definition W_SCOPE :: real where "W_SCOPE = 0.10"
definition W_LINK :: real where "W_LINK = 0.10"
definition W_IMP :: real where "W_IMP = 0.10"

definition multiplier :: "engine \<Rightarrow> json \<Rightarrow> string \<Rightarrow> hit list \<Rightarrow> index_entry \<Rightarrow> real option" where
  "multiplier R tel scope seeds e =
     map_option (\<lambda>u. 1 + W_USE * u + W_SCOPE * scope_signal (r_aliases R) scope e
                     + W_LINK * link_signal seeds e + W_IMP * importance_signal e)
       (usage_of (r_now R) tel e)"

definition scale :: "real \<Rightarrow> hit \<Rightarrow> hit" where
  "scale x h = h\<lparr>h_score := h_score h * x\<rparr>"

definition apply_signals :: "engine \<Rightarrow> json \<Rightarrow> string \<Rightarrow> hit list \<Rightarrow> hit list option" where
  "apply_signals R tel scope hs =
     all_some (map (\<lambda>h. map_option (\<lambda>x. scale x h) (multiplier R tel scope (take 5 hs) (h_mem h))) hs)"

definition temporal_boost :: "(int \<times> int) option \<Rightarrow> hit list \<Rightarrow> hit list" where
  "temporal_boost r hs =
     (case r of
        None \<Rightarrow> hs
      | Some r \<Rightarrow> sort_desc h_score (map (\<lambda>h. if in_range r (h_mem h) then scale 1.2 h else h) hs))"

section \<open>Diversification\<close>

definition MMR_LAMBDA :: real where "MMR_LAMBDA = 0.7"

text \<open>The row of a memory: the last one with its id, when the matrix has that row.\<close>

definition row_index :: "engine \<Rightarrow> string \<Rightarrow> nat option" where
  "row_index R i =
     (case filter (\<lambda>(n, j). j = i) (enumerate 0 (r_ids R)) of
        [] \<Rightarrow> None
      | ps \<Rightarrow> let n = fst (last ps) in if n < r_rows R then Some n else None)"

definition mmr_score :: "engine \<Rightarrow> nat list \<Rightarrow> hit \<Rightarrow> real" where
  "mmr_score R chosen h =
     (let sim = (case row_index R (en_id (h_mem h)) of
                   None \<Rightarrow> 0
                 | Some n \<Rightarrow> if chosen = [] then 0 else Max (set (map (r_sim R n) chosen)))
      in MMR_LAMBDA * h_score h - (1 - MMR_LAMBDA) * sim)"

text \<open>The first element with the greatest value, and the rest.\<close>

fun pick_max :: "('a \<Rightarrow> real) \<Rightarrow> 'a \<Rightarrow> 'a list \<Rightarrow> 'a \<times> 'a list" where
  "pick_max f x [] = (x, [])"
| "pick_max f x (y # ys) =
     (let (w, rest) = pick_max f y ys in if f w > f x then (w, x # rest) else (x, y # ys))"

fun mmr_loop :: "engine \<Rightarrow> nat \<Rightarrow> nat list \<Rightarrow> hit list \<Rightarrow> hit list" where
  "mmr_loop R 0 chosen hs = []"
| "mmr_loop R (Suc k) chosen [] = []"
| "mmr_loop R (Suc k) chosen (h # hs) =
     (let (w, rest) = pick_max (mmr_score R chosen) h hs;
          chosen = (case row_index R (en_id (h_mem w)) of None \<Rightarrow> chosen | Some n \<Rightarrow> chosen @ [n])
      in w # mmr_loop R k chosen rest)"

definition mmr_rerank :: "engine \<Rightarrow> nat \<Rightarrow> hit list \<Rightarrow> hit list" where
  "mmr_rerank R k hs = (if length hs \<le> k then hs else mmr_loop R k [] hs)"

section \<open>Path bonus\<close>

text \<open>
  \<^verbatim>\<open>fnmatch.fnmatch\<close>: \<^verbatim>\<open>*\<close>, \<^verbatim>\<open>?\<close> and classes. The first character after the bracket (and after \<^verbatim>\<open>!\<close>)
  does not close the class; a bracket that is never closed is a plain character.
\<close>

definition class_end :: "string \<Rightarrow> nat option" where
  "class_end p =
     (let n = (case p of [] \<Rightarrow> 0 | c # _ \<Rightarrow> if c = CHR ''!'' then 1 else (0 :: nat));
          n = (case drop n p of c # _ \<Rightarrow> if c = CHR '']'' then n + 1 else n | [] \<Rightarrow> n)
      in map_option (\<lambda>i. i + n) (find_sub '']'' (drop n p)))"

fun class_has :: "string \<Rightarrow> char \<Rightarrow> bool" where
  "class_has (a # b # c # r) x \<longleftrightarrow>
     (if b = CHR ''-'' then a \<le> x \<and> x \<le> c \<or> class_has r x else a = x \<or> class_has (b # c # r) x)"
| "class_has (a # r) x \<longleftrightarrow> a = x \<or> class_has r x"
| "class_has [] x \<longleftrightarrow> False"

definition class_matches :: "string \<Rightarrow> char \<Rightarrow> bool" where
  "class_matches p x = (case p of c # r \<Rightarrow> if c = CHR ''!'' then \<not> class_has r x else class_has p x | [] \<Rightarrow> False)"

lemma class_end_less: "class_end p = Some i \<Longrightarrow> i < length p"
proof -
  have find: "find_sub '']'' t = Some i \<Longrightarrow> i < length t" for t i
    by (induction t arbitrary: i) (auto split: if_splits)
  show "class_end p = Some i \<Longrightarrow> i < length p"
    by (auto simp: class_end_def Let_def dest!: find)
qed

function fn_match :: "string \<Rightarrow> string \<Rightarrow> bool" where
  "fn_match [] s \<longleftrightarrow> s = []"
| "fn_match (c # p) s \<longleftrightarrow>
     (if c = CHR ''*'' then fn_match p s \<or> (case s of [] \<Rightarrow> False | _ # t \<Rightarrow> fn_match (c # p) t)
      else (case s of
              [] \<Rightarrow> False
            | x # t \<Rightarrow>
                if c = CHR ''?'' then fn_match p t
                else if c = CHR ''['' then
                  (case class_end p of
                     Some i \<Rightarrow> class_matches (take i p) x \<and> fn_match (drop (i + 1) p) t
                   | None \<Rightarrow> x = c \<and> fn_match p t)
                else x = c \<and> fn_match p t))"
  by pat_completeness auto
termination
  by (relation "measure (\<lambda>(p, s). length p + length s)") (auto dest: class_end_less)

declare fn_match.simps [simp del]

definition note_paths :: "string \<Rightarrow> string list" where
  "note_paths txt =
     (case field (''paths:'' @ [NL]) (\<lambda>t. let ls = dash_lines t in if ls = [] then None else Some ls) (front_of txt) of
        None \<Rightarrow> []
      | Some ls \<Rightarrow> map (\<lambda>l. strip_of quotes (strip l)) (filter (\<lambda>l. strip l \<noteq> []) ls))"

definition path_bonus :: "vfile list \<Rightarrow> string list \<Rightarrow> hit \<Rightarrow> hit" where
  "path_bonus fs ctx h =
     (case map_of fs (en_path (h_mem h)) of
        Some (_, Some txt) \<Rightarrow>
          if en_path (h_mem h) \<noteq> [] \<and>
             (\<exists>pat \<in> set (note_paths txt). \<exists>c \<in> set ctx. fn_match pat c \<or> fn_match (''*/'' @ pat) c)
          then scale 1.05 h else h
      | _ \<Rightarrow> h)"

section \<open>Retrieval\<close>

record retrieval =
  q_cache :: index_cache
  q_tel :: telemetry
  q_log :: "string option"

definition ranked :: "engine \<Rightarrow> vault_index \<Rightarrow> json_file \<Rightarrow> string \<Rightarrow> string \<Rightarrow> string list \<Rightarrow> hit list option" where
  "ranked R idx tel query scope seen =
     (let fused = rrf_fusion (cosine_channel R idx query) (bm25_channel R idx query) (fts_channel R idx query);
          pool = normalize_scores (candidate_pool idx seen fused)
      in Option.bind (apply_signals R (load_telemetry_bulk tel) scope pool) (\<lambda>hs.
         map_option (\<lambda>r. temporal_boost r hs) (extract_temporal_range (r_now R) query)))"

definition add_hit :: "hit list \<Rightarrow> hit \<Rightarrow> hit list" where
  "add_hit hs h = (if en_path (h_mem h) \<in> set (map (\<lambda>x. en_path (h_mem x)) hs) then hs else hs @ [h])"

definition literal_hits :: "vault_index \<Rightarrow> string \<Rightarrow> hit list" where
  "literal_hits idx query = foldl add_hit [] (fts_literal_search query idx 2)"

definition found_hits ::
  "engine \<Rightarrow> vfile list \<Rightarrow> vault_index \<Rightarrow> json_file \<Rightarrow> string \<Rightarrow> nat \<Rightarrow> string \<Rightarrow> string list \<Rightarrow> hit list option" where
  "found_hits R fs idx tel query k scope ctx =
     (let lits = literal_hits idx query in
      map_option (\<lambda>hs. let hits = lits @ mmr_rerank R k hs in if ctx = [] then hits else map (path_bonus fs ctx) hits)
        (ranked R idx tel query scope (rev (map (\<lambda>h. en_path (h_mem h)) lits))))"

definition read_session_id :: "(json \<Rightarrow> string) \<Rightarrow> json_file \<Rightarrow> string" where
  "read_session_id other brief =
     (case brief of
        Doc (JObj d) \<Rightarrow> py_text other (jor (jget_or d ''session_id'' (JStr [])) (JStr []))
      | _ \<Rightarrow> [])"

text \<open>\<open>None\<close> raises; a memory is recorded as accessed only when it came from the ranked channels.\<close>

definition retrieve ::
  "engine \<Rightarrow> vfile list option \<Rightarrow> string \<Rightarrow> nat \<Rightarrow> string option \<Rightarrow> string \<Rightarrow> bool \<Rightarrow> string list \<Rightarrow>
   retrieval \<Rightarrow> hit list option \<times> retrieval" where
  "retrieve R dir query k call_type scope writeback ctx st =
     (let (idx, c) = load_vault_index dir (q_cache st); st = st\<lparr>q_cache := c\<rparr> in
      if idx = [] then (Some [], st)
      else (case found_hits R (case dir of None \<Rightarrow> [] | Some fs \<Rightarrow> fs) idx (t_file (q_tel st)) query k scope ctx of
              None \<Rightarrow> (None, st)
            | Some hits \<Rightarrow>
                let tel = (if r_writeback R \<and> writeback
                           then fold (\<lambda>h t. if h_cosine h then snd (record_access (r_stamp R) (en_id (h_mem h)) t) else t)
                                  hits (q_tel st)
                           else q_tel st);
                    log = (case call_type of
                             None \<Rightarrow> q_log st
                           | Some ct \<Rightarrow>
                               log_recall (r_source R) (r_stamp R) ct query (map (\<lambda>h. en_id (h_mem h)) hits) (r_latency R)
                                 ''hook'' (read_session_id (r_text R) (r_brief R)) (q_log st))
                in (Some hits, st\<lparr>q_tel := tel, q_log := log\<rparr>)))"

section \<open>What retrieval returns\<close>

abbreviation hit_path :: "hit \<Rightarrow> string" where "hit_path h \<equiv> en_path (h_mem h)"

lemma scale_mem [simp]: "h_mem (scale x h) = h_mem h" "h_cosine (scale x h) = h_cosine h"
  by (simp_all add: scale_def)

lemma path_bonus_mem [simp]: "h_mem (path_bonus fs ctx h) = h_mem h" "h_cosine (path_bonus fs ctx h) = h_cosine h"
  by (simp_all add: path_bonus_def split: option.split prod.split)

lemma pool_from_length: "length (pool_from idx n seen fs) \<le> n"
  by (induction idx n seen fs rule: pool_from.induct) (auto split: option.split)

lemma pool_from_mem: "h \<in> set (pool_from idx n seen fs) \<Longrightarrow> \<exists>i. (i, h_mem h) \<in> set idx"
proof (induction idx n seen fs rule: pool_from.induct)
  case (2 idx n seen i s rest)
  show ?case
  proof (cases "map_of idx i")
    case None
    then show ?thesis using "2.IH"(1) "2.prems" by (simp split: if_splits)
  next
    case (Some e)
    have "(i, e) \<in> set idx" using Some by (rule map_of_SomeD)
    then show ?thesis using "2.IH"(2,3) [OF _ Some] "2.prems" Some by (simp split: if_splits) auto
  qed
qed simp

lemma pool_from_unseen: "h \<in> set (pool_from idx n seen fs) \<Longrightarrow> hit_path h \<notin> set seen"
proof (induction idx n seen fs rule: pool_from.induct)
  case (2 idx n seen i s rest)
  then show ?case by (simp split: if_splits option.splits) fastforce
qed simp

lemma pool_from_distinct: "distinct (map hit_path (pool_from idx n seen fs))"
proof (induction idx n seen fs rule: pool_from.induct)
  case (2 idx n seen i s rest)
  show ?case
  proof (cases "map_of idx i")
    case None
    then show ?thesis using "2.IH"(1) by (simp split: if_splits)
  next
    case (Some e)
    have "hit_path h \<noteq> en_path e" if "h \<in> set (pool_from idx (n - 1) (en_path e # seen) rest)" for h
      using pool_from_unseen [OF that] by simp
    then have "en_path e \<notin> hit_path ` set (pool_from idx (n - 1) (en_path e # seen) rest)"
      by (metis (no_types, lifting) imageE)
    then show ?thesis using "2.IH"(2,3) [OF _ Some] Some by (simp split: if_splits)
  qed
qed simp

lemma normalize_scores_mem [simp]: "map h_mem (normalize_scores hs) = map h_mem hs"
  by (simp add: normalize_scores_def Let_def)

lemma apply_signals_mem: "apply_signals R tel scope hs = Some hs' \<Longrightarrow> map h_mem hs' = map h_mem hs"
proof -
  have "all_some (map (\<lambda>h. map_option (\<lambda>x. scale x h) (f h)) hs) = Some hs' \<Longrightarrow> map h_mem hs' = map h_mem hs" for f hs'
    by (induction hs arbitrary: hs') (auto split: option.splits)
  then show "apply_signals R tel scope hs = Some hs' \<Longrightarrow> ?thesis" by (simp add: apply_signals_def)
qed

lemma temporal_boost_mem: "mset (map h_mem (temporal_boost r hs)) = mset (map h_mem hs)"
  by (simp add: temporal_boost_def image_mset.compositionality comp_def if_distrib [of h_mem] cong: if_cong split: option.split)

lemma pick_max_mset: "pick_max f x ys = (w, rest) \<Longrightarrow> add_mset w (mset rest) = add_mset x (mset ys)"
  by (induction f x ys arbitrary: w rest rule: pick_max.induct) (auto simp: Let_def split: prod.splits if_splits)

lemma pick_max_best: "pick_max f x ys = (w, rest) \<Longrightarrow> y \<in> set (x # ys) \<Longrightarrow> f y \<le> f w"
proof (induction f x ys arbitrary: w rest y rule: pick_max.induct)
  case (2 f x z ys)
  obtain v r where v: "pick_max f z ys = (v, r)" by fastforce
  have le: "f y \<le> f v" if "y \<in> set (z # ys)" for y using "2.IH" [OF v that] .
  then have "f z \<le> f v" by simp
  show ?case
  proof (cases "f v > f x")
    case True
    then show ?thesis using "2.prems" v le by auto
  next
    case False
    then show ?thesis using "2.prems" v le by fastforce
  qed
qed simp

lemma mmr_loop_mset: "mset (mmr_loop R k chosen hs) \<subseteq># mset hs \<and> length (mmr_loop R k chosen hs) = min k (length hs)"
proof (induction R k chosen hs rule: mmr_loop.induct)
  case (3 R k chosen h hs)
  obtain w rest where w: "pick_max (mmr_score R chosen) h hs = (w, rest)" by fastforce
  note ms = pick_max_mset [OF w]
  then have "size (mset rest) = size (mset hs)" by (metis size_add_mset add_left_cancel plus_1_eq_Suc Suc_inject)
  with 3 w ms show ?case by (simp add: Let_def) (metis mset_subset_eq_add_mset_cancel)
qed simp_all

lemma mmr_rerank_mset: "mset (mmr_rerank R k hs) \<subseteq># mset hs" "length (mmr_rerank R k hs) = min k (length hs)"
  using mmr_loop_mset [of R k "[]" hs] by (simp_all add: mmr_rerank_def min_def)

lemma submset_map_distinct:
  assumes "mset xs \<subseteq># mset ys" and "distinct (map f ys)"
  shows "distinct (map f xs)" "set xs \<subseteq> set ys"
proof -
  have "mset (map f xs) \<subseteq># mset (map f ys)" using assms(1) by (simp add: image_mset_subseteq_mono)
  then show "distinct (map f xs)" using assms(2) by (metis distinct_append mset_append mset_eq_imp_distinct_iff mset_subset_eq_exists_conv ex_mset)
  show "set xs \<subseteq> set ys" using assms(1) by (metis set_mset_mono set_mset_mset)
qed

lemma fts_literal_search_spec:
  "h \<in> set (fts_literal_search q idx n) \<Longrightarrow> h_mem h \<in> snd ` set idx \<and> \<not> h_cosine h"
  "length (fts_literal_search q idx n) \<le> max 1 n"
  by (auto simp: fts_literal_search_def literal_hit_def split: if_splits dest!: in_set_takeD)

lemma add_hits:
  assumes "distinct (map hit_path hs)"
  shows "distinct (map hit_path (foldl add_hit hs xs))" "length (foldl add_hit hs xs) \<le> length hs + length xs"
    "set (foldl add_hit hs xs) \<subseteq> set hs \<union> set xs"
proof -
  have "distinct (map hit_path (foldl add_hit hs xs)) \<and> length (foldl add_hit hs xs) \<le> length hs + length xs \<and>
    set (foldl add_hit hs xs) \<subseteq> set hs \<union> set xs"
    using assms
  proof (induction xs arbitrary: hs)
    case (Cons x xs)
    have d: "distinct (map hit_path (add_hit hs x))" using Cons.prems by (simp add: add_hit_def)
    have "length (add_hit hs x) \<le> Suc (length hs)" "set (add_hit hs x) \<subseteq> insert x (set hs)"
      by (auto simp: add_hit_def)
    with Cons.IH [OF d] show ?case by auto
  qed simp
  then show "distinct (map hit_path (foldl add_hit hs xs))" "length (foldl add_hit hs xs) \<le> length hs + length xs"
    "set (foldl add_hit hs xs) \<subseteq> set hs \<union> set xs" by simp_all
qed

lemma literal_hits_spec:
  "distinct (map hit_path (literal_hits idx q))" "length (literal_hits idx q) \<le> 2"
  "set (literal_hits idx q) \<subseteq> set (fts_literal_search q idx 2)"
  using add_hits [of "[]" "fts_literal_search q idx 2"] fts_literal_search_spec(2) [of q idx 2]
  by (simp_all add: literal_hits_def)

definition raw_pool :: "engine \<Rightarrow> vault_index \<Rightarrow> string \<Rightarrow> hit list" where
  "raw_pool R idx q =
     candidate_pool idx (rev (map hit_path (literal_hits idx q)))
       (rrf_fusion (cosine_channel R idx q) (bm25_channel R idx q) (fts_channel R idx q))"

lemma raw_pool_spec:
  "distinct (map hit_path (raw_pool R idx q))" "length (raw_pool R idx q) \<le> POOL_SIZE"
  unfolding raw_pool_def candidate_pool_def by (rule pool_from_distinct) (meson min.boundedE pool_from_length)

lemma raw_pool_mem:
  assumes "h \<in> set (raw_pool R idx q)"
  shows "h_mem h \<in> snd ` set idx" "hit_path h \<notin> hit_path ` set (literal_hits idx q)"
proof -
  note h = assms [unfolded raw_pool_def candidate_pool_def]
  show "h_mem h \<in> snd ` set idx" using pool_from_mem [OF h] by force
  show "hit_path h \<notin> hit_path ` set (literal_hits idx q)" using pool_from_unseen [OF h] by simp
qed

lemma ranked_mem:
  assumes "ranked R idx tel q scope (rev (map hit_path (literal_hits idx q))) = Some hs"
  shows "mset (map h_mem hs) = mset (map h_mem (raw_pool R idx q))"
proof -
  obtain hs1 r where "apply_signals R (load_telemetry_bulk tel) scope (normalize_scores (raw_pool R idx q)) = Some hs1"
    "hs = temporal_boost r hs1"
    using assms by (auto simp: ranked_def raw_pool_def Let_def bind_eq_Some_conv)
  then show ?thesis using temporal_boost_mem apply_signals_mem normalize_scores_mem by metis
qed

lemma found_hits_mem:
  assumes "found_hits R fs idx tel q k scope ctx = Some hits"
  obtains hs where "ranked R idx tel q scope (rev (map hit_path (literal_hits idx q))) = Some hs"
    "map h_mem hits = map h_mem (literal_hits idx q) @ map h_mem (mmr_rerank R k hs)"
  using assms by (auto simp: found_hits_def Let_def comp_def split: if_splits)

lemma found_hits_spec:
  assumes "found_hits R fs idx tel q k scope ctx = Some hits"
  shows "length hits \<le> k + 2" "distinct (map hit_path hits)" "h \<in> set hits \<Longrightarrow> h_mem h \<in> snd ` set idx"
proof -
  obtain hs where hs: "ranked R idx tel q scope (rev (map hit_path (literal_hits idx q))) = Some hs"
    and hits: "map h_mem hits = map h_mem (literal_hits idx q) @ map h_mem (mmr_rerank R k hs)"
    using found_hits_mem [OF assms] .
  note ms = ranked_mem [OF hs]
  have d: "distinct (map en_path (map h_mem hs))"
  proof -
    have "mset (map en_path (map h_mem hs)) = mset (map en_path (map h_mem (raw_pool R idx q)))"
      using ms by (simp only: mset_map)
    then show ?thesis using raw_pool_spec(1) [of R idx q] mset_eq_imp_distinct_iff by (fastforce simp: comp_def)
  qed
  have "mset (map h_mem (mmr_rerank R k hs)) \<subseteq># mset (map h_mem hs)"
    using mmr_rerank_mset(1) by (simp add: image_mset_subseteq_mono)
  note sub = submset_map_distinct [OF this d]
  have "set (map h_mem hs) = set (map h_mem (raw_pool R idx q))" using ms by (metis set_mset_mset)
  with sub(2) have in_pool: "set (map h_mem (mmr_rerank R k hs)) \<subseteq> set (map h_mem (raw_pool R idx q))" by simp
  have "length hits = length (literal_hits idx q) + length (mmr_rerank R k hs)"
    using hits by (metis length_append length_map)
  then show "length hits \<le> k + 2" using literal_hits_spec(2) [of idx q] mmr_rerank_mset(2) [of R k hs] by linarith
  have apart: "en_path e \<notin> en_path ` set (map h_mem (literal_hits idx q))" if "e \<in> set (map h_mem (raw_pool R idx q))" for e
    using that raw_pool_mem(2) [of _ R idx q] by (force simp: image_image)
  define L M where "L = map h_mem (literal_hits idx q)" and "M = map h_mem (mmr_rerank R k hs)"
  have "en_path ` set L \<inter> en_path ` set M = {}"
  proof (rule Int_emptyI)
    fix p assume p: "p \<in> en_path ` set L" "p \<in> en_path ` set M"
    from p(2) obtain e where e: "p = en_path e" "e \<in> set M" by (rule imageE)
    have "e \<in> set (map h_mem (raw_pool R idx q))" using e(2) in_pool unfolding M_def by (rule rev_subsetD)
    from apart [OF this] p(1) show False unfolding L_def e(1) by (rule notE)
  qed
  moreover have "distinct (map en_path L)"
    using literal_hits_spec(1) [of idx q] by (simp add: L_def comp_def)
  moreover have "map h_mem hits = L @ M" using hits by (simp add: L_def M_def)
  ultimately have "distinct (map en_path (map h_mem hits))"
    using sub(1) by (simp only: M_def map_append distinct_append set_map)
  then show "distinct (map hit_path hits)" by (simp add: comp_def)
  show "h_mem h \<in> snd ` set idx" if "h \<in> set hits"
  proof -
    have "h_mem h \<in> set (map h_mem hits)" using that by simp
    then consider "h_mem h \<in> set (map h_mem (literal_hits idx q))" | "h_mem h \<in> set (map h_mem (raw_pool R idx q))"
      unfolding hits using in_pool by auto
    then show ?thesis
      using literal_hits_spec(3) [of idx q] fts_literal_search_spec(1) [of _ q idx 2] raw_pool_mem(1) [of _ R idx q]
      by cases auto
  qed
qed


section \<open>Order\<close>

text \<open>Without a temporal phrase and with no more candidates than asked for, the list and its order
  are those of the rank fusion: neither the scope nor the accesses, links and importance of the memories
  have any influence, although they change the scores.\<close>

theorem signals_leave_small_pools:
  assumes "found_hits R fs idx tel query k scope ctx = Some hits"
    and "extract_temporal_range (r_now R) query = Some None" and "length (raw_pool R idx query) \<le> k"
  shows "map h_mem hits = map h_mem (literal_hits idx query @ raw_pool R idx query)"
proof -
  obtain hs where hs: "ranked R idx tel query scope (rev (map hit_path (literal_hits idx query))) = Some hs"
    and hits: "map h_mem hits = map h_mem (literal_hits idx query) @ map h_mem (mmr_rerank R k hs)"
    using found_hits_mem [OF assms(1)] .
  then have "apply_signals R (load_telemetry_bulk tel) scope (normalize_scores (raw_pool R idx query)) = Some hs"
    using assms(2) by (auto simp: ranked_def raw_pool_def Let_def bind_eq_Some_conv temporal_boost_def)
  then have mem: "map h_mem hs = map h_mem (raw_pool R idx query)" using apply_signals_mem by fastforce
  then have "length hs \<le> k" using assms(3) by (metis length_map)
  then show ?thesis using hits mem by (simp add: mmr_rerank_def)
qed

section \<open>Rank fusion\<close>

text \<open>In a channel, \<open>i\<close> is ahead of \<open>j\<close>: it scores higher, or \<open>j\<close> does not occur.\<close>

definition ahead :: "scores \<Rightarrow> string \<Rightarrow> string \<Rightarrow> bool" where
  "ahead d i j \<longleftrightarrow>
     (case map_of d j of
        None \<Rightarrow> True
      | Some y \<Rightarrow> (case map_of d i of None \<Rightarrow> False | Some x \<Rightarrow> x > y))"

lemma map_of_positions:
  assumes "distinct (map fst xs)" and "p < length xs"
  shows "map_of (map (\<lambda>(r, i, _). (i, r)) (enumerate n xs)) (fst (xs ! p)) = Some (n + p)"
  using assms
proof (induction xs arbitrary: p n)
  case (Cons x xs)
  show ?case
  proof (cases p)
    case (Suc q)
    then have "fst (xs ! q) \<noteq> fst x" using Cons.prems by (metis distinct.simps(2) in_set_conv_nth length_map list.simps(9) nth_map Suc_less_eq length_Cons)
    then show ?thesis using Cons Suc by (cases x) simp
  qed (cases x, simp)
qed simp

lemma ranks_facts:
  assumes "wf_dict d"
  shows "length (ranks d) = length d" "fst ` set (ranks d) = fst ` set d"
    "map_of d i = None \<Longrightarrow> rank_of (ranks d) i = length d + 1"
    "map_of d i = Some x \<Longrightarrow> 1 \<le> rank_of (ranks d) i \<and> rank_of (ranks d) i \<le> length d"
    "map_of d i = Some x \<Longrightarrow> map_of d j = Some y \<Longrightarrow> y < x \<Longrightarrow> rank_of (ranks d) i < rank_of (ranks d) j"
proof -
  let ?xs = "sort_key (\<lambda>x. - snd x) d"
  have dist: "distinct (map fst ?xs)" using assms by (simp add: wf_dict_def distinct_map)
  show len: "length (ranks d) = length d" by (simp add: ranks_def)
  have "fst ` set (ranks d) = fst ` set ?xs"
  proof -
    have "map fst (ranks d) = map fst (map snd (enumerate 1 ?xs))"
      unfolding ranks_def map_map by (rule map_cong) auto
    then have "map fst (ranks d) = map fst ?xs" by (simp only: map_snd_enumerate)
    then show ?thesis by (metis list.set_map)
  qed
  then show dom: "fst ` set (ranks d) = fst ` set d" by simp
  have pos: "\<exists>p < length d. ?xs ! p = (i, x) \<and> rank_of (ranks d) i = p + 1" if "map_of d i = Some x" for i x
  proof -
    have "(i, x) \<in> set ?xs" using that by (simp add: map_of_SomeD)
    then obtain p where p: "p < length ?xs" "?xs ! p = (i, x)" by (metis in_set_conv_nth)
    then show ?thesis using map_of_positions [OF dist p(1), of 1] by (auto simp: rank_of_def ranks_def)
  qed
  show "rank_of (ranks d) i = length d + 1" if "map_of d i = None"
    using that dom len by (simp add: rank_of_def map_of_eq_None_iff split: option.split) (metis map_of_eq_None_iff option.distinct(1))
  show "1 \<le> rank_of (ranks d) i \<and> rank_of (ranks d) i \<le> length d" if "map_of d i = Some x"
    using pos [OF that] by auto
  show "rank_of (ranks d) i < rank_of (ranks d) j" if xy: "map_of d i = Some x" "map_of d j = Some y" "y < x"
  proof -
    obtain p q where p: "p < length d" "?xs ! p = (i, x)" "rank_of (ranks d) i = p + 1"
      and q: "q < length d" "?xs ! q = (j, y)" "rank_of (ranks d) j = q + 1"
      using pos [OF xy(1)] pos [OF xy(2)] by auto
    have "p < q"
    proof (rule ccontr)
      assume "\<not> p < q"
      then have "map (\<lambda>x. - snd x) ?xs ! q \<le> map (\<lambda>x. - snd x) ?xs ! p"
        using p(1) by (intro sorted_nth_mono) simp_all
      then show False using p q xy(3) by simp
    qed
    then show ?thesis using p q by simp
  qed
qed


lemma ahead_rank:
  assumes "wf_dict d" and "ahead d i j"
  shows "i \<in> fst ` set d \<Longrightarrow> rank_of (ranks d) i < rank_of (ranks d) j"
    "rank_of (ranks d) i \<le> rank_of (ranks d) j"
proof -
  note r = ranks_facts [OF assms(1)]
  show lt: "rank_of (ranks d) i < rank_of (ranks d) j" if "i \<in> fst ` set d"
  proof -
    obtain x where x: "map_of d i = Some x" using \<open>i \<in> fst ` set d\<close> by (cases "map_of d i") (auto simp: map_of_eq_None_iff)
    show ?thesis
    proof (cases "map_of d j")
      case None
      then show ?thesis using r(3) r(4) [OF x] by simp
    next
      case (Some y)
      then show ?thesis using assms(2) x r(5) by (simp add: ahead_def)
    qed
  qed
  show "rank_of (ranks d) i \<le> rank_of (ranks d) j"
  proof (cases "map_of d i")
    case None
    then have "map_of d j = None" using assms(2) by (simp add: ahead_def split: option.splits)
    then show ?thesis using None r(3) by simp
  next
    case (Some x)
    then have "(i, x) \<in> set d" by (rule map_of_SomeD)
    then have "i \<in> fst ` set d" by force
    then show ?thesis using lt by simp
  qed
qed

lemma reciprocal_rank_mono: "rank_of d i \<le> rank_of d j \<Longrightarrow> reciprocal_rank d j \<le> reciprocal_rank d i"
  "rank_of d i < rank_of d j \<Longrightarrow> reciprocal_rank d j < reciprocal_rank d i"
  by (auto simp: reciprocal_rank_def RRF_K_def field_simps)

lemma reciprocal_rank_bounds: "wf_dict d \<Longrightarrow> 0 < reciprocal_rank (ranks d) i \<and> reciprocal_rank (ranks d) i \<le> 1 / 61"
proof -
  assume "wf_dict d"
  then have "1 \<le> rank_of (ranks d) i" using ranks_facts(3,4) [of d i] by (cases "map_of d i") auto
  then show ?thesis by (simp add: reciprocal_rank_def RRF_K_def field_simps)
qed

lemma ranks_empty [simp]: "ranks d = [] \<longleftrightarrow> d = []"
proof -
  have "length (ranks d) = length d" by (simp add: ranks_def)
  then show ?thesis by (cases d; cases "ranks d") simp_all
qed

lemma wf_map_pairs: "distinct ks \<Longrightarrow> wf_dict (map (\<lambda>i. (i, f i)) ks)"
  by (simp add: wf_dict_def comp_def)

lemma pool_from_scores: "subseq (map h_score (pool_from idx n seen fs)) (map snd fs)"
  by (induction idx n seen fs rule: pool_from.induct) (auto split: option.split)

lemma pool_sorted: "sorted_wrt (\<lambda>g h. h_score h \<le> h_score g) (pool_from idx n seen (sort_key (\<lambda>x. - snd x) fs))"
proof -
  have "sorted_wrt (\<lambda>x y. y \<le> x) (map snd (sort_key (\<lambda>x. - snd x) fs))"
    using sorted_sort_key [of "\<lambda>x. - snd x" fs] by (simp add: sorted_map sorted_wrt_map)
  moreover have "sorted_wrt P ys \<Longrightarrow> sorted_wrt P xs" if "subseq xs ys" for P :: "real \<Rightarrow> real \<Rightarrow> bool" and xs ys
    using that by (induction rule: list_emb.induct) (auto dest: list_emb_set)
  ultimately have "sorted_wrt (\<lambda>x y. y \<le> x) (map h_score (pool_from idx n seen (sort_key (\<lambda>x. - snd x) fs)))"
    using pool_from_scores by blast
  then show ?thesis by (simp add: sorted_wrt_map)
qed

text \<open>The fusion gives each id that occurs in a channel one score, above 0 and at most 3/61, and an id
  that is ahead of another in every channel the higher one; the pool that goes on is in the order of the
  scores.\<close>

theorem fusion_follows_channels:
  assumes "wf_dict c" and "wf_dict b" and "wf_dict t"
  shows "wf_dict (rrf_fusion c b t) \<and> fst ` set (rrf_fusion c b t) = fst ` (set c \<union> set b \<union> set t) \<and>
    (\<forall>(i, x) \<in> set (rrf_fusion c b t). 0 < x \<and> x \<le> 3 / 61) \<and>
    (\<forall>(i, x) \<in> set (rrf_fusion c b t). \<forall>(j, y) \<in> set (rrf_fusion c b t).
       ahead c i j \<and> ahead b i j \<and> ahead t i j \<longrightarrow> y < x) \<and>
    sorted_wrt (\<lambda>g h. h_score h \<le> h_score g) (candidate_pool idx seen (rrf_fusion c b t))"
proof -
  define ids where "ids = uniq (map fst (ranks c) @ map fst (ranks b) @ map fst (ranks t))"
  define sc where "sc i = reciprocal_rank (ranks c) i + reciprocal_rank (ranks b) i +
    (if t \<noteq> [] then reciprocal_rank (ranks t) i else 0)" for i
  have f: "rrf_fusion c b t = map (\<lambda>i. (i, sc i)) ids"
    by (simp add: rrf_fusion_def Let_def ids_def sc_def)
  have doms: "set ids = fst ` (set c \<union> set b \<union> set t)"
    using ranks_facts(2) [OF assms(1)] ranks_facts(2) [OF assms(2)] ranks_facts(2) [OF assms(3)]
    by (simp add: ids_def image_Un Un_assoc)
  have bounds: "0 < sc i \<and> sc i \<le> 3 / 61" for i
    using reciprocal_rank_bounds [OF assms(1), of i] reciprocal_rank_bounds [OF assms(2), of i]
      reciprocal_rank_bounds [OF assms(3), of i] by (auto simp: sc_def)
  have better: "sc j < sc i" if i: "i \<in> set ids" and a: "ahead c i j" "ahead b i j" "ahead t i j" for i j
  proof -
    note m = reciprocal_rank_mono
    note le = m(1) [OF ahead_rank(2) [OF assms(1) a(1)]] m(1) [OF ahead_rank(2) [OF assms(2) a(2)]]
      m(1) [OF ahead_rank(2) [OF assms(3) a(3)]]
    note less = m(2) [OF ahead_rank(1) [OF assms(1) a(1)]] m(2) [OF ahead_rank(1) [OF assms(2) a(2)]]
      m(2) [OF ahead_rank(1) [OF assms(3) a(3)]]
    consider "i \<in> fst ` set c" | "i \<in> fst ` set b" | "i \<in> fst ` set t" using i unfolding doms image_Un by blast
    then show ?thesis
    proof cases
      case 1
      then show ?thesis using less(1) le by (auto simp: sc_def)
    next
      case 2
      then show ?thesis using less(2) le by (auto simp: sc_def)
    next
      case 3
      then have "t \<noteq> []" by auto
      then show ?thesis using less(3) [OF 3] le by (simp add: sc_def)
    qed
  qed
  have "wf_dict (rrf_fusion c b t)" unfolding f by (rule wf_map_pairs) (simp add: ids_def)
  moreover have "fst ` set (rrf_fusion c b t) = set ids" by (auto simp: f image_iff)
  ultimately show ?thesis
    using bounds better pool_sorted by (auto simp: f doms candidate_pool_def)
qed

section \<open>Errors\<close>

text \<open>
  Two inputs that make retrieval raise: a phrase such as \<^verbatim>\<open>999999 days ago\<close>, which leads before the
  year 1, and a last access that lies centuries ahead.
\<close>

lemma far_past_raises:
  assumes "now \<le> 100000 * day"
  shows "extract_temporal_range now ''what changed 999999 days ago'' = None"
proof -
  have "re_findall (ago_re ''day'') (lower ''what changed 999999 days ago'') = [''999999 days ago'']" by code_simp
  then have "ago_count ''day'' (lower ''what changed 999999 days ago'') = Some 999999"
    by (simp add: ago_count_def is_digit_def)
  moreover have "first_instant = -719162 * day" by code_simp
  ultimately show ?thesis using assms by (simp add: extract_temporal_range_def span_ago_def Let_def day_def)
qed

lemma far_future_raises:
  assumes "parse_iso_dt s = Some t" and "t \<ge> now + 8000 * day"
  shows "recency now (JStr s) = None"
proof -
  have "s \<noteq> []" using assms(1) parse_iso_examples(4) by auto
  moreover have "real_of_int (t - now) \<ge> real_of_int (8000 * day)" using assms(2) by linarith
  then have "- (seconds_between now t / 3600) / 168 \<ge> 1024"
    by (simp add: seconds_between_def day_def field_simps)
  ultimately show ?thesis using assms(1) by (simp add: recency_def Let_def)
qed

section \<open>Examples\<close>

definition sample_engine :: engine where
  "sample_engine =
     \<lparr>r_aliases = [], r_now = 0, r_stamp = [], r_scores = (\<lambda>_. None), r_ids = [], r_rows = 0, r_sim = (\<lambda>_ _. 0),
      r_bm25 = (\<lambda>corpus _. map (\<lambda>ws. real (length ws)) corpus), r_fts = (\<lambda>_ _. []), r_db = \<lparr>rows = [], user_version = 3\<rparr>,
      r_text = (\<lambda>_. []), r_writeback = False, r_source = [], r_brief = Missing, r_latency = 0\<rparr>"

definition sample_entry :: "string \<Rightarrow> string \<Rightarrow> index_entry" where
  "sample_entry i t =
     \<lparr>en_id = i, en_path = i @ ''.md'', en_title = t, en_project = ''?'', en_created = [], en_body = [], en_body_full = [],
      en_last = [], en_count = 0, en_valid = [], en_immune = False, en_layer = 2, en_importance = 3,
      en_status = ''active'', en_tags = [], en_keys = [], en_related = []\<rparr>"

definition sample_vault :: "vfile list" where
  "sample_vault = [(''a0.md'', 1, Some (''---'' @ [NL] @ ''id: a0'' @ [NL] @ ''title: v1.2 notes'' @ [NL] @ ''---'' @ [NL]))]"

lemma sample_index: "build_index sample_vault = [(''a0'', sample_entry ''a0'' ''v1.2 notes'')]"
  unfolding sample_vault_def build_index_def sample_entry_def by (simp add: add_note_def) code_simp

lemma no_channels:
  "cosine_channel sample_engine idx q = []" "fts_channel sample_engine idx q = []"
  by (simp_all add: cosine_channel_def fts_channel_def sample_engine_def search_fts_def search_fts_with_graph_def Let_def)

lemma temporal_examples:
  "extract_temporal_range 0 ''v1.2'' = Some None"
  "extract_temporal_range 0 ''notes 3 days ago'' = Some (Some (- 4 * day, - 3 * day))"
  by code_simp+

abbreviation "sample_idx \<equiv> [(''a0'', sample_entry ''a0'' ''v1.2 notes'')]"

lemma sample_literals:
  "literal_hits sample_idx ''v1.2'' = [literal_hit (sample_entry ''a0'' ''v1.2 notes'')]"
  "literal_hits sample_idx ''notes'' = []"
proof -
  have "literals ''v1.2'' = [''v1.2'']" "literals ''notes'' = []" by code_simp+
  moreover have "has_literal [''v1.2''] (sample_entry ''a0'' ''v1.2 notes'')" by code_simp
  ultimately show "literal_hits sample_idx ''v1.2'' = [literal_hit (sample_entry ''a0'' ''v1.2 notes'')]"
    "literal_hits sample_idx ''notes'' = []"
    by (simp_all add: literal_hits_def fts_literal_search_def add_hit_def)
qed

lemma sample_bm25:
  "bm25_channel sample_engine sample_idx ''v1.2'' = [(''a0'', 2)]"
  "bm25_channel sample_engine sample_idx ''notes'' = [(''a0'', 2)]"
proof -
  have "build_bm25 sample_idx = ([''a0''], [[''v1.2'', ''notes'']])" by code_simp
  moreover have "split_ws (lower ''v1.2'') = [''v1.2'']" "split_ws (lower ''notes'') = [''notes'']" by code_simp+
  ultimately show "bm25_channel sample_engine sample_idx ''v1.2'' = [(''a0'', 2)]"
    "bm25_channel sample_engine sample_idx ''notes'' = [(''a0'', 2)]"
    by (simp_all add: bm25_channel_def sample_engine_def)
qed

lemma sample_fused: "rrf_fusion [] [(''a0'', 2)] [] = [(''a0'', 2 / 61)]"
  by (simp add: rrf_fusion_def ranks_def uniq_def add_new_def reciprocal_rank_def rank_of_def RRF_K_def)

lemma sample_pools:
  "raw_pool sample_engine sample_idx ''v1.2'' = []"
  "raw_pool sample_engine sample_idx ''notes'' = [\<lparr>h_mem = sample_entry ''a0'' ''v1.2 notes'', h_score = 2 / 61, h_cosine = True\<rparr>]"
  by (simp_all add: raw_pool_def no_channels sample_bm25 sample_fused sample_literals candidate_pool_def POOL_SIZE_def literal_hit_def)

lemma sample_found:
  "found_hits sample_engine sample_vault sample_idx Missing ''v1.2'' 3 [] [] = Some [literal_hit (sample_entry ''a0'' ''v1.2 notes'')]"
  using sample_pools(1)
  by (simp add: found_hits_def ranked_def raw_pool_def sample_literals normalize_scores_def apply_signals_def
      temporal_boost_def temporal_examples sample_engine_def mmr_rerank_def)


lemma apply_signals_total:
  assumes "\<forall>h \<in> set hs. usage_of (r_now R) tel (h_mem h) \<noteq> None"
  shows "apply_signals R tel scope hs \<noteq> None"
proof -
  have "all_some (map f xs) \<noteq> None" if "\<forall>x \<in> set xs. f x \<noteq> None" for f :: "hit \<Rightarrow> hit option" and xs
    using that by (induction xs) auto
  then show ?thesis using assms by (simp add: apply_signals_def multiplier_def)
qed

theorem signals_leave_small_pools_witness:
  "\<exists>hits. found_hits sample_engine sample_vault sample_idx Missing ''notes'' 3 ''proj'' [] = Some hits \<and>
     map h_mem hits = [sample_entry ''a0'' ''v1.2 notes'']"
proof -
  have t: "extract_temporal_range (r_now sample_engine) ''notes'' = Some None" by code_simp
  have u: "usage_of n (JObj []) (sample_entry ''a0'' ''v1.2 notes'') = Some 0" for n
    by (simp add: usage_of_def sample_entry_def jget_or_def jor_def recency_def frequency_def number_of_def)
  define ns where "ns = normalize_scores (raw_pool sample_engine sample_idx ''notes'')"
  have "map h_mem ns = [sample_entry ''a0'' ''v1.2 notes'']"
    unfolding ns_def normalize_scores_mem by (simp add: sample_pools)
  then have "\<forall>h \<in> set ns. usage_of (r_now sample_engine) (JObj []) (h_mem h) \<noteq> None"
    by (auto simp: u)
  then have "apply_signals sample_engine (JObj []) ''proj'' (normalize_scores (raw_pool sample_engine sample_idx ''notes'')) \<noteq> None"
    unfolding ns_def by (rule apply_signals_total)
  then obtain hits where found: "found_hits sample_engine sample_vault sample_idx Missing ''notes'' 3 ''proj'' [] = Some hits"
    by (auto simp: found_hits_def ranked_def raw_pool_def Let_def load_telemetry_bulk_def t sample_literals)
  have "length (raw_pool sample_engine sample_idx ''notes'') \<le> 3" by (simp add: sample_pools)
  from signals_leave_small_pools [OF found t this] found show ?thesis by (simp add: sample_pools sample_literals)
qed

theorem fusion_follows_channels_witness:
  "list_all (\<lambda>(i, x). 0 < x \<and> x \<le> 3 / 61) (rrf_fusion [(''a'', 0.9), (''b'', 0.5)] [(''b'', 1)] [])"
  using fusion_follows_channels [of "[(''a'', 0.9), (''b'', 0.5)]" "[(''b'', 1)]" "[]"]
  by (simp add: wf_dict_def list_all_iff)

end
