(* ===== verification/EvalCapture.thy ===== *)
theory EvalCapture
  imports RecallLog
begin

text \<open>
  \<^verbatim>\<open>memem/eval_capture.py\<close>: the redaction of personal data from a query, and the file of captured
  recalls.
\<close>

section \<open>Redaction\<close>

text \<open>\<^verbatim>\<open>re.sub(r, f, s)\<close>; the patterns below match no empty text.\<close>

function sub_from :: "re \<Rightarrow> (string \<Rightarrow> string) \<Rightarrow> char option \<Rightarrow> string \<Rightarrow> string" where
  "sub_from r f pr s =
     (case ends r (pr, s) of
        q # _ \<Rightarrow>
          if length (snd q) < length s
          then f (take (length s - length (snd q)) s) @ sub_from r f (fst q) (snd q)
          else (case s of [] \<Rightarrow> f [] | c # t \<Rightarrow> f [] @ c # sub_from r f (Some c) t)
      | [] \<Rightarrow> (case s of [] \<Rightarrow> [] | c # t \<Rightarrow> c # sub_from r f (Some c) t))"
  by pat_completeness auto
termination
  by (relation "measure (\<lambda>(r, f, pr, s). length s)") auto

declare sub_from.simps [simp del]

definition re_sub :: "re \<Rightarrow> (string \<Rightarrow> string) \<Rightarrow> string \<Rightarrow> string" where
  "re_sub r f s = sub_from r f None s"

definition at_least :: "nat \<Rightarrow> re \<Rightarrow> re" where  \<comment> \<open>\<^verbatim>\<open>r{n,}\<close>\<close>
  "at_least n r = Cat (times n r) (Star r)"

definition between :: "nat \<Rightarrow> nat \<Rightarrow> re \<Rightarrow> re" where  \<comment> \<open>\<^verbatim>\<open>r{n,m}\<close>\<close>
  "between n m r = Cat (times n r) (upto (m - n) r)"

abbreviation chars_of :: "string \<Rightarrow> re" where "chars_of cs \<equiv> Chars (\<lambda>c. c \<in> set cs)"

definition letter :: "char \<Rightarrow> bool" where
  "letter c \<longleftrightarrow> CHR ''A'' \<le> c \<and> c \<le> CHR ''Z'' \<or> CHR ''a'' \<le> c \<and> c \<le> CHR ''z''"

definition alnum :: re where "alnum = Chars (\<lambda>c. letter c \<or> is_digit c)"
definition token_char :: re where  \<comment> \<open>\<^verbatim>\<open>[A-Za-z0-9_-]\<close>\<close>
  "token_char = Chars (\<lambda>c. letter c \<or> is_digit c \<or> c = CHR ''_'' \<or> c = CHR ''-'')"
definition digit :: re where "digit = Chars is_digit"

definition jwt_re :: re where
  "jwt_re = cats [WordB, lit ''eyJ'', at_least 10 token_char, lit ''.'', at_least 10 token_char, lit ''.'',
     at_least 10 token_char, WordB]"

definition apikey_re :: re where
  "apikey_re = cats [WordB, lit ''sk-'', opt (lit ''ant-''), at_least 20 token_char, WordB]"

definition github_re :: re where
  "github_re = cats [WordB, lit ''gh'', chars_of ''pousr'', lit ''_'', at_least 20 alnum, WordB]"

definition aws_re :: re where
  "aws_re = cats [WordB, lit ''AKIA'', times 16 (Chars (\<lambda>c. is_digit c \<or> CHR ''A'' \<le> c \<and> c \<le> CHR ''Z'')), WordB]"

definition slack_re :: re where
  "slack_re = cats [WordB, lit ''xox'', chars_of ''bpoa'', lit ''-'', plus digit, lit ''-'',
     plus (Chars (\<lambda>c. letter c \<or> is_digit c \<or> c = CHR ''-'')), WordB]"

definition bearer_re :: re where
  "bearer_re = cats [WordB, ilit ''Bearer'', sp,
     at_least 20 (Chars (\<lambda>c. letter c \<or> is_digit c \<or> c \<in> set ''._-'')), WordB]"

definition email_re :: re where
  "email_re = cats [WordB, plus (Chars (\<lambda>c. letter c \<or> is_digit c \<or> c \<in> set ''._%+-'')), lit ''@'',
     plus (Chars (\<lambda>c. letter c \<or> is_digit c \<or> c \<in> set ''.-'')), lit ''.'', at_least 2 (Chars letter), WordB]"

definition phone_re :: re where
  "phone_re = cats [opt (cats [lit ''+'', between 1 3 digit, chars_of '' .-'']), opt (lit ''(''), between 2 4 digit,
     opt (lit '')''), chars_of '' .-'', between 3 4 digit, chars_of '' .-'', between 3 4 digit, WordB]"

definition ssn_re :: re where
  "ssn_re = cats [WordB, times 3 digit, lit ''-'', times 2 digit, lit ''-'', times 4 digit, WordB]"

definition pii_patterns :: "(re \<times> string) list" where
  "pii_patterns =
     [(jwt_re, ''[REDACTED_JWT]''), (apikey_re, ''[REDACTED_APIKEY]''), (github_re, ''[REDACTED_GITHUB_PAT]''),
      (aws_re, ''[REDACTED_AWS_KEY]''), (slack_re, ''[REDACTED_SLACK_TOKEN]''), (bearer_re, ''Bearer [REDACTED_TOKEN]''),
      (email_re, ''[REDACTED_EMAIL]''), (phone_re, ''[REDACTED_PHONE]''), (ssn_re, ''[REDACTED_SSN]'')]"

text \<open>\<^verbatim>\<open>_luhn_check\<close>: every second digit, counted from the parity of the length, is doubled.\<close>

fun luhn_sum :: "bool \<Rightarrow> nat list \<Rightarrow> nat" where
  "luhn_sum doubled [] = 0"
| "luhn_sum doubled (n # ns) =
     (if doubled then if 2 * n > 9 then 2 * n - 9 else 2 * n else n) + luhn_sum (\<not> doubled) ns"

definition luhn_check :: "string \<Rightarrow> bool" where
  "luhn_check s =
     (let nums = map (\<lambda>c. of_char c - 48) (filter is_digit s) in
      if length nums < 13 \<or> length nums > 19 then False
      else luhn_sum (even (length nums)) nums mod 10 = 0)"

definition cc_re :: re where
  "cc_re = cats [WordB, between 13 19 (cats [digit, opt (chars_of '' -'')]), WordB]"

definition redact_card :: "string \<Rightarrow> string" where
  "redact_card m = (if luhn_check (filter is_digit m) then ''[REDACTED_CC]'' else m)"

definition is_phone :: "re \<times> string \<Rightarrow> bool" where
  "is_phone p \<longleftrightarrow> contains (snd p) ''PHONE''"

definition sub_all :: "(re \<times> string) list \<Rightarrow> string \<Rightarrow> string" where
  "sub_all ps s = foldl (\<lambda>s (r, w). re_sub r (\<lambda>_. w) s) s ps"

definition scrub_pii :: "string \<Rightarrow> string" where
  "scrub_pii s =
     (if s = [] then s
      else sub_all (filter is_phone pii_patterns)
        (re_sub cc_re redact_card (sub_all (filter (\<lambda>p. \<not> is_phone p) pii_patterns) s)))"

section \<open>The capture file\<close>

definition capture_enabled :: "string \<Rightarrow> bool" where
  "capture_enabled v \<longleftrightarrow> strip v \<in> {''1'', ''true'', ''yes''}"

definition capture_row :: "string \<Rightarrow> string \<Rightarrow> string \<Rightarrow> string \<Rightarrow> string list \<Rightarrow> int option \<Rightarrow> real option \<Rightarrow> turn" where
  "capture_row stamp query mode scope ids limit latency =
     [(''latency_ms'', case latency of None \<Rightarrow> JNull | Some ms \<Rightarrow> JReal (round_to 2 ms)),
      (''limit'', case limit of None \<Rightarrow> JNull | Some n \<Rightarrow> JInt n),
      (''memory_ids'', JArr (map JStr ids)), (''mode'', JStr mode), (''query'', JStr (scrub_pii query)),
      (''schema_version'', JInt 1), (''scope_id'', JStr scope), (''ts'', JStr stamp)]"

definition capture ::
  "(real \<Rightarrow> string) \<Rightarrow> string \<Rightarrow> string \<Rightarrow> string \<Rightarrow> string \<Rightarrow> string list \<Rightarrow> string \<Rightarrow> int option \<Rightarrow> real option \<Rightarrow>
   string option \<Rightarrow> string option" where
  "capture floats env stamp query mode ids scope limit latency stored =
     (if \<not> capture_enabled env then stored
      else Some ((case stored of None \<Rightarrow> [] | Some t \<Rightarrow> t)
                 @ json_dumps floats (JObj (capture_row stamp query mode scope ids limit latency)) @ [NL]))"

text \<open>
  The rows, all or those since an instant. A row whose timestamp does not parse is left out; \<open>None\<close> is
  a row that is no object or a timestamp that is no text, which raise, and bytes that are not UTF-8.
\<close>

definition capture_since :: "(int \<Rightarrow> int) \<Rightarrow> int \<Rightarrow> json \<Rightarrow> json list option" where
  "capture_since local cutoff row =
     (case row of
        JObj d \<Rightarrow>
          (case jget_or d ''ts'' (JStr []) of
             JStr ts \<Rightarrow>
               (case fromisoformat (replace_str ''Z'' ''+00:00'' ts) of
                  None \<Rightarrow> Some []
                | Some (us, off) \<Rightarrow>
                    let t = (case off of None \<Rightarrow> local us | Some f \<Rightarrow> us - f)
                    in Some (if t < cutoff then [] else [row]))
           | _ \<Rightarrow> None)
      | _ \<Rightarrow> None)"

definition load_captures :: "(int \<Rightarrow> int) \<Rightarrow> int option \<Rightarrow> string option \<Rightarrow> json list option" where
  "load_captures local cutoff stored =
     (case stored of
        None \<Rightarrow> Some []
      | Some bytes \<Rightarrow>
          Option.bind (log_rows bytes) (\<lambda>lines.
            let rws = List.map_filter id lines in
            (case cutoff of
               None \<Rightarrow> Some rws
             | Some c \<Rightarrow> map_option concat (all_some (map (capture_since local c) rws)))))"

section \<open>What redaction leaves\<close>

text \<open>
  A substitution cuts its input into characters it keeps, where no match starts, and matches it
  replaces: whatever matches in the input starts inside something that was replaced.
\<close>

datatype piece = Keep char | Cut string

fun piece_text :: "piece \<Rightarrow> string" where
  "piece_text (Keep c) = [c]"
| "piece_text (Cut m) = m"

fun piece_sub :: "(string \<Rightarrow> string) \<Rightarrow> piece \<Rightarrow> string" where
  "piece_sub f (Keep c) = [c]"
| "piece_sub f (Cut m) = f m"

fun pieces_ok :: "re \<Rightarrow> char option \<Rightarrow> piece list \<Rightarrow> bool" where
  "pieces_ok r pr [] \<longleftrightarrow> True"
| "pieces_ok r pr (Keep c # ps) \<longleftrightarrow> ends r (pr, c # concat (map piece_text ps)) = [] \<and> pieces_ok r (Some c) ps"
| "pieces_ok r pr (Cut m # ps) \<longleftrightarrow>
     m \<noteq> [] \<and> matches r (pr, m @ concat (map piece_text ps)) (Some (last m), concat (map piece_text ps)) \<and>
     pieces_ok r (Some (last m)) ps"

definition never_empty :: "re \<Rightarrow> bool" where
  "never_empty r \<longleftrightarrow> (\<forall>p. \<not> matches r p p)"

lemma matches_before: "matches r p q \<Longrightarrow> \<exists>u. snd p = u @ snd q \<and> fst q = before (fst p) u"
proof (induction rule: matches.induct)
  case (Cat a p q b t)
  then obtain u v where "snd p = u @ snd q" "fst q = before (fst p) u" "snd q = v @ snd t" "fst t = before (fst q) v" by blast
  then show ?case by (intro exI [of _ "u @ v"]) (simp add: before_def)
next
  case (StarS a p q t)
  then obtain u v where "snd p = u @ snd q" "fst q = before (fst p) u" "snd q = v @ snd t" "fst t = before (fst q) v" by blast
  then show ?case by (intro exI [of _ "u @ v"]) (simp add: before_def)
qed (auto simp: before_def intro: exI [of _ "[]"])

lemma sub_from_pieces:
  assumes "never_empty r"
  shows "\<exists>ps. concat (map piece_text ps) = s \<and> sub_from r f pr s = concat (map (piece_sub f) ps) \<and> pieces_ok r pr ps"
proof (induction "length s" arbitrary: pr s rule: less_induct)
  case less
  show ?case
  proof (cases "ends r (pr, s)")
    case Nil
    show ?thesis
    proof (cases s)
      case Nil
      then show ?thesis using \<open>ends r (pr, s) = []\<close> by (intro exI [of _ "[]"]) (simp add: sub_from.simps)
    next
      case (Cons c t)
      then obtain ps where "concat (map piece_text ps) = t" "sub_from r f (Some c) t = concat (map (piece_sub f) ps)"
        "pieces_ok r (Some c) ps" using less [of t "Some c"] by auto
      then show ?thesis using Cons \<open>ends r (pr, s) = []\<close>
        by (intro exI [of _ "Keep c # ps"]) (simp add: sub_from.simps [of r f pr "c # t"])
    qed
  next
    case (Cons q qs)
    then have m: "matches r (pr, s) q" using ends_sound by (metis list.set_intros(1))
    obtain u where u: "s = u @ snd q" "fst q = before pr u" using matches_before [OF m] by auto
    have "u \<noteq> []"
    proof
      assume "u = []"
      then have "q = (pr, s)" using u by (simp add: before_def prod_eq_iff)
      then show False using m assms by (simp add: never_empty_def)
    qed
    then obtain t where q: "q = (Some (last u), t)" using u by (cases q) (simp add: before_def)
    have s: "s = u @ t" using u(1) q by simp
    then have "length t < length s" using \<open>u \<noteq> []\<close> by simp
    from less [OF this, of "Some (last u)"] obtain ps where ps: "concat (map piece_text ps) = t"
      "sub_from r f (Some (last u)) t = concat (map (piece_sub f) ps)" "pieces_ok r (Some (last u)) ps" by blast
    have "sub_from r f pr s = f u @ sub_from r f (Some (last u)) t"
      using Cons \<open>u \<noteq> []\<close> unfolding s q by (simp add: sub_from.simps [of r f pr "u @ t"])
    then show ?thesis using ps m \<open>u \<noteq> []\<close> unfolding s q
      by (intro exI [of _ "Cut u # ps"]) simp
  qed
qed

text \<open>
  The card pattern takes as many digits as it can: with the three digits of the security code after it a
  card number of sixteen digits becomes one run of nineteen, which fails the checksum, and nothing is
  redacted.
\<close>

lemma card_with_code_is_kept:
  "scrub_pii ''4111111111111111'' = ''[REDACTED_CC]'' \<and>
   scrub_pii ''4111111111111111 123'' = ''4111111111111111 123''"
  by (rule conjI) code_simp+

fun min_len :: "re \<Rightarrow> nat" where
  "min_len (Chars P) = 1"
| "min_len (Cat a b) = min_len a + min_len b"
| "min_len (Alt a b) = min (min_len a) (min_len b)"
| "min_len _ = 0"

lemma matches_min_len: "matches r p q \<Longrightarrow> length (snd q) + min_len r \<le> length (snd p)"
  by (induction rule: matches.induct) auto

lemma pii_patterns_consume: "\<forall>p \<in> set ((cc_re, []) # pii_patterns). 0 < min_len (fst p)"
  by code_simp

text \<open>Each pass of the redaction removes every match: no character it keeps is one where a match starts.\<close>

theorem redaction_pass_leaves_no_match:
  assumes "(r, w) \<in> set pii_patterns"
  shows "\<exists>ps. concat (map piece_text ps) = s \<and> re_sub r (\<lambda>_. w) s = concat (map (piece_sub (\<lambda>_. w)) ps) \<and> pieces_ok r None ps"
proof -
  have "0 < min_len r" using pii_patterns_consume assms by fastforce
  then have "never_empty r" using matches_min_len by (fastforce simp: never_empty_def)
  then show ?thesis unfolding re_sub_def by (rule sub_from_pieces)
qed

end
