(* ===== verification/Recall.thy ===== *)
theory Recall
  imports Retrieve EvalCapture Store Transcripts
begin

text \<open>
  \<^verbatim>\<open>memem/recall.py\<close>, the read side the user sees: search, get, timeline, recall and list over the
  retrieval engine, the vault cache and the memory graph, with the reranking by a cross-encoder of
  \<^verbatim>\<open>memem/cross_encoder_rerank.py\<close>.
\<close>

section \<open>State and outside\<close>

record recall_state =
  v_store :: store
  v_ret :: retrieval
  v_recalls :: json_file
  v_captures :: "string option"

record recall_env =
  m_ext :: ext
  m_engine :: engine
  m_clock :: clock
  m_now :: int
  m_ce :: "string \<Rightarrow> (string \<times> string) list \<Rightarrow> real list option"
  m_rerank :: string   \<comment> \<open>\<^verbatim>\<open>MEMEM_RERANK_MODEL\<close>\<close>
  m_capture :: string  \<comment> \<open>\<^verbatim>\<open>MEMEM_EVAL_CAPTURE\<close>\<close>
  m_floats :: "real \<Rightarrow> string"
  m_latency :: real
  m_tmatch :: tmatch
  m_tfiles :: "(real \<times> sfile) list"
  m_tdb :: tdb

definition in_vault :: "(store \<Rightarrow> 'a \<times> store) \<Rightarrow> recall_state \<Rightarrow> 'a \<times> recall_state" where
  "in_vault f v = (let (x, s) = f (v_store v) in (x, v\<lparr>v_store := s\<rparr>))"

definition find_mem :: "recall_env \<Rightarrow> string \<Rightarrow> recall_state \<Rightarrow> memory option \<times> recall_state" where
  "find_mem M i v = in_vault (find_memory (m_ext M) (m_clock M) i) v"

section \<open>Reranking\<close>

text \<open>
  \<^verbatim>\<open>rerank_pairs\<close>: the ids of the candidates with their scores, best first. Without a model, when it
  fails, or when it gives another number of scores, the old order with falling numbers.
\<close>

definition identity_order :: "memory list \<Rightarrow> (string \<times> real) list" where
  "identity_order ms = map (\<lambda>(n, m). (mem_id m, real (length ms) - real n - 1)) (enumerate 0 ms)"

definition pair_text :: "memory \<Rightarrow> string" where
  "pair_text m = take 512 (strip (title m @ '' '' @ take 500 (essence m)))"

definition rerank_pairs ::
  "(string \<Rightarrow> (string \<times> string) list \<Rightarrow> real list option) \<Rightarrow> string \<Rightarrow> memory list \<Rightarrow> string option \<Rightarrow> nat \<Rightarrow>
   (string \<times> real) list" where
  "rerank_pairs ce query cands model top_k =
     (let working = take top_k cands in
      case model of
        None \<Rightarrow> identity_order working
      | Some name \<Rightarrow>
          (case ce name (map (\<lambda>m. (query, pair_text m)) working) of
             None \<Rightarrow> identity_order working
           | Some ss \<Rightarrow>
               if length ss = length working then sort_desc snd (zip (map mem_id working) ss)
               else identity_order working))"

definition by_id :: "memory list \<Rightarrow> (string, memory) dict" where
  "by_id ms = foldl (\<lambda>d m. AList.update (mem_id m) m d) [] ms"

definition rerank :: "recall_env \<Rightarrow> string \<Rightarrow> string \<Rightarrow> memory list \<Rightarrow> memory list" where
  "rerank M model query primary =
     (let reranked = List.map_filter (\<lambda>(i, _). map_of (by_id primary) i) (rerank_pairs (m_ce M) query primary (Some model) 50);
          seen = set (map mem_id reranked)
      in reranked @ filter (\<lambda>m. mem_id m \<notin> seen) primary)"

section \<open>Expansion over links\<close>

text \<open>The state of a walk: short ids seen, results, the memories found in this hop.\<close>

record walk =
  g_seen :: "string list"
  g_results :: "memory list"
  g_next :: "memory list"

definition found :: "memory \<Rightarrow> walk \<Rightarrow> walk" where
  "found m w = w\<lparr>g_results := g_results w @ [m], g_next := g_next w @ [m]\<rparr>"

text \<open>One edge of the graph. The walk stops once it has enough results.\<close>

definition follow_edge :: "recall_env \<Rightarrow> nat \<Rightarrow> string \<Rightarrow> walk \<times> recall_state \<Rightarrow> walk \<times> recall_state" where
  "follow_edge M max_total dst wv =
     (let (w, v) = wv in
      if max_total \<le> length (g_results w) \<or> id8 dst = [] \<or> id8 dst \<in> set (g_seen w) then (w, v)
      else (case find_mem M dst v of
              (Some m, v) \<Rightarrow>
                if status m = ''deprecated'' then (w, v)
                else (found m (w\<lparr>g_seen := id8 dst # g_seen w\<rparr>), v)
            | (None, v) \<Rightarrow> (w, v)))"

text \<open>One id of \<^verbatim>\<open>related\<close>, compared as it is written; it counts as seen even when nothing is found.\<close>

definition follow_related :: "recall_env \<Rightarrow> nat \<Rightarrow> string \<Rightarrow> walk \<times> recall_state \<Rightarrow> walk \<times> recall_state" where
  "follow_related M max_total i wv =
     (let (w, v) = wv in
      if max_total \<le> length (g_results w) \<or> i \<in> set (g_seen w) then (w, v)
      else
        let w = w\<lparr>g_seen := i # g_seen w\<rparr> in
        (case find_mem M i v of
           (Some m, v) \<Rightarrow> if status m = ''deprecated'' then (w, v) else (found m w, v)
         | (None, v) \<Rightarrow> (w, v)))"

definition min_score_at :: "nat \<Rightarrow> real" where
  "min_score_at hop = (if hop = 0 then 0.18 else 0.30)"

definition graph_hop :: "recall_env \<Rightarrow> nat \<Rightarrow> nat \<Rightarrow> memory list \<Rightarrow> walk \<times> recall_state \<Rightarrow> walk \<times> recall_state" where
  "graph_hop M max_total hop frontier wv =
     fold (\<lambda>m (w, v).
       fold (\<lambda>(k, _). follow_edge M max_total (fst (snd k)))
         (if max_total \<le> length (g_results w) then []
          else neighbors (mem_id m) normal_recall_types max_total (min_score_at hop) (edges (v_store v))) (w, v))
       frontier wv"

definition related_hop :: "recall_env \<Rightarrow> nat \<Rightarrow> nat \<Rightarrow> memory list \<Rightarrow> walk \<times> recall_state \<Rightarrow> walk \<times> recall_state" where
  "related_hop M max_total hop frontier wv =
     fold (\<lambda>m. fold (follow_related M max_total) (related m)) frontier wv"

fun hops_from ::
  "(nat \<Rightarrow> memory list \<Rightarrow> walk \<times> recall_state \<Rightarrow> walk \<times> recall_state) \<Rightarrow> nat \<Rightarrow> nat \<Rightarrow> nat \<Rightarrow> memory list \<Rightarrow>
   walk \<times> recall_state \<Rightarrow> walk \<times> recall_state" where
  "hops_from step max_total hop 0 frontier (w, v) = (w, v)"
| "hops_from step max_total hop (Suc n) frontier (w, v) =
     (if max_total \<le> length (g_results w) then (w, v)
      else (case step hop frontier (w\<lparr>g_next := []\<rparr>, v) of
              (w, v) \<Rightarrow> if g_next w = [] then (w, v) else hops_from step max_total (hop + 1) n (g_next w) (w, v)))"

definition expand_with ::
  "(nat \<Rightarrow> memory list \<Rightarrow> walk \<times> recall_state \<Rightarrow> walk \<times> recall_state) \<Rightarrow> memory list \<Rightarrow> nat \<Rightarrow> nat \<Rightarrow> recall_state \<Rightarrow>
   memory list \<times> recall_state" where
  "expand_with step seeds max_total hops v =
     (if seeds = [] then ([], v)
      else let (w, v) = hops_from step max_total 0 hops seeds
                          (\<lparr>g_seen = map (\<lambda>m. id8 (mem_id m)) seeds, g_results = seeds, g_next = []\<rparr>, v)
           in (take max_total (g_results w), v))"

definition expand_graph :: "recall_env \<Rightarrow> memory list \<Rightarrow> nat \<Rightarrow> nat \<Rightarrow> recall_state \<Rightarrow> memory list \<times> recall_state" where
  "expand_graph M seeds max_total hops v =
     (case expand_with (graph_hop M max_total) seeds max_total hops v of
        (ms, v) \<Rightarrow>
          if length ms > length seeds then (ms, v)
          else expand_with (related_hop M max_total) seeds max_total hops v)"

definition linked_memories :: "recall_env \<Rightarrow> memory list \<Rightarrow> recall_state \<Rightarrow> memory list \<times> recall_state" where
  "linked_memories M primary v =
     (let ids = (\<lambda>m. id8 (mem_id m)) ` {m \<in> set primary. mem_id m \<noteq> []};
          (ms, v) = expand_graph M primary (max (length primary * 10) 20) 2 v
      in (filter (\<lambda>m. id8 (mem_id m) \<notin> ids) ms, v))"

section \<open>Searching\<close>

text \<open>The session of the last briefing; a file that holds no object raises.\<close>

definition current_session :: "(json \<Rightarrow> string) \<Rightarrow> json_file \<Rightarrow> string option" where
  "current_session other f =
     (case f of
        Doc (JObj d) \<Rightarrow>
          let i = jget_or d ''session_id'' (JStr []) in Some (if json_truthy i then py_text other i else [])
      | Doc _ \<Rightarrow> None
      | _ \<Rightarrow> Some [])"

fun record_all :: "recall_env \<Rightarrow> string \<Rightarrow> memory list \<Rightarrow> recall_state \<Rightarrow> bool \<times> recall_state" where
  "record_all M sid [] v = (True, v)"
| "record_all M sid (m # ms) v =
     (if mem_id m = [] then record_all M sid ms v
      else (case record_access (r_stamp (m_engine M)) (mem_id m) (q_tel (v_ret v)) of
              (Inl _, t) \<Rightarrow> (False, v\<lparr>v_ret := (v_ret v)\<lparr>q_tel := t\<rparr>\<rparr>)
            | (Inr _, t) \<Rightarrow>
                let v = v\<lparr>v_ret := (v_ret v)\<lparr>q_tel := t\<rparr>\<rparr> in
                (case record_session_recall (r_stamp (m_engine M)) (m_now M) sid (mem_id m) (v_recalls v) of
                   (Inl _, f) \<Rightarrow> (False, v\<lparr>v_recalls := f\<rparr>)
                 | (Inr _, f) \<Rightarrow> record_all M sid ms (v\<lparr>v_recalls := f\<rparr>))))"

fun find_hits :: "recall_env \<Rightarrow> hit list \<Rightarrow> recall_state \<Rightarrow> memory list \<times> recall_state" where
  "find_hits M [] v = ([], v)"
| "find_hits M (h # hs) v =
     (let (m, v) = find_mem M (en_id (h_mem h)) v; (ms, v) = find_hits M hs v
      in ((case m of None \<Rightarrow> ms | Some m \<Rightarrow> m # ms), v))"

text \<open>\<open>None\<close> raises. The score that is added to a copy of each memory is not used any further.\<close>

definition soft_scope :: "string \<Rightarrow> string" where
  "soft_scope scope = (if scope = ''default'' then [] else scope)"

definition search_memories ::
  "recall_env \<Rightarrow> string \<Rightarrow> string \<Rightarrow> nat \<Rightarrow> bool \<Rightarrow> bool \<Rightarrow> string option \<Rightarrow> recall_state \<Rightarrow>
   memory list option \<times> recall_state" where
  "search_memories M query scope limit recording expand_links model v =
     (let model = or_else (case model of None \<Rightarrow> [] | Some n \<Rightarrow> n) (m_rerank M);
          k = (if model \<noteq> [] then min (limit * 3) 50 else limit);
          R = (m_engine M)\<lparr>r_db := fts_db (v_store v)\<rparr>;
          (hits, q) = retrieve R (vault_files (v_store v)) query k None (soft_scope scope) False [] (v_ret v);
          v = v\<lparr>v_ret := q\<rparr>
      in case hits of
           None \<Rightarrow> (None, v)
         | Some hs \<Rightarrow>
             (case find_hits M hs v of
                (primary, v) \<Rightarrow>
                  if primary = [] then (Some [], v)
                  else
                    let primary = take limit (if model \<noteq> [] then rerank M model query primary else primary);
                        (results, v) = (if expand_links then expand_graph M primary (limit * 2) 2 v else (primary, v))
                    in if \<not> recording then (Some results, v)
                       else (case current_session (r_text R) (r_brief R) of
                               None \<Rightarrow> (None, v)
                             | Some sid \<Rightarrow>
                                 (case record_all M sid results v of
                                    (ok, v) \<Rightarrow> (if ok then Some results else None, v)))))"

section \<open>Rendering\<close>

text \<open>
  What a slice shows of a memory. \<open>it_source\<close> is \<open>None\<close> for a source type the slice format does not
  know; the fields of an item that no renderer reads are left out.
\<close>

record item_view =
  it_id :: string
  it_title :: string
  it_content :: string
  it_layer :: int
  it_project :: string
  it_tags :: "string list"
  it_related :: "string list"
  it_source :: "string option"

definition slice_sources :: "string list" where
  "slice_sources = [''user'', ''mined'', ''import'', ''transcript'', ''playbook'']"

definition memory_to_item :: "memory \<Rightarrow> item_view" where
  "memory_to_item m =
     \<lparr>it_id = mem_id m, it_title = title m, it_content = essence m,
      it_layer = (case layer m of None \<Rightarrow> DEFAULT_LAYER | Some l \<Rightarrow> l), it_project = project m,
      it_tags = domain_tags m, it_related = related m,
      it_source = (if source_type m \<in> set slice_sources then Some (source_type m) else None)\<rparr>"

text \<open>\<^verbatim>\<open>_layer_summary_from_items\<close>: how many items per layer, by layer.\<close>

definition layer_summary_from_items :: "item_view list \<Rightarrow> (int \<times> nat) list" where
  "layer_summary_from_items its = sort_key fst (counter (map it_layer its))"

definition format_compact_index_line :: "item_view \<Rightarrow> string" where
  "format_compact_index_line x =
     ''['' @ id8 (it_id x) @ ''] L'' @ str_of_int (it_layer x) @ '' '' @ it_title x @ '' '' @ [em_dash] @ '' ''
     @ take 80 (join '' '' (split_ws (it_content x)))"

definition format_full_memory :: "item_view \<Rightarrow> string" where
  "format_full_memory x =
     join [NL]
       ([''### ['' @ id8 (it_id x) @ ''] '' @ it_title x, ''- **layer:** L'' @ str_of_int (it_layer x),
         ''- **project:** '' @ it_project x,
         ''- **source:** '' @ (case it_source x of None \<Rightarrow> ''unknown'' | Some w \<Rightarrow> w)]
        @ (if it_tags x \<noteq> [] then [''- **tags:** '' @ join '', '' (it_tags x)] else [])
        @ (if it_related x \<noteq> [] then [''- **related:** '' @ join '', '' (map id8 (it_related x))] else [])
        @ [[], it_content x, []])"

datatype slice =
    SearchSlice bool string string "item_view list" "item_view list"
      \<comment> \<open>is it a recall, scope, query, items, linked\<close>
  | GetSlice string "item_view list" "string list" "item_view list"  \<comment> \<open>scope, items, missing, linked\<close>
  | TimelineSlice string string "item_view list" "item_view list" "item_view list"
      \<comment> \<open>anchor id, anchor title, all items, before, after\<close>

definition section_lines :: "string \<Rightarrow> item_view list \<Rightarrow> string list" where
  "section_lines head its = (if its = [] then [] else head # map format_compact_index_line its @ [[]])"

fun slice_lines :: "slice \<Rightarrow> string list" where
  "slice_lines (TimelineSlice i t its earlier later) =
     [''## Memory Timeline '' @ [em_dash] @ '' '' @ t @ '' ['' @ i @ '']'', []] @ section_lines ''### Before'' earlier
     @ [''### Anchor'',
        (case find (\<lambda>x. id8 (it_id x) = i) its of Some x \<Rightarrow> format_full_memory x | None \<Rightarrow> ''['' @ i @ ''] '' @ t), []]
     @ section_lines ''### After'' later"
| "slice_lines (GetSlice scope its missing linked) =
     [''## Memory Get '' @ [em_dash] @ '' '' @ scope, []] @ map format_full_memory its
     @ (if missing = [] then [] else [''_Not found: '' @ join '', '' missing @ ''_'', []])
     @ section_lines ''### Related'' linked"
| "slice_lines (SearchSlice recalled scope query its linked) =
     [''## Memory '' @ (if recalled then ''Recall'' else ''Search'') @ '' '' @ [em_dash] @ '' '' @ scope
        @ (if query = [] then [] else '' '' @ [em_dash] @ '' `'' @ query @ ''`''), []]
     @ map format_compact_index_line its @ [[]] @ section_lines ''### Related'' linked"

definition render_recall_markdown :: "slice \<Rightarrow> string" where
  "render_recall_markdown sl = rstrip (join [NL] (slice_lines sl)) @ [NL]"

section \<open>The operations\<close>

definition eval_capture :: "recall_env \<Rightarrow> string \<Rightarrow> string \<Rightarrow> memory list \<Rightarrow> string \<Rightarrow> nat \<Rightarrow> recall_state \<Rightarrow> recall_state" where
  "eval_capture M query mode ms scope limit v =
     v\<lparr>v_captures := capture (m_floats M) (m_capture M) (r_stamp (m_engine M)) query mode
        (filter (\<lambda>i. i \<noteq> []) (map mem_id ms)) scope (Some (int limit)) (Some (m_latency M)) (v_captures v)\<rparr>"

definition memory_search :: "recall_env \<Rightarrow> string \<Rightarrow> nat \<Rightarrow> string \<Rightarrow> recall_state \<Rightarrow> string option \<times> recall_state" where
  "memory_search M query limit scope v =
     (case search_memories M query scope limit False False None v of
        (None, v) \<Rightarrow> (None, v)
      | (Some ms, v) \<Rightarrow>
          let v = eval_capture M query ''search'' ms scope limit v in
          if ms = [] then (Some (''No memories found for: '' @ query), v)
          else let (linked, v) = linked_memories M ms v
               in (Some (render_recall_markdown
                     (SearchSlice False scope query (map memory_to_item ms) (map memory_to_item linked))), v))"

fun find_each :: "recall_env \<Rightarrow> string list \<Rightarrow> recall_state \<Rightarrow> (memory list \<times> string list) \<times> recall_state" where
  "find_each M [] v = (([], []), v)"
| "find_each M (i # ids) v =
     (let (m, v) = find_mem M i v; ((ms, missing), v) = find_each M ids v
      in ((case m of None \<Rightarrow> (ms, i # missing) | Some m \<Rightarrow> (m # ms, missing)), v))"

definition memory_get :: "recall_env \<Rightarrow> string list \<Rightarrow> string \<Rightarrow> recall_state \<Rightarrow> string \<times> recall_state" where
  "memory_get M ids scope v =
     (if ids = [] then (''No IDs provided. Call memory_search first, then pass specific IDs here.'', v)
      else
        let ((ms, missing), v) = find_each M ids v; (linked, v) = linked_memories M ms v
        in (render_recall_markdown (GetSlice scope (map memory_to_item ms) missing (map memory_to_item linked)), v))"

text \<open>\<^verbatim>\<open>_parse_ts\<close> in microseconds.\<close>

definition parse_ts :: "string \<Rightarrow> int" where
  "parse_ts ts = (case parse_iso_dt ts of None \<Rightarrow> 0 | Some t \<Rightarrow> t)"

definition timeline_links :: "store \<Rightarrow> memory \<Rightarrow> memory list \<Rightarrow> string set" where
  "timeline_links s anchor mems =
     (let a = id8 (mem_id anchor) in
      set (map id8 (related anchor))
      \<union> (\<lambda>m. id8 (mem_id m)) ` {m \<in> set mems. a \<in> set (map id8 (related m))}
      \<union> set (map (\<lambda>(k, _). id8 (fst (snd k))) (neighbors a relation_types 50 0 (edges s)))
      \<union> set (map (\<lambda>(k, _). id8 (fst k)) (reverse_neighbors a relation_types 50 0 (edges s))))"

definition timeline_candidates :: "string set \<Rightarrow> memory \<Rightarrow> memory list \<Rightarrow> memory list" where
  "timeline_candidates links anchor mems =
     map snd (foldl (\<lambda>d m. let i = id8 (mem_id m) in
         if i = id8 (mem_id anchor) then d
         else if i \<in> links \<or> project m = project anchor then AList.update i m d else d) [] mems)"

definition take_last :: "nat \<Rightarrow> 'a list \<Rightarrow> 'a list" where
  "take_last n xs = drop (length xs - n) xs"

definition timeline_parts :: "store \<Rightarrow> memory \<Rightarrow> memory list \<Rightarrow> nat \<Rightarrow> nat \<Rightarrow> memory list \<times> memory list" where
  "timeline_parts s anchor mems depth_before depth_after =
     (let cands = timeline_candidates (timeline_links s anchor mems) anchor mems;
          t = parse_ts (created_at anchor);
          chrono = sort_key (\<lambda>m. parse_ts (created_at m))
      in (take_last depth_before (chrono (filter (\<lambda>m. parse_ts (created_at m) < t) cands)),
          take depth_after (chrono (filter (\<lambda>m. \<not> parse_ts (created_at m) < t) cands))))"

definition memory_timeline :: "recall_env \<Rightarrow> string \<Rightarrow> nat \<Rightarrow> nat \<Rightarrow> string \<Rightarrow> recall_state \<Rightarrow> string \<times> recall_state" where
  "memory_timeline M i depth_before depth_after scope v =
     (case find_mem M i v of
        (None, v) \<Rightarrow> (''Anchor memory not found: '' @ i, v)
      | (Some anchor, v) \<Rightarrow>
          let (mems, v) = in_vault (obsidian_memories (m_ext M) (m_clock M) (Some scope) False) v;
              (earlier, later) = timeline_parts (v_store v) anchor mems depth_before depth_after;
              its = map memory_to_item (anchor # earlier @ later)
          in (render_recall_markdown
                (TimelineSlice (id8 (mem_id anchor)) (title anchor) its (map memory_to_item earlier) (map memory_to_item later)), v))"

definition memory_recall ::
  "recall_env \<Rightarrow> string \<Rightarrow> string \<Rightarrow> nat \<Rightarrow> string option \<Rightarrow> recall_state \<Rightarrow> string option \<times> recall_state" where
  "memory_recall M query scope limit model v =
     (case search_memories M query scope limit True True model v of
        (None, v) \<Rightarrow> (None, v)
      | (Some ms, v) \<Rightarrow>
          let v = eval_capture M query ''recall'' ms scope limit v;
              logs = transcript_search (r_text (m_engine M)) (m_tmatch M) (m_tfiles M) query 3 (m_tdb M);
              useful = (logs \<noteq> [] \<and> \<not> contains logs ''No matching'');
              parts = (if ms \<noteq> [] then [render_recall_markdown (SearchSlice True scope query (map memory_to_item ms) [])] else [])
                      @ (if useful then [''### Related Session Logs'' @ [NL, NL] @ logs] else [])
          in (Some (if parts = [] then ''No memories found for: '' @ query else join [NL] parts), v))"

definition memory_list :: "recall_env \<Rightarrow> string \<Rightarrow> recall_state \<Rightarrow> string \<times> recall_state" where
  "memory_list M scope v =
     (let (mems, v) = in_vault (obsidian_memories (m_ext M) (m_clock M) (Some scope) False) v in
      if mems = [] then (''No memories in scope: '' @ scope, v)
      else
        let mems = sort_desc created_at mems;
            sources = sort_desc snd (counter (map source_type mems))
        in (join [NL]
              ([''**'' @ str_of_nat (length mems) @ '' memories**'',
                ''Sources: '' @ join '', '' (map (\<lambda>(k, n). k @ '':'' @ str_of_nat n) sources), []]
               @ map (\<lambda>m. ''- ['' @ id8 (mem_id m) @ ''] '' @ take 50 (title m) @ '' | project:'' @ project m) mems), v))"

definition format_memory_as_bullet :: "memory \<Rightarrow> string" where
  "format_memory_as_bullet m =
     ''- **'' @ title m @ ''**''
     @ (if essence m \<noteq> [] \<and> take 60 (essence m) \<noteq> take 60 (title m) then [NL] @ ''  '' @ take 500 (essence m) else [])"

section \<open>Searching records nothing\<close>

text \<open>What searching must leave alone: tables, index and log of the store, access counts, recalls.\<close>

definition kept :: "recall_state \<Rightarrow> (bool \<times> search_db \<times> graph \<times> event list \<times> string option) \<times> telemetry \<times> string option \<times> json_file" where
  "kept v = (others (v_store v), q_tel (v_ret v), q_log (v_ret v), v_recalls v)"

lemma kept_find_mem [simp]: "kept (snd (find_mem M i v)) = kept v"
  by (simp add: find_mem_def in_vault_def kept_def split_beta)

lemma kept_follow [simp]:
  "kept (snd (follow_edge M n dst wv)) = kept (snd wv)" "kept (snd (follow_related M n i wv)) = kept (snd wv)"
proof -
  show "kept (snd (follow_edge M n dst wv)) = kept (snd wv)"
    using kept_find_mem [of M dst "snd wv"]
    by (cases "find_mem M dst (snd wv)") (auto simp: follow_edge_def Let_def split_beta split: option.split)
  show "kept (snd (follow_related M n i wv)) = kept (snd wv)"
    using kept_find_mem [of M i "snd wv"]
    by (cases "find_mem M i (snd wv)") (auto simp: follow_related_def Let_def split_beta split: option.split)
qed

lemma kept_fold: "(\<And>x wv. kept (snd (f x wv)) = kept (snd wv)) \<Longrightarrow> kept (snd (fold f xs wv)) = kept (snd wv)"
  by (induction xs arbitrary: wv) simp_all

lemma kept_hop [simp]:
  "kept (snd (graph_hop M n hop ms wv)) = kept (snd wv)" "kept (snd (related_hop M n hop ms wv)) = kept (snd wv)"
  unfolding graph_hop_def related_hop_def
  by (rule kept_fold, simp add: split_beta kept_fold)+

lemma kept_hops: "(\<And>h ms wv. kept (snd (step h ms wv)) = kept (snd wv)) \<Longrightarrow>
  kept (snd (hops_from step n hop k ms wv)) = kept (snd wv)"
proof (induction k arbitrary: hop ms wv)
  case (Suc k)
  obtain w v where wv: "wv = (w, v)" by (cases wv)
  show ?case
  proof (cases "n \<le> length (g_results w)")
    case False
    obtain w' v' where step: "step hop ms (w\<lparr>g_next := []\<rparr>, v) = (w', v')" by fastforce
    then have "kept v' = kept v" using Suc.prems [of hop ms "(w\<lparr>g_next := []\<rparr>, v)"] by simp
    then show ?thesis using False wv step Suc.IH [OF Suc.prems, of "hop + 1" "g_next w'" "(w', v')"] by simp
  qed (simp add: wv)
next
  case 0
  show ?case by (cases wv) simp
qed

lemma kept_expand_with: "(\<And>h ms wv. kept (snd (step h ms wv)) = kept (snd wv)) \<Longrightarrow> kept (snd (expand_with step seeds n k v)) = kept v"
  using kept_hops [of step n 0 k seeds "(\<lparr>g_seen = map (\<lambda>m. id8 (mem_id m)) seeds, g_results = seeds, g_next = []\<rparr>, v)"]
  by (simp add: expand_with_def split_beta)

lemma kept_expand [simp]: "kept (snd (expand_graph M seeds n k v)) = kept v"
  using kept_expand_with [of "graph_hop M n" seeds n k v]
    kept_expand_with [of "related_hop M n" seeds n k "snd (expand_with (graph_hop M n) seeds n k v)"]
  by (simp add: expand_graph_def split_beta)

lemma kept_linked [simp]: "kept (snd (linked_memories M ms v)) = kept v"
  by (simp add: linked_memories_def Let_def split_beta)

lemma kept_find_hits [simp]: "kept (snd (find_hits M hs v)) = kept v"
  by (induction hs arbitrary: v) (simp_all add: split_beta)

lemma retrieve_reads:
  assumes "retrieve R dir q k None scope False ctx st = (hits, st')"
  shows "q_tel st' = q_tel st" "q_log st' = q_log st"
  using assms by (auto simp: retrieve_def Let_def split: prod.splits if_splits option.splits)

lemma kept_search: "kept (snd (search_memories M q scope limit False links model v)) = kept v"
proof -
  define model' where "model' = or_else (case model of None \<Rightarrow> [] | Some n \<Rightarrow> n) (m_rerank M)"
  obtain hits st' where r: "retrieve ((m_engine M)\<lparr>r_db := fts_db (v_store v)\<rparr>) (vault_files (v_store v)) q
      (if model' \<noteq> [] then min (limit * 3) 50 else limit) None (soft_scope scope) False [] (v_ret v) = (hits, st')" by fastforce
  have k: "kept (v\<lparr>v_ret := st'\<rparr>) = kept v" using retrieve_reads [OF r] by (simp add: kept_def)
  show ?thesis
  proof (cases hits)
    case None
    then show ?thesis using r k by (simp add: search_memories_def model'_def [symmetric] Let_def)
  next
    case (Some hs)
    obtain primary w where p: "find_hits M hs (v\<lparr>v_ret := st'\<rparr>) = (primary, w)" by fastforce
    then have "kept w = kept v" using kept_find_hits [of M hs "v\<lparr>v_ret := st'\<rparr>"] k by simp
    then show ?thesis using Some r p
      by (simp add: search_memories_def model'_def [symmetric] Let_def split_beta)
  qed
qed

text \<open>A search leaves no trace but its capture: whatever it finds and however far it follows the links, the
  search table, the graph, the event log, the index file, the access counts, the recall log and the recalls
  of the session stay as they were.\<close>

theorem memory_search_records_nothing:
  shows "kept (snd (memory_search M query limit scope v)) = kept v"
proof -
  obtain found w where s: "search_memories M query scope limit False False None v = (found, w)" by fastforce
  then have "kept w = kept v" using kept_search [of M query scope limit False None v] by simp
  moreover have "kept (eval_capture M q mode ms sc n u) = kept u" for q mode ms sc n u
    by (simp add: eval_capture_def kept_def)
  ultimately show ?thesis using s by (cases found) (simp_all add: memory_search_def Let_def split_beta)
qed

section \<open>Recalling counts\<close>

lemma record_all_counts:
  assumes "record_all M sid ms v = (True, v')" and "counting (t_file (q_tel (v_ret v)))"
  shows "counting (t_file (q_tel (v_ret v'))) \<and>
    (\<forall>k. counts (t_file (q_tel (v_ret v'))) k
       = counts (t_file (q_tel (v_ret v))) k + int (length (filter (\<lambda>m. mem_id m \<noteq> [] \<and> id8 (mem_id m) = k) ms)))"
  using assms
proof (induction ms arbitrary: v)
  case (Cons m ms)
  show ?case
  proof (cases "mem_id m = []")
    case True
    then show ?thesis using Cons by simp
  next
    case False
    obtain r t where t: "record_access (r_stamp (m_engine M)) (mem_id m) (q_tel (v_ret v)) = (r, t)" by fastforce
    then have step: "r = Inr ()" "counting (t_file t)"
      "counts (t_file t) k = counts (t_file (q_tel (v_ret v))) k + of_bool (k = id8 (mem_id m))" for k
      using record_access_step [OF Cons.prems(2), of "r_stamp (m_engine M)" "mem_id m"] by auto
    define v1 where "v1 = v\<lparr>v_ret := (v_ret v)\<lparr>q_tel := t\<rparr>\<rparr>"
    obtain r2 f where f: "record_session_recall (r_stamp (m_engine M)) (m_now M) sid (mem_id m) (v_recalls v1) = (r2, f)" by fastforce
    have rest: "record_all M sid ms (v1\<lparr>v_recalls := f\<rparr>) = (True, v')"
      using Cons.prems(1) False t step(1) f by (auto simp: Let_def v1_def split: sum.splits)
    have "counting (t_file (q_tel (v_ret (v1\<lparr>v_recalls := f\<rparr>))))" using step(2) by (simp add: v1_def)
    from Cons.IH [OF rest this] show ?thesis using step(3) False by (simp add: v1_def)
  qed
qed simp

text \<open>A recall counts exactly what it returns: the access count of an id grows by the number of returned
  memories with that short id, and no other count changes.\<close>

theorem recall_counts_what_it_returns:
  assumes "search_memories M query scope limit True links model v = (Some ms, v')"
    and "counting (t_file (q_tel (v_ret v)))"
  shows "counts (t_file (q_tel (v_ret v'))) k
    = counts (t_file (q_tel (v_ret v))) k + int (length (filter (\<lambda>m. mem_id m \<noteq> [] \<and> id8 (mem_id m) = k) ms))"
proof -
  define model' where "model' = or_else (case model of None \<Rightarrow> [] | Some n \<Rightarrow> n) (m_rerank M)"
  obtain hits st' where r: "retrieve ((m_engine M)\<lparr>r_db := fts_db (v_store v)\<rparr>) (vault_files (v_store v)) query
      (if model' \<noteq> [] then min (limit * 3) 50 else limit) None (soft_scope scope) False [] (v_ret v) = (hits, st')" by fastforce
  have k: "kept (v\<lparr>v_ret := st'\<rparr>) = kept v" using retrieve_reads [OF r] by (simp add: kept_def)
  obtain hs where hs: "hits = Some hs"
    using assms(1) r by (cases hits) (simp_all add: search_memories_def model'_def [symmetric] Let_def)
  obtain primary w where p: "find_hits M hs (v\<lparr>v_ret := st'\<rparr>) = (primary, w)" by fastforce
  then have w: "kept w = kept v" using kept_find_hits [of M hs "v\<lparr>v_ret := st'\<rparr>"] k by simp
  show ?thesis
  proof (cases "primary = []")
    case True
    then have "ms = []" "v' = w"
      using assms(1) r hs p by (simp_all add: search_memories_def model'_def [symmetric] Let_def)
    then show ?thesis using w by (simp add: kept_def)
  next
    case False
    define prim where "prim = take limit (if model' \<noteq> [] then rerank M model' query primary else primary)"
    obtain res u where u: "(if links then expand_graph M prim (limit * 2) 2 w else (prim, w)) = (res, u)" by fastforce
    have "kept (snd (if links then expand_graph M prim (limit * 2) 2 w else (prim, w))) = kept w" by simp
    then have "kept u = kept v" unfolding u using w by simp
    have "search_memories M query scope limit True links model v =
      (case current_session (r_text (m_engine M)) (r_brief (m_engine M)) of
         None \<Rightarrow> (None, u)
       | Some sid \<Rightarrow> (case record_all M sid res u of (ok, x) \<Rightarrow> (if ok then Some res else None, x)))"
      using r hs p False u by (simp add: search_memories_def model'_def [symmetric] prim_def [symmetric] Let_def)
    then obtain sid where "record_all M sid res u = (True, v')" "ms = res"
      using assms(1) by (cases "current_session (r_text (m_engine M)) (r_brief (m_engine M))")
        (simp_all split: prod.splits if_splits)
    then show ?thesis using record_all_counts [of M sid res u v'] assms(2) \<open>kept u = kept v\<close> by (simp add: kept_def)
  qed
qed

section \<open>Reranking\<close>

lemma by_id_lookup:
  assumes "distinct (map mem_id ms)" and "m \<in> set ms"
  shows "map_of (by_id ms) (mem_id m) = Some m"
  using assms
proof (induction ms rule: rev_induct)
  case (snoc x ms)
  show ?case
  proof (cases "m = x")
    case False
    then have m: "m \<in> set ms" using snoc.prems by auto
    then have "mem_id m \<in> mem_id ` set ms" by (rule imageI)
    then have "mem_id m \<noteq> mem_id x" using snoc.prems(1) by auto
    then show ?thesis using snoc m by (simp add: by_id_def update_conv')
  qed (simp add: by_id_def update_conv')
qed simp

lemma map_filter_total: "\<forall>x \<in> set xs. f x = Some (g x) \<Longrightarrow> List.map_filter f xs = map g xs"
  by (induction xs) (simp_all add: List.map_filter_simps)

lemma rerank_pairs_ids:
  "mset (map fst (rerank_pairs ce q ms model n)) = mset (map mem_id (take n ms))"
proof -
  have ident: "map fst (identity_order xs) = map mem_id xs" for xs
  proof -
    have "map fst (identity_order xs) = map mem_id (map snd (enumerate 0 xs))"
      unfolding identity_order_def map_map by (rule map_cong) auto
    then show ?thesis by (simp only: map_snd_enumerate)
  qed
  have "mset (map fst (sort_desc snd (zip (map mem_id xs) ss))) = mset (map mem_id xs)" if "length ss = length xs" for xs and ss :: "real list"
  proof -
    have "mset (map fst (sort_desc snd (zip (map mem_id xs) ss))) = mset (map fst (zip (map mem_id xs) ss))"
      by (simp only: mset_map mset_sort_desc)
    then show ?thesis using that by simp
  qed
  note scored = this
  show ?thesis
  proof (cases model)
    case (Some name)
    show ?thesis
    proof (cases "ce name (map (\<lambda>m. (q, pair_text m)) (take n ms))")
      case (Some ss)
      then show ?thesis using \<open>model = Some name\<close> scored [of ss "take n ms"]
        by (cases "length ss = length (take n ms)") (simp_all only: rerank_pairs_def Let_def option.case if_True if_False simp_thms ident)
    qed (simp only: rerank_pairs_def Let_def \<open>model = Some name\<close> option.case ident)
  qed (simp only: rerank_pairs_def Let_def option.case ident)
qed

text \<open>Whatever the cross-encoder answers, and also when it fails, reranking only changes the order:
  no memory is lost, doubled or made up.\<close>

theorem rerank_only_permutes:
  assumes "distinct (map mem_id primary)"
  shows "mset (rerank M model query primary) = mset primary"
proof -
  define ps where "ps = rerank_pairs (m_ce M) query primary (Some model) 50"
  define g where "g i = the (map_of (by_id primary) i)" for i
  have ids: "mset (map fst ps) = mset (map mem_id (take 50 primary))" unfolding ps_def by (rule rerank_pairs_ids)
  have look: "map_of (by_id primary) (mem_id m) = Some m" if "m \<in> set primary" for m
    using by_id_lookup [OF assms that] .
  have known: "set (map fst ps) = set (map mem_id (take 50 primary))" using ids by (metis set_mset_mset)
  have "map_of (by_id primary) (fst x) = Some (g (fst x))" if "x \<in> set ps" for x
  proof -
    have "fst x \<in> set (map fst ps)" using that by simp
    then obtain m where m: "fst x = mem_id m" "m \<in> set (take 50 primary)" unfolding known by auto
    show ?thesis unfolding m(1) g_def look [OF in_set_takeD [OF m(2)]] by (simp only: option.sel)
  qed
  then have "\<forall>x \<in> set ps. map_of (by_id primary) (fst x) = Some (g (fst x))" by blast
  then have mf: "List.map_filter (\<lambda>(i, _). map_of (by_id primary) i) ps = map (g \<circ> fst) ps"
    using map_filter_total [of ps "\<lambda>(i, _). map_of (by_id primary) i" "g \<circ> fst"] by (simp add: split_beta)
  have "mset (map (g \<circ> fst) ps) = image_mset g (mset (map fst ps))" by (simp add: image_mset.compositionality)
  also have "\<dots> = mset (map (g \<circ> mem_id) (take 50 primary))" unfolding ids by (simp add: image_mset.compositionality)
  also have "map (g \<circ> mem_id) (take 50 primary) = take 50 primary"
    using look by (intro map_idI) (auto simp: g_def dest: in_set_takeD)
  finally have first: "mset (map (g \<circ> fst) ps) = mset (take 50 primary)" .
  have "mem_id ` set (map (g \<circ> fst) ps) = mem_id ` set (take 50 primary)" using first by (metis set_mset_mset)
  then have seen: "set (map mem_id (map (g \<circ> fst) ps)) = mem_id ` set (take 50 primary)" by (simp only: set_map)
  have "filter (\<lambda>m. mem_id m \<notin> mem_id ` set (take 50 primary)) (take 50 primary @ drop 50 primary) = drop 50 primary"
  proof -
    have "mem_id m \<notin> mem_id ` set (take 50 primary)" if "m \<in> set (drop 50 primary)" for m
    proof -
      have "distinct (map mem_id (take 50 primary) @ map mem_id (drop 50 primary))"
        using assms by (metis append_take_drop_id map_append)
      then show ?thesis using that by auto
    qed
    then have "filter (\<lambda>m. mem_id m \<notin> mem_id ` set (take 50 primary)) (drop 50 primary) = drop 50 primary"
      by (intro filter_True) blast
    moreover have "filter (\<lambda>m. mem_id m \<notin> mem_id ` set (take 50 primary)) (take 50 primary) = []"
      by (intro filter_False) blast
    ultimately show ?thesis by (simp only: filter_append append_Nil)
  qed
  then have rest: "filter (\<lambda>m. mem_id m \<notin> mem_id ` set (take 50 primary)) primary = drop 50 primary" by simp
  have "rerank M model query primary = map (g \<circ> fst) ps @ drop 50 primary"
    unfolding rerank_def ps_def [symmetric] mf Let_def seen rest ..
  then show ?thesis using first by (metis append_take_drop_id mset_append)
qed

section \<open>The timeline\<close>

lemma timeline_candidates_spec:
  "set (timeline_candidates links anchor mems) \<subseteq>
     {m \<in> set mems. id8 (mem_id m) \<noteq> id8 (mem_id anchor) \<and> (id8 (mem_id m) \<in> links \<or> project m = project anchor)}"
  "distinct (map (\<lambda>m. id8 (mem_id m)) (timeline_candidates links anchor mems))"
proof -
  let ?step = "\<lambda>d m. let i = id8 (mem_id m) in
     if i = id8 (mem_id anchor) then d
     else if i \<in> links \<or> project m = project anchor then AList.update i m d else d"
  let ?ok = "\<lambda>d. distinct (map fst d) \<and> (\<forall>(i, m) \<in> set d. i = id8 (mem_id m) \<and> m \<in> set mems \<and>
     i \<noteq> id8 (mem_id anchor) \<and> (i \<in> links \<or> project m = project anchor))"
  have step: "?ok (?step d m)" if "?ok d" "m \<in> set mems" for d m
  proof -
    have "set (AList.update (id8 (mem_id m)) m d) \<subseteq> insert (id8 (mem_id m), m) (set d)"
      using update_elem [of _ "id8 (mem_id m)" m d] by blast
    then show ?thesis using that by (auto simp: Let_def distinct_update)
  qed
  have "?ok (foldl ?step d ms)" if "?ok d" "set ms \<subseteq> set mems" for d ms
    using that
  proof (induction ms arbitrary: d)
    case (Cons m ms)
    have "?ok (?step d m)" using step [of d m] Cons.prems by simp
    from Cons.IH [OF this] Cons.prems(2) show ?case by simp
  qed simp
  from this [of "[]" mems] obtain d where d: "timeline_candidates links anchor mems = map snd d" "?ok d"
    by (simp add: timeline_candidates_def)
  then show "set (timeline_candidates links anchor mems) \<subseteq>
     {m \<in> set mems. id8 (mem_id m) \<noteq> id8 (mem_id anchor) \<and> (id8 (mem_id m) \<in> links \<or> project m = project anchor)}"
    by auto
  have "map (\<lambda>m. id8 (mem_id m)) (map snd d) = map fst d" using d(2) by (auto intro!: map_cong)
  then show "distinct (map (\<lambda>m. id8 (mem_id m)) (timeline_candidates links anchor mems))" using d by metis
qed

lemma sorted_ends:
  assumes "sorted (map f xs)"
  shows "x \<in> set xs \<Longrightarrow> x \<in> set (take_last n xs) \<or> length (take_last n xs) = n \<and> (\<forall>y \<in> set (take_last n xs). f x \<le> f y)"
    and "x \<in> set xs \<Longrightarrow> x \<in> set (take n xs) \<or> length (take n xs) = n \<and> (\<forall>y \<in> set (take n xs). f y \<le> f x)"
proof -
  have w: "sorted_wrt (\<lambda>x y. f x \<le> f y) xs" using assms by (simp add: sorted_map)
  have split: "x \<in> set (take k xs) \<or> x \<in> set (drop k xs)" if "x \<in> set xs" for k
    using that by (metis Un_iff append_take_drop_id set_append)
  show "x \<in> set (take_last n xs) \<or> length (take_last n xs) = n \<and> (\<forall>y \<in> set (take_last n xs). f x \<le> f y)" if "x \<in> set xs"
  proof (cases "x \<in> set (take (length xs - n) xs)")
    case True
    then have "length xs - n \<noteq> 0" by auto
    then show ?thesis using True sorted_wrt_take_drop [OF w True] by (auto simp: take_last_def)
  qed (use split [OF that, of "length xs - n"] in \<open>simp add: take_last_def\<close>)
  show "x \<in> set (take n xs) \<or> length (take n xs) = n \<and> (\<forall>y \<in> set (take n xs). f y \<le> f x)" if "x \<in> set xs"
  proof (cases "x \<in> set (drop n xs)")
    case True
    then have "n < length xs" by (cases "n < length xs") auto
    then show ?thesis using True sorted_wrt_take_drop [OF w] by auto
  qed (use split [OF that, of n] in simp)
qed

text \<open>A timeline is in order: what comes before the anchor was created earlier, what comes after it not,
  both parts ascend, never hold the anchor or a short id twice, hold only linked memories or those of
  its project, and leave out only what lies further away than everything they show.\<close>

theorem timeline_is_chronological:
  assumes "timeline_parts s anchor mems n k = (earlier, later)"
  shows "(let created = (\<lambda>m. parse_ts (created_at m)); links = timeline_links s anchor mems;
      cands = timeline_candidates links anchor mems in
    sorted (map created (earlier @ later)) \<and> (\<forall>m \<in> set earlier. created m < created anchor) \<and>
    (\<forall>m \<in> set later. created anchor \<le> created m) \<and> length earlier \<le> n \<and> length later \<le> k \<and>
    distinct (map (\<lambda>m. id8 (mem_id m)) (anchor # earlier @ later)) \<and>
    (\<forall>m \<in> set (earlier @ later). m \<in> set mems \<and> (id8 (mem_id m) \<in> links \<or> project m = project anchor)) \<and>
    (\<forall>m \<in> set cands. m \<in> set earlier \<or> m \<in> set later
       \<or> created m < created anchor \<and> length earlier = n \<and> (\<forall>e \<in> set earlier. created m \<le> created e)
       \<or> created anchor \<le> created m \<and> length later = k \<and> (\<forall>e \<in> set later. created e \<le> created m)))"
proof -
  define created where "created = (\<lambda>m :: memory. parse_ts (created_at m))"
  define links where "links = timeline_links s anchor mems"
  define cands where "cands = timeline_candidates links anchor mems"
  define E L where "E = sort_key created (filter (\<lambda>m. created m < created anchor) cands)"
    and "L = sort_key created (filter (\<lambda>m. \<not> created m < created anchor) cands)"
  have parts: "earlier = take_last n E" "later = take k L"
    using assms by (simp_all add: timeline_parts_def Let_def E_def L_def created_def cands_def links_def)
  have spec: "set cands \<subseteq> {m \<in> set mems. id8 (mem_id m) \<noteq> id8 (mem_id anchor) \<and>
      (id8 (mem_id m) \<in> links \<or> project m = project anchor)}" "distinct (map (\<lambda>m. id8 (mem_id m)) cands)"
    unfolding cands_def by (rule timeline_candidates_spec)+
  have sorted: "sorted (map created E)" "sorted (map created L)" by (simp_all add: E_def L_def)
  have mset: "mset (E @ L) = mset cands" by (simp add: E_def L_def)
  have sub: "set earlier \<subseteq> set E" "set later \<subseteq> set L"
    by (auto simp: parts take_last_def dest: in_set_dropD in_set_takeD)
  have le: "\<forall>m \<in> set earlier. created m < created anchor" "\<forall>m \<in> set later. created anchor \<le> created m"
    using sub by (auto simp: E_def L_def)
  have "sorted (map created earlier)" "sorted (map created later)"
    using sorted by (simp_all add: parts take_last_def drop_map [symmetric] take_map [symmetric] sorted_wrt_drop sorted_wrt_take)
  then have "sorted (map created (earlier @ later))" using le by (force simp: sorted_append)
  moreover have "distinct (map (\<lambda>m. id8 (mem_id m)) (anchor # earlier @ later))"
  proof -
    have "distinct (map (\<lambda>m. id8 (mem_id m)) (E @ L))" using spec(2) mset by (metis mset_eq_imp_distinct_iff mset_map)
    moreover have "subseq (earlier @ later) (E @ L)"
      unfolding parts take_last_def by (intro list_emb_append_mono) (simp_all add: suffix_imp_subseq suffix_drop prefix_imp_subseq take_is_prefix)
    ultimately have "distinct (map (\<lambda>m. id8 (mem_id m)) (earlier @ later))" by (metis subseq_distinct subseq_map)
    moreover have "set (E @ L) = set cands" using mset by (metis set_mset_mset)
    then have "set (earlier @ later) \<subseteq> set cands" using sub by auto
    ultimately show ?thesis using spec(1) by fastforce
  qed
  moreover have "set E \<union> set L = set cands" by (auto simp: E_def L_def)
  then have "\<forall>m \<in> set (earlier @ later). m \<in> set mems \<and> (id8 (mem_id m) \<in> links \<or> project m = project anchor)"
    using sub spec(1) by fastforce
  moreover have "\<forall>m \<in> set cands. m \<in> set earlier \<or> m \<in> set later
       \<or> created m < created anchor \<and> length earlier = n \<and> (\<forall>e \<in> set earlier. created m \<le> created e)
       \<or> created anchor \<le> created m \<and> length later = k \<and> (\<forall>e \<in> set later. created e \<le> created m)"
  proof
    fix m assume "m \<in> set cands"
    then have "m \<in> set E \<and> created m < created anchor \<or> m \<in> set L \<and> created anchor \<le> created m" by (auto simp: E_def L_def)
    then show "m \<in> set earlier \<or> m \<in> set later
       \<or> created m < created anchor \<and> length earlier = n \<and> (\<forall>e \<in> set earlier. created m \<le> created e)
       \<or> created anchor \<le> created m \<and> length later = k \<and> (\<forall>e \<in> set later. created e \<le> created m)"
      using sorted_ends(1) [OF sorted(1), of m n] sorted_ends(2) [OF sorted(2), of m k] unfolding parts by blast
  qed
  moreover have "length earlier \<le> n" "length later \<le> k" by (simp_all add: parts take_last_def)
  ultimately show ?thesis using le by (simp add: created_def links_def cands_def Let_def)
qed

section \<open>Expansion\<close>

definition grown :: "memory list \<Rightarrow> walk \<Rightarrow> bool" where
  "grown seeds w \<longleftrightarrow> (\<exists>extra. g_results w = seeds @ extra \<and> (\<forall>m \<in> set extra. status m \<noteq> ''deprecated''))
     \<and> (\<forall>m \<in> set (g_next w). status m \<noteq> ''deprecated'')"

lemma grown_found: "grown seeds w \<Longrightarrow> status m \<noteq> ''deprecated'' \<Longrightarrow> grown seeds (found m w)"
  by (fastforce simp: grown_def found_def)

lemma grown_seen: "grown seeds (w\<lparr>g_seen := x\<rparr>) = grown seeds w"
  by (simp add: grown_def)

lemma grown_follow:
  "grown seeds (fst wv) \<Longrightarrow> grown seeds (fst (follow_edge M n dst wv))"
  "grown seeds (fst wv) \<Longrightarrow> grown seeds (fst (follow_related M n i wv))"
  by (auto simp: follow_edge_def follow_related_def Let_def split_beta grown_seen intro!: grown_found split: option.split prod.split)

lemma grown_fold: "(\<And>x wv. grown seeds (fst wv) \<Longrightarrow> grown seeds (fst (f x wv))) \<Longrightarrow> grown seeds (fst wv) \<Longrightarrow> grown seeds (fst (fold f xs wv))"
  by (induction xs arbitrary: wv) simp_all

lemma grown_hop:
  "grown seeds (fst wv) \<Longrightarrow> grown seeds (fst (graph_hop M n hop ms wv))"
  "grown seeds (fst wv) \<Longrightarrow> grown seeds (fst (related_hop M n hop ms wv))"
  unfolding graph_hop_def related_hop_def
  by (rule grown_fold, auto simp: split_beta intro!: grown_fold grown_follow)+

lemma grown_hops:
  assumes "\<And>h ms wv. grown seeds (fst wv) \<Longrightarrow> grown seeds (fst (step h ms wv))" and "grown seeds (fst wv)"
  shows "grown seeds (fst (hops_from step n hop k ms wv))"
  using assms(2)
proof (induction k arbitrary: hop ms wv)
  case (Suc k)
  obtain w v where wv: "wv = (w, v)" by (cases wv)
  show ?case
  proof (cases "n \<le> length (g_results w)")
    case False
    obtain w' v' where step: "step hop ms (w\<lparr>g_next := []\<rparr>, v) = (w', v')" by fastforce
    have "grown seeds (w\<lparr>g_next := []\<rparr>)" using Suc.prems wv by (auto simp: grown_def)
    then have "grown seeds w'" using assms(1) [of "(w\<lparr>g_next := []\<rparr>, v)" hop ms] step by simp
    then show ?thesis using False wv step Suc.IH [of "(w', v')" "hop + 1" "g_next w'"] by simp
  qed (use Suc.prems wv in simp)
next
  case 0
  then show ?case by (cases wv) simp
qed

lemma expand_with_spec:
  assumes "\<And>h ms wv. grown seeds (fst wv) \<Longrightarrow> grown seeds (fst (step h ms wv))"
    and "expand_with step seeds n k v = (ms, v')"
  shows "\<exists>extra. ms = take n (seeds @ extra) \<and> (\<forall>m \<in> set extra. status m \<noteq> ''deprecated'')"
proof (cases "seeds = []")
  case False
  let ?w0 = "\<lparr>g_seen = map (\<lambda>m. id8 (mem_id m)) seeds, g_results = seeds, g_next = []\<rparr>"
  have "grown seeds (fst (hops_from step n 0 k seeds (?w0, v)))"
    by (rule grown_hops [OF assms(1)]) (simp_all add: grown_def)
  then show ?thesis using assms(2) False by (auto simp: expand_with_def grown_def split_beta)
next
  case True
  then show ?thesis using assms(2) by (intro exI [of _ "[]"]) (simp add: expand_with_def)
qed

text \<open>C32: Following links keeps the memories it starts from, in front and in their order, adds only memories
  that are not deprecated, and never returns more than asked for.\<close>

theorem expansion_extends_seeds:
  shows "\<exists>extra. fst (expand_graph M seeds n k v) = take n (seeds @ extra) \<and> (\<forall>m \<in> set extra. status m \<noteq> ''deprecated'')"
proof -
  obtain ms w where g: "expand_with (graph_hop M n) seeds n k v = (ms, w)" by fastforce
  obtain ms2 w2 where r: "expand_with (related_hop M n) seeds n k w = (ms2, w2)" by fastforce
  from expand_with_spec [OF grown_hop(1) g] expand_with_spec [OF grown_hop(2) r] show ?thesis
    by (simp add: expand_graph_def g r)
qed

section \<open>Examples\<close>

definition sample_memory :: memory where
  "sample_memory = blank_memory ''a0'' ''v1.2 notes'' []"

definition sample_store :: store where
  "sample_store = empty_store\<lparr>note_files := [(''a0.md'', the (snd (snd (hd sample_vault))), 1)],
     cache := [(''a0'', sample_memory)], cache_files := [(''a0.md'', 1, ''a0'')], last_sweep := 100\<rparr>"

definition sample_env :: recall_env where
  "sample_env =
     \<lparr>m_ext = sample_ext, m_engine = sample_engine, m_clock = sample_clock, m_now = 0, m_ce = (\<lambda>_ _. None), m_rerank = [],
      m_capture = [], m_floats = (\<lambda>_. []), m_latency = 0, m_tmatch = (\<lambda>_ _. None), m_tfiles = [], m_tdb = NoDb\<rparr>"

definition sample_state :: recall_state where
  "sample_state =
     \<lparr>v_store = sample_store, v_ret = \<lparr>q_cache = no_index, q_tel = \<lparr>t_file = Missing, t_backups = 0\<rparr>, q_log = None\<rparr>,
      v_recalls = Missing, v_captures = None\<rparr>"

lemma sample_find: "find_mem sample_env ''a0'' (sample_state\<lparr>v_ret := q\<rparr>) = (Some sample_memory, sample_state\<lparr>v_ret := q\<rparr>)"
  by (simp add: find_mem_def in_vault_def find_memory_def ensure_cache_warm_def lookup_def sample_env_def sample_state_def
      sample_store_def sample_clock_def SWEEP_INTERVAL_def)

lemma sample_search:
  "\<exists>v'. search_memories sample_env ''v1.2'' ''default'' 3 True False None sample_state = (Some [sample_memory], v')"
proof -
  have files: "vault_files sample_store = Some sample_vault"
    by (simp add: vault_files_def sample_store_def empty_store_def sample_vault_def)
  obtain st' where run: "retrieve sample_engine (Some sample_vault) ''v1.2'' 3 None [] False [] (v_ret sample_state)
      = (Some [literal_hit (sample_entry ''a0'' ''v1.2 notes'')], st')"
    by (simp add: retrieve_def load_vault_index_def no_index_def sample_index sample_found Let_def sample_state_def)
  have engine: "sample_engine\<lparr>r_db := fts_db sample_store\<rparr> = sample_engine"
    by (simp add: sample_engine_def sample_store_def empty_store_def)
  have ids: "en_id (h_mem (literal_hit (sample_entry ''a0'' t))) = ''a0''" for t
    by (simp add: literal_hit_def sample_entry_def)
  have brief: "current_session (r_text sample_engine) (r_brief sample_engine) = Some []"
    by (simp add: current_session_def sample_engine_def)
  have rec: "record_session_recall a b [] i f = (Inr (), f)" for a b i f by (simp add: record_session_recall_def)
  have "q_tel st' = \<lparr>t_file = Missing, t_backups = 0\<rparr>"
    using retrieve_reads(1) [OF run] by (simp add: sample_state_def)
  then obtain t where t: "record_access (r_stamp sample_engine) ''a0'' (q_tel st') = (Inr (), t)"
    by (simp add: record_access_def jget_or_def json_plus_one_def)
  have env: "m_engine sample_env = sample_engine" "m_rerank sample_env = []" by (simp_all add: sample_env_def)
  have mid: "mem_id sample_memory = ''a0''" by (simp add: sample_memory_def blank_memory_def)
  have all: "record_all sample_env [] [sample_memory] (sample_state\<lparr>v_ret := st'\<rparr>) =
    (True, sample_state\<lparr>v_ret := st'\<lparr>q_tel := t\<rparr>\<rparr>)"
    by (simp add: env mid t rec Let_def)
  have hits: "find_hits sample_env [literal_hit (sample_entry ''a0'' ''v1.2 notes'')] (sample_state\<lparr>v_ret := st'\<rparr>) =
    ([sample_memory], sample_state\<lparr>v_ret := st'\<rparr>)"
    by (simp add: ids sample_find)
  have st: "v_store sample_state = sample_store" by (simp add: sample_state_def)
  show ?thesis
    unfolding search_memories_def Let_def
    by (simp add: env or_else_def soft_scope_def st engine files run hits brief all del: find_hits.simps record_all.simps)
qed

theorem recall_counts_what_it_returns_witness:
  "\<exists>v'. search_memories sample_env ''v1.2'' ''default'' 3 True False None sample_state = (Some [sample_memory], v') \<and>
     counts (t_file (q_tel (v_ret v'))) ''a0'' = 1"
proof -
  obtain v' where run: "search_memories sample_env ''v1.2'' ''default'' 3 True False None sample_state = (Some [sample_memory], v')"
    using sample_search by blast
  have "counting (t_file (q_tel (v_ret sample_state)))" by (simp add: sample_state_def counting_def)
  from recall_counts_what_it_returns [OF run this, of "''a0''"] run show ?thesis
    by (simp add: sample_state_def counts_def sample_memory_def blank_memory_def)
qed

theorem rerank_only_permutes_witness:
  "mset (rerank (sample_env\<lparr>m_ce := (\<lambda>_ _. Some [1, 2])\<rparr>) ''ce'' ''q''
     [sample_memory, sample_memory\<lparr>mem_id := ''a1''\<rparr>]) = mset [sample_memory, sample_memory\<lparr>mem_id := ''a1''\<rparr>]"
  by (rule rerank_only_permutes) (simp add: sample_memory_def blank_memory_def)

theorem timeline_is_chronological_witness:
  "let old = sample_memory\<lparr>mem_id := ''b'', created_at := ''2026-01-01''\<rparr>;
       new = sample_memory\<lparr>mem_id := ''c'', created_at := ''2026-03-01''\<rparr>;
       anchor = sample_memory\<lparr>created_at := ''2026-02-01''\<rparr>
   in timeline_parts empty_store anchor [new, anchor, old] 5 5 = ([old], [new]) \<and>
      parse_ts (created_at old) < parse_ts (created_at anchor)"
proof -
  define old where "old = sample_memory\<lparr>mem_id := ''b'', created_at := ''2026-01-01''\<rparr>"
  define new where "new = sample_memory\<lparr>mem_id := ''c'', created_at := ''2026-03-01''\<rparr>"
  define anchor where "anchor = sample_memory\<lparr>created_at := ''2026-02-01''\<rparr>"
  have ids: "mem_id old = ''b''" "mem_id new = ''c''" "mem_id anchor = ''a0''"
    "project old = ''general''" "project new = ''general''" "project anchor = ''general''"
    by (simp_all add: old_def new_def anchor_def sample_memory_def blank_memory_def)
  have times: "parse_ts (created_at old) < parse_ts (created_at anchor)" "\<not> parse_ts (created_at new) < parse_ts (created_at anchor)"
    unfolding old_def new_def anchor_def sample_memory_def blank_memory_def by code_simp+
  have "timeline_candidates L anchor [new, anchor, old] = [new, old]" for L
    by (simp add: timeline_candidates_def ids)
  then have parts: "timeline_parts empty_store anchor [new, anchor, old] 5 5 = ([old], [new])"
    by (simp add: timeline_parts_def times take_last_def)
  from timeline_is_chronological [OF parts] parts show ?thesis
    unfolding Let_def old_def [symmetric] new_def [symmetric] anchor_def [symmetric] by simp
qed


theorem expansion_extends_seeds_witness:
  "\<exists>extra. fst (expand_graph sample_env [sample_memory] 5 2 sample_state) = take 5 (sample_memory # extra) \<and>
     list_all (\<lambda>m. status m \<noteq> ''deprecated'') extra"
  using expansion_extends_seeds [of sample_env "[sample_memory]" 5 2 sample_state] by (simp add: list_all_iff)

end
