(* ===== verification/SessionState.thy ===== *)
theory SessionState
  imports MineRun
begin

text \<open>
  \<^verbatim>\<open>memem/session_state.py\<close> and \<^verbatim>\<open>memem/session_state_db.py\<close>: which session transcripts are
  left to mine. The state of each session is a row of a SQLite table, filled once from the older
  text file \<^verbatim>\<open>.mined_sessions\<close>; a session is offered again when its transcript has changed. The
  type affinity of SQLite's columns is written out, its reading of numerals is a parameter.
\<close>

section \<open>Cells of the table\<close>

datatype cell = CNull | CInt int | CReal real | CInfinite bool | CText string

text \<open>What binding a Python value to a parameter raises: \<^verbatim>\<open>OverflowError\<close>, or an error of
  \<^verbatim>\<open>sqlite3\<close> for a type it does not store.\<close>

datatype bind_error = Overflow | Unsupported

definition fits64 :: "int \<Rightarrow> bool" where
  "fits64 i \<longleftrightarrow> - (2 ^ 63) \<le> i \<and> i < 2 ^ 63"

fun value_error :: "json \<Rightarrow> bind_error option" where
  "value_error (JInt i) = (if fits64 i then None else Some Overflow)"
| "value_error (JArr _) = Some Unsupported"
| "value_error (JObj _) = Some Unsupported"
| "value_error _ = None"

fun cell_of :: "json \<Rightarrow> cell" where
  "cell_of (JBool b) = CInt (of_bool b)"
| "cell_of (JInt i) = CInt i"
| "cell_of (JReal r) = CReal r"
| "cell_of (JNonFinite n) = (if n = ''NaN'' then CNull else CInfinite (n = ''Infinity''))"
| "cell_of (JStr s) = CText s"
| "cell_of _ = CNull"

fun json_of_cell :: "cell \<Rightarrow> json" where
  "json_of_cell CNull = JNull"
| "json_of_cell (CInt i) = JInt i"
| "json_of_cell (CReal r) = JReal r"
| "json_of_cell (CInfinite p) = JNonFinite (if p then ''Infinity'' else ''-Infinity'')"
| "json_of_cell (CText s) = JStr s"

text \<open>SQLite: the number a text stands for in a numeric column (the text itself if none), and the
  text of a floating point number.\<close>

record sqlite_env =
  l_numeric :: "string \<Rightarrow> cell"
  l_real_text :: "cell \<Rightarrow> string"

definition in_integer_column :: "sqlite_env \<Rightarrow> cell \<Rightarrow> cell" where
  "in_integer_column Q c =
     (case c of
        CReal r \<Rightarrow> if r = real_of_int \<lfloor>r\<rfloor> \<and> fits64 \<lfloor>r\<rfloor> then CInt \<lfloor>r\<rfloor> else c
      | CText s \<Rightarrow> l_numeric Q s
      | _ \<Rightarrow> c)"

definition in_text_column :: "sqlite_env \<Rightarrow> cell \<Rightarrow> cell" where
  "in_text_column Q c =
     (case c of
        CInt i \<Rightarrow> CText (str_of_int i)
      | CReal _ \<Rightarrow> CText (l_real_text Q c)
      | CInfinite _ \<Rightarrow> CText (l_real_text Q c)
      | _ \<Rightarrow> c)"

section \<open>Rows\<close>

record session_row =
  sr_status :: cell
  sr_attempts :: cell
  sr_error :: cell
  sr_mtime :: cell
  sr_size :: cell
  sr_version :: cell
  sr_updated :: cell
  sr_message :: cell
  sr_offset :: cell
  sr_timeouts :: cell

type_synonym session_table = "(string, session_row) dict"

text \<open>A statement's named parameters are taken from a dictionary; \<open>full\<close> is false for the
  statement of the migration, which leaves the last two columns to their default.\<close>

definition columns :: "bool \<Rightarrow> string list" where
  "columns full =
     [''status'', ''attempts'', ''last_error'', ''mtime_ns'', ''size'', ''version'', ''updated_at'', ''message'']
     @ (if full then [''offset_bytes'', ''timeout_failures''] else [])"

definition first_bind_error :: "bool \<Rightarrow> turn \<Rightarrow> bind_error option" where
  "first_bind_error full vals =
     (case List.map_filter (\<lambda>k. value_error (jget vals k)) (columns full) of [] \<Rightarrow> None | e # _ \<Rightarrow> Some e)"

definition row_from :: "sqlite_env \<Rightarrow> bool \<Rightarrow> turn \<Rightarrow> session_row" where
  "row_from Q full vals =
     (let txt_at = (\<lambda>k. in_text_column Q (cell_of (jget vals k)));
          int_at = (\<lambda>k. in_integer_column Q (cell_of (jget vals k)))
      in \<lparr>sr_status = txt_at ''status'', sr_attempts = int_at ''attempts'', sr_error = txt_at ''last_error'',
          sr_mtime = int_at ''mtime_ns'', sr_size = int_at ''size'', sr_version = txt_at ''version'',
          sr_updated = txt_at ''updated_at'', sr_message = txt_at ''message'',
          sr_offset = (if full then int_at ''offset_bytes'' else CInt 0),
          sr_timeouts = (if full then int_at ''timeout_failures'' else CInt 0)\<rparr>)"

definition not_null :: "session_row \<Rightarrow> bool" where
  "not_null r \<longleftrightarrow> CNull \<notin> {sr_status r, sr_attempts r, sr_mtime r, sr_size r, sr_version r, sr_updated r, sr_offset r, sr_timeouts r}"

text \<open>\<^verbatim>\<open>INSERT OR REPLACE\<close> deletes a row with the same key and adds the new one; \<^verbatim>\<open>INSERT OR IGNORE\<close>
  skips a row with a key that is there or without a required value.\<close>

definition insert_or_replace :: "string \<Rightarrow> session_row \<Rightarrow> session_table \<Rightarrow> session_table" where
  "insert_or_replace i r tab = AList.delete i tab @ [(i, r)]"

definition insert_or_ignore :: "string \<Rightarrow> session_row \<Rightarrow> session_table \<Rightarrow> session_table" where
  "insert_or_ignore i r tab = (if not_null r \<and> map_of tab i = None then tab @ [(i, r)] else tab)"

section \<open>The database of a process\<close>

datatype marker_file = NoMarker | NoAccess | Bytes string

text \<open>The columns and rows of the table, whether this process has set it up, the file
  \<^verbatim>\<open>.mined_sessions\<close>, and what the migration makes of it.\<close>

record session_db =
  sd_columns :: "string list option"
  sd_rows :: session_table
  sd_ready :: bool
  sd_marker :: marker_file
  sd_legacy :: marker_file
  sd_backups :: "string list"

definition MINER_STATE_VERSION :: string where "MINER_STATE_VERSION = ''2''"

text \<open>\<^verbatim>\<open>int(v)\<close>, \<open>None\<close> if it raises.\<close>

fun int_of_json :: "json \<Rightarrow> int option" where
  "int_of_json (JInt i) = Some i"
| "int_of_json (JBool b) = Some (of_bool b)"
| "int_of_json (JReal r) = Some (truncate_real r)"
| "int_of_json (JStr s) = int_of_text s"
| "int_of_json _ = None"

text \<open>A line of the older file. The outer \<open>None\<close> is a number that does not convert, which raises.\<close>

definition parse_state_line :: "(json \<Rightarrow> string) \<Rightarrow> string \<Rightarrow> turn list option" where
  "parse_state_line other line =
     (let raw = strip line in
      if \<not> starts_with raw ''{'' then Some []
      else (case json_loads raw of
              Some (JObj d) \<Rightarrow>
                let i = strip (py_text other (jget_or d ''session_id'' (JStr [])));
                    str_at = (\<lambda>k dflt. JStr (py_text other (jget_or d k (JStr dflt))))
                in if i = [] then Some []
                   else (case (int_of_json (jget_or d ''attempts'' (JInt 0)), int_of_json (jget_or d ''offset_bytes'' (JInt 0))) of
                           (Some a, Some off) \<Rightarrow>
                             Some [[(''session_id'', JStr i), (''status'', str_at ''status'' ''complete''),
                                    (''mtime_ns'', jget d ''mtime_ns''), (''size'', jget d ''size''),
                                    (''version'', str_at ''version'' MINER_STATE_VERSION),
                                    (''updated_at'', str_at ''updated_at'' []), (''message'', str_at ''message'' []),
                                    (''attempts'', JInt a), (''offset_bytes'', JInt off)]]
                         | _ \<Rightarrow> None)
            | _ \<Rightarrow> Some []))"

definition text_of :: "json \<Rightarrow> string" where
  "text_of v = (case v of JStr s \<Rightarrow> s | _ \<Rightarrow> [])"

text \<open>A line that looks like a session id: the file is then the plain list of \<open>MineRun\<close>.\<close>

definition id_line :: "string \<Rightarrow> bool" where
  "id_line l \<longleftrightarrow> l \<noteq> [] \<and> list_all (\<lambda>c. is_digit c \<or> ascii_alpha c \<or> c \<in> set ''._/-'') l"

definition retire_marker :: "session_db \<Rightarrow> session_db" where
  "retire_marker z = z\<lparr>sd_legacy := sd_marker z, sd_marker := NoMarker\<rparr>"

definition migrate_jsonl :: "sqlite_env \<Rightarrow> (json \<Rightarrow> string) \<Rightarrow> session_db \<Rightarrow> session_db option" where
  "migrate_jsonl Q other z =
     (case sd_marker z of
        NoMarker \<Rightarrow> Some z
      | NoAccess \<Rightarrow> Some (retire_marker z)
      | Bytes bs \<Rightarrow>
          let raw = decode_ignore bs;
              nonblank = filter (\<lambda>l. l \<noteq> []) (map strip (splitlines raw))
          in if nonblank \<noteq> [] \<and> list_all id_line nonblank then Some z
             else (case all_some (map (parse_state_line other) (splitlines raw)) of
                     None \<Rightarrow> None
                   | Some es \<Rightarrow>
                       let entries = map (\<lambda>e. e @ [(''last_error'', jget e ''message'')]) (concat es) in
                       if strip raw \<noteq> [] \<and> entries = [] then Some (retire_marker (z\<lparr>sd_backups := sd_backups z @ [bs]\<rparr>))
                       else if \<exists>e \<in> set entries. first_bind_error False e \<noteq> None then None
                       else Some (retire_marker (z\<lparr>sd_rows :=
                              fold (\<lambda>e. insert_or_ignore (text_of (jget e ''session_id'')) (row_from Q False e)) entries (sd_rows z)\<rparr>))))"

definition base_columns :: "string list" where
  "base_columns = ''session_id'' # columns False @ [''offset_bytes'']"

definition add_column :: "string \<Rightarrow> string list \<Rightarrow> string list" where
  "add_column c cs = (if c \<in> set cs then cs else cs @ [c])"

text \<open>Setting up the table. A migration that raises leaves the new columns but no rows, and is
  tried again by the next call.\<close>

definition ensure_db :: "sqlite_env \<Rightarrow> (json \<Rightarrow> string) \<Rightarrow> session_db \<Rightarrow> bool \<times> session_db" where
  "ensure_db Q other z =
     (if sd_ready z then (True, z)
      else
        let cs = (case sd_columns z of None \<Rightarrow> base_columns | Some cs \<Rightarrow> cs);
            z = z\<lparr>sd_columns := Some (add_column ''timeout_failures'' (add_column ''offset_bytes'' cs))\<rparr>
        in (case migrate_jsonl Q other z of
              None \<Rightarrow> (False, z)
            | Some z \<Rightarrow> (True, z\<lparr>sd_ready := True\<rparr>)))"

section \<open>Loading and saving\<close>

text \<open>\<open>load_mined_session_state\<close>; \<open>None\<close>: the migration or a stored value raises.\<close>

definition row_dict :: "string \<times> session_row \<Rightarrow> (string \<times> turn) option" where
  "row_dict ir =
     (let (i, r) = ir; int_or_0 = (\<lambda>c. int_of_json (jor (json_of_cell c) (JInt 0)))
      in (case (int_or_0 (sr_offset r), int_or_0 (sr_timeouts r)) of
            (Some off, Some t) \<Rightarrow>
              Some (i, [(''session_id'', JStr i), (''status'', json_of_cell (sr_status r)),
                        (''attempts'', json_of_cell (sr_attempts r)), (''mtime_ns'', json_of_cell (sr_mtime r)),
                        (''size'', json_of_cell (sr_size r)), (''version'', json_of_cell (sr_version r)),
                        (''updated_at'', json_of_cell (sr_updated r)),
                        (''message'', jor (json_of_cell (sr_message r)) (JStr [])),
                        (''offset_bytes'', JInt off), (''timeout_failures'', JInt t)])
          | _ \<Rightarrow> None))"

definition load_mined_session_state ::
  "sqlite_env \<Rightarrow> (json \<Rightarrow> string) \<Rightarrow> session_db \<Rightarrow> (string, turn) dict option \<times> session_db" where
  "load_mined_session_state Q other z =
     (let (ok, z) = ensure_db Q other z in (if ok then all_some (map row_dict (sd_rows z)) else None, z))"

text \<open>\<open>v[:500]\<close> of a message, and the parameters made of one state; \<open>None\<close> raises.\<close>

definition cut_message :: "json \<Rightarrow> json option" where
  "cut_message v =
     (case v of JStr s \<Rightarrow> Some (JStr (take 500 s)) | JArr xs \<Rightarrow> Some (JArr (take 500 xs)) | _ \<Rightarrow> None)"

definition state_values :: "(json \<Rightarrow> string) \<Rightarrow> string \<Rightarrow> turn \<Rightarrow> turn option" where
  "state_values other now_str st =
     (let int_at = (\<lambda>k. int_of_json (jget_or st k (JInt 0))) in
      (case (cut_message (jget_or st ''message'' (JStr [])),
             all_some (map int_at [''attempts'', ''mtime_ns'', ''size'', ''offset_bytes'', ''timeout_failures''])) of
         (Some msg, Some [a, m, s, off, t]) \<Rightarrow>
           Some [(''status'', jget_or st ''status'' (JStr [])), (''attempts'', JInt a), (''last_error'', msg),
                 (''mtime_ns'', JInt m), (''size'', JInt s),
                 (''version'', JStr (py_text other (jget_or st ''version'' (JStr MINER_STATE_VERSION)))),
                 (''updated_at'', JStr (py_text other (jget_or st ''updated_at'' (JStr now_str)))),
                 (''message'', msg), (''offset_bytes'', JInt off), (''timeout_failures'', JInt t)]
       | _ \<Rightarrow> None))"

text \<open>Saving is one transaction: an error of SQLite is logged, any other error leaves the call, and
  both roll it back.\<close>

datatype save_outcome = Saved | Logged | Escapes

fun put_states :: "sqlite_env \<Rightarrow> (string \<times> turn) list \<Rightarrow> session_table \<Rightarrow> save_outcome \<times> session_table" where
  "put_states Q [] tab = (Saved, tab)"
| "put_states Q ((i, vals) # vs) tab =
     (case first_bind_error True vals of
        Some Overflow \<Rightarrow> (Escapes, tab)
      | Some Unsupported \<Rightarrow> (Logged, tab)
      | None \<Rightarrow>
          if not_null (row_from Q True vals) then put_states Q vs (insert_or_replace i (row_from Q True vals) tab)
          else (Logged, tab))"

definition save_mined_session_state ::
  "sqlite_env \<Rightarrow> (json \<Rightarrow> string) \<Rightarrow> string \<Rightarrow> (string, turn) dict \<Rightarrow> session_db \<Rightarrow> save_outcome \<times> session_db" where
  "save_mined_session_state Q other now_str states z =
     (let (ok, z) = ensure_db Q other z in
      if \<not> ok then (Escapes, z)
      else (case all_some (map (\<lambda>(i, st). map_option (Pair i) (state_values other now_str st)) states) of
              None \<Rightarrow> (Escapes, z)
            | Some vs \<Rightarrow>
                (case put_states Q vs [] of
                   (Saved, tab) \<Rightarrow> (Saved, z\<lparr>sd_rows := tab\<rparr>)
                 | (e, _) \<Rightarrow> (e, z))))"

section \<open>One session\<close>

text \<open>A transcript with its time of change in nanoseconds; no size means it cannot be inspected.\<close>

record tfile = sfile +
  f_mtime :: int

definition session_fingerprint :: "tfile \<Rightarrow> (int \<times> int) option" where
  "session_fingerprint f = map_option (\<lambda>n. (f_mtime f, int n)) (f_size f)"

definition session_id_of :: "tfile \<Rightarrow> string" where
  "session_id_of f = path_stem (base_name (f_path f))"

definition update_session_state ::
  "sqlite_env \<Rightarrow> (json \<Rightarrow> string) \<Rightarrow> string \<Rightarrow> tfile \<Rightarrow> string \<Rightarrow> string \<Rightarrow> int \<Rightarrow> int \<Rightarrow> int \<Rightarrow> session_db \<Rightarrow>
   turn option \<times> session_db" where
  "update_session_state Q other now_str f st message attempts off timeouts z =
     (let (ok, z) = ensure_db Q other z in
      (case (ok, session_fingerprint f) of
         (True, Some (mtime, size_now)) \<Rightarrow>
           let i = session_id_of f;
               vals = [(''session_id'', JStr i), (''status'', JStr st), (''attempts'', JInt attempts),
                       (''mtime_ns'', JInt mtime), (''size'', JInt size_now), (''version'', JStr MINER_STATE_VERSION),
                       (''updated_at'', JStr now_str), (''message'', JStr (take 500 message)),
                       (''offset_bytes'', JInt off), (''timeout_failures'', JInt timeouts)];
               params = vals @ [(''last_error'', JStr (take 500 message))]
           in if first_bind_error True params \<noteq> None then (None, z)
              else (Some vals, z\<lparr>sd_rows := insert_or_replace i (row_from Q True params) (sd_rows z)\<rparr>)
       | _ \<Rightarrow> (None, z)))"

text \<open>\<open>v == i\<close> for an integer \<open>i\<close>, and whether a session is settled for its transcript as it is
  now. \<open>None\<close> raises.\<close>

definition equals_int :: "json \<Rightarrow> int \<Rightarrow> bool" where
  "equals_int v i =
     (case v of JInt j \<Rightarrow> j = i | JBool b \<Rightarrow> of_bool b = i | JReal r \<Rightarrow> r = real_of_int i | _ \<Rightarrow> False)"

definition stored_offset :: "turn \<Rightarrow> int option" where
  "stored_offset d =
     (case int_of_json (jor (jget d ''offset_bytes'') (JInt 0)) of
        None \<Rightarrow> None
      | Some off \<Rightarrow>
          if off = 0 \<and> json_truthy (jget d ''size'') then int_of_json (jget d ''size'') else Some off)"

definition unchanged :: "turn \<Rightarrow> tfile \<Rightarrow> bool" where
  "unchanged d f =
     (case session_fingerprint f of
        None \<Rightarrow> False
      | Some (m, s) \<Rightarrow> equals_int (jget d ''mtime_ns'') m \<and> equals_int (jget d ''size'') s)"

definition session_is_terminal :: "(json \<Rightarrow> string) \<Rightarrow> int \<Rightarrow> tfile \<Rightarrow> turn option \<Rightarrow> bool option" where
  "session_is_terminal other retry_cap f state =
     (case state of
        None \<Rightarrow> Some False
      | Some d \<Rightarrow>
          if d = [] then Some False
          else if \<not> hashable (jget d ''status'') then None
          else if jget d ''status'' \<noteq> JStr ''complete'' \<and> jget d ''status'' \<noteq> JStr ''failed'' then Some False
          else if py_text other (jget_or d ''version'' (JStr [])) \<noteq> MINER_STATE_VERSION then Some False
          else if jget d ''status'' = JStr ''complete'' then Some (unchanged d f)
          else (case int_of_json (jor (jget_or d ''attempts'' (JInt 0)) (JInt 0)) of
                  None \<Rightarrow> None
                | Some a \<Rightarrow>
                    if a < retry_cap then Some (unchanged d f)
                    else (case stored_offset d of
                            None \<Rightarrow> None
                          | Some off \<Rightarrow>
                              (case session_fingerprint f of
                                 None \<Rightarrow> Some True
                               | Some (m, s) \<Rightarrow> Some (s \<le> off)))))"

section \<open>The install gate\<close>

text \<open>\<^verbatim>\<open>float(s)\<close>.\<close>

definition signed_text :: "string \<Rightarrow> bool \<times> string" where
  "signed_text t =
     (case t of
        [] \<Rightarrow> (False, [])
      | c # u \<Rightarrow> if c = CHR ''-'' then (True, u) else if c = CHR ''+'' then (False, u) else (False, t))"

definition mantissa_of :: "string \<Rightarrow> real option" where
  "mantissa_of m =
     (let part = (\<lambda>s. if s = [] then Some 0 else nat_of_text s) in
      case split_char (CHR ''.'') m of
        [a] \<Rightarrow> map_option real (nat_of_text a)
      | [a, b] \<Rightarrow>
          (case (part a, part b) of
             (Some x, Some y) \<Rightarrow>
               if a = [] \<and> b = [] then None else Some (real x + real y / 10 ^ length (filter is_digit b))
           | _ \<Rightarrow> None)
      | _ \<Rightarrow> None)"

definition unsigned_float :: "string \<Rightarrow> real option" where
  "unsigned_float s =
     (let m = takeWhile (\<lambda>c. lower_char c \<noteq> CHR ''e'') s; rest = drop (length m) s in
      case (mantissa_of m, rest) of
        (None, _) \<Rightarrow> None
      | (Some x, []) \<Rightarrow> Some x
      | (Some x, _ # e) \<Rightarrow>
          (let (neg, u) = signed_text e in
           map_option (\<lambda>n. if neg then x / 10 ^ n else x * 10 ^ n) (nat_of_text u)))"

definition float_of_text :: "string \<Rightarrow> json option" where
  "float_of_text s =
     (let (neg, u) = signed_text (strip s) in
      if lower u = ''inf'' \<or> lower u = ''infinity'' then Some (JNonFinite (if neg then ''-Infinity'' else ''Infinity''))
      else if lower u = ''nan'' then Some (JNonFinite ''NaN'')
      else map_option (\<lambda>r. JReal (if neg then - r else r)) (unsigned_float u))"

definition get_installed_at :: "marker_file \<Rightarrow> json" where
  "get_installed_at gate =
     (case gate of
        Bytes bs \<Rightarrow>
          (case decode_strict bs of
             None \<Rightarrow> JReal 0
           | Some t \<Rightarrow> (case float_of_text t of None \<Rightarrow> JReal 0 | Some v \<Rightarrow> v))
      | _ \<Rightarrow> JReal 0)"

text \<open>\<open>now_text\<close> is \<^verbatim>\<open>str(time.time())\<close>.\<close>

definition ensure_installed_at :: "string \<Rightarrow> marker_file \<Rightarrow> json \<times> marker_file" where
  "ensure_installed_at now_text gate =
     (let gate = (if gate = NoMarker then Bytes now_text else gate) in (get_installed_at gate, gate))"

definition clear_installed_at :: "marker_file \<Rightarrow> marker_file" where
  "clear_installed_at gate = NoMarker"

text \<open>\<^verbatim>\<open>installed_at > 0 and st_mtime < installed_at\<close>\<close>

definition before_gate :: "json \<Rightarrow> real \<Rightarrow> bool" where
  "before_gate gate t = (case gate of JReal r \<Rightarrow> 0 < r \<and> t < r | JNonFinite n \<Rightarrow> n = ''Infinity'' | _ \<Rightarrow> False)"

section \<open>Transcripts that are never mined\<close>

definition env_items :: "string \<Rightarrow> string list" where  \<comment> \<open>split at commas and colons, stripped\<close>
  "env_items raw =
     filter (\<lambda>p. p \<noteq> []) (map strip (split_char (CHR '':'') (replace_char (CHR '','') '':'' raw)))"

definition excluded_session_projects :: "(string, string) dict \<Rightarrow> string list" where
  "excluded_session_projects envs =
     (let raw = strip (py_env envs [''MEMEM_EXCLUDED_SESSION_PROJECTS'', ''CORTEX_EXCLUDED_SESSION_PROJECTS''] [])
      in if lower raw \<in> {[], ''0'', ''false'', ''none''} then [] else env_items raw)"

definition project_dir_for_session :: "string \<Rightarrow> string \<Rightarrow> string" where
  "project_dir_for_session path dir =
     (if starts_with path (dir @ ''/'') then hd (split_char (CHR ''/'') (drop (length dir + 1) path)) else [])"

definition is_excluded_session_project :: "string list \<Rightarrow> tfile \<Rightarrow> string \<Rightarrow> bool" where
  "is_excluded_session_project excluded f dir \<longleftrightarrow>
     project_dir_for_session (f_path f) dir \<noteq> [] \<and> project_dir_for_session (f_path f) dir \<in> set excluded"

definition memem_prompt_prefixes :: "string list" where
  "memem_prompt_prefixes =
     [''Below is a coding conversation'', ''EXISTING:'', ''You were asked to extract memories'', ''QUERY: '',
      ''USER MESSAGE:'' @ [NL]]"

definition memem_prompt :: "string \<Rightarrow> bool" where
  "memem_prompt msg \<longleftrightarrow>
     (let h = take 200 (lstrip msg) in
      list_ex (starts_with h) memem_prompt_prefixes \<or>
      starts_with h ''# '' \<and> contains h (em_dash # '' Project Playbook''))"

text \<open>The text of the first user message decides; \<open>None\<close> raises an \<^verbatim>\<open>AttributeError\<close>.\<close>

definition first_text :: "json \<Rightarrow> json" where
  "first_text content =
     (case content of
        JStr s \<Rightarrow> JStr s
      | JArr bs \<Rightarrow>
          (case find (\<lambda>b. case b of JObj d \<Rightarrow> jget d ''type'' = JStr ''text'' | _ \<Rightarrow> False) bs of
             Some (JObj d) \<Rightarrow> jget_or d ''text'' (JStr [])
           | _ \<Rightarrow> JStr [])
      | _ \<Rightarrow> JStr [])"

definition prompt_verdict :: "turn \<Rightarrow> bool option" where
  "prompt_verdict e =
     (case jget_or e ''message'' (JObj []) of
        JObj m \<Rightarrow>
          (let t = first_text (jget_or m ''content'' (JStr [])) in
           if \<not> json_truthy t then Some False
           else (case t of JStr s \<Rightarrow> Some (memem_prompt s) | _ \<Rightarrow> None))
      | _ \<Rightarrow> None)"

fun first_user_verdict :: "string list \<Rightarrow> bool option" where
  "first_user_verdict [] = Some False"
| "first_user_verdict (l # ls) =
     (case json_loads l of
        None \<Rightarrow> first_user_verdict ls
      | Some (JObj e) \<Rightarrow> if jget e ''type'' = JStr ''user'' then prompt_verdict e else first_user_verdict ls
      | Some _ \<Rightarrow> None)"

definition looks_like_memem_subprocess :: "tfile \<Rightarrow> bool option" where
  "looks_like_memem_subprocess f =
     (case f_bytes f of None \<Rightarrow> Some False | Some bs \<Rightarrow> first_user_verdict (take 20 (text_lines (decode_ignore bs))))"

definition alnum :: "char \<Rightarrow> bool" where "alnum c \<longleftrightarrow> is_digit c \<or> ascii_alpha c"

definition token_re :: "re \<Rightarrow> (char \<Rightarrow> bool) \<Rightarrow> re" where  \<comment> \<open>the prefix, then 20 characters or more\<close>
  "token_re p C = cats [p, times 20 (Chars C), Star (Chars C)]"

definition credential_patterns :: "re list" where
  "credential_patterns =
     [token_re (lit ''ghp_'') alnum,
      token_re (lit ''github_pat_'') (\<lambda>c. alnum c \<or> c = CHR ''_''),
      token_re (cats [lit ''gh'', Chars (\<lambda>c. c \<in> set ''oush''), lit ''_'']) alnum,
      token_re (lit ''glpat-'') (\<lambda>c. alnum c \<or> c \<in> set ''_-''),
      token_re (lit ''sk-ant-'') (\<lambda>c. alnum c \<or> c \<in> set ''_-''),
      Cat (lit ''AKIA'') (times 16 (Chars (\<lambda>c. is_digit c \<or> CHR ''A'' \<le> c \<and> c \<le> CHR ''Z''))),
      token_re (cats [lit ''xox'', Chars (\<lambda>c. c \<in> set ''abprs''), lit ''-'']) (\<lambda>c. alnum c \<or> c = CHR ''-'')]"

definition CREDENTIAL_SCAN_MAX_BYTES :: nat where "CREDENTIAL_SCAN_MAX_BYTES = 4 * 1024 * 1024"

definition session_contains_credentials :: "tfile \<Rightarrow> bool" where
  "session_contains_credentials f \<longleftrightarrow>
     (case f_bytes f of
        None \<Rightarrow> False
      | Some bs \<Rightarrow> re_search (alts credential_patterns) (take CREDENTIAL_SCAN_MAX_BYTES bs))"

section \<open>Sessions to mine\<close>

text \<open>The numbers of the environment; \<open>None\<close>: importing the module raises.\<close>

definition settle_seconds :: "(string, string) dict \<Rightarrow> int option" where
  "settle_seconds envs = int_of_text (py_env envs [''MEMEM_MINER_SETTLE_SECONDS'', ''CORTEX_MINER_SETTLE_SECONDS''] ''1800'')"

definition hard_retry_cap :: "(string, string) dict \<Rightarrow> int option" where
  "hard_retry_cap envs = int_of_text (py_env envs [''MEMEM_MINER_HARD_RETRY_CAP''] ''5'')"

definition session_dirs :: "(string, string) dict \<Rightarrow> string \<Rightarrow> string list" where
  "session_dirs envs home =
     (home @ ''/.claude/projects'')
     # filter (\<lambda>p. p \<noteq> []) (split_char (CHR '':'') (py_env envs [''MEMEM_EXTRA_SESSION_DIRS'', ''CORTEX_EXTRA_SESSION_DIRS''] []))"

record scan_env =
  y_settle :: int
  y_cap :: int
  y_excluded :: "string list"
  y_other :: "json \<Rightarrow> string"
  y_now :: real

definition modified :: "tfile \<Rightarrow> real" where  \<comment> \<open>\<^verbatim>\<open>st_mtime\<close>, in seconds\<close>
  "modified f = real_of_int (f_mtime f) / 1000000000"

text \<open>The checks of one file in their order; \<open>None\<close> raises.\<close>

definition to_mine :: "scan_env \<Rightarrow> json \<Rightarrow> bool \<Rightarrow> (string, turn) dict \<Rightarrow> string \<Rightarrow> tfile \<Rightarrow> bool option" where
  "to_mine Y gate bypass_settle states dir f =
     (if is_excluded_session_project (y_excluded Y) f dir then Some False
      else if contains (f_path f) ''/subagents/'' \<or> contains (f_path f) ''/projects/-root/'' then Some False
      else (case f_size f of
              None \<Rightarrow> Some False
            | Some n \<Rightarrow>
                if n < 5000 then Some False
                else if before_gate gate (modified f) then Some False
                else if \<not> bypass_settle \<and> y_now Y - modified f \<le> real_of_int (y_settle Y) then Some False
                else (case session_is_terminal (y_other Y) (y_cap Y) f (map_of states (session_id_of f)) of
                        None \<Rightarrow> None
                      | Some True \<Rightarrow> Some False
                      | Some False \<Rightarrow>
                          (case looks_like_memem_subprocess f of
                             None \<Rightarrow> None
                           | Some s \<Rightarrow> Some (\<not> s \<and> \<not> session_contains_credentials f)))))"

text \<open>\<open>dirs\<close>: the session directories that exist, each with its \<^verbatim>\<open>.jsonl\<close> files.\<close>

definition find_settled_sessions ::
  "scan_env \<Rightarrow> marker_file \<Rightarrow> (string, turn) dict \<Rightarrow> bool \<Rightarrow> bool \<Rightarrow> (string \<times> tfile list) list \<Rightarrow> tfile list option" where
  "find_settled_sessions Y gate_file states bypass_gate bypass_settle dirs =
     (let gate = (if bypass_gate then JReal 0 else get_installed_at gate_file);
          checked = concat (map (\<lambda>(dir, fs). map (\<lambda>f. map_option (Pair f) (to_mine Y gate bypass_settle states dir f)) fs) dirs)
      in map_option (\<lambda>r. sort_key f_mtime (map fst (filter snd r))) (all_some checked))"


section \<open>Rows that are stored are read back\<close>

lemma map_of_insert_or_replace: "map_of (insert_or_replace i r tab) = (map_of tab)(i \<mapsto> r)"
proof
  fix k
  have "map_of (AList.delete i tab) i = None" by (simp add: delete_conv')
  then show "map_of (insert_or_replace i r tab) k = ((map_of tab)(i \<mapsto> r)) k"
    by (auto simp: insert_or_replace_def map_add_def delete_conv' split: option.splits)
qed

lemma keys_insert_or_replace:
  "i \<notin> fst ` set tab \<Longrightarrow> map fst (insert_or_replace i r tab) = map fst tab @ [i]"
  by (simp add: insert_or_replace_def delete_idem)

lemma row_dict_key: "row_dict (i, r) = Some (j, d) \<Longrightarrow> j = i"
  by (auto simp: row_dict_def Let_def split: option.splits)

lemma map_of_loaded:
  assumes "all_some (map row_dict tab) = Some states"
  shows "map_of states k = (case map_of tab k of None \<Rightarrow> None | Some r \<Rightarrow> map_option snd (row_dict (k, r)))"
    and "map fst states = map fst tab"
  using assms
proof (induction tab arbitrary: states)
  case (Cons ir tab)
  obtain i r where [simp]: "ir = (i, r)" by (cases ir)
  {
    case 1
    then show ?case using Cons.IH(1)
      by (auto split: option.splits dest: row_dict_key)
  next
    case 2
    then show ?case using Cons.IH(2) by (auto split: option.splits dest: row_dict_key)
  }
qed auto

lemma loaded_delete:
  assumes "all_some (map row_dict tab) = Some states"
  shows "\<exists>states'. all_some (map row_dict (AList.delete i tab)) = Some states'"
  using assms by (induction tab arbitrary: states) (auto simp: AList.delete_eq split: option.splits)

lemma ensure_db_again:
  assumes "ensure_db Q other z = (True, u)"
  shows "ensure_db Q other (u\<lparr>sd_rows := tab\<rparr>) = (True, u\<lparr>sd_rows := tab\<rparr>)" "ensure_db Q other u = (True, u)"
proof -
  have "sd_ready u" using assms by (auto simp: ensure_db_def Let_def split: if_splits option.splits)
  then show "ensure_db Q other (u\<lparr>sd_rows := tab\<rparr>) = (True, u\<lparr>sd_rows := tab\<rparr>)" "ensure_db Q other u = (True, u)"
    by (simp_all add: ensure_db_def)
qed

lemma columns_simps [simp]:
  "columns True = [''status'', ''attempts'', ''last_error'', ''mtime_ns'', ''size'', ''version'', ''updated_at'', ''message'',
     ''offset_bytes'', ''timeout_failures'']"
  by (simp add: columns_def)

lemma updated_row:
  assumes "update_session_state Q other now_str f st message a off t z = (Some d, z')"
  obtains u r mtime sz where "ensure_db Q other z = (True, u)" "session_fingerprint f = Some (mtime, sz)"
    "z' = u\<lparr>sd_rows := insert_or_replace (session_id_of f) r (sd_rows u)\<rparr>" "row_dict (session_id_of f, r) = Some (session_id_of f, d)"
    "d = [(''session_id'', JStr (session_id_of f)), (''status'', JStr st), (''attempts'', JInt a), (''mtime_ns'', JInt mtime),
          (''size'', JInt sz), (''version'', JStr ''2''), (''updated_at'', JStr now_str), (''message'', JStr (take 500 message)),
          (''offset_bytes'', JInt off), (''timeout_failures'', JInt t)]"
proof -
  from assms obtain u where u: "ensure_db Q other z = (True, u)"
    by (auto simp: update_session_state_def Let_def split: prod.splits bool.splits)
  with assms obtain mtime sz where f: "session_fingerprint f = Some (mtime, sz)"
    by (auto simp: update_session_state_def Let_def split: option.splits)
  let ?d = "[(''session_id'', JStr (session_id_of f)), (''status'', JStr st), (''attempts'', JInt a), (''mtime_ns'', JInt mtime),
    (''size'', JInt sz), (''version'', JStr ''2''), (''updated_at'', JStr now_str), (''message'', JStr (take 500 message)),
    (''offset_bytes'', JInt off), (''timeout_failures'', JInt t)]"
  let ?p = "?d @ [(''last_error'', JStr (take 500 message))]"
  from assms u f have d: "d = ?d" and z': "z' = u\<lparr>sd_rows := insert_or_replace (session_id_of f) (row_from Q True ?p) (sd_rows u)\<rparr>"
    by (auto simp: update_session_state_def Let_def MINER_STATE_VERSION_def split: if_splits)
  have "row_dict (session_id_of f, row_from Q True ?p) = Some (session_id_of f, ?d)"
    by (simp add: row_dict_def row_from_def Let_def in_text_column_def in_integer_column_def jget_def jor_def)
  with u f z' d show thesis by (intro that) auto
qed

text \<open>A recorded state is what the next loading gives for its session, and the states of all other
  sessions are those that were there before.\<close>

theorem session_update_reads_back:
  assumes "update_session_state Q other now_str f st message a off t z = (Some d, z')"
    and "load_mined_session_state Q other z = (Some states, u)"
  shows "\<exists>states'. load_mined_session_state Q other z' = (Some states', z') \<and>
    map_of states' = (map_of states)(session_id_of f \<mapsto> d)"
proof -
  obtain v r mtime sz where v: "ensure_db Q other z = (True, v)"
    and z': "z' = v\<lparr>sd_rows := insert_or_replace (session_id_of f) r (sd_rows v)\<rparr>"
    and r: "row_dict (session_id_of f, r) = Some (session_id_of f, d)"
    using updated_row [OF assms(1)] by metis
  have old: "all_some (map row_dict (sd_rows v)) = Some states"
    using assms(2) v by (auto simp: load_mined_session_state_def)
  then obtain rest where "all_some (map row_dict (AList.delete (session_id_of f) (sd_rows v))) = Some rest"
    using loaded_delete by blast
  then have new: "all_some (map row_dict (sd_rows z')) = Some (rest @ [(session_id_of f, d)])"
    by (simp add: z' insert_or_replace_def all_some_append r)
  have "load_mined_session_state Q other z' = (Some (rest @ [(session_id_of f, d)]), z')"
    using new ensure_db_again(1) [OF v] by (simp add: load_mined_session_state_def z')
  moreover have "map_of (rest @ [(session_id_of f, d)]) k = ((map_of states)(session_id_of f \<mapsto> d)) k" for k
    using map_of_loaded(1) [OF new, of k] map_of_loaded(1) [OF old, of k] r
    by (simp add: z' map_of_insert_or_replace)
  ultimately show ?thesis by blast
qed


section \<open>What is offered to the miner\<close>

lemma to_mine_yes:
  assumes "to_mine Y gate bypass_settle states dir f = Some True"
  obtains n where "f_size f = Some n" "5000 \<le> n" "\<not> contains (f_path f) ''/subagents/''" "\<not> contains (f_path f) ''/projects/-root/''"
    "\<not> before_gate gate (modified f)" "bypass_settle \<or> real_of_int (y_settle Y) < y_now Y - modified f"
    "session_is_terminal (y_other Y) (y_cap Y) f (map_of states (session_id_of f)) = Some False"
    "looks_like_memem_subprocess f = Some False" "\<not> session_contains_credentials f"
  using assms by (fastforce simp: to_mine_def split: if_splits option.splits bool.splits)

lemma offered_to_mine:
  assumes "find_settled_sessions Y gf states bg bs dirs = Some fs"
  shows "f \<in> set fs \<longleftrightarrow> (\<exists>(dir, files) \<in> set dirs. f \<in> set files \<and>
    to_mine Y (if bg then JReal 0 else get_installed_at gf) bs states dir f = Some True)"
proof -
  let ?gate = "if bg then JReal 0 else get_installed_at gf"
  let ?cs = "concat (map (\<lambda>(dir, fs). map (\<lambda>f. map_option (Pair f) (to_mine Y ?gate bs states dir f)) fs) dirs)"
  obtain r where r: "all_some ?cs = Some r" and fs: "fs = sort_key f_mtime (map fst (filter snd r))"
    using assms by (auto simp: find_settled_sessions_def Let_def)
  have "f \<in> set fs \<longleftrightarrow> (f, True) \<in> set r" by (force simp: fs)
  also have "\<dots> \<longleftrightarrow> Some (f, True) \<in> set ?cs" by (rule all_some_set [OF r])
  also have "\<dots> \<longleftrightarrow> (\<exists>(dir, files) \<in> set dirs. f \<in> set files \<and> to_mine Y ?gate bs states dir f = Some True)"
    by (auto simp: image_iff split_beta eq_commute [of "Some (f, True)"])
  finally show ?thesis .
qed

lemma terminal_recorded:
  assumes "session_is_terminal other retry_cap g (Some [(''session_id'', JStr i), (''status'', JStr st), (''attempts'', JInt a),
      (''mtime_ns'', JInt mtime), (''size'', JInt sz), (''version'', JStr ''2''), (''updated_at'', JStr now_str),
      (''message'', JStr msg), (''offset_bytes'', JInt off), (''timeout_failures'', JInt t)]) = Some b"
  shows "b \<longleftrightarrow> (if st = ''failed'' \<and> retry_cap \<le> a
      then (case f_size g of None \<Rightarrow> True | Some n \<Rightarrow> int n \<le> (if off = 0 then sz else off))
      else (st = ''complete'' \<or> st = ''failed'') \<and> session_fingerprint g = Some (mtime, sz))"
  using assms
  by (auto simp: session_is_terminal_def jget_def jget_or_def hashable_def py_text_def MINER_STATE_VERSION_def
      stored_offset_def jor_def unchanged_def equals_int_def session_fingerprint_def split: if_splits option.splits)

text \<open>C13: The life of a session. Once recorded as complete, or as failed, a session is offered again only
  when its transcript has changed; after too many failures only when the transcript has grown past what was
  read; a blocked, pending or retried session is not held back.\<close>

theorem recorded_session_waits_for_change:
  assumes "update_session_state Q other now_str f st message a off t z = (Some d, z')"
    and "load_mined_session_state Q other z' = (Some states, u)"
    and "session_id_of g = session_id_of f"
    and "session_is_terminal (y_other Y) (y_cap Y) g (map_of states (session_id_of g)) = Some b"
  shows "(b \<longrightarrow> find_settled_sessions Y gf states bg bs dirs = Some fs \<longrightarrow> g \<notin> set fs) \<and>
    (st = ''complete'' \<longrightarrow> (b \<longleftrightarrow> session_fingerprint g = session_fingerprint f)) \<and>
    (st = ''failed'' \<and> a < y_cap Y \<longrightarrow> (b \<longleftrightarrow> session_fingerprint g = session_fingerprint f)) \<and>
    (st = ''failed'' \<and> y_cap Y \<le> a \<longrightarrow>
       (b \<longleftrightarrow> (\<forall>n m. f_size g = Some n \<longrightarrow> f_size f = Some m \<longrightarrow> int n \<le> (if off = 0 then int m else off)))) \<and>
    (st \<noteq> ''complete'' \<and> st \<noteq> ''failed'' \<longrightarrow> \<not> b)"
proof -
  obtain v r mtime sz where v: "ensure_db Q other z = (True, v)" and f: "session_fingerprint f = Some (mtime, sz)"
    and z': "z' = v\<lparr>sd_rows := insert_or_replace (session_id_of f) r (sd_rows v)\<rparr>"
    and r: "row_dict (session_id_of f, r) = Some (session_id_of f, d)"
    and d: "d = [(''session_id'', JStr (session_id_of f)), (''status'', JStr st), (''attempts'', JInt a), (''mtime_ns'', JInt mtime),
          (''size'', JInt sz), (''version'', JStr ''2''), (''updated_at'', JStr now_str), (''message'', JStr (take 500 message)),
          (''offset_bytes'', JInt off), (''timeout_failures'', JInt t)]"
    using updated_row [OF assms(1)] by metis
  have "all_some (map row_dict (sd_rows z')) = Some states"
    using assms(2) ensure_db_again(1) [OF v] by (auto simp: load_mined_session_state_def z')
  from map_of_loaded(1) [OF this, of "session_id_of f"] r
  have st: "map_of states (session_id_of g) = Some d" by (simp add: z' map_of_insert_or_replace assms(3))
  note b = terminal_recorded [OF assms(4) [unfolded st d]]
  have "g \<notin> set fs" if "b" "find_settled_sessions Y gf states bg bs dirs = Some fs"
    unfolding offered_to_mine [OF that(2)] using that(1) assms(4) by (auto elim!: to_mine_yes)
  moreover from f obtain m where "f_size f = Some m" "sz = int m" "f_mtime f = mtime" by (auto simp: session_fingerprint_def)
  ultimately show ?thesis using b f by (auto simp: session_fingerprint_def split: option.splits if_splits)
qed

lemma matches_alts: "matches r p q \<Longrightarrow> r \<in> set rs \<Longrightarrow> matches (alts rs) p q"
  by (induction rs rule: alts.induct) (auto simp: matches_simps)



section \<open>Saving all states at once\<close>

lemma put_states_saved:
  assumes "put_states Q vs tab = (Saved, tab')" "distinct (map fst vs)" "set (map fst vs) \<inter> fst ` set tab = {}"
  shows "tab' = tab @ map (\<lambda>(i, vals). (i, row_from Q True vals)) vs"
  using assms
proof (induction Q vs tab rule: put_states.induct)
  case (2 Q i vals vs tab)
  then have "insert_or_replace i (row_from Q True vals) tab = tab @ [(i, row_from Q True vals)]"
    by (simp add: insert_or_replace_def delete_idem)
  with 2 show ?case by (auto split: option.splits bind_error.splits if_splits)
qed simp

lemma state_values_ints:
  assumes "state_values other now_str st = Some vals"
  shows "\<exists>off t. jget vals ''offset_bytes'' = JInt off \<and> jget vals ''timeout_failures'' = JInt t"
proof -
  obtain msg ints where p: "cut_message (jget_or st ''message'' (JStr [])) = Some msg"
    "all_some (map (\<lambda>k. int_of_json (jget_or st k (JInt 0)))
       [''attempts'', ''mtime_ns'', ''size'', ''offset_bytes'', ''timeout_failures'']) = Some ints"
    using assms by (auto simp: state_values_def split: option.splits)
  then obtain i1 i2 i3 i4 i5 where "ints = [i1, i2, i3, i4, i5]" by (auto split: option.splits)
  with p assms show ?thesis by (auto simp: state_values_def jget_def)
qed

lemma state_values_row:
  assumes "state_values other now_str st = Some vals"
  shows "row_dict (i, row_from Q True vals) \<noteq> None"
proof -
  obtain off t where "jget vals ''offset_bytes'' = JInt off" "jget vals ''timeout_failures'' = JInt t"
    using state_values_ints [OF assms] by blast
  then have "sr_offset (row_from Q True vals) = CInt off" "sr_timeouts (row_from Q True vals) = CInt t"
    by (simp_all add: row_from_def Let_def in_integer_column_def)
  then show ?thesis by (simp add: row_dict_def jor_def)
qed

lemma rows_read_back:
  assumes "all_some (map (\<lambda>(i, st). map_option (Pair i) (state_values other now_str st)) states) = Some vs"
  shows "map fst vs = map fst states \<and>
    (\<exists>out. all_some (map row_dict (map (\<lambda>(i, vals). (i, row_from Q True vals)) vs)) = Some out \<and> map fst out = map fst states)"
  using assms
proof (induction states arbitrary: vs)
  case (Cons x states)
  obtain i st where x: "x = (i, st)" by (cases x)
  with Cons.prems obtain vals ws where v: "state_values other now_str st = Some vals" "vs = (i, vals) # ws"
    and ws: "all_some (map (\<lambda>(i, st). map_option (Pair i) (state_values other now_str st)) states) = Some ws"
    by (auto split: option.splits)
  obtain j d where "row_dict (i, row_from Q True vals) = Some (j, d)" using state_values_row [OF v(1)] by fastforce
  with Cons.IH [OF ws] v x show ?case by (auto dest: row_dict_key)
qed simp

text \<open>Saving the whole table is one transaction: either every state is stored, in order, and nothing
  else is left, or the table is what it was.\<close>

theorem save_is_all_or_nothing:
  assumes "sd_ready z" and "distinct (map fst states)"
    and "save_mined_session_state Q other now_str states z = (out, z')"
  shows "(out = Saved \<longrightarrow> (\<exists>loaded. load_mined_session_state Q other z' = (Some loaded, z') \<and> map fst loaded = map fst states)) \<and>
    (out \<noteq> Saved \<longrightarrow> z' = z) \<and>
    (out = Escapes \<longrightarrow> (\<exists>(i, st) \<in> set states. state_values other now_str st = None) \<or>
       (\<exists>(i, st) \<in> set states. \<exists>vals. state_values other now_str st = Some vals \<and> first_bind_error True vals = Some Overflow))"
proof -
  have e: "ensure_db Q other (z\<lparr>sd_rows := tab\<rparr>) = (True, z\<lparr>sd_rows := tab\<rparr>)" "ensure_db Q other z = (True, z)" for tab
    using assms(1) by (simp_all add: ensure_db_def)
  let ?vs = "map (\<lambda>(i, st). map_option (Pair i) (state_values other now_str st)) states"
  show ?thesis
  proof (cases "all_some ?vs")
    case None
    then have "None \<in> set ?vs" by (induction ?vs arbitrary: states) (auto split: option.splits)
    then have "\<exists>(i, st) \<in> set states. state_values other now_str st = None" by auto
    with None assms(3) e show ?thesis by (auto simp: save_mined_session_state_def)
  next
    case (Some vs)
    obtain r tab where r: "put_states Q vs [] = (r, tab)" by fastforce
    have vals: "\<exists>(i, st) \<in> set states. state_values other now_str st = Some (snd v)" if "v \<in> set vs" for v
      using that all_some_set [OF Some, of v] by (force simp: image_iff split_beta eq_commute [of "Some v"])
    have over: "\<exists>v \<in> set ws. first_bind_error True (snd v) = Some Overflow"
      if "put_states Q ws t = (Escapes, t')" for ws t t'
      using that by (induction Q ws t rule: put_states.induct) (auto split: option.splits bind_error.splits if_splits)
    note keys = rows_read_back [OF Some, where Q = Q]
    show ?thesis
    proof (cases r)
      case Saved
      from put_states_saved [OF r [unfolded Saved]] keys assms(2)
      have "tab = map (\<lambda>(i, vals). (i, row_from Q True vals)) vs" by simp
      with keys Saved r Some assms(3) e show ?thesis
        by (auto simp: save_mined_session_state_def load_mined_session_state_def)
    next
      case Logged
      with r Some assms(3) e show ?thesis by (auto simp: save_mined_session_state_def)
    next
      case Escapes
      with over [of vs "[]"] r obtain v where "v \<in> set vs" "first_bind_error True (snd v) = Some Overflow" by auto
      with vals [of v] Escapes r Some assms(3) e show ?thesis by (fastforce simp: save_mined_session_state_def)
    qed
  qed
qed



section \<open>The list of mined sessions and the migration\<close>

definition marker_of :: "string option \<Rightarrow> marker_file" where
  "marker_of t = (case t of None \<Rightarrow> NoMarker | Some s \<Rightarrow> Bytes s)"

lemma id_char_plain:
  assumes "is_digit c \<or> ascii_alpha c \<or> c \<in> set ''._/-''"
  shows "(of_char c :: nat) < 128" "\<not> py_space c" "\<not> line_break c"
  using assms
  by (auto simp: ascii_alpha_def is_digit_def is_word_ascii_def is_lower_alnum_def py_space_def line_break_def less_eq_char_def)

lemma id_line_plain:
  assumes "id_line l"
  shows "\<forall>c \<in> set l. (of_char c :: nat) < 128" "strip l = l" "session_name l" "l \<noteq> []"
proof -
  have l: "l \<noteq> []" and c: "\<forall>c \<in> set l. is_digit c \<or> ascii_alpha c \<or> c \<in> set ''._/-''"
    using assms by (auto simp: id_line_def list_all_iff)
  then have "stripped l" using id_char_plain(2) by (auto simp: stripped_def)
  then show "strip l = l" by simp
  show "\<forall>c \<in> set l. (of_char c :: nat) < 128" "session_name l" "l \<noteq> []"
    using l c id_char_plain(1,3) by (auto simp: session_name_def)
qed

definition id_list :: "mining \<Rightarrow> bool" where
  "id_list n \<longleftrightarrow> mined_lines n \<and> list_all id_line (mined_sessions n) \<and>
     (\<forall>t c. n_mined n = Some t \<longrightarrow> c \<in> set t \<longrightarrow> (of_char c :: nat) < 128)"

lemma recorded_id_list:
  assumes "id_line i" "id_list n"
  shows "id_list (record_mined_session i n) \<and> mined_sessions (record_mined_session i n) = add_new (mined_sessions n) i"
proof -
  note i = id_line_plain [OF assms(1)]
  have n: "mined_lines n" "list_all id_line (mined_sessions n)" using assms(2) by (simp_all add: id_list_def)
  note r = record_mined_session_mined [OF i(3) n(1)]
  have "(of_char c :: nat) < 128" if "n_mined (record_mined_session i n) = Some t" "c \<in> set t" for t c
    using that i(1) assms(2)
    by (fastforce simp: id_list_def record_mined_session_def Let_def split: if_splits option.splits)
  with r n(2) assms(1) show ?thesis by (auto simp: id_list_def add_new_def)
qed

lemma recorded_ids:
  assumes "\<forall>i \<in> set ids. id_line i" "id_list n"
  shows "id_list (fold record_mined_session ids n) \<and>
    mined_sessions (fold record_mined_session ids n) = foldl add_new (mined_sessions n) ids"
  using assms
proof (induction ids arbitrary: n)
  case (Cons i ids)
  then show ?case using recorded_id_list [of i n] Cons.IH [of "record_mined_session i n"] by simp
qed simp

lemma decode_ignore_ascii: "\<forall>c \<in> set s. (of_char c :: nat) < 128 \<Longrightarrow> decode_ignore s = s"
  using decode_strict_ascii [of s] by (auto simp: decode_strict_def split: if_splits)

text \<open>The miner's list of session ids shares its file name with the older state file. As long as
  session ids look like ids, setting up the database never takes the list for a corrupt state file.\<close>

theorem mined_list_survives_migration:
  assumes "\<forall>i \<in> set ids. id_line i" and "n_mined n = None"
    and "sd_marker z = marker_of (n_mined (fold record_mined_session ids n))"
    and "ensure_db Q other z = (ok, z')"
  shows "ok \<and> sd_marker z' = sd_marker z \<and> sd_rows z' = sd_rows z \<and> sd_backups z' = sd_backups z \<and>
    mined_sessions (fold record_mined_session ids n) = uniq ids"
proof -
  let ?n = "fold record_mined_session ids n"
  have "id_list n" using assms(2) by (simp add: id_list_def mined_lines_def mined_sessions_def)
  with recorded_ids [OF assms(1)] have n: "id_list ?n" and u: "mined_sessions ?n = uniq ids"
    using assms(2) by (simp_all add: uniq_def mined_sessions_def)
  have "migrate_jsonl Q other z1 = Some z1" if z1: "sd_marker z1 = sd_marker z" for z1
  proof (cases "n_mined ?n")
    case None
    with z1 assms(3) show ?thesis by (simp add: migrate_jsonl_def marker_of_def)
  next
    case (Some t)
    have dec: "decode_ignore t = t" using n Some by (intro decode_ignore_ascii) (auto simp: id_list_def)
    have ls: "list_all id_line (splitlines t)" using n Some by (simp add: id_list_def mined_sessions_def)
    then have "map strip (splitlines t) = splitlines t" by (induction "splitlines t") (auto simp: list_all_iff id_line_plain(2) intro!: map_idI)
    moreover have "filter (\<lambda>l. l \<noteq> []) (splitlines t) = splitlines t"
      using ls by (auto simp: list_all_iff id_line_plain(4) intro!: filter_True)
    moreover have "splitlines t \<noteq> []" if "ids \<noteq> []" using u Some that by (cases ids) (auto simp: mined_sessions_def dest: arg_cong [where f = set])
    moreover have "ids \<noteq> []" using Some assms(2) by auto
    ultimately show ?thesis using z1 assms(3) Some ls by (simp add: migrate_jsonl_def marker_of_def dec Let_def)
  qed
  with assms(4) u show ?thesis by (auto simp: ensure_db_def Let_def split: if_splits)
qed

section \<open>Where it goes wrong\<close>

definition sqlite0 :: sqlite_env where
  "sqlite0 = \<lparr>l_numeric = CText, l_real_text = \<lambda>_. ''0.5''\<rparr>"

definition new_db :: "marker_file \<Rightarrow> session_db" where
  "new_db f = \<lparr>sd_columns = None, sd_rows = [], sd_ready = False, sd_marker = f, sd_legacy = NoMarker, sd_backups = []\<rparr>"

text \<open>One session file with a space in its name, and the whole list of mined sessions is taken for a
  corrupt state file and moved away.\<close>

lemma odd_name_retires_list:
  "sd_marker (snd (ensure_db sqlite0 (\<lambda>_. []) (new_db (Bytes (''s1'' @ [NL] @ ''my notes'' @ [NL]))))) = NoMarker"
  by code_simp

text \<open>The migration parses the offset of a session but does not store it.\<close>

lemma migration_loses_offset:
  "map (\<lambda>(i, r). (i, sr_attempts r, sr_offset r)) (sd_rows (snd (ensure_db sqlite0 (\<lambda>_. [])
     (new_db (Bytes ''{\"session_id\": \"s\", \"attempts\": 6, \"mtime_ns\": 1, \"size\": 9, \"offset_bytes\": 7}'')))))
   = [(''s'', CInt 6, CInt 0)]"
  by code_simp

text \<open>A line of a transcript that is JSON but not an object makes the whole search raise.\<close>

lemma bare_value_line_raises: "first_user_verdict (''3'' # ls) = None"
proof -
  have "json_loads ''3'' = Some (JInt 3)" by code_simp
  then show ?thesis by simp
qed


section \<open>Examples\<close>

definition sample_transcript :: tfile where
  "sample_transcript = \<lparr>f_path = ''p/s1.jsonl'', f_size = Some 6000, f_date = [], f_bytes = Some ''{}'', f_mtime = 10 ^ 9\<rparr>"

definition sample_scan :: scan_env where
  "sample_scan = \<lparr>y_settle = 1800, y_cap = 5, y_excluded = [], y_other = (\<lambda>_. []), y_now = 5000\<rparr>"

lemma sample_session: "session_id_of sample_transcript = ''s1'' \<and> session_fingerprint sample_transcript = Some (10 ^ 9, 6000)"
proof
  show "session_id_of sample_transcript = ''s1''"
    by (simp add: session_id_of_def sample_transcript_def base_name_def path_stem_def)
qed (simp add: session_fingerprint_def sample_transcript_def)

lemma new_db_ready: "ensure_db Q other (new_db NoMarker) = (True, (new_db NoMarker)\<lparr>sd_ready := True,
    sd_columns := Some (base_columns @ [''timeout_failures''])\<rparr>)"
proof -
  have b: "base_columns = [''session_id'', ''status'', ''attempts'', ''last_error'', ''mtime_ns'', ''size'', ''version'', ''updated_at'',
      ''message'', ''offset_bytes'']"
    by (simp add: base_columns_def columns_def)
  have "add_column ''timeout_failures'' (add_column ''offset_bytes'' base_columns) = base_columns @ [''timeout_failures'']"
    unfolding b by (simp add: add_column_def)
  then show ?thesis by (simp add: ensure_db_def new_db_def migrate_jsonl_def)
qed

lemma sample_update:
  "\<exists>d z'. update_session_state sqlite0 other ''2026'' sample_transcript st [] a 0 0 (new_db NoMarker) = (Some d, z')"
  if "fits64 a"
proof -
  have "first_bind_error True [(''session_id'', JStr ''s1''), (''status'', JStr st), (''attempts'', JInt a),
      (''mtime_ns'', JInt (10 ^ 9)), (''size'', JInt 6000), (''version'', JStr MINER_STATE_VERSION), (''updated_at'', JStr ''2026''),
      (''message'', JStr []), (''offset_bytes'', JInt 0), (''timeout_failures'', JInt 0), (''last_error'', JStr [])] = None"
    using that by (simp add: first_bind_error_def jget_def List.map_filter_simps fits64_def)
  then show ?thesis by (simp add: update_session_state_def new_db_ready sample_session Let_def)
qed

theorem session_update_reads_back_witness:
  "\<exists>d z' states'. update_session_state sqlite0 (\<lambda>_. []) ''2026'' sample_transcript ''failed'' [] 6 0 0 (new_db NoMarker) = (Some d, z') \<and>
     load_mined_session_state sqlite0 (\<lambda>_. []) z' = (Some states', z') \<and> map_of states' = [''s1'' \<mapsto> d]"
proof -
  obtain d z' where u: "update_session_state sqlite0 (\<lambda>_. []) ''2026'' sample_transcript ''failed'' [] 6 0 0 (new_db NoMarker) = (Some d, z')"
    using sample_update [of 6 "\<lambda>_. []" "''failed''"] by (simp add: fits64_def) blast
  have "load_mined_session_state sqlite0 (\<lambda>_. []) (new_db NoMarker) = (Some [], snd (ensure_db sqlite0 (\<lambda>_. []) (new_db NoMarker)))"
    by (simp add: load_mined_session_state_def new_db_ready) (simp add: new_db_def)
  from session_update_reads_back [OF u this] u show ?thesis by (auto simp: sample_session)
qed

theorem recorded_session_waits_for_change_witness:
  "\<exists>d z' states u. update_session_state sqlite0 (\<lambda>_. []) ''2026'' sample_transcript ''blocked'' [] 6 0 0 (new_db NoMarker) = (Some d, z') \<and>
     load_mined_session_state sqlite0 (\<lambda>_. []) z' = (Some states, u) \<and>
     session_is_terminal (\<lambda>_. []) 5 sample_transcript (map_of states ''s1'') = Some False"
proof -
  obtain d z' where u: "update_session_state sqlite0 (\<lambda>_. []) ''2026'' sample_transcript ''blocked'' [] 6 0 0 (new_db NoMarker) = (Some d, z')"
    using sample_update [of 6 "\<lambda>_. []" "''blocked''"] by (simp add: fits64_def) blast
  obtain v r mtime sz where v: "ensure_db sqlite0 (\<lambda>_. []) (new_db NoMarker) = (True, v)"
    and z': "z' = v\<lparr>sd_rows := insert_or_replace ''s1'' r (sd_rows v)\<rparr>" and r: "row_dict (''s1'', r) = Some (''s1'', d)"
    and d: "d = [(''session_id'', JStr ''s1''), (''status'', JStr ''blocked''), (''attempts'', JInt 6), (''mtime_ns'', JInt mtime),
          (''size'', JInt sz), (''version'', JStr ''2''), (''updated_at'', JStr ''2026''), (''message'', JStr (take 500 [])),
          (''offset_bytes'', JInt 0), (''timeout_failures'', JInt 0)]"
    using updated_row [OF u] sample_session by metis
  have "sd_rows v = []" using v by (auto simp: new_db_ready) (simp add: new_db_def)
  then have l: "load_mined_session_state sqlite0 (\<lambda>_. []) z' = (Some [(''s1'', d)], z')"
    using ensure_db_again(1) [OF v] r by (simp add: load_mined_session_state_def z' insert_or_replace_def)
  have t: "\<exists>b. session_is_terminal (y_other sample_scan) (y_cap sample_scan) sample_transcript (map_of [(''s1'', d)] (session_id_of sample_transcript)) = Some b"
    by (simp add: sample_session d session_is_terminal_def jget_def hashable_def) blast
  then obtain b where t: "session_is_terminal (y_other sample_scan) (y_cap sample_scan) sample_transcript (map_of [(''s1'', d)] (session_id_of sample_transcript)) = Some b" ..
  from recorded_session_waits_for_change [OF u l _ t] u l t show ?thesis by (auto simp: sample_session sample_scan_def)
qed


theorem save_is_all_or_nothing_witness:
  "\<exists>z' loaded. save_mined_session_state sqlite0 (\<lambda>_. []) ''2026'' [(''s1'', [(''status'', JStr ''complete'')])] ((new_db NoMarker)\<lparr>sd_ready := True\<rparr>)
     = (Saved, z') \<and> load_mined_session_state sqlite0 (\<lambda>_. []) z' = (Some loaded, z') \<and> map fst loaded = [''s1'']"
proof -
  let ?z = "(new_db NoMarker)\<lparr>sd_ready := True\<rparr>" and ?st = "[(''s1'', [(''status'', JStr ''complete'')])]"
  have "fst (save_mined_session_state sqlite0 (\<lambda>_. []) ''2026'' ?st ?z) = Saved" by code_simp
  then obtain z' where s: "save_mined_session_state sqlite0 (\<lambda>_. []) ''2026'' ?st ?z = (Saved, z')" by (metis prod.collapse)
  have "sd_ready ?z" "distinct (map fst ?st)" by (simp_all add: new_db_def)
  from save_is_all_or_nothing [OF this s] s show ?thesis by auto
qed

theorem mined_list_survives_migration_witness:
  "\<exists>z'. ensure_db sqlite0 (\<lambda>_. []) (new_db (Bytes (''s1'' @ [NL]))) = (True, z') \<and> sd_marker z' = Bytes (''s1'' @ [NL])"
proof -
  obtain n :: mining where n: "n_mined n = None" by (metis mining.select_convs(3))
  have ids: "\<forall>i \<in> set [''s1'']. id_line i" by code_simp
  have m: "sd_marker (new_db (Bytes (''s1'' @ [NL]))) = marker_of (n_mined (fold record_mined_session [''s1''] n))"
    using n by (simp add: record_mined_session_def marker_of_def new_db_def splitlines_def)
  obtain ok z' where e: "ensure_db sqlite0 (\<lambda>_. []) (new_db (Bytes (''s1'' @ [NL]))) = (ok, z')" by fastforce
  from mined_list_survives_migration [OF ids n m e] e show ?thesis by (auto simp: new_db_def)
qed

end
