(* ===== verification/SessionBlocks.thy ===== *)
theory SessionBlocks
  imports Profiles RecallLog Store
begin

text \<open>
  \<^verbatim>\<open>memem/session_blocks.py\<close>: what a new session is told, in three blocks with a budget each: the
  profiles, the working rules (procedural memories, the most cited first), and an index of the
  latest episodes. An error inside a block gives an empty block.
\<close>

section \<open>Citations\<close>

text \<open>
  How often the tail of the recall log cites each id since the cutoff, an ISO timestamp that is
  compared as text. \<open>None\<close>: a row that is not an object, a timestamp that is not a text, or ids
  that cannot be iterated, which raises.
\<close>

definition elements :: "json \<Rightarrow> json list option" where  \<comment> \<open>\<^verbatim>\<open>for x in v or []\<close>\<close>
  "elements v =
     (if \<not> json_truthy v then Some []
      else case v of
        JArr xs \<Rightarrow> Some xs
      | JStr s \<Rightarrow> Some (map (\<lambda>c. JStr [c]) s)
      | JObj d \<Rightarrow> Some (map (\<lambda>(k, _). JStr k) d)
      | _ \<Rightarrow> None)"

definition cited_since :: "(json \<Rightarrow> string) \<Rightarrow> string \<Rightarrow> json \<Rightarrow> string list option" where
  "cited_since other cutoff row =
     (case row of
        JObj e \<Rightarrow>
          if jget e ''type'' \<noteq> JStr ''citation'' then Some []
          else (let ts = jget_or e ''ts'' (JStr []);
                    ids = map_option (map (\<lambda>v. take 8 (py_text other v))) (elements (jget e ''cited_ids''))
                in if \<not> json_truthy ts then ids
                   else (case ts of JStr t \<Rightarrow> if t < cutoff then Some [] else ids | _ \<Rightarrow> None))
      | _ \<Rightarrow> None)"

definition CITATION_TAIL_BYTES :: nat where "CITATION_TAIL_BYTES = 64 * 1024"

definition load_citation_counts :: "(json \<Rightarrow> string) \<Rightarrow> string \<Rightarrow> string option \<Rightarrow> (string, nat) dict option" where
  "load_citation_counts other cutoff stored =
     (case stored of
        None \<Rightarrow> Some []
      | Some bs \<Rightarrow>
          let ls = splitlines (decode_replace (drop (length bs - CITATION_TAIL_BYTES) bs));
              ls = (if length bs > CITATION_TAIL_BYTES then drop 1 ls else ls);
              rows = List.map_filter (\<lambda>l. if strip l = [] then None else json_loads (strip l)) ls
          in map_option (\<lambda>idss. counter (concat idss)) (all_some (map (cited_since other cutoff) rows)))"

section \<open>Blocks\<close>

text \<open>Lines below a heading, as long as the budget lasts; each counts with its line end.\<close>

fun fill :: "nat \<Rightarrow> nat \<Rightarrow> string list \<Rightarrow> string list" where
  "fill limit used [] = []"
| "fill limit used (l # ls) =
     (if used + length l + 1 > limit then [] else l # fill limit (used + length l + 1) ls)"

definition block :: "string \<Rightarrow> nat \<Rightarrow> string list \<Rightarrow> string" where
  "block heading limit bullets =
     (let ls = fill limit (length heading + 1) bullets in if ls = [] then [] else join [NL] (heading # ls))"

definition rule_line :: "memory \<Rightarrow> string option" where
  "rule_line m =
     (let raw = strip (essence m);
          ls = filter (\<lambda>l. strip l \<noteq> []) (splitlines raw) in
      if raw = [] then None
      else case ls of
        [] \<Rightarrow> None
      | l # _ \<Rightarrow>
          let line = strip l;
              line = (if starts_with line ''#''
                      then (case filter (\<lambda>k. \<not> starts_with k ''#'') ls of [] \<Rightarrow> line | k # _ \<Rightarrow> strip k) else line)
          in Some (''- '' @ take 100 line))"

definition rule_order :: "(string, nat) dict \<Rightarrow> memory list \<Rightarrow> memory list" where
  "rule_order counts ms =
     sort_key (\<lambda>m. - int (case map_of counts (id8 (mem_id m)) of None \<Rightarrow> 0 | Some n \<Rightarrow> n)) (sort_desc created_at ms)"

definition is_rule :: "memory \<Rightarrow> bool" where
  "is_rule m \<longleftrightarrow> ''type:procedural'' \<in> set (domain_tags m) \<and> (case invalid_at m of None \<Rightarrow> True | Some t \<Rightarrow> t = [])"

definition render_working_rules ::
  "(json \<Rightarrow> string) \<Rightarrow> string \<Rightarrow> string option \<Rightarrow> memory list \<Rightarrow> nat \<Rightarrow> string" where
  "render_working_rules other cutoff stored ms limit_chars =
     (let procedural = filter is_rule ms in
      if procedural = [] then []
      else (case load_citation_counts other cutoff stored of
              None \<Rightarrow> []
            | Some counts \<Rightarrow>
                block ''## Working rules'' limit_chars (List.map_filter rule_line (rule_order counts procedural))))"

definition episode_line :: "memory \<Rightarrow> string" where
  "episode_line m =
     ''- '' @ id8 (mem_id m) @ '' ['' @ or_else (take 10 (created_at m)) ''----'' @ '']: ''
     @ take 80 (or_else (title m) ''(untitled)'')"

definition is_episode :: "memory \<Rightarrow> bool" where
  "is_episode m \<longleftrightarrow> ''type:episodic'' \<in> set (domain_tags m)"

definition render_episode_catalog :: "memory list \<Rightarrow> nat \<Rightarrow> nat \<Rightarrow> string" where
  "render_episode_catalog ms limit_chars max_entries =
     block ''## Episode index'' limit_chars
       (map episode_line (take max_entries (sort_desc created_at (filter is_episode ms))))"

section \<open>The whole briefing\<close>

definition TOTAL_BUDGET :: nat where "TOTAL_BUDGET = 5500"

definition session_start_text :: "string \<Rightarrow> string \<Rightarrow> memory list \<Rightarrow> string" where
  "session_start_text profiles rules ms =
     (let parts = filter (\<lambda>p. p \<noteq> []) [strip profiles, rules, render_episode_catalog ms 1600 25];
          content = join [NL, NL] parts in
      if length content \<le> TOTAL_BUDGET then content
      else
        let head = join [NL, NL] (filter (\<lambda>p. \<not> starts_with p ''## Episode index'') parts);
            remaining = int TOTAL_BUDGET - int (length head) - 2
        in if remaining > 50
           then (let ep = render_episode_catalog ms (nat remaining) 25 in if ep \<noteq> [] then head @ [NL, NL] @ ep else head)
           else head)"

definition render_session_start ::
  "ext \<Rightarrow> clock \<Rightarrow> (json \<Rightarrow> string) \<Rightarrow> profile_files \<Rightarrow> string \<Rightarrow> string option \<Rightarrow> string \<Rightarrow> store \<Rightarrow> string \<times> store" where
  "render_session_start X clk other fs cutoff stored scope s =
     (let (ms, s) = obsidian_memories X clk None False s in
      (session_start_text (render_for_injection (x_aliases X) fs scope) (render_working_rules other cutoff stored ms 1200) ms, s))"

section \<open>Budgets\<close>

lemma fill_prefix: "\<exists>rest. ls = fill limit used ls @ rest"
  by (induction limit used ls rule: fill.induct) auto

lemma fill_cost: "used \<le> limit \<Longrightarrow> used + (\<Sum>l \<leftarrow> fill limit used ls. length l + 1) \<le> limit"
  by (induction limit used ls rule: fill.induct) auto

lemma length_join_lines: "ls \<noteq> [] \<Longrightarrow> length (join [NL] ls) + 1 = (\<Sum>l \<leftarrow> ls. length l + 1)"
  by (induction "[NL]" ls rule: join.induct) auto

lemma block_budget: "length (block heading limit bullets) \<le> limit"
proof (cases "fill limit (length heading + 1) bullets")
  case (Cons l ls)
  then have "length heading + 1 \<le> limit" by (cases bullets) (auto split: if_splits)
  from fill_cost [OF this, of bullets] Cons show ?thesis
    using length_join_lines [of "heading # fill limit (length heading + 1) bullets"] by (simp add: block_def Let_def)
qed (simp add: block_def)

lemma rules_budget: "length (render_working_rules other cutoff stored ms limit) \<le> limit"
  by (auto simp: render_working_rules_def Let_def block_budget split: option.split)

lemma episodes_budget: "length (render_episode_catalog ms limit n) \<le> limit"
  by (simp add: render_episode_catalog_def block_budget)

lemma profiles_budget: "length (render_for_injection al fs scope) \<le> 2 * RENDER_CAP_PER_FILE + 2"
proof -
  have cap: "length (render_capped raw) \<le> RENDER_CAP_PER_FILE" for raw using render_capped_budget [of raw] by blast
  have two: "length (join [NL, NL] (filter (\<lambda>t. t \<noteq> []) [u, p])) \<le> length u + length p + 2" for u p :: string by simp
  show ?thesis
    using two cap [of "snd (load_profile fs ''user'')"] cap [of "snd (load_profile fs (normalize_scope_id al scope))"]
    by (auto simp: render_for_injection_def Let_def intro: order.trans [OF two])
qed

text \<open>C15: A briefing never exceeds its budget: whatever the vault, the profiles and the log hold, it has at most
  5206 characters, so that the guard for 5500 characters is never needed; and it is made of the three blocks.\<close>

theorem briefing_within_budget:
  "length (fst (render_session_start X clk other fs cutoff stored scope s)) \<le> 5206 \<and>
   fst (render_session_start X clk other fs cutoff stored scope s) =
     (let ms = fst (obsidian_memories X clk None False s) in
      join [NL, NL] (filter (\<lambda>p. p \<noteq> [])
        [strip (render_for_injection (x_aliases X) fs scope), render_working_rules other cutoff stored ms 1200,
         render_episode_catalog ms 1600 25]))"
proof -
  obtain ms t where ms: "obsidian_memories X clk None False s = (ms, t)" by fastforce
  let ?a = "strip (render_for_injection (x_aliases X) fs scope)"
  let ?b = "render_working_rules other cutoff stored ms 1200" and ?c = "render_episode_catalog ms 1600 25"
  let ?t = "join [NL, NL] (filter (\<lambda>p. p \<noteq> []) [?a, ?b, ?c])"
  have "length ?a \<le> 2402"
    using length_strip [of "render_for_injection (x_aliases X) fs scope"] profiles_budget [of "x_aliases X" fs scope]
    by (simp add: RENDER_CAP_PER_FILE_def)
  moreover have "length ?t \<le> length ?a + length ?b + length ?c + 4" by simp
  ultimately have "length ?t \<le> 5206"
    using rules_budget [of other cutoff stored ms 1200] episodes_budget [of ms 1600 25] by linarith
  then show ?thesis by (simp add: render_session_start_def ms session_start_text_def TOTAL_BUDGET_def Let_def)
qed

section \<open>The order of the rules\<close>

lemma insort_key_refines:
  assumes "sorted_wrt (\<lambda>a b. f a < f b \<or> f a = f b \<and> R a b) ys" "\<forall>y \<in> set ys. R x y"
  shows "sorted_wrt (\<lambda>a b. f a < f b \<or> f a = f b \<and> R a b) (insort_key f x ys)"
  using assms
proof (induction ys)
  case (Cons y ys)
  show ?case
  proof (cases "f x \<le> f y")
    case True
    have "f x < f z \<or> f x = f z \<and> R x z" if "z \<in> set (y # ys)" for z
    proof -
      have "f y \<le> f z" using that Cons.prems(1) by (auto simp: less_imp_le)
      with True Cons.prems(2) that show ?thesis by (auto simp: le_less)
    qed
    with True Cons.prems(1) show ?thesis by simp
  next
    case False
    with Cons show ?thesis by (auto simp: set_insort_key)
  qed
qed simp

lemma sort_key_refines:
  "sorted_wrt R xs \<Longrightarrow> sorted_wrt (\<lambda>a b. f a < f b \<or> f a = f b \<and> R a b) (sort_key f xs)"
  by (induction xs) (auto intro!: insort_key_refines)

definition cites :: "(string, nat) dict \<Rightarrow> memory \<Rightarrow> nat" where
  "cites counts m = (case map_of counts (id8 (mem_id m)) of None \<Rightarrow> 0 | Some n \<Rightarrow> n)"

text \<open>The working rules are the first lines of procedural memories that are still valid, the most cited
  first and among equals the newest; the block is cut between rules, never inside one.\<close>

theorem rules_most_cited_first:
  assumes "load_citation_counts other cutoff stored = Some counts"
    and "render_working_rules other cutoff stored ms limit_chars \<noteq> []"
  shows "\<exists>order shown rest. mset order = filter_mset is_rule (mset ms) \<and>
    sorted_wrt (\<lambda>a b. cites counts b < cites counts a \<or> cites counts a = cites counts b \<and> created_at b \<le> created_at a) order \<and>
    List.map_filter rule_line order = shown @ rest \<and>
    render_working_rules other cutoff stored ms limit_chars = join [NL] (''## Working rules'' # shown)"
proof (intro exI conjI)
  let ?p = "filter is_rule ms" and ?f = "\<lambda>m. - int (cites counts m)"
  let ?order = "sort_key ?f (sort_desc created_at ?p)"
  have o: "rule_order counts ?p = ?order" by (simp add: rule_order_def cites_def)
  show "mset ?order = filter_mset is_rule (mset ms)" by simp
  have "sorted_wrt (\<lambda>a b. created_at b \<le> created_at a) (sort_desc created_at ?p)" by (rule sorted_sort_desc)
  from sort_key_refines [OF this, of ?f]
  show "sorted_wrt (\<lambda>a b. cites counts b < cites counts a \<or> cites counts a = cites counts b \<and> created_at b \<le> created_at a) ?order"
    by (rule sorted_wrt_mono_rel [rotated]) auto
  let ?ls = "List.map_filter rule_line ?order" and ?u = "length ''## Working rules'' + 1"
  show "?ls = fill limit_chars ?u ?ls @ drop (length (fill limit_chars ?u ?ls)) ?ls"
    using fill_prefix [of ?ls limit_chars ?u] by (metis append_eq_conv_conj)
  from assms show "render_working_rules other cutoff stored ms limit_chars = join [NL] (''## Working rules'' # fill limit_chars ?u ?ls)"
    by (auto simp: render_working_rules_def o block_def Let_def split: if_splits)
qed

theorem rules_most_cited_first_witness:
  "\<exists>order shown rest. mset order = {#(blank_memory ''a1'' ''T'' ''Use tabs'')\<lparr>domain_tags := [''type:procedural'']\<rparr>#} \<and>
     List.map_filter rule_line order = shown @ rest \<and>
     ''## Working rules'' @ [NL] @ ''- Use tabs'' = join [NL] (''## Working rules'' # shown)"
proof -
  let ?m = "(blank_memory ''a1'' ''T'' ''Use tabs'')\<lparr>domain_tags := [''type:procedural'']\<rparr>"
  have m: "is_rule ?m" by (simp add: is_rule_def blank_memory_def)
  have r: "rule_line ?m = Some ''- Use tabs''" by code_simp
  have l: "load_citation_counts (\<lambda>_. []) [] None = Some []" by (simp add: load_citation_counts_def)
  have e: "render_working_rules (\<lambda>_. []) [] None [?m] 1200 = ''## Working rules'' @ [NL] @ ''- Use tabs''"
    using m r by (simp add: render_working_rules_def l rule_order_def sort_desc_def List.map_filter_simps block_def)
  then have "render_working_rules (\<lambda>_. []) [] None [?m] 1200 \<noteq> []" by simp
  from rules_most_cited_first [OF l this] m e show ?thesis by auto
qed

end
