(* ===== verification/Playbook.thy ===== *)
theory Playbook
  imports Store Mining
begin

text \<open>
  \<^verbatim>\<open>memem/playbook.py\<close>: one document per project, written from its memories and refined by the
  language model. A marker with the digest of the memories makes a second run a no-op.
\<close>

definition MIN_MEMORIES_FOR_PLAYBOOK :: nat where "MIN_MEMORIES_FOR_PLAYBOOK = 5"
definition HAIKU_BYPASS_SIZE :: nat where "HAIKU_BYPASS_SIZE = 2000"

definition project_memories :: "string \<Rightarrow> memory list \<Rightarrow> memory list" where
  "project_memories p ms = filter (\<lambda>m. project m = p) ms"

text \<open>The text that is hashed; SHA-256 of its UTF-8 bytes, in hexadecimal, is the parameter \<open>digest\<close>.\<close>

definition source_text :: "memory list \<Rightarrow> string" where
  "source_text ms = concat (map (\<lambda>m. mem_id m @ '':'' @ essence m @ [NL]) (sort_key mem_id ms))"

definition source_hash :: "(string \<Rightarrow> string) \<Rightarrow> memory list \<Rightarrow> string" where
  "source_hash digest ms = digest (source_text ms)"

section \<open>The marker\<close>

definition hash_marker :: string where "hash_marker = ''<!-- memem-source-hash:''"

text \<open>What follows the last occurrence of a text, and what precedes the first one.\<close>

fun after_last :: "string \<Rightarrow> string \<Rightarrow> string option" where
  "after_last m [] = (if m = [] then Some [] else None)"
| "after_last m (c # s) =
     (case after_last m s of
        Some t \<Rightarrow> Some t
      | None \<Rightarrow> if starts_with (c # s) m then Some (drop (length m) (c # s)) else None)"

fun before_first :: "string \<Rightarrow> string \<Rightarrow> string option" where
  "before_first m [] = (if m = [] then Some [] else None)"
| "before_first m (c # s) =
     (if starts_with (c # s) m then Some [] else map_option (\<lambda>t. c # t) (before_first m s))"

text \<open>A playbook that cannot be read is \<open>None\<close>, and so is one without a marker.\<close>

type_synonym playbooks = "(string, string option) dict"

definition read_existing_source_hash :: "playbooks \<Rightarrow> string \<Rightarrow> string option" where
  "read_existing_source_hash pbs path =
     (case map_of pbs path of
        Some (Some t) \<Rightarrow>
          (case after_last hash_marker t of
             None \<Rightarrow> None
           | Some rest \<Rightarrow> map_option strip (before_first ''-->'' rest))
      | _ \<Rightarrow> None)"

definition with_marker :: "string \<Rightarrow> string \<Rightarrow> string" where
  "with_marker t h = t @ [NL, NL] @ hash_marker @ h @ '' -->'' @ [NL]"

section \<open>Refining one project\<close>

datatype refined =
    SkippedFew nat
  | SkippedUnchanged
  | WrittenRaw nat
  | WrittenRefined nat
  | RefineFailed string

definition playbook_text :: "clock \<Rightarrow> string \<Rightarrow> memory list \<Rightarrow> string" where
  "playbook_text clk p ms =
     strip (join [NL]
       ([''# '' @ p @ '' '' @ [em_dash] @ '' Project Playbook'', ''Updated: '' @ c_day clk, []]
        @ concat (map (\<lambda>m. if strip (essence m) = [] then [] else [''## '' @ title m, strip (essence m), []]) ms)))"

record playbook_env =
  b_ext :: ext
  b_digest :: "string \<Rightarrow> string"
  b_haiku :: "string \<Rightarrow> proc"   \<comment> \<open>the answer to the system prompt and this input\<close>

definition playbook_path :: "string \<Rightarrow> string" where
  "playbook_path p = p @ ''.md''"

definition write_playbook :: "clock \<Rightarrow> string \<Rightarrow> string \<Rightarrow> playbooks \<times> store \<Rightarrow> playbooks \<times> store" where
  "write_playbook clk p t ps =
     (let (pbs, s) = ps in
      (AList.update (playbook_path p) (Some t) pbs, log_event clk ''refine'' [] [(''project'', p)] s))"

definition playbook_refine ::
  "playbook_env \<Rightarrow> clock \<Rightarrow> string \<Rightarrow> bool \<Rightarrow> playbooks \<times> store \<Rightarrow> refined \<times> playbooks \<times> store" where
  "playbook_refine B clk p forced ps =
     (let (pbs, s) = ps; (ms, s) = obsidian_memories (b_ext B) clk None False s; ms = project_memories p ms in
      if length ms < MIN_MEMORIES_FOR_PLAYBOOK then (SkippedFew (length ms), pbs, s)
      else
        let h = source_hash (b_digest B) ms in
        if \<not> forced \<and> read_existing_source_hash pbs (playbook_path p) = Some h then (SkippedUnchanged, pbs, s)
        else
          let combined = playbook_text clk p ms in
          case scan_memory_content combined of
            Some threat \<Rightarrow> (RefineFailed (''security scan: '' @ threat), pbs, s)
          | None \<Rightarrow>
              if length combined < HAIKU_BYPASS_SIZE
              then (WrittenRaw (length ms), write_playbook clk p (with_marker combined h) (pbs, s))
              else (case b_haiku B combined of
                      SpawnError e \<Rightarrow> (RefineFailed e, pbs, s)
                    | Finished code out err \<Rightarrow>
                        if code \<noteq> 0 \<or> strip out = [] then (RefineFailed (''haiku rc='' @ str_of_int code), pbs, s)
                        else (case scan_memory_content (strip out) of
                                Some threat \<Rightarrow> (RefineFailed (''security scan: '' @ threat), pbs, s)
                              | None \<Rightarrow>
                                  (WrittenRefined (length ms), write_playbook clk p (with_marker (strip out) h) (pbs, s)))))"

section \<open>All projects\<close>

record totals =
  refreshed :: nat
  skipped_few :: nat
  failed_refines :: nat
  noop :: nat

definition count_refined :: "refined \<Rightarrow> totals \<Rightarrow> totals" where
  "count_refined r t =
     (case r of
        WrittenRaw _ \<Rightarrow> t\<lparr>refreshed := refreshed t + 1\<rparr>
      | WrittenRefined _ \<Rightarrow> t\<lparr>refreshed := refreshed t + 1\<rparr>
      | SkippedUnchanged \<Rightarrow> t\<lparr>noop := noop t + 1\<rparr>
      | SkippedFew _ \<Rightarrow> t\<lparr>skipped_few := skipped_few t + 1\<rparr>
      | RefineFailed _ \<Rightarrow> t\<lparr>failed_refines := failed_refines t + 1\<rparr>)"

fun refine_each ::
  "playbook_env \<Rightarrow> clock \<Rightarrow> bool \<Rightarrow> string list \<Rightarrow> totals \<Rightarrow> playbooks \<times> store \<Rightarrow> totals \<times> playbooks \<times> store" where
  "refine_each B clk forced [] t ps = (t, ps)"
| "refine_each B clk forced (p # projs) t ps =
     (let (r, ps) = playbook_refine B clk p forced ps in refine_each B clk forced projs (count_refined r t) ps)"

definition all_projects :: "memory list \<Rightarrow> string list" where
  "all_projects ms = sort (uniq (map project ms))"

definition playbook_sweep :: "playbook_env \<Rightarrow> clock \<Rightarrow> bool \<Rightarrow> playbooks \<times> store \<Rightarrow> totals \<times> playbooks \<times> store" where
  "playbook_sweep B clk forced ps =
     (let (pbs, s) = ps; (ms, s) = obsidian_memories (b_ext B) clk None False s in
      refine_each B clk forced (all_projects ms) \<lparr>refreshed = 0, skipped_few = 0, failed_refines = 0, noop = 0\<rparr> (pbs, s))"


section \<open>The marker is read back\<close>

text \<open>What is relied on of SHA-256 in hexadecimal.\<close>

definition hex_digest :: "(string \<Rightarrow> string) \<Rightarrow> bool" where
  "hex_digest digest \<longleftrightarrow> (\<forall>t. \<forall>c \<in> set (digest t). is_digit c \<or> CHR ''a'' \<le> c \<and> c \<le> CHR ''f'')"

lemma after_last_None: "m \<noteq> [] \<Longrightarrow> hd m \<notin> set s \<Longrightarrow> after_last m s = None"
  by (induction s) (cases m; auto)+

lemma after_last_append:
  assumes "after_last m (tl (m @ s)) = None" "m \<noteq> []"
  shows "after_last m (t @ m @ s) = Some s"
proof (induction t)
  case Nil
  from assms(2) obtain c m' where m: "m = c # m'" by (cases m) auto
  with assms(1) have "after_last m (m' @ s) = None" by simp
  with m show ?case by (auto simp: starts_with_iff)
qed simp

lemma before_first_clean: "CHR ''-'' \<notin> set s \<Longrightarrow> before_first ''-->'' (s @ ''-->'' @ t) = Some s"
  by (induction s) auto

lemma marker_read_back:
  assumes "\<forall>c \<in> set h. is_digit c \<or> CHR ''a'' \<le> c \<and> c \<le> CHR ''f''"
    and "map_of pbs path = Some (Some (with_marker t h))"
  shows "read_existing_source_hash pbs path = Some h"
proof -
  let ?rest = "h @ '' -->'' @ [NL]"
  have h: "c \<noteq> CHR ''<'' \<and> c \<noteq> CHR ''-'' \<and> \<not> py_space c" if "c \<in> set h" for c
    using assms(1) that by (auto simp: is_digit_def py_space_def less_eq_char_def)
  then have "CHR ''<'' \<notin> set ?rest" by auto
  then have "after_last hash_marker (tl (hash_marker @ ?rest)) = None"
    by (intro after_last_None) (auto simp: hash_marker_def)
  from after_last_append [OF this, of "t @ [NL, NL]"]
  have after: "after_last hash_marker (with_marker t h) = Some ?rest" by (simp add: with_marker_def hash_marker_def)
  have "CHR ''-'' \<notin> set (h @ '' '')" using h by auto
  from before_first_clean [OF this, of "[NL]"] have b: "before_first ''-->'' ?rest = Some (h @ '' '')" by simp
  have "strip (h @ '' '') = h"
  proof (cases h)
    case Nil
    have "strip '' '' = []" by code_simp
    with Nil show ?thesis by simp
  next
    case (Cons c t)
    then have "lstrip (h @ '' '') = h @ '' ''" using h by (intro lstrip_fix) auto
    moreover have "rstrip (h @ '' '') = rstrip h" by (rule rstrip_space) (simp add: py_space_def)
    moreover have "rstrip h = h" using h Cons by (intro rstrip_fix) auto
    ultimately show ?thesis by (simp add: strip_def)
  qed
  with after b show ?thesis by (simp add: read_existing_source_hash_def assms(2))
qed

section \<open>Refining again\<close>

text \<open>Between two sweeps of the vault cache, listing the memories does not touch the disk.\<close>

definition fresh :: "clock \<Rightarrow> store \<Rightarrow> bool" where
  "fresh clk s \<longleftrightarrow> dir_ok s \<and> cache_files s \<noteq> [] \<and> c_time clk - last_sweep s < SWEEP_INTERVAL"

definition listed :: "playbook_env \<Rightarrow> store \<Rightarrow> memory list" where
  "listed B s = memories_of (x_aliases (b_ext B)) None False (cache s)"

lemma fresh_listing: "fresh clk s \<Longrightarrow> obsidian_memories (b_ext B) clk None False s = (listed B s, s)"
  by (simp add: obsidian_memories_def fresh_def ensure_cache_warm_def listed_def)

lemma logged_fields [simp]:
  "fresh clk (log_event c k i d s) = fresh clk s" "listed B (log_event c k i d s) = listed B s"
  by (simp_all add: fresh_def listed_def log_event_def)

definition up_to_date :: "playbook_env \<Rightarrow> memory list \<Rightarrow> playbooks \<Rightarrow> string \<Rightarrow> bool" where
  "up_to_date B ms pbs p \<longleftrightarrow>
     length (project_memories p ms) < MIN_MEMORIES_FOR_PLAYBOOK \<or>
     read_existing_source_hash pbs (playbook_path p) = Some (source_hash (b_digest B) (project_memories p ms))"

definition is_failure :: "refined \<Rightarrow> bool" where
  "is_failure r \<longleftrightarrow> (\<exists>why. r = RefineFailed why)"

text \<open>A run either changes nothing, or writes one text that passed the scan, with the marker.\<close>

lemma refine_cases:
  assumes "fresh clk s" "playbook_refine B clk p forced (pbs, s) = (r, pbs', s')"
  shows "(pbs' = pbs \<and> s' = s \<and> (is_failure r \<or> up_to_date B (listed B s) pbs p)) \<or>
    (\<exists>t n. r \<in> {WrittenRaw n, WrittenRefined n} \<and> scan_memory_content t = None \<and>
       (pbs', s') = write_playbook clk p (with_marker t (source_hash (b_digest B) (project_memories p (listed B s)))) (pbs, s))"
  using assms(2)
  by (auto simp: playbook_refine_def fresh_listing [OF assms(1)] Let_def is_failure_def up_to_date_def
      split: if_splits option.splits proc.splits)

lemma path_inj: "playbook_path p = playbook_path q \<longleftrightarrow> p = q"
  by (simp add: playbook_path_def)

lemma read_other: "path \<noteq> path' \<Longrightarrow> read_existing_source_hash (AList.update path' x pbs) path = read_existing_source_hash pbs path"
  by (simp add: read_existing_source_hash_def map_of_update)

lemma refine_up_to_date:
  assumes "hex_digest (b_digest B)" "fresh clk s" "playbook_refine B clk p forced (pbs, s) = (r, pbs', s')" "\<not> is_failure r"
  shows "up_to_date B (listed B s) pbs' p \<and> (\<forall>q. up_to_date B (listed B s) pbs q \<longrightarrow> up_to_date B (listed B s) pbs' q) \<and>
    (\<exists>e. s' = s\<lparr>events := e\<rparr>)"
  using refine_cases [OF assms(2,3)]
proof
  assume "pbs' = pbs \<and> s' = s \<and> (is_failure r \<or> up_to_date B (listed B s) pbs p)"
  moreover have "\<exists>e. s = s\<lparr>events := e\<rparr>" by (rule exI [of _ "events s"]) simp
  ultimately show ?thesis using assms(4) by blast
next
  let ?h = "source_hash (b_digest B) (project_memories p (listed B s))"
  assume "\<exists>t n. r \<in> {WrittenRaw n, WrittenRefined n} \<and> scan_memory_content t = None \<and>
       (pbs', s') = write_playbook clk p (with_marker t ?h) (pbs, s)"
  then obtain t where w: "pbs' = AList.update (playbook_path p) (Some (with_marker t ?h)) pbs" "\<exists>e. s' = s\<lparr>events := e\<rparr>"
    by (auto simp: write_playbook_def log_event_def)
  have "\<forall>c \<in> set ?h. is_digit c \<or> CHR ''a'' \<le> c \<and> c \<le> CHR ''f''"
    using assms(1) by (simp add: hex_digest_def source_hash_def)
  then have p: "up_to_date B (listed B s) pbs' p"
    unfolding up_to_date_def by (intro disjI2 marker_read_back [where t = t]) (simp_all add: w(1) map_of_update)
  then have "up_to_date B (listed B s) pbs' q" if "up_to_date B (listed B s) pbs q" for q
    using that by (cases "q = p") (auto simp: up_to_date_def w(1) read_other path_inj)
  with p w(2) show ?thesis by blast
qed

lemma fresh_events [simp]: "fresh clk (s\<lparr>events := e\<rparr>) = fresh clk s" "listed B (s\<lparr>events := e\<rparr>) = listed B s"
  by (simp_all add: fresh_def listed_def)

lemma count_failures: "failed_refines (count_refined r t) = failed_refines t + (if is_failure r then 1 else 0)"
  by (cases r) (simp_all add: count_refined_def is_failure_def)

lemma failures_grow: "failed_refines t \<le> failed_refines (fst (refine_each B clk forced projs t ps))"
proof (induction projs arbitrary: t ps)
  case (Cons p projs)
  obtain r pq where r: "playbook_refine B clk p forced ps = (r, pq)" by (metis surj_pair)
  show ?case using Cons.IH [of "count_refined r t" pq] by (simp add: r count_failures split: if_splits)
qed simp

lemma refine_each_up_to_date:
  assumes "hex_digest (b_digest B)" "fresh clk s" "refine_each B clk forced projs t (pbs, s) = (t', pbs', s')"
    "failed_refines t' = failed_refines t"
  shows "(\<forall>q. q \<in> set projs \<or> up_to_date B (listed B s) pbs q \<longrightarrow> up_to_date B (listed B s) pbs' q) \<and> (\<exists>e. s' = s\<lparr>events := e\<rparr>)"
  using assms
proof (induction projs arbitrary: t pbs s)
  case Nil
  then have "pbs' = pbs" and "s' = s" by auto
  have e: "\<exists>e. s = s\<lparr>events := e\<rparr>" by (rule exI [of _ "events s"]) simp
  show ?case unfolding \<open>pbs' = pbs\<close> \<open>s' = s\<close> using e by simp
next
  case (Cons p projs)
  obtain r pbs1 s1 where r: "playbook_refine B clk p forced (pbs, s) = (r, pbs1, s1)" by (metis prod_cases3)
  have rest: "refine_each B clk forced projs (count_refined r t) (pbs1, s1) = (t', pbs', s')" using Cons.prems(3) by (simp add: r)
  have "failed_refines (count_refined r t) \<le> failed_refines t'"
    using failures_grow [of "count_refined r t" B clk forced projs "(pbs1, s1)"] by (simp add: rest)
  with Cons.prems(4) have ok: "\<not> is_failure r" "failed_refines t' = failed_refines (count_refined r t)"
    by (auto simp: count_failures split: if_splits)
  from refine_up_to_date [OF Cons.prems(1,2) r ok(1)] obtain e where
    p: "up_to_date B (listed B s) pbs1 p" and q: "\<And>q. up_to_date B (listed B s) pbs q \<Longrightarrow> up_to_date B (listed B s) pbs1 q"
    and s1: "s1 = s\<lparr>events := e\<rparr>" by blast
  have "fresh clk s1" using Cons.prems(2) by (simp add: s1)
  from Cons.IH [OF Cons.prems(1) this rest ok(2)] p q s1 show ?case by auto
qed

lemma refine_each_noop:
  assumes "fresh clk s" "\<forall>p \<in> set projs. up_to_date B (listed B s) pbs p" "refine_each B clk False projs t (pbs, s) = (t', ps)"
  shows "ps = (pbs, s) \<and> refreshed t' = refreshed t \<and> failed_refines t' = failed_refines t"
  using assms
proof (induction projs arbitrary: t)
  case (Cons p projs)
  have "\<exists>r. playbook_refine B clk p False (pbs, s) = (r, pbs, s) \<and> (r = SkippedUnchanged \<or> (\<exists>n. r = SkippedFew n))"
    using Cons.prems(2) by (auto simp: playbook_refine_def fresh_listing [OF Cons.prems(1)] Let_def up_to_date_def)
  then obtain r where r: "playbook_refine B clk p False (pbs, s) = (r, pbs, s)" "r = SkippedUnchanged \<or> (\<exists>n. r = SkippedFew n)" by blast
  from Cons.IH [of "count_refined r t"] Cons.prems r show ?case by (auto simp: count_refined_def)
qed simp



text \<open>The hashed text does not separate the memories: a memory whose text contains a line of the form
  \<^verbatim>\<open>id:text\<close> hashes like two memories, so that splitting it goes unnoticed.\<close>

lemma split_memory_unnoticed:
  "source_text [blank_memory ''a1'' ''T'' (''x'' @ [NL] @ ''b2:y'')] = source_text [blank_memory ''a1'' ''T'' ''x'', blank_memory ''b2'' ''U'' ''y'']"
  by code_simp

section \<open>Example\<close>

definition sample_book :: playbook_env where
  "sample_book = \<lparr>b_ext = sample_ext, b_digest = (\<lambda>_. ''a1''), b_haiku = (\<lambda>_. SpawnError [])\<rparr>"

definition five_memories :: store where
  "five_memories = empty_store\<lparr>cache := map (\<lambda>i. (i, (blank_memory i ''T'' ''x'')\<lparr>project := ''p''\<rparr>)) [''a1'', ''a2'', ''a3'', ''a4'', ''a5''],
     cache_files := [(''a1.md'', 1, ''a1'')], last_sweep := 90\<rparr>"


end
