(* ===== verification/Operations.thy ===== *)
theory Operations
  imports Store Mining JsonText Transcripts
begin

text \<open>
  \<^verbatim>\<open>memem/operations.py\<close>: what the user's own saves and imports do. A save compares its text with
  the memories of the scope and refuses it, merges it into the closest one, or adds a memory; an
  import cuts files into memories that are no duplicates.
\<close>

record op_env =
  o_ext :: ext
  o_fts :: fts_match
  o_best :: extract_one                \<comment> \<open>rapidfuzz\<close>
  o_merge :: "string \<Rightarrow> proc"          \<comment> \<open>the language model asked to merge\<close>
  o_vault :: string
  o_floats :: "real \<Rightarrow> string"
  o_text :: "json \<Rightarrow> string"

definition REJECT_THRESHOLD :: real where "REJECT_THRESHOLD = 0.92"
definition MERGE_THRESHOLD :: real where "MERGE_THRESHOLD = 0.7"

text \<open>\<^verbatim>\<open>_find_best_match\<close> and \<^verbatim>\<open>_is_duplicate\<close> over the vault.\<close>

definition best_in_vault :: "op_env \<Rightarrow> clock \<Rightarrow> string \<Rightarrow> string \<Rightarrow> store \<Rightarrow> (memory option \<times> real) \<times> store" where
  "best_in_vault E clk content scope s =
     (if strip content = [] then ((None, 0), s)
      else
        let n = normalize_scope_id (x_aliases (o_ext E)) scope;
            (ms, s) = obsidian_memories (o_ext E) clk (if n = ''general'' then None else Some n) False s
        in (find_best_match (o_best E) ms content, s))"

definition duplicate_in_vault :: "op_env \<Rightarrow> clock \<Rightarrow> string \<Rightarrow> string \<Rightarrow> store \<Rightarrow> bool \<times> store" where
  "duplicate_in_vault E clk content scope s =
     (if strip content = [] then (False, s)
      else let ((m, score), s) = best_in_vault E clk content scope s in (score \<ge> 0.7, s))"

section \<open>Saving\<close>

datatype save_reply =
    AlreadyExists string string   \<comment> \<open>id and title of the memory\<close>
  | MergedInto string string
  | NotMerged string string
  | MemorySaved string string
  | MemoryRejected string
  | VaultMissing string

fun reply_text :: "save_reply \<Rightarrow> string" where
  "reply_text (AlreadyExists i t) = ''Memory already exists: ['' @ id8 i @ ''] '' @ [CHR 0x22] @ take 60 t @ [CHR 0x22] @ ''. Not saved.''"
| "reply_text (MergedInto i t) =
     ''Merged into existing memory ['' @ id8 i @ ''] '' @ [CHR 0x22] @ take 60 t @ [CHR 0x22]
     @ '' (similar content existed; merged via Haiku).''"
| "reply_text (NotMerged i t) =
     ''Memory already exists: ['' @ id8 i @ ''] '' @ [CHR 0x22] @ take 60 t @ [CHR 0x22] @ ''. Not saved. (merge unavailable)''"
| "reply_text (MemorySaved i t) = ''Memory saved: '' @ id8 i @ ''... '' @ [CHR 0x22] @ t @ [CHR 0x22]"
| "reply_text (MemoryRejected why) = ''Memory rejected: '' @ why"
| "reply_text (VaultMissing why) = why"

definition refused :: "op_env \<Rightarrow> store_error \<Rightarrow> save_reply" where
  "refused E e =
     (case e of
        ValueError why \<Rightarrow> MemoryRejected why
      | ObsidianUnavailable \<Rightarrow> VaultMissing (''Obsidian vault not found: '' @ o_vault E))"

definition split_tags :: "string \<Rightarrow> string list" where
  "split_tags tags = (if tags = [] then [] else filter (\<lambda>t. t \<noteq> []) (map strip (split_char (CHR '','') tags)))"

definition merge_into ::
  "op_env \<Rightarrow> clock \<Rightarrow> memory \<Rightarrow> string \<Rightarrow> string list \<Rightarrow> store \<Rightarrow> save_reply \<times> store" where
  "merge_into E clk best content tags s =
     (case merge_memories (o_merge E) (essence best) content of
        Inl _ \<Rightarrow> (NotMerged (mem_id best) (title best), s)
      | Inr merged_text \<Rightarrow>
          (case update_memory (o_ext E) clk (mem_id best) merged_text [] tags [] s of
             (Inl _, s) \<Rightarrow> (NotMerged (mem_id best) (title best), s)
           | (Inr _, s) \<Rightarrow> (MergedInto (mem_id best) (title best), s)))"

text \<open>\<open>fresh\<close> is the new uuid4.\<close>

definition save_new ::
  "op_env \<Rightarrow> clock \<Rightarrow> string \<Rightarrow> string \<Rightarrow> string \<Rightarrow> string \<Rightarrow> string list \<Rightarrow> int option \<Rightarrow> string list \<Rightarrow> store \<Rightarrow> save_reply \<times> store" where
  "save_new E clk fresh content ttl proj domain lay ps s =
     (case make_memory scan_memory_content fresh (c_iso clk) content ttl domain proj ''user'' [] 3 lay [] of
        Inl e \<Rightarrow> (refused E e, s)
      | Inr m \<Rightarrow>
          let m = (if ps = [] then m else m\<lparr>paths := filter (\<lambda>p. p \<noteq> []) ps\<rparr>) in
          (case save_memory (o_ext E) (o_fts E) clk m s of
             (Inl e, s) \<Rightarrow> (refused E e, s)
           | (Inr saved, s) \<Rightarrow> (MemorySaved (mem_id m) ttl, s)))"

definition memory_save ::
  "op_env \<Rightarrow> clock \<Rightarrow> string \<Rightarrow> string \<Rightarrow> string \<Rightarrow> string \<Rightarrow> string \<Rightarrow> int option \<Rightarrow> string list \<Rightarrow> store \<Rightarrow> save_reply \<times> store" where
  "memory_save E clk fresh content ttl scope tags lay ps s =
     (let domain = split_tags tags; ttl = or_else ttl (take 60 content);
          proj = normalize_scope_id (x_aliases (o_ext E)) scope;
          ((best, score), s) = best_in_vault E clk content scope s
      in case best of
           None \<Rightarrow> save_new E clk fresh content ttl proj domain lay ps s
         | Some b \<Rightarrow>
             if score \<ge> REJECT_THRESHOLD then (AlreadyExists (mem_id b) (title b), s)
             else if score \<ge> MERGE_THRESHOLD then merge_into E clk b content domain s
             else save_new E clk fresh content ttl proj domain lay ps s)"

section \<open>Importing a file\<close>

text \<open>Reading in text mode: every line end becomes a newline.\<close>

fun universal_newlines :: "string \<Rightarrow> string" where
  "universal_newlines [] = []"
| "universal_newlines [c] = [if c = CHR 0x0D then NL else c]"
| "universal_newlines (c # d # s) =
     (if c = CHR 0x0D \<and> d = NL then NL # universal_newlines s
      else (if c = CHR 0x0D then NL else c) # universal_newlines (d # s))"

definition read_text :: "string \<Rightarrow> string" where
  "read_text bs = universal_newlines (decode_ignore bs)"

definition path_suffix :: "string \<Rightarrow> string" where
  "path_suffix n = lower (drop (length (path_stem n)) n)"

definition md_heading :: re where  \<comment> \<open>\<^verbatim>\<open>#{1,3}\s+.+$\<close>\<close>
  "md_heading = cats [lit ''#'', upto 2 (lit ''#''), sp, plus any_char, Eol]"

text \<open>\<^verbatim>\<open>re.split\<close> at the headings, which are kept; \<open>at_start\<close>: the position starts a line.\<close>

function split_headings :: "bool \<Rightarrow> string \<Rightarrow> string \<Rightarrow> string list" where
  "split_headings at_start cur [] = [cur]"
| "split_headings at_start cur (c # s) =
     (case (if at_start then ends md_heading (None, c # s) else []) of
        q # _ \<Rightarrow>
          if length (snd q) < length (c # s)
          then cur # take (length (c # s) - length (snd q)) (c # s) # split_headings False [] (snd q)
          else split_headings (c = NL) (cur @ [c]) s
      | [] \<Rightarrow> split_headings (c = NL) (cur @ [c]) s)"
  by pat_completeness auto
termination
  by (relation "measure (\<lambda>(_, _, s). length s)") auto

definition is_heading :: "string \<Rightarrow> bool" where  \<comment> \<open>\<^verbatim>\<open>re.match(r"^#{1,3}\s+", part)\<close>\<close>
  "is_heading part \<longleftrightarrow> ends (cats [lit ''#'', upto 2 (lit ''#''), sp]) (None, part) \<noteq> []"

definition heading_title :: "string \<Rightarrow> string" where
  "heading_title part = strip (dropWhile (\<lambda>c. c = CHR ''#'' \<or> c = CHR '' '') part)"

text \<open>The sections of a Markdown file that are long enough, with their titles.\<close>

fun md_sections :: "string \<Rightarrow> string \<Rightarrow> string list \<Rightarrow> (string \<times> string) list" where
  "md_sections ttl body [] = (if length (strip body) > 20 then [(ttl, strip body)] else [])"
| "md_sections ttl body (part # parts) =
     (let p = strip part in
      if p = [] then md_sections ttl body parts
      else if is_heading p
      then (if length (strip body) > 20 then [(ttl, strip body)] else []) @ md_sections (heading_title p) [] parts
      else md_sections ttl (body @ p @ [NL]) parts)"

text \<open>\<^verbatim>\<open>json.dumps(v, indent=2)\<close>, at a depth of \<open>n\<close> spaces.\<close>

fun json_indent :: "(real \<Rightarrow> string) \<Rightarrow> nat \<Rightarrow> json \<Rightarrow> string" where
  "json_indent repr n (JArr xs) =
     (if xs = [] then ''[]''
      else ''['' @ [NL] @ join ('','' @ [NL]) (map (\<lambda>x. replicate (n + 2) (CHR '' '') @ json_indent repr (n + 2) x) xs)
        @ [NL] @ replicate n (CHR '' '') @ '']'')"
| "json_indent repr n (JObj kvs) =
     (if kvs = [] then ''{}''
      else ''{'' @ [NL]
        @ join ('','' @ [NL])
            (map (\<lambda>(k, x). replicate (n + 2) (CHR '' '') @ quoted k @ '': '' @ json_indent repr (n + 2) x) kvs)
        @ [NL] @ replicate n (CHR '' '') @ ''}'')"
| "json_indent repr n v = json_dumps repr v"

text \<open>The texts a file gives: title, content, in order; only the first two thousand characters count.\<close>

definition json_items :: "op_env \<Rightarrow> string \<Rightarrow> string \<Rightarrow> (string \<times> string) list" where
  "json_items E base content =
     (case json_loads content of
        Some (JObj d) \<Rightarrow> [(base, json_indent (o_floats E) 0 (JObj d))]
      | Some (JArr xs) \<Rightarrow>
          concat (map (\<lambda>x.
            let t = (case x of JStr s \<Rightarrow> s | _ \<Rightarrow> json_indent (o_floats E) 0 x);
                ttl = (case x of JObj d \<Rightarrow> take 60 (py_text (o_text E) (jget_or d ''title'' (JStr base))) | _ \<Rightarrow> base)
            in if length t \<le> 20 then [] else [(ttl, t)]) (take 20 xs))
      | _ \<Rightarrow> [])"

definition file_items :: "op_env \<Rightarrow> string \<Rightarrow> string \<Rightarrow> (string \<times> string) list" where
  "file_items E name content =
     (let base = path_stem name; ext = path_suffix name in
      if ext \<in> {''.md'', ''.markdown''} then md_sections base [] (split_headings True [] content)
      else if ext = ''.json'' then json_items E base content
      else if ext \<in> {''.txt'', ''.text'', ''.rst''} then [(base, strip content)]
      else [])"

text \<open>Saving the items one by one; an error ends the import and leaves what was saved. \<open>fresh\<close> gives
  the uuid4 of the \<open>n\<close>-th memory of the import.\<close>

fun import_items ::
  "op_env \<Rightarrow> clock \<Rightarrow> (nat \<Rightarrow> string) \<Rightarrow> string \<Rightarrow> (string \<times> string) list \<Rightarrow> nat \<Rightarrow> store \<Rightarrow> (store_error + nat) \<times> store" where
  "import_items E clk fresh scope [] n s = (Inr n, s)"
| "import_items E clk fresh scope ((ttl, t) # its) n s =
     (let body = take 2000 t; (dup, s) = duplicate_in_vault E clk body scope s in
      if dup then import_items E clk fresh scope its n s
      else
        (case make_memory scan_memory_content (fresh n) (c_iso clk) body ttl [''imported'']
                (normalize_scope_id (x_aliases (o_ext E)) scope) ''import'' [] 3 None [] of
           Inl e \<Rightarrow> (Inl e, s)
         | Inr m \<Rightarrow>
             (case save_memory (o_ext E) (o_fts E) clk m s of
                (Inl e, s) \<Rightarrow> (Inl e, s)
              | (Inr _, s) \<Rightarrow> import_items E clk fresh scope its (Suc n) s)))"

definition import_file ::
  "op_env \<Rightarrow> clock \<Rightarrow> (nat \<Rightarrow> string) \<Rightarrow> string \<Rightarrow> string \<times> string option \<Rightarrow> nat \<Rightarrow> store \<Rightarrow> (store_error + nat) \<times> store" where
  "import_file E clk fresh scope f n s =
     (case f of
        (name, None) \<Rightarrow> (Inr n, s)
      | (name, Some bs) \<Rightarrow>
          let content = read_text bs in
          if length (strip content) < 20 then (Inr n, s)
          else import_items E clk fresh scope (file_items E name content) n s)"

section \<open>Importing a path\<close>

text \<open>A folder: its files with their bytes, and its folders in the order of the listing.\<close>

datatype folder = Folder "(string \<times> string option) list" "(string \<times> folder) list"

definition hidden :: "string \<Rightarrow> bool" where
  "hidden name \<longleftrightarrow> starts_with name ''.''"

definition walked :: "string \<Rightarrow> bool" where
  "walked name \<longleftrightarrow> \<not> hidden name \<and> name \<notin> {''node_modules'', ''__pycache__'', ''.git'', ''venv''}"

fun walk_files :: "folder \<Rightarrow> (string \<times> string option) list" where
  "walk_files (Folder fs ds) =
     filter (\<lambda>f. \<not> hidden (fst f)) (sort_key fst fs)
     @ concat (map (\<lambda>(name, d). if walked name then walk_files d else []) ds)"

datatype source = OutsideHome | Absent | FileAt string "string option" | FolderAt folder | OtherNode

fun import_files ::
  "op_env \<Rightarrow> clock \<Rightarrow> (nat \<Rightarrow> string) \<Rightarrow> string \<Rightarrow> (string \<times> string option) list \<Rightarrow> nat \<Rightarrow> store \<Rightarrow> (store_error + nat) \<times> store" where
  "import_files E clk fresh scope [] n s = (Inr n, s)"
| "import_files E clk fresh scope (f # fs) n s =
     (case import_file E clk fresh scope f n s of
        (Inl e, s) \<Rightarrow> (Inl e, s)
      | (Inr n, s) \<Rightarrow> import_files E clk fresh scope fs n s)"

definition chat_line :: re where
  "chat_line = cats [ialts [''User'', ''Human'', ''Assistant'', ''Claude''], Star space, lit '':'']"

definition is_chat_export :: "string \<Rightarrow> string \<Rightarrow> bool" where
  "is_chat_export name content \<longleftrightarrow>
     lower name = ''conversations.json'' \<or>
     path_suffix name = ''.json'' \<and>
       (contains (take 1000 content) (CHR 0x22 # ''mapping'' @ [CHR 0x22]) \<or> contains (take 1000 content) (CHR 0x22 # ''role'' @ [CHR 0x22])) \<or>
     path_suffix name \<in> {''.txt'', ''.log''} \<and> re_search chat_line (take 500 content)"

definition chat_preview :: "string \<Rightarrow> string \<Rightarrow> string" where
  "chat_preview path content =
     ''CHAT EXPORT DETECTED: '' @ path @ [NL] @ ''Size: '' @ str_of_nat (length content) @ '' chars'' @ [NL, NL]
     @ ''Read through this and extract knowledge. For each insight, call memory_save.'' @ [NL, NL]
     @ ''--- CONTENT ---'' @ [NL] @ take 10000 content
     @ (if length content > 10000 then [NL, NL] @ ''[truncated...]'' else [])"

definition imported_text :: "string \<Rightarrow> (store_error + nat) \<times> store \<Rightarrow> (store_error + string) \<times> store" where
  "imported_text path r =
     (case r of
        (Inl e, s) \<Rightarrow> (Inl e, s)
      | (Inr n, s) \<Rightarrow> (Inr (''Imported '' @ str_of_nat n @ '' memories from '' @ path), s))"

text \<open>\<open>Inl\<close>: the error leaves the call.\<close>

definition memory_import ::
  "op_env \<Rightarrow> clock \<Rightarrow> (nat \<Rightarrow> string) \<Rightarrow> string \<Rightarrow> source \<Rightarrow> string \<Rightarrow> store \<Rightarrow> (store_error + string) \<times> store" where
  "memory_import E clk fresh path src scope s =
     (case src of
        OutsideHome \<Rightarrow> (Inr ''Access denied: can only import from within home directory'', s)
      | Absent \<Rightarrow> (Inr (''Path not found: '' @ path), s)
      | FileAt name None \<Rightarrow> (Inr (''Cannot read: '' @ path), s)
      | FileAt name (Some bs) \<Rightarrow>
          if is_chat_export name (read_text bs) then (Inr (chat_preview path (read_text bs)), s)
          else imported_text path (import_file E clk fresh scope (name, Some bs) 0 s)
      | FolderAt d \<Rightarrow> imported_text path (import_files E clk fresh scope (walk_files d) 0 s)
      | OtherNode \<Rightarrow> (Inr (''Unsupported path: '' @ path), s))"


section \<open>What a save does\<close>

lemma others_find_best: "others (snd (best_in_vault E clk content scope s)) = others s"
  by (simp add: best_in_vault_def Let_def split_beta)

lemma others_duplicate: "others (snd (duplicate_in_vault E clk content scope s)) = others s"
  using others_find_best [of E clk content scope s] by (simp add: duplicate_in_vault_def split_beta)

lemma updated_event:
  assumes "update_memory X clk i c ti ts ks s = (Inr u, t)"
  shows "events t = events s @ [\<lparr>ev_op = ''update'', ev_id = i, ev_details = [], ev_time = c_iso clk\<rparr>]"
proof -
  obtain m s1 where f: "find_memory X clk i s = (Some m, s1)" and scan: "scan_memory_content c = None"
    using assms by (auto simp: update_memory_def split: option.splits prod.splits)
  have s1: "others s1 = others s" using others_find [of X clk i s] f by simp
  define m1 where "m1 = merged clk c ti ts ks m"
  obtain rel s2 where g: "suggest_for X clk m1 3 (mutate_cached m1 s1) = (rel, s2)" by fastforce
  then have s2: "others s2 = others s" using s1 others_suggest [of X clk m1 3 "mutate_cached m1 s1"] by simp
  define m2 where "m2 = m1\<lparr>related := rel\<rparr>"
  obtain m3 s3 where w: "write_obsidian_memory X clk m2 (mutate_cached m2 s2) = Inr (m3, s3)" and t: "t = finish_update X clk i m3 s3"
    using assms by (auto simp: update_memory_def f scan Let_def m1_def [symmetric] g m2_def [symmetric] split: sum.splits)
  have s3: "others s3 = others s" using others_write [OF w] s2 by simp
  define s4 where "s4 = update_index_line clk m3 (cache_refresh_from_disk X (mem_id m3) (mutate_cached m3 s3))"
  have "others (cache_refresh_from_disk X (mem_id m3) (mutate_cached m3 s3)) = others s" using s3 by simp
  then have "events s4 = events s" by (simp add: s4_def others_def update_index_line_def)
  moreover have "t = refresh_edges X clk (mem_id m3) (fts_index X m3 (log_event clk ''update'' i [] s4))"
    unfolding t finish_update_def Let_def s4_def by (rule refl)
  ultimately show ?thesis by (simp add: fts_refresh_edges) (simp add: fts_index_def log_event_def)
qed

lemma made_memory:
  assumes "make_memory scan fresh now content ttl tags proj src sess imp lay ks = Inr m"
  shows "mem_id m = fresh \<and> essence m = content \<and> title m = ttl \<and> scan content = None"
  using assms by (auto simp: make_memory_def Let_def split: if_splits option.splits)

definition saved_reply :: "op_env \<Rightarrow> clock \<Rightarrow> string \<Rightarrow> string \<Rightarrow> string \<Rightarrow> store \<Rightarrow> save_reply \<Rightarrow> store \<Rightarrow> bool" where
  "saved_reply E clk fresh content ttl s reply t \<longleftrightarrow>
     (case reply of
        MemorySaved i ttl' \<Rightarrow>
          i = fresh \<and> ttl' = ttl \<and> scan_memory_content content = None \<and>
          events t = events s @ [\<lparr>ev_op = ''save'', ev_id = fresh, ev_details = [(''title'', ttl)], ev_time = c_iso clk\<rparr>] \<and>
          (\<exists>m. mem_id m = fresh \<and> essence m = content \<and> title m = ttl \<and>
             row_for (fts_db t) = (row_for (fts_db s))(fresh \<mapsto> row_of (x_aliases (o_ext E)) m))
      | MergedInto i ttl' \<Rightarrow> False
      | _ \<Rightarrow> others t = others s)"

lemma save_new_reply:
  assumes "save_new E clk fresh content ttl proj domain lay ps s = (reply, t)"
  shows "saved_reply E clk fresh content ttl s reply t"
proof (cases "make_memory scan_memory_content fresh (c_iso clk) content ttl domain proj ''user'' [] 3 lay []")
  case (Inl e)
  with assms show ?thesis by (cases e) (auto simp: save_new_def saved_reply_def refused_def)
next
  case (Inr m)
  note m = made_memory [OF Inr]
  define m1 where "m1 = (if ps = [] then m else m\<lparr>paths := filter (\<lambda>p. p \<noteq> []) ps\<rparr>)"
  have m1: "mem_id m1 = fresh" "essence m1 = content" "title m1 = ttl" using m by (simp_all add: m1_def)
  obtain x u where u: "save_memory (o_ext E) (o_fts E) clk m1 s = (x, u)" by fastforce
  note r = assms [unfolded save_new_def Inr sum.case Let_def, folded m1_def, unfolded u]
  show ?thesis
  proof (cases x)
    case (Inl e)
    with u save_fails have "u = s" by blast
    with r Inl show ?thesis by (cases e) (auto simp: saved_reply_def refused_def)
  next
    case (Inr m2)
    with r m1 have "reply = MemorySaved fresh ttl" "t = u" by simp_all
    with save_publishes_memory [OF u [unfolded Inr]] m1 m show ?thesis by (auto simp: saved_reply_def)
  qed
qed

lemma merge_reply:
  assumes "merge_into E clk b content domain s = (reply, t)"
  shows "case reply of
      MemorySaved i ttl \<Rightarrow> False
    | MergedInto i ttl \<Rightarrow>
        i = mem_id b \<and> events t = events s @ [\<lparr>ev_op = ''update'', ev_id = i, ev_details = [], ev_time = c_iso clk\<rparr>]
    | _ \<Rightarrow> others t = others s"
proof (cases "merge_memories (o_merge E) (essence b) content")
  case (Inr body)
  obtain x u where "update_memory (o_ext E) clk (mem_id b) body [] domain [] s = (x, u)" by fastforce
  with assms Inr show ?thesis by (cases x) (auto simp: merge_into_def dest: update_fails updated_event)
qed (use assms in \<open>auto simp: merge_into_def\<close>)

text \<open>C17: The reply to a save is true. \<open>Saved\<close>: exactly one memory was added, under the new id, with the text and
  title given, and the text had passed the threat scan. \<open>Merged\<close>: exactly one memory was rewritten, and none
  was added. Every other reply: no table, no log and no index changed. A text as similar as 0.7 to a
  memory of its scope never becomes a second memory.\<close>

theorem save_reply_is_true:
  assumes "memory_save E clk fresh content ttl scope tags lay ps s = (reply, t)"
    and "best_in_vault E clk content scope s = ((best, score), s1)"
  shows "(case reply of
      MemorySaved i ttl' \<Rightarrow>
        i = fresh \<and> ttl' = or_else ttl (take 60 content) \<and> scan_memory_content content = None \<and> (best = None \<or> score < MERGE_THRESHOLD) \<and>
        events t = events s @ [\<lparr>ev_op = ''save'', ev_id = fresh, ev_details = [(''title'', ttl')], ev_time = c_iso clk\<rparr>] \<and>
        (\<exists>m. mem_id m = fresh \<and> essence m = content \<and> title m = ttl' \<and>
           row_for (fts_db t) = (row_for (fts_db s))(fresh \<mapsto> row_of (x_aliases (o_ext E)) m))
    | MergedInto i ttl' \<Rightarrow>
        (\<exists>b. best = Some b \<and> i = mem_id b \<and> MERGE_THRESHOLD \<le> score \<and> score < REJECT_THRESHOLD) \<and>
        events t = events s @ [\<lparr>ev_op = ''update'', ev_id = i, ev_details = [], ev_time = c_iso clk\<rparr>]
    | _ \<Rightarrow> others t = others s)"
proof -
  have s1: "others s1 = others s" using others_find_best [of E clk content scope s] by (simp add: assms(2))
  then have ev: "events s1 = events s" "fts_db s1 = fts_db s" by (simp_all add: others_def)
  let ?new = "save_new E clk fresh content (or_else ttl (take 60 content)) (normalize_scope_id (x_aliases (o_ext E)) scope) (split_tags tags) lay ps s1"
  have reply: "(reply, t) = (case best of None \<Rightarrow> ?new
      | Some b \<Rightarrow> if score \<ge> REJECT_THRESHOLD then (AlreadyExists (mem_id b) (title b), s1)
          else if score \<ge> MERGE_THRESHOLD then merge_into E clk b content (split_tags tags) s1 else ?new)"
    using assms(1) unfolding memory_save_def Let_def assms(2) by simp
  consider (exists) b where "best = Some b" "score \<ge> REJECT_THRESHOLD"
    | (merge) b where "best = Some b" "score < REJECT_THRESHOLD" "score \<ge> MERGE_THRESHOLD"
    | (new) "best = None \<or> score < MERGE_THRESHOLD"
    by (cases best) fastforce+
  then show ?thesis
  proof cases
    case exists
    with reply s1 show ?thesis by simp
  next
    case (merge b)
    then have "merge_into E clk b content (split_tags tags) s1 = (reply, t)" using reply by simp
    from merge_reply [OF this] merge s1 ev show ?thesis by (cases reply) simp_all
  next
    case new
    then have "?new = (reply, t)" using reply by (cases best) (auto simp: MERGE_THRESHOLD_def REJECT_THRESHOLD_def)
    from save_new_reply [OF this] new s1 ev show ?thesis by (cases reply) (auto simp: saved_reply_def)
  qed
qed

section \<open>What an import does\<close>

definition saves_only :: "store \<Rightarrow> store \<Rightarrow> nat \<Rightarrow> bool" where
  "saves_only s t n \<longleftrightarrow> (\<exists>es. events t = events s @ es \<and> length es = n \<and> (\<forall>e \<in> set es. ev_op e = ''save''))"

lemma saves_only_refl: "others t = others s \<Longrightarrow> saves_only s t 0"
  by (simp add: saves_only_def others_def)

lemma saves_only_trans: "saves_only s t m \<Longrightarrow> saves_only t u n \<Longrightarrow> saves_only s u (m + n)"
  unfolding saves_only_def by (metis (no_types, lifting) Un_iff append.assoc length_append set_append)

lemma saved_one: "save_memory X fm clk m s = (Inr m', t) \<Longrightarrow> saves_only s t 1"
  using save_publishes_memory [of X fm clk m s m' t] by (simp add: saves_only_def)

text \<open>What is left of a run that started with the count \<open>n\<close>.\<close>

definition tallies :: "store \<Rightarrow> nat \<Rightarrow> (store_error + nat) \<times> store \<Rightarrow> bool" where
  "tallies s n rt \<longleftrightarrow>
     (case rt of (Inr k, t) \<Rightarrow> n \<le> k \<and> saves_only s t (k - n) | (Inl _, t) \<Rightarrow> \<exists>k. saves_only s t k)"

lemma tallies_refl: "others t = others s \<Longrightarrow> tallies s n (Inr n, t)" "others t = others s \<Longrightarrow> tallies s n (Inl e, t)"
  using saves_only_refl by (auto simp: tallies_def)

lemma tallies_trans:
  assumes "saves_only s u (k - n)" "n \<le> k" "tallies u k rt"
  shows "tallies s n rt"
proof -
  obtain r t where rt: "rt = (r, t)" by (cases rt)
  show ?thesis
  proof (cases r)
    case (Inl e)
    with assms rt saves_only_trans [OF assms(1)] show ?thesis by (auto simp: tallies_def)
  next
    case (Inr j)
    with assms(2,3) rt saves_only_trans [OF assms(1), of t "j - k"] show ?thesis by (simp add: tallies_def)
  qed
qed

lemma import_items_tallies: "tallies s n (import_items E clk fresh scope its n s)"
proof (induction its arbitrary: n s)
  case Nil
  then show ?case by (simp add: tallies_refl)
next
  case (Cons it its)
  obtain ttl body where it: "it = (ttl, body)" by (cases it)
  obtain dup s1 where d: "duplicate_in_vault E clk (take 2000 body) scope s = (dup, s1)" by fastforce
  have o1: "others s1 = others s" using others_duplicate [of E clk "take 2000 body" scope s] by (simp add: d)
  note s1 = saves_only_refl [OF o1]
  let ?made = "make_memory scan_memory_content (fresh n) (c_iso clk) (take 2000 body) ttl [''imported'']
    (normalize_scope_id (x_aliases (o_ext E)) scope) ''import'' [] 3 None []"
  show ?case
  proof (cases dup)
    case True
    then show ?thesis using tallies_trans [of s s1 n n] s1 Cons.IH by (simp add: it d)
  next
    case False
    show ?thesis
    proof (cases ?made)
      case (Inl e)
      with d False o1 show ?thesis by (simp add: it tallies_refl)
    next
      case (Inr m)
      obtain x u where u: "save_memory (o_ext E) (o_fts E) clk m s1 = (x, u)" by fastforce
      show ?thesis
      proof (cases x)
        case (Inl e)
        with u save_fails have "u = s1" by blast
        with d False Inr u Inl o1 show ?thesis by (simp add: it tallies_refl)
      next
        case (Inr m')
        have "saves_only s u (Suc n - n)" using saves_only_trans [OF s1 saved_one [OF u [unfolded Inr]]] by simp
        from tallies_trans [OF this _ Cons.IH] d False \<open>?made = Inr m\<close> u Inr show ?thesis by (simp add: it)
      qed
    qed
  qed
qed

lemma import_file_tallies: "tallies s n (import_file E clk fresh scope f n s)"
proof (cases f)
  case (Pair name bytes)
  then show ?thesis by (cases bytes) (simp_all add: import_file_def Let_def tallies_refl import_items_tallies)
qed

lemma import_files_tallies: "tallies s n (import_files E clk fresh scope fs n s)"
proof (induction fs arbitrary: n s)
  case Nil
  then show ?case by (simp add: tallies_refl)
next
  case (Cons f fs)
  obtain x u where u: "import_file E clk fresh scope f n s = (x, u)" by fastforce
  have f: "tallies s n (x, u)" using import_file_tallies [of s n E clk fresh scope f] by (simp add: u)
  show ?case
  proof (cases x)
    case (Inl e)
    with u f show ?thesis by simp
  next
    case (Inr k)
    with f have "saves_only s u (k - n)" "n \<le> k" by (simp_all add: tallies_def)
    from tallies_trans [OF this Cons.IH] u Inr show ?thesis by simp
  qed
qed

text \<open>An import counts what it saves: the number in its answer is the number of memories it added, and it
  does nothing else to the store. An import that ends with an error has kept what it saved before.\<close>

theorem import_counts_saved:
  assumes "memory_import E clk fresh path src scope s = (r, t)"
  shows "\<exists>es. events t = events s @ es \<and> list_all (\<lambda>e. ev_op e = ''save'') es \<and>
     (case r of
        Inr answer \<Rightarrow> es = [] \<or> answer = ''Imported '' @ str_of_nat (length es) @ '' memories from '' @ path
      | Inl _ \<Rightarrow> True)"
proof -
  have stay: ?thesis if "t = s" using that by (intro exI [of _ "[]"]) (simp split: sum.split)
  have counted: ?thesis if "imported_text path q = (r, t)" "tallies s 0 q" for q
    using that by (cases q; cases "fst q") (auto simp: imported_text_def tallies_def saves_only_def list_all_iff)
  show ?thesis
  proof (cases src)
    case (FileAt name bytes)
    show ?thesis
    proof (cases "\<exists>bs. bytes = Some bs \<and> \<not> is_chat_export name (read_text bs)")
      case True
      with FileAt assms show ?thesis by (auto simp: memory_import_def intro: counted import_file_tallies)
    next
      case False
      with FileAt assms show ?thesis by (intro stay) (auto simp: memory_import_def split: option.splits)
    qed
  next
    case (FolderAt d)
    with assms show ?thesis by (auto simp: memory_import_def intro: counted import_files_tallies)
  qed (use assms in \<open>auto simp: memory_import_def intro!: stay\<close>)
qed

section \<open>Examples\<close>

definition sample_ops :: op_env where
  "sample_ops = \<lparr>o_ext = sample_ext, o_fts = (\<lambda>q r. r), o_best = (\<lambda>c d. None), o_merge = (\<lambda>_. SpawnError []), o_vault = ''/v'',
     o_floats = (\<lambda>_. []), o_text = (\<lambda>_. [])\<rparr>"

lemma empty_vault:
  "\<exists>u. best_in_vault sample_ops sample_clock content scope empty_store = ((None, 0), u)"
proof -
  have none: "find_best_match (o_best sample_ops) ms c = (None, 0)" for ms c
    by (simp add: find_best_match_def sample_ops_def)
  show ?thesis by (simp add: best_in_vault_def Let_def split_beta none)
qed

theorem save_reply_is_true_witness:
  "\<exists>reply t. memory_save sample_ops sample_clock ''u1'' ''too short'' [] ''default'' [] None [] empty_store = (reply, t) \<and>
     reply = MemoryRejected ''Content too short (9 chars): rejected as junk'' \<and> events t = []"
proof -
  obtain s1 where b: "best_in_vault sample_ops sample_clock ''too short'' ''default'' empty_store = ((None, 0), s1)"
    using empty_vault by blast
  have m: "make_memory scan_memory_content ''u1'' now ''too short'' ttl tags p src sess 3 None [] =
      Inl (ValueError ''Content too short (9 chars): rejected as junk'')" for now ttl tags p src sess
  proof -
    have "length (strip_of ''.'' (strip ''too short'')) = 9" "str_of_nat 9 = ''9''" by code_simp+
    then show ?thesis by (simp add: make_memory_def)
  qed
  obtain reply t where r: "memory_save sample_ops sample_clock ''u1'' ''too short'' [] ''default'' [] None [] empty_store = (reply, t)"
    by fastforce
  then have "reply = MemoryRejected ''Content too short (9 chars): rejected as junk''"
    by (simp add: memory_save_def save_new_def b m refused_def)
  with save_reply_is_true [OF r b] r show ?thesis by (auto simp: others_def empty_store_def)
qed

theorem import_counts_saved_witness:
  "\<exists>t. memory_import sample_ops sample_clock (\<lambda>_. ''u1'') ''x.md'' (FileAt ''x.md'' (Some ''short'')) ''default'' empty_store
     = (Inr ''Imported 0 memories from x.md'', t) \<and> list_all (\<lambda>e. ev_op e = ''save'') (events t)"
proof -
  have "\<not> is_chat_export ''x.md'' (read_text ''short'')" "length (strip (read_text ''short'')) < 20" "str_of_nat 0 = ''0''" by code_simp+
  then have r: "memory_import sample_ops sample_clock (\<lambda>_. ''u1'') ''x.md'' (FileAt ''x.md'' (Some ''short'')) ''default'' empty_store
     = (Inr ''Imported 0 memories from x.md'', empty_store)"
    by (simp add: memory_import_def import_file_def imported_text_def del: str_of_nat.simps)
  from import_counts_saved [OF r] r show ?thesis by (auto simp: empty_store_def)
qed

text \<open>A section of dots is refused as junk, and the refusal ends the whole import instead of skipping it.\<close>

lemma junk_section_ends_import:
  "\<exists>why u. import_items sample_ops sample_clock fresh ''default'' ((ttl, replicate 21 (CHR ''.'')) # its) n empty_store = (Inl (ValueError why), u)"
proof -
  let ?dots = "replicate 21 (CHR ''.'')"
  have t: "take 2000 ?dots = ?dots" by simp
  obtain u where b: "best_in_vault sample_ops sample_clock ?dots ''default'' empty_store = ((None, 0), u)" using empty_vault by blast
  then have "duplicate_in_vault sample_ops sample_clock ?dots ''default'' empty_store = (False, u) \<or>
      duplicate_in_vault sample_ops sample_clock ?dots ''default'' empty_store = (False, empty_store)"
    by (simp add: duplicate_in_vault_def)
  moreover have "length (strip_of ''.'' (strip ?dots)) < 10" by code_simp
  ultimately show ?thesis by (auto simp: make_memory_def Let_def t simp del: replicate.simps take_replicate)
qed

end
