(* ===== verification/MigrateLayers.thy ===== *)
theory MigrateLayers
  imports Reconcile RecallLog
begin

text \<open>
  \<^verbatim>\<open>memem/migrate_layers.py\<close>: the one-time move of facts from memories of the legacy layers 0 and 1
  into profiles. A dry run asks the language model about every candidate and writes a report and a
  file of proposals; an apply run takes the proposals, from the file if it is fresh, and appends
  the facts. The printed progress is left out.
\<close>

definition BATCH_SIZE :: nat where "BATCH_SIZE = 20"
definition PROPOSALS_MAX_AGE_DAYS :: real where "PROPOSALS_MAX_AGE_DAYS = 7"

section \<open>Candidates\<close>

definition collect_candidates :: "string list \<Rightarrow> memory list \<Rightarrow> memory list" where
  "collect_candidates exclude ms =
     filter (\<lambda>m. layer m \<in> {Some 0, Some 1} \<and> id8 (mem_id m) \<notin> set exclude) ms"

section \<open>Proposals\<close>

text \<open>A proposal is a dictionary, with the fields that are written to the file.\<close>

definition proposal :: "memory \<Rightarrow> string \<Rightarrow> json \<Rightarrow> json \<Rightarrow> json \<Rightarrow> json \<Rightarrow> turn" where
  "proposal m action profile sec line why =
     [(''id'', JStr (mem_id m)), (''title'', JStr (title m)), (''project'', JStr (or_else (project m) ''general'')),
      (''action'', JStr action), (''profile'', profile), (''section'', sec), (''line'', line), (''note'', why)]"

definition keep :: "string \<Rightarrow> memory \<Rightarrow> turn" where
  "keep why m = proposal m ''KEEP'' JNull JNull JNull (JStr why)"

record migrate_env =
  g_env :: env
  g_haiku :: "string \<Rightarrow> proc"
  g_repr :: "json \<Rightarrow> string"   \<comment> \<open>\<^verbatim>\<open>repr\<close>\<close>

definition batch_prompt :: "memory list \<Rightarrow> string" where
  "batch_prompt batch =
     join [NL] (map (\<lambda>m. id8 (mem_id m) @ ''|'' @ or_else (title m) ''Untitled'' @ ''|'' @ take 300 (essence m)) batch)"

text \<open>The answers by id, the last one for an id counts; \<open>None\<close>: an id that cannot be cut raises.\<close>

fun answers_by_id :: "json list \<Rightarrow> (string, turn) dict \<Rightarrow> (string, turn) dict option" where
  "answers_by_id [] d = Some d"
| "answers_by_id (v # vs) d =
     (case v of
        JObj item \<Rightarrow>
          (case jor (jget item ''id'') (JStr []) of
             JStr i \<Rightarrow> answers_by_id vs (if i = [] then d else AList.update (take 8 i) item d)
           | _ \<Rightarrow> None)
      | _ \<Rightarrow> answers_by_id vs d)"

definition canonical_section :: "string list \<Rightarrow> json \<Rightarrow> json" where
  "canonical_section secs v =
     (case v of
        JStr s \<Rightarrow>
          let n = replace_str '' and '' '' & '' (strip (lower s)) in
          (case find (\<lambda>c. lower c = n) secs of Some c \<Rightarrow> JStr c | None \<Rightarrow> v)
      | _ \<Rightarrow> v)"

text \<open>\<open>None\<close>: a section that cannot be looked up in a set raises.\<close>

definition proposal_from :: "migrate_env \<Rightarrow> memory \<Rightarrow> turn option \<Rightarrow> turn option" where
  "proposal_from G m answer =
     (case answer of
        None \<Rightarrow> Some (keep ''haiku-no-result'' m)
      | Some item \<Rightarrow>
          if jget_or item ''action'' (JStr ''KEEP'') \<noteq> JStr ''PROFILE''
          then Some (proposal m ''KEEP'' (jget item ''profile'') (jget item ''section'') (jget item ''line'') JNull)
          else
            let secs = sections_for (if jget item ''profile'' = JStr ''user'' then ''user'' else ''_project'');
                sec = canonical_section secs (jget item ''section'')
            in if \<not> hashable sec then None
               else if sec \<in> set (map JStr secs)
               then Some (proposal m ''PROFILE'' (jget item ''profile'') sec (jget item ''line'') JNull)
               else Some (keep (''unknown-section: '' @ g_repr G (jget item ''section'')) m))"

definition call_haiku_batch :: "migrate_env \<Rightarrow> memory list \<Rightarrow> turn list option" where
  "call_haiku_batch G batch =
     (let fail = (\<lambda>why. Some (map (keep (''haiku-failed: '' @ why)) batch)) in
      case g_haiku G (batch_prompt batch) of
        SpawnError e \<Rightarrow> fail e
      | Finished code out err \<Rightarrow>
          if code \<noteq> 0 then fail (or_else (strip err) (or_else (strip out) (''exit '' @ str_of_int code)))
          else if strip out = [] then fail ''empty output''
          else
            (case json_loads (case extract_json_string (strip out) of Some j \<Rightarrow> j | None \<Rightarrow> repair_json (strip out)) of
               None \<Rightarrow> fail ''json parse error''
             | Some (JArr vs) \<Rightarrow>
                 (case answers_by_id vs [] of
                    None \<Rightarrow> None
                  | Some d \<Rightarrow> all_some (map (\<lambda>m. proposal_from G m (map_of d (id8 (mem_id m)))) batch))
             | Some _ \<Rightarrow> fail ''expected JSON array''))"

function batches :: "nat \<Rightarrow> 'a list \<Rightarrow> 'a list list" where
  "batches n xs = (if xs = [] \<or> n = 0 then [] else take n xs # batches n (drop n xs))"
  by pat_completeness auto
termination
  by (relation "measure (\<lambda>(_, xs). length xs)") auto

declare batches.simps [simp del]

definition by_project :: "memory list \<Rightarrow> memory list list" where
  "by_project ms =
     (let proj = (\<lambda>m. or_else (project m) ''general'') in
      map (\<lambda>p. filter (\<lambda>m. proj m = p) ms) (uniq (map proj ms)))"

definition propose :: "migrate_env \<Rightarrow> memory list \<Rightarrow> nat \<Rightarrow> turn list option" where
  "propose G candidates batch_size =
     map_option concat (all_some (map (call_haiku_batch G) (concat (map (batches batch_size) (by_project candidates)))))"

section \<open>The report\<close>

definition text_or :: "migrate_env \<Rightarrow> turn \<Rightarrow> string \<Rightarrow> string \<Rightarrow> string" where  \<comment> \<open>\<^verbatim>\<open>p.get(k) or dflt\<close>, as it prints\<close>
  "text_or G p k dflt = (if json_truthy (jget p k) then py_text (e_text (g_env G)) (jget p k) else dflt)"

definition is_profile :: "turn \<Rightarrow> bool" where "is_profile p \<longleftrightarrow> jget p ''action'' = JStr ''PROFILE''"
definition is_keep :: "turn \<Rightarrow> bool" where "is_keep p \<longleftrightarrow> jget p ''action'' = JStr ''KEEP''"

definition sorted_counts :: "migrate_env \<Rightarrow> turn list \<Rightarrow> string list" where
  "sorted_counts G ps =
     (let pairs = map (\<lambda>p. (text_or G p ''profile'' ''?'', text_or G p ''section'' ''?'')) ps in
      concat (map (\<lambda>pname.
        map (\<lambda>(sec, n). ''  - profile_'' @ pname @ '' / '' @ sec @ '': '' @ str_of_nat n)
          (sort_key fst (counter (map snd (filter (\<lambda>x. fst x = pname) pairs)))))
        (sort (uniq (map fst pairs)))))"

definition proposal_line :: "migrate_env \<Rightarrow> turn \<Rightarrow> string" where
  "proposal_line G p =
     ''- ['' @ take 8 (text_or G p ''id'' []) @ ''] '' @ text_or G p ''title'' ''Untitled'' @ '' '' @ [CHR ''?''] @ '' profile_''
     @ text_or G p ''profile'' ''?'' @ '' / '' @ text_or G p ''section'' ''?'' @ '': '' @ [CHR 0x22] @ text_or G p ''line'' [] @ [CHR 0x22]"

definition keep_line :: "migrate_env \<Rightarrow> turn \<Rightarrow> string" where
  "keep_line G p =
     (let why = text_or G p ''note'' [] in
      ''- ['' @ take 8 (text_or G p ''id'' []) @ ''] '' @ text_or G p ''title'' ''Untitled'' @ (if why = [] then [] else '' ('' @ why @ '')''))"

text \<open>The arrow of a line is beyond Latin-1.\<close>

definition report_text :: "migrate_env \<Rightarrow> turn list \<Rightarrow> string" where
  "report_text G ps =
     (let profiles = filter is_profile ps; keeps = filter is_keep ps;
          failures = filter (\<lambda>p. contains (text_or G p ''note'' []) ''haiku-failed'') keeps;
          projects = sort (uniq (map (\<lambda>p. text_or G p ''project'' ''general'') profiles))
      in join [NL]
        ([''# Layer Migration Report'', [], ''## Summary'', [],
          ''- **Total candidates** (layer 0/1): '' @ str_of_nat (length ps),
          ''- **PROFILE proposals**: '' @ str_of_nat (length profiles)]
         @ sorted_counts G profiles
         @ [''- **KEEP** (stay as memories): '' @ str_of_nat (length keeps),
            ''- **Haiku failures** (all'' @ [CHR ''?''] @ ''KEEP): '' @ str_of_nat (length failures), []]
         @ (if projects = [] then []
            else [''## PROFILE Proposals'', []]
              @ concat (map (\<lambda>proj. [''### Project: '' @ proj, []]
                  @ map (proposal_line G) (filter (\<lambda>p. text_or G p ''project'' ''general'' = proj) profiles) @ [[]]) projects))
         @ (if keeps = [] then []
            else [''## KEEP (stay as memories)'', [], ''Total: '' @ str_of_nat (length keeps), []]
              @ map (keep_line G) (take 10 keeps)
              @ (if length keeps > 10 then [''- ... and '' @ str_of_nat (length keeps - 10) @ '' more''] else []) @ [[]])))"

section \<open>Applying\<close>

record summary =
  u_appended :: nat
  u_duplicate :: nat
  u_compacted :: nat
  u_rejected_full :: nat
  u_error :: nat
  u_kept :: nat

definition no_summary :: summary where
  "no_summary = \<lparr>u_appended = 0, u_duplicate = 0, u_compacted = 0, u_rejected_full = 0, u_error = 0, u_kept = 0\<rparr>"

fun count_status :: "append_status \<Rightarrow> summary \<Rightarrow> summary" where
  "count_status Appended u = u\<lparr>u_appended := u_appended u + 1\<rparr>"
| "count_status DuplicateFact u = u\<lparr>u_duplicate := u_duplicate u + 1\<rparr>"
| "count_status CompactedAppended u = u\<lparr>u_compacted := u_compacted u + 1\<rparr>"
| "count_status RejectedFull u = u\<lparr>u_rejected_full := u_rejected_full u + 1\<rparr>"
| "count_status _ u = u\<lparr>u_error := u_error u + 1\<rparr>"

text \<open>Which profile and section a proposal goes to: facts of the general project go to the user's.\<close>

definition profile_target :: "migrate_env \<Rightarrow> turn \<Rightarrow> string \<Rightarrow> string \<Rightarrow> string \<times> string" where
  "profile_target G p name sec =
     (if name \<noteq> ''project'' then (name, sec)
      else
        let proj = text_or G p ''project'' ''general'';
            n = or_else (normalize_scope_id (x_aliases (e_ext (g_env G))) proj) proj
        in if n = ''general'' then (''user'', ''Conventions'') else (n, sec))"

text \<open>One proposal; \<open>None\<close>: a profile, section or line that is no text raises.\<close>

definition apply_one ::
  "migrate_env \<Rightarrow> clock \<Rightarrow> turn \<Rightarrow> summary \<times> profile_files \<times> store \<Rightarrow> (summary \<times> profile_files \<times> store) option" where
  "apply_one G clk p a =
     (let (u, fs, s) = a in
      if jget p ''action'' \<noteq> JStr ''PROFILE'' then Some (u\<lparr>u_kept := u_kept u + 1\<rparr>, fs, s)
      else if \<not> json_truthy (jget p ''profile'') \<or> \<not> json_truthy (jget p ''section'') \<or> \<not> json_truthy (jget p ''line'')
      then Some (u\<lparr>u_error := u_error u + 1\<rparr>, fs, s)
      else (case (jget p ''profile'', jget p ''section'', jget p ''line'') of
              (JStr name, JStr sec, JStr line) \<Rightarrow>
                let (name, sec) = profile_target G p name sec;
                    (st, fs) = append_fact (e_ratio (g_env G)) (e_compact (g_env G)) (e_other (g_env G)) fs name sec line
                in Some (count_status st u, fs,
                     log_event clk ''migrate_profile'' (take 8 (text_or G p ''id'' []))
                       [(''profile'', name), (''section'', sec), (''status'', status_name st)] s)
            | _ \<Rightarrow> None))"

fun apply_proposals ::
  "migrate_env \<Rightarrow> clock \<Rightarrow> turn list \<Rightarrow> summary \<times> profile_files \<times> store \<Rightarrow> (summary \<times> profile_files \<times> store) option" where
  "apply_proposals G clk [] a = Some a"
| "apply_proposals G clk (p # ps) a =
     (case apply_one G clk p a of None \<Rightarrow> None | Some a \<Rightarrow> apply_proposals G clk ps a)"

section \<open>A run\<close>

text \<open>The file of proposals with its age in days, and the report.\<close>

record migration =
  j_file :: "(real \<times> json_file) option"
  j_report :: "string option"
  j_profiles :: profile_files
  j_store :: store

text \<open>The proposals of a file: \<open>None\<close> when it cannot be parsed. The program writes an array of objects.\<close>

definition load_proposals :: "json_file \<Rightarrow> json list option" where
  "load_proposals f = (case f of Doc (JArr vs) \<Rightarrow> Some vs | _ \<Rightarrow> None)"

definition is_fresh :: "(real \<times> json_file) option \<Rightarrow> memory list \<Rightarrow> bool" where
  "is_fresh f candidates \<longleftrightarrow>
     (case f of
        None \<Rightarrow> False
      | Some (age, doc) \<Rightarrow>
          age \<le> PROPOSALS_MAX_AGE_DAYS \<and>
          (case load_proposals doc of None \<Rightarrow> False | Some vs \<Rightarrow> length vs = length candidates))"

definition as_turns :: "json list \<Rightarrow> turn list option" where
  "as_turns vs = all_some (map (\<lambda>v. case v of JObj d \<Rightarrow> Some d | _ \<Rightarrow> None) vs)"

definition write_proposals :: "migrate_env \<Rightarrow> turn list \<Rightarrow> migration \<Rightarrow> migration" where
  "write_proposals G ps j = j\<lparr>j_file := Some (0, Doc (JArr (map JObj ps))), j_report := Some (report_text G ps)\<rparr>"

text \<open>\<open>None\<close>: an exception leaves the run.\<close>

definition run_migration ::
  "migrate_env \<Rightarrow> clock \<Rightarrow> bool \<Rightarrow> string list \<Rightarrow> migration \<Rightarrow> (summary option \<times> migration) option" where
  "run_migration G clk apply_mode exclude j =
     (let (ms, s) = obsidian_memories (e_ext (g_env G)) clk None False (j_store j);
          j = j\<lparr>j_store := s\<rparr>; cs = collect_candidates exclude ms in
      if apply_mode then
        (let loaded = (if is_fresh (j_file j) cs then load_proposals (snd (the (j_file j))) else None) in
         case (case loaded of
                 Some vs \<Rightarrow> map_option (\<lambda>ps. (ps, j)) (as_turns vs)
               | None \<Rightarrow> map_option (\<lambda>ps. (ps, write_proposals G ps j)) (propose G cs BATCH_SIZE)) of
           None \<Rightarrow> None
         | Some (ps, j) \<Rightarrow>
             (case apply_proposals G clk ps (no_summary, j_profiles j, j_store j) of
                None \<Rightarrow> None
              | Some (u, fs, s) \<Rightarrow> Some (Some u, j\<lparr>j_profiles := fs, j_store := s\<rparr>)))
      else if cs = [] then Some (None, j)
      else map_option (\<lambda>ps. (None, write_proposals G ps j)) (propose G cs BATCH_SIZE))"

section \<open>Every candidate gets one proposal\<close>

lemma concat_batches: "n > 0 \<Longrightarrow> concat (batches n xs) = xs"
  by (induction n xs rule: batches.induct) (subst batches.simps, simp)

lemma concat_chunks: "n > 0 \<Longrightarrow> concat (concat (map (batches n) xss)) = concat xss"
  by (induction xss) (simp_all add: concat_batches)

lemma groups_filter:
  "distinct ks \<Longrightarrow> (\<Sum>k \<leftarrow> ks. if x = k then {#y#} else {#}) = (if x \<in> set ks then {#y#} else {#})"
  by (induction ks) auto

lemma groups_mset:
  "distinct ks \<Longrightarrow> f ` set xs \<subseteq> set ks \<Longrightarrow> (\<Sum>k \<leftarrow> ks. mset (filter (\<lambda>x. f x = k) xs)) = mset xs"
proof (induction xs)
  case (Cons x xs)
  have "(\<Sum>k \<leftarrow> ks. mset (filter (\<lambda>y. f y = k) (x # xs)))
      = (\<Sum>k \<leftarrow> ks. (if f x = k then {#x#} else {#}) + mset (filter (\<lambda>y. f y = k) xs))"
    by (intro arg_cong [where f = sum_list] map_cong) auto
  also have "\<dots> = {#x#} + mset xs"
    using Cons groups_filter [of ks "f x" x] by (simp add: sum_list_addf)
  finally show ?case by simp
qed simp

lemma mset_concat_map: "mset (concat xss) = (\<Sum>xs \<leftarrow> xss. mset xs)"
  by (induction xss) auto

lemma by_project_mset: "mset (concat (by_project ms)) = mset ms"
  using groups_mset [of "uniq (map (\<lambda>m. or_else (project m) ''general'') ms)" "\<lambda>m. or_else (project m) ''general''" ms]
  by (simp add: by_project_def Let_def mset_concat_map comp_def)

lemma all_some_list: "all_some xs = Some ys \<longleftrightarrow> xs = map Some ys"
  by (induction xs arbitrary: ys) (auto split: option.splits)

lemma proposal_id [simp]: "jget (proposal m a p se l w) ''id'' = JStr (mem_id m)"
  by (simp add: proposal_def jget_def)

definition well_placed :: "turn \<Rightarrow> bool" where
  "well_placed p \<longleftrightarrow>
     jget p ''action'' = JStr ''KEEP''
     \<or> jget p ''action'' = JStr ''PROFILE''
       \<and> jget p ''section'' \<in> JStr ` set (sections_for (if jget p ''profile'' = JStr ''user'' then ''user'' else ''_project''))"

lemma keep_well_placed [simp]: "well_placed (keep w m)" "jget (keep w m) ''id'' = JStr (mem_id m)"
  by (simp_all add: well_placed_def keep_def proposal_def jget_def)

lemma keeps_well_placed [simp]: "list_all well_placed (map (keep w) ms)"
  by (induction ms) simp_all

lemma proposal_from_fits:
  "proposal_from G m a = Some p \<Longrightarrow> well_placed p \<and> jget p ''id'' = JStr (mem_id m)"
  by (auto simp: proposal_from_def Let_def split: option.splits if_splits)
    (auto simp: well_placed_def proposal_def jget_def)

lemma batch_fits:
  assumes "call_haiku_batch G batch = Some ps"
  shows "map (\<lambda>p. jget p ''id'') ps = map (\<lambda>m. JStr (mem_id m)) batch \<and> list_all well_placed ps"
proof -
  have answered: ?thesis if "map (\<lambda>m. proposal_from G m (a m)) batch = map Some ps" for a
    using that by (induction batch arbitrary: ps) (auto dest: proposal_from_fits)
  have kept: ?thesis if "ps = map (keep w) batch" for w
    using that by simp
  have "(\<exists>w. ps = map (keep w) batch) \<or> (\<exists>a. map (\<lambda>m. proposal_from G m (a m)) batch = map Some ps)"
    using assms unfolding call_haiku_batch_def Let_def all_some_list [symmetric]
    by (fastforce split: proc.splits if_splits option.splits json.splits)
  then show ?thesis using answered kept by blast
qed

lemma batches_fit:
  "map (call_haiku_batch G) bs = map Some pss \<Longrightarrow>
   map (\<lambda>p. jget p ''id'') (concat pss) = map (\<lambda>m. JStr (mem_id m)) (concat bs) \<and> list_all well_placed (concat pss)"
  by (induction bs arbitrary: pss) (auto dest!: batch_fits)

lemma propose_fits:
  assumes "propose G cs n = Some ps" "n > 0"
  shows "mset (map (\<lambda>p. jget p ''id'') ps) = mset (map (\<lambda>m. JStr (mem_id m)) cs) \<and> list_all well_placed ps"
proof -
  let ?bs = "concat (map (batches n) (by_project cs))"
  obtain pss where p: "map (call_haiku_batch G) ?bs = map Some pss" "ps = concat pss"
    using assms(1) by (auto simp: propose_def all_some_list)
  have "mset (concat ?bs) = mset cs" using assms(2) by (simp only: concat_chunks by_project_mset)
  with batches_fit [OF p(1)] p(2) show ?thesis by (metis mset_map)
qed

text \<open>
  Asking the language model about the candidates answers every candidate exactly once, whatever
  the model answers, whatever batches fail and in whatever order the projects come: the ids of the
  proposals are those of the candidates.
\<close>

theorem propose_covers_candidates:
  assumes "propose G cs n = Some ps" "n > 0"
  shows "mset (map (\<lambda>p. jget p ''id'') ps) = mset (map (\<lambda>m. JStr (mem_id m)) cs)"
  using propose_fits [OF assms] by blast

text \<open>
  Every proposal is either to keep the memory or to put a fact into a section that the schema of
  its profile has; no other action and no section the model invented gets through.
\<close>

theorem proposals_are_well_placed:
  assumes "propose G cs n = Some ps" "n > 0"
  shows "list_all well_placed ps"
  using propose_fits [OF assms] by blast

section \<open>Applying changes profiles only\<close>

definition counted :: "summary \<Rightarrow> nat" where
  "counted u = u_appended u + u_duplicate u + u_compacted u + u_rejected_full u + u_error u + u_kept u"

lemma counted_status [simp]: "counted (count_status st u) = counted u + 1"
  by (cases st) (simp_all add: counted_def)

lemma log_event_else: "\<exists>es. log_event clk op mid ds s = s\<lparr>events := es\<rparr>"
  by (auto simp: log_event_def)

lemma apply_one_effect:
  assumes "apply_one G clk p (u, fs, s) = Some (v, fs', t)"
  shows "counted v = counted u + 1 \<and> (\<exists>es. t = s\<lparr>events := es\<rparr>)"
proof -
  have same: "\<exists>es. s = s\<lparr>events := es\<rparr>" by (rule exI [of _ "events s"]) simp
  have out: "apply_one G clk p (u, fs, s) \<in>
      {None, Some (u\<lparr>u_kept := u_kept u + 1\<rparr>, fs, s), Some (u\<lparr>u_error := u_error u + 1\<rparr>, fs, s)} \<or>
      (\<exists>st gs x ds. apply_one G clk p (u, fs, s) = Some (count_status st u, gs, log_event clk ''migrate_profile'' x ds s))"
    unfolding apply_one_def Let_def split_beta prod.case by (simp split: json.split) blast
  have "counted (u\<lparr>u_kept := u_kept u + 1\<rparr>) = counted u + 1" "counted (u\<lparr>u_error := u_error u + 1\<rparr>) = counted u + 1"
    by (simp_all add: counted_def)
  with out assms same log_event_else [of clk "''migrate_profile''" _ _ s] show ?thesis by fastforce
qed

lemma apply_effect:
  "apply_proposals G clk ps (u, fs, s) = Some (v, fs', t) \<Longrightarrow>
   counted v = counted u + length ps \<and> (\<exists>es. t = s\<lparr>events := es\<rparr>)"
proof (induction ps arbitrary: u fs s)
  case Nil
  then show ?case by (auto intro: exI [of _ "events s"])
next
  case (Cons p ps)
  then obtain u1 fs1 s1 where a: "apply_one G clk p (u, fs, s) = Some (u1, fs1, s1)"
      "apply_proposals G clk ps (u1, fs1, s1) = Some (v, fs', t)"
    by (auto split: option.splits)
  with Cons.IH [OF a(2)] apply_one_effect [OF a(1)] show ?case by auto
qed

text \<open>
  The summary of an apply run accounts for every proposal: the counts of appended, duplicate,
  compacted, rejected, failed and kept proposals add up to their number.
\<close>

theorem apply_counts_every_proposal:
  assumes "apply_proposals G clk ps (no_summary, fs, s) = Some (u, fs', t)"
  shows "counted u = length ps"
  using apply_effect [OF assms] by (simp add: counted_def no_summary_def)

text \<open>
  C18: The migration never touches a memory: after a run, dry or applied, the notes differ from those
  before by at most what reading the vault does (quarantining a malformed note), the search table,
  the graph and the index are the same, and a dry run leaves the profiles and the event log too.
\<close>

theorem migration_spares_memories:
  assumes "run_migration G clk apply_mode exclude j = Some (r, k)"
  shows "note_files (j_store k) = note_files (snd (obsidian_memories (e_ext (g_env G)) clk None False (j_store j)))
    \<and> (fts_db (j_store k), edges (j_store k), index_text (j_store k)) = (fts_db (j_store j), edges (j_store j), index_text (j_store j))
    \<and> (apply_mode \<or> j_profiles k = j_profiles j \<and> events (j_store k) = events (j_store j))"
proof -
  obtain ms s where s: "obsidian_memories (e_ext (g_env G)) clk None False (j_store j) = (ms, s)" by fastforce
  have o: "others s = others (j_store j)"
    using others_memories [of "e_ext (g_env G)" clk None False "j_store j"] s by simp
  have "j_store k = s \<and> j_profiles k = j_profiles j \<or> apply_mode \<and> (\<exists>es. j_store k = s\<lparr>events := es\<rparr>)"
    using assms s
    by (auto simp: run_migration_def Let_def write_proposals_def split: if_splits option.splits dest!: apply_effect) blast+
  with s o show ?thesis by (auto simp: others_def)
qed

section \<open>Examples\<close>

definition sample_migrate :: "string \<Rightarrow> migrate_env" where
  "sample_migrate out = \<lparr>g_env = sample_env, g_haiku = (\<lambda>_. Finished 0 out []), g_repr = (\<lambda>_. [])\<rparr>"

definition sample_answer :: string where
  "sample_answer = ''[{'' @ [CHR 0x22] @ ''id'' @ [CHR 0x22, CHR '':'', CHR 0x22] @ ''aaaaaaaa'' @ [CHR 0x22, CHR '','', CHR 0x22] @ ''action''
     @ [CHR 0x22, CHR '':'', CHR 0x22] @ ''PROFILE'' @ [CHR 0x22] @ '','' @ [CHR 0x22] @ ''section'' @ [CHR 0x22, CHR '':'', CHR 0x22]
     @ ''stack and structure'' @ [CHR 0x22] @ ''}]''"

lemma sample_propose:
  "propose (sample_migrate sample_answer) [blank_memory ''aaaaaaaa-1'' ''T'' ''E'', blank_memory ''bbbbbbbb-1'' ''U'' ''F''] 20 =
     Some [proposal (blank_memory ''aaaaaaaa-1'' ''T'' ''E'') ''PROFILE'' JNull (JStr ''Stack & Structure'') JNull JNull,
       keep ''haiku-no-result'' (blank_memory ''bbbbbbbb-1'' ''U'' ''F'')]"
  by code_simp

theorem propose_covers_candidates_witness:
  "\<exists>ps. propose (sample_migrate sample_answer) [blank_memory ''aaaaaaaa-1'' ''T'' ''E'', blank_memory ''bbbbbbbb-1'' ''U'' ''F''] 20 = Some ps
     \<and> mset (map (\<lambda>p. jget p ''id'') ps) = {#JStr ''aaaaaaaa-1'', JStr ''bbbbbbbb-1''#}"
  using propose_covers_candidates [OF sample_propose] sample_propose by (simp add: blank_memory_def)

theorem proposals_are_well_placed_witness:
  "\<exists>ps. propose (sample_migrate sample_answer) [blank_memory ''aaaaaaaa-1'' ''T'' ''E'', blank_memory ''bbbbbbbb-1'' ''U'' ''F''] 20 = Some ps
     \<and> list_all well_placed ps"
  using proposals_are_well_placed [OF sample_propose] sample_propose by simp

lemma sample_apply:
  "\<exists>u fs t. apply_proposals (sample_migrate []) sample_clock
       [keep ''w'' (blank_memory ''a'' ''T'' ''E''), proposal (blank_memory ''b'' ''T'' ''E'') ''PROFILE'' JNull JNull JNull JNull]
       (no_summary, Map.empty, empty_store) = Some (u, fs, t)"
  by (simp add: apply_one_def keep_def proposal_def jget_def)

theorem apply_counts_every_proposal_witness:
  "\<exists>u fs t. apply_proposals (sample_migrate []) sample_clock
       [keep ''w'' (blank_memory ''a'' ''T'' ''E''), proposal (blank_memory ''b'' ''T'' ''E'') ''PROFILE'' JNull JNull JNull JNull]
       (no_summary, Map.empty, empty_store) = Some (u, fs, t) \<and> counted u = 2"
  using sample_apply apply_counts_every_proposal by fastforce

theorem migration_spares_memories_witness:
  "\<exists>k. run_migration (sample_migrate []) sample_clock True [] \<lparr>j_file = None, j_report = None, j_profiles = Map.empty,
       j_store = empty_store\<lparr>dir_ok := False\<rparr>\<rparr> = Some (Some no_summary, k) \<and> fts_db (j_store k) = fts_db empty_store"
proof -
  let ?j = "\<lparr>j_file = None, j_report = None, j_profiles = Map.empty, j_store = empty_store\<lparr>dir_ok := False\<rparr>\<rparr>"
  obtain k where r: "run_migration (sample_migrate []) sample_clock True [] ?j = Some (Some no_summary, k)"
    by (simp add: run_migration_def obsidian_memories_def collect_candidates_def is_fresh_def propose_def by_project_def uniq_def)
  from migration_spares_memories [OF r] r show ?thesis by simp
qed

end
