(* ===== verification/EvalReplay.thy ===== *)
theory EvalReplay
  imports SessionState Recall
begin

text \<open>
  \<^verbatim>\<open>memem/eval_replay.py\<close>: the captured recalls are run again against the present program and vault,
  and their answers compared with those captured. Every reading of the clock is the latency of the
  environment apart from the one before; a captured limit is not negative; the text of an exception is
  left out.
\<close>

section \<open>Running one captured query\<close>

definition REPLAY_KEY_LIMIT :: int where "REPLAY_KEY_LIMIT = 10"

definition row_text :: "recall_env \<Rightarrow> turn \<Rightarrow> string \<Rightarrow> string \<Rightarrow> string" where  \<comment> \<open>\<^verbatim>\<open>str(row.get(k, d) or d)\<close>\<close>
  "row_text M row k dflt = py_text (r_text (m_engine M)) (jor (jget row k) (JStr dflt))"

definition retrieved :: "recall_env \<Rightarrow> string \<Rightarrow> int \<Rightarrow> string \<Rightarrow> recall_state \<Rightarrow> string list option \<times> recall_state" where
  "retrieved M query limit scope v =
     (let R = (m_engine M)\<lparr>r_db := fts_db (v_store v)\<rparr>;
          (hits, q) = retrieve R (vault_files (v_store v)) query (nat limit) None scope False [] (v_ret v)
      in (map_option (\<lambda>hs. filter (\<lambda>i. i \<noteq> []) (map (\<lambda>h. en_id (h_mem h)) hs)) hits, v\<lparr>v_ret := q\<rparr>))"

text \<open>\<open>None\<close> raises.\<close>

definition re_run_query :: "recall_env \<Rightarrow> turn \<Rightarrow> recall_state \<Rightarrow> string list option \<times> recall_state" where
  "re_run_query M row v =
     (let query = row_text M row ''query'' []; scope = row_text M row ''scope_id'' ''default'' in
      case int_of_json (jor (jget row ''limit'') (JInt REPLAY_KEY_LIMIT)) of
        None \<Rightarrow> (None, v)
      | Some limit \<Rightarrow>
          if row_text M row ''mode'' ''search'' = ''tool_active_slice'' then retrieved M query limit (soft_scope scope) v
          else (case search_memories M query scope (nat limit) False False None v of
                  (ms, v) \<Rightarrow> (map_option (\<lambda>ms. filter (\<lambda>i. i \<noteq> []) (map mem_id ms)) ms, v)))"

section \<open>Comparing answers\<close>

definition top_k :: "nat option \<Rightarrow> 'a list \<Rightarrow> 'a list" where
  "top_k k xs = (case k of Some n \<Rightarrow> if n = 0 then xs else take n xs | None \<Rightarrow> xs)"

definition jaccard :: "string list \<Rightarrow> string list \<Rightarrow> nat option \<Rightarrow> real" where
  "jaccard a b k =
     (let A = set (top_k k a); B = set (top_k k b) in
      if A = {} \<and> B = {} then 1
      else if A \<union> B = {} then 1
      else real (card (A \<inter> B)) / real (card (A \<union> B)))"

definition top_1_stable :: "string list \<Rightarrow> string list \<Rightarrow> bool" where
  "top_1_stable a b \<longleftrightarrow> (if a = [] \<or> b = [] then False else hd a = hd b)"

definition mean :: "nat \<Rightarrow> real list \<Rightarrow> real option" where
  "mean n xs = (if xs = [] then None else Some (round_to n (sum_list xs / real (length xs))))"

text \<open>The captured ids; \<open>None\<close>: the field cannot be iterated, which raises.\<close>

definition baseline_ids :: "recall_env \<Rightarrow> turn \<Rightarrow> string list option" where
  "baseline_ids M row =
     map_option (\<lambda>xs. map (py_text (r_text (m_engine M))) (filter json_truthy xs))
       (iterate (jget_or row ''memory_ids'' (JArr [])))"

definition is_number :: "json \<Rightarrow> real option" where
  "is_number v =
     (case v of JInt i \<Rightarrow> Some (real_of_int i) | JReal r \<Rightarrow> Some r | JBool b \<Rightarrow> Some (of_bool b) | _ \<Rightarrow> None)"

section \<open>Replaying a baseline\<close>

record compared =
  o_query :: json
  o_failed :: bool
  o_jaccard :: real
  o_baseline :: "string list"
  o_current :: "string list"

record tally =
  y_jaccards :: "real list"
  y_top1 :: nat
  y_deltas :: "real list"
  y_queries :: "compared list"

record replay_result =
  z_n :: nat
  z_k :: nat
  z_jaccard :: "real option"
  z_top1 :: "real option"
  z_delta :: "real option"
  z_worst :: "compared list"

definition replay_row :: "recall_env \<Rightarrow> nat \<Rightarrow> turn \<Rightarrow> tally \<times> recall_state \<Rightarrow> (tally \<times> recall_state) option" where
  "replay_row M k row tv =
     (case (tv, baseline_ids M row) of
        (_, None) \<Rightarrow> None
      | ((t, v), Some base) \<Rightarrow>
          (case re_run_query M row v of
             (None, v) \<Rightarrow>
               Some (t\<lparr>y_queries := y_queries t @ [\<lparr>o_query = jget_or row ''query'' (JStr []), o_failed = True, o_jaccard = 0,
                          o_baseline = base, o_current = []\<rparr>],
                       y_jaccards := y_jaccards t @ [0]\<rparr>, v)
           | (Some cur, v) \<Rightarrow>
               let j = jaccard base cur (Some k) in
               Some (t\<lparr>y_jaccards := y_jaccards t @ [j],
                       y_top1 := y_top1 t + of_bool (top_1_stable base cur),
                       y_deltas := y_deltas t @ (case is_number (jget row ''latency_ms'') of None \<Rightarrow> [] | Some l \<Rightarrow> [m_latency M - l]),
                       y_queries := y_queries t @ [\<lparr>o_query = jget_or row ''query'' (JStr []), o_failed = False,
                          o_jaccard = round_to 3 j, o_baseline = take k base, o_current = take k cur\<rparr>]\<rparr>, v)))"

fun replay_rows :: "recall_env \<Rightarrow> nat \<Rightarrow> json list \<Rightarrow> tally \<times> recall_state \<Rightarrow> (tally \<times> recall_state) option" where
  "replay_rows M k [] tv = Some tv"
| "replay_rows M k (JObj row # rs) tv = Option.bind (replay_row M k row tv) (replay_rows M k rs)"
| "replay_rows M k (_ # rs) tv = None"

definition no_tally :: tally where
  "no_tally = \<lparr>y_jaccards = [], y_top1 = 0, y_deltas = [], y_queries = []\<rparr>"

definition replay ::
  "recall_env \<Rightarrow> (int \<Rightarrow> int) \<Rightarrow> nat \<Rightarrow> nat \<Rightarrow> string option \<Rightarrow> recall_state \<Rightarrow> (replay_result \<times> recall_state) option" where
  "replay M local k worst_n baseline v =
     (case load_captures local None baseline of
        None \<Rightarrow> None
      | Some [] \<Rightarrow> Some (\<lparr>z_n = 0, z_k = k, z_jaccard = None, z_top1 = None, z_delta = None, z_worst = []\<rparr>, v)
      | Some rs \<Rightarrow>
          map_option (\<lambda>(t, v).
            (\<lparr>z_n = length rs, z_k = k, z_jaccard = mean 3 (y_jaccards t),
              z_top1 = Some (round_to 3 (real (y_top1 t) / real (length rs))), z_delta = mean 2 (y_deltas t),
              z_worst = take worst_n (sort_key o_jaccard (y_queries t))\<rparr>, v))
          (replay_rows M k rs (no_tally, v)))"

section \<open>Replaying both paths\<close>

record path_stats =
  i_jaccards :: "real list"
  i_top1 :: nat
  i_latencies :: "real list"

datatype dual_entry =
    HookError string
  | ToolError string
  | Both string "string list" "string list" "string list" real real real real

record dual_state =
  k_hook :: path_stats
  k_tool :: path_stats
  k_entries :: "dual_entry list"

record path_result =
  l_jaccard :: "real option"
  l_top1 :: "real option"
  l_latency :: "real option"

record dual_result =
  d2_n :: nat
  d2_k :: nat
  d2_hook :: path_result
  d2_tool :: path_result
  d2_entries :: "dual_entry list"

text \<open>The ids a path found, its latency, and its statistics after the attempt.\<close>

definition attempt :: "recall_env \<Rightarrow> string list option \<Rightarrow> path_stats \<Rightarrow> string list \<times> real \<times> path_stats" where
  "attempt M r p =
     (case r of
        None \<Rightarrow> ([], 0, p\<lparr>i_jaccards := i_jaccards p @ [0]\<rparr>)
      | Some ids \<Rightarrow> (ids, m_latency M, p\<lparr>i_latencies := i_latencies p @ [m_latency M]\<rparr>))"

definition compare_path :: "nat \<Rightarrow> string list \<Rightarrow> string list \<Rightarrow> path_stats \<Rightarrow> path_stats" where
  "compare_path k base ids p =
     p\<lparr>i_jaccards := i_jaccards p @ [jaccard base ids (Some k)], i_top1 := i_top1 p + of_bool (top_1_stable base ids)\<rparr>"

definition dual_row :: "recall_env \<Rightarrow> nat \<Rightarrow> turn \<Rightarrow> dual_state \<times> recall_state \<Rightarrow> (dual_state \<times> recall_state) option" where
  "dual_row M k row dv =
     (let (d, v) = dv; query = row_text M row ''query'' []; scope = row_text M row ''scope_id'' [] in
      case (int_of_json (jor (jget row ''limit'') (JInt (int k))), baseline_ids M row) of
        (Some limit, Some base) \<Rightarrow>
          let (hook, v) = retrieved M query limit scope v;
              (hook_ids, hook_latency, hp) = attempt M hook (k_hook d);
              (tool, v) = retrieved M query limit scope v;
              (tool_ids, tool_latency, tp) = attempt M tool (k_tool d)
          in Some (d\<lparr>k_hook := compare_path k base hook_ids hp, k_tool := compare_path k base tool_ids tp,
                     k_entries := k_entries d
                       @ (if hook = None then [HookError query] else []) @ (if tool = None then [ToolError query] else [])
                       @ [Both query (take k base) (take k hook_ids) (take k tool_ids)
                            (round_to 3 (jaccard base hook_ids (Some k))) (round_to 3 (jaccard base tool_ids (Some k)))
                            (round_to 2 hook_latency) (round_to 2 tool_latency)]\<rparr>, v)
      | _ \<Rightarrow> None)"

fun dual_rows :: "recall_env \<Rightarrow> nat \<Rightarrow> json list \<Rightarrow> dual_state \<times> recall_state \<Rightarrow> (dual_state \<times> recall_state) option" where
  "dual_rows M k [] dv = Some dv"
| "dual_rows M k (JObj row # rs) dv = Option.bind (dual_row M k row dv) (dual_rows M k rs)"
| "dual_rows M k (_ # rs) dv = None"

definition path_summary :: "nat \<Rightarrow> path_stats \<Rightarrow> path_result" where
  "path_summary n p =
     \<lparr>l_jaccard = mean 3 (i_jaccards p), l_top1 = Some (round_to 3 (real (i_top1 p) / real n)), l_latency = mean 3 (i_latencies p)\<rparr>"

definition no_path :: path_stats where "no_path = \<lparr>i_jaccards = [], i_top1 = 0, i_latencies = []\<rparr>"
definition no_result :: path_result where "no_result = \<lparr>l_jaccard = None, l_top1 = None, l_latency = None\<rparr>"

definition run_dual_engine_replay ::
  "recall_env \<Rightarrow> (int \<Rightarrow> int) \<Rightarrow> nat \<Rightarrow> string option \<Rightarrow> recall_state \<Rightarrow> (dual_result \<times> recall_state) option" where
  "run_dual_engine_replay M local k baseline v =
     (case load_captures local None baseline of
        None \<Rightarrow> None
      | Some [] \<Rightarrow> Some (\<lparr>d2_n = 0, d2_k = k, d2_hook = no_result, d2_tool = no_result, d2_entries = []\<rparr>, v)
      | Some rs \<Rightarrow>
          map_option (\<lambda>(d, v).
            (\<lparr>d2_n = length rs, d2_k = k, d2_hook = path_summary (length rs) (k_hook d),
              d2_tool = path_summary (length rs) (k_tool d), d2_entries = k_entries d\<rparr>, v))
          (dual_rows M k rs (\<lparr>k_hook = no_path, k_tool = no_path, k_entries = []\<rparr>, v)))"

section \<open>The reports\<close>

definition ljust :: "nat \<Rightarrow> string \<Rightarrow> string" where "ljust n s = s @ replicate (n - length s) (CHR '' '')"
definition rjust :: "nat \<Rightarrow> string \<Rightarrow> string" where "rjust n s = replicate (n - length s) (CHR '' '') @ s"

definition or_na :: "recall_env \<Rightarrow> real option \<Rightarrow> string" where  \<comment> \<open>\<^verbatim>\<open>str(x or 'n/a')\<close>\<close>
  "or_na M x = (case x of None \<Rightarrow> ''n/a'' | Some r \<Rightarrow> if r = 0 then ''n/a'' else m_floats M r)"

definition path_line :: "recall_env \<Rightarrow> string \<Rightarrow> path_result \<Rightarrow> string" where
  "path_line M name p =
     ljust 22 name @ ''  '' @ rjust 10 (or_na M (l_jaccard p)) @ ''  '' @ rjust 7 (or_na M (l_top1 p)) @ ''  ''
     @ rjust 8 (or_na M (l_latency p)) @ ''ms''"

definition format_dual_engine_report :: "recall_env \<Rightarrow> dual_result \<Rightarrow> string" where
  "format_dual_engine_report M r =
     (if d2_n r = 0 then ''No baseline records to replay (dual-engine).''
      else join [NL]
        [''eval replay --dual-engine  ('' @ str_of_nat (d2_n r) @ '' queries, k='' @ str_of_nat (d2_k r) @ '')'',
         replicate 55 (CHR ''-''),
         ljust 22 ''Path'' @ ''  '' @ rjust 10 ''jaccard@k'' @ ''  '' @ rjust 7 ''top-1'' @ ''  '' @ rjust 10 ''latency'',
         path_line M ''hook_auto'' (d2_hook r), path_line M ''tool_memory_search'' (d2_tool r)])"

text \<open>\<open>repr\<close> quotes a query; the delta sign is beyond Latin-1. \<open>None\<close>: a query that is no text cannot be cut.\<close>

definition worst_line :: "(string \<Rightarrow> string) \<Rightarrow> compared \<Rightarrow> string option" where
  "worst_line repr c =
     (case jor (o_query c) (JStr []) of
        JStr q \<Rightarrow> Some (''    j='' @ fmt_fixed 2 (o_jaccard c) @ ''  '' @ repr (take 60 q))
      | _ \<Rightarrow> None)"

definition format_replay_report :: "(string \<Rightarrow> string) \<Rightarrow> (compared \<Rightarrow> string) \<Rightarrow> replay_result \<Rightarrow> string option" where
  "format_replay_report repr err r =
     (if z_n r = 0 then Some ''No baseline records to replay.''
      else map_option (\<lambda>worst. join [NL]
        ([''eval replay  ('' @ str_of_nat (z_n r) @ '' queries, k='' @ str_of_nat (z_k r) @ '')'', replicate 50 (CHR ''-''),
          (case z_jaccard r of
             Some j \<Rightarrow> ''  mean jaccard@'' @ str_of_nat (z_k r) @ '':    '' @ fmt_fixed 3 j
           | None \<Rightarrow> ''  mean jaccard@k:    n/a'')]
         @ (case z_top1 r of Some t \<Rightarrow> [''  top-1 stability:   '' @ fmt_fixed 1 (t * 100) @ ''%''] | None \<Rightarrow> [])
         @ (case z_delta r of
              Some d \<Rightarrow> [''  mean latency '' @ [CHR ''?''] @ '':    '' @ (if d \<ge> 0 then ''+'' else []) @ fmt_fixed 1 d @ ''ms'']
            | None \<Rightarrow> [])
         @ (if worst = [] then []
            else [[], ''  worst '' @ str_of_nat (length worst) @ '' regressions (lowest jaccard):'']
              @ concat (map (\<lambda>(c, l). l # (if o_failed c \<and> err c \<noteq> [] then [''           error: '' @ err c] else []))
                  (zip (z_worst r) worst)))))
        (all_some (map (worst_line repr) (z_worst r))))"

section \<open>The similarity\<close>

text \<open>
  The similarity of two answers is a number between 0 and 1, the same in both directions, and it is
  1 exactly when the first \<open>k\<close> of both are the same set of ids.
\<close>

theorem jaccard_compares_sets:
  "0 \<le> jaccard a b k \<and> jaccard a b k \<le> 1 \<and> jaccard a b k = jaccard b a k \<and>
   (jaccard a b k = 1 \<longleftrightarrow> set (top_k k a) = set (top_k k b))"
proof -
  let ?A = "set (top_k k a)" and ?B = "set (top_k k b)"
  have le: "card (?A \<inter> ?B) \<le> card (?A \<union> ?B)" by (rule card_mono) auto
  have same: "card (?A \<inter> ?B) = card (?A \<union> ?B) \<longleftrightarrow> ?A = ?B"
  proof
    assume "card (?A \<inter> ?B) = card (?A \<union> ?B)"
    then have "?A \<inter> ?B = ?A \<union> ?B" by (intro card_subset_eq) auto
    then show "?A = ?B" by blast
  qed simp
  show ?thesis
  proof (cases "?A \<union> ?B = {}")
    case False
    then have "card (?A \<union> ?B) > 0" by (subst card_gt_0_iff) auto
    moreover have "?A \<inter> ?B = ?B \<inter> ?A" "?A \<union> ?B = ?B \<union> ?A" by blast+
    ultimately show ?thesis
      using le same False by (auto simp: jaccard_def Let_def divide_le_eq_1 divide_eq_1_iff)
  qed (auto simp: jaccard_def)
qed

section \<open>Replaying changes nothing\<close>

lemma kept_retrieved: "kept (snd (retrieved M query limit scope v)) = kept v"
proof -
  obtain hits st' where r: "retrieve ((m_engine M)\<lparr>r_db := fts_db (v_store v)\<rparr>) (vault_files (v_store v)) query (nat limit) None
      scope False [] (v_ret v) = (hits, st')" by fastforce
  from retrieve_reads [OF r] show ?thesis by (simp add: retrieved_def r kept_def)
qed

lemma kept_re_run: "kept (snd (re_run_query M row v)) = kept v"
  using kept_search [of M _ _ _ False None v]
  by (auto simp: re_run_query_def Let_def kept_retrieved split_beta split: option.split)

lemma kept_replay_row: "replay_row M k row (t, v) = Some (t', v') \<Longrightarrow> kept v' = kept v"
  using kept_re_run [of M row v]
  by (auto simp: replay_row_def Let_def split: option.splits prod.splits)

lemma kept_replay_rows: "replay_rows M k rs (t, v) = Some (t', v') \<Longrightarrow> kept v' = kept v"
proof (induction M k rs "(t, v)" arbitrary: t v rule: replay_rows.induct)
  case (2 M k row rs)
  then obtain t1 v1 where "replay_row M k row (t, v) = Some (t1, v1)" "replay_rows M k rs (t1, v1) = Some (t', v')"
    by (auto simp: bind_eq_Some_conv)
  with 2(1) kept_replay_row show ?case by metis
qed auto

text \<open>
  Replaying a baseline leaves the program's data alone: the search table, the graph, the event log,
  the index file, the access counts, the recall log and the recalls of the session stay as they were,
  whatever the captured rows ask for.
\<close>

theorem replay_records_nothing:
  assumes "replay M local k worst_n baseline v = Some (r, v')"
  shows "kept v' = kept v"
  using assms by (auto simp: replay_def split: option.splits list.splits dest: kept_replay_rows)

section \<open>A baseline that still holds\<close>

text \<open>Every query of the baseline still has the answer captured for it.\<close>

fun still_holds :: "recall_env \<Rightarrow> json list \<Rightarrow> recall_state \<Rightarrow> bool" where
  "still_holds M [] v \<longleftrightarrow> True"
| "still_holds M (JObj row # rs) v \<longleftrightarrow>
     (case re_run_query M row v of
        (Some ids, v') \<Rightarrow> ids \<noteq> [] \<and> baseline_ids M row = Some ids \<and> still_holds M rs v'
      | (None, _) \<Rightarrow> False)"
| "still_holds M (_ # rs) v \<longleftrightarrow> False"

lemma jaccard_same [simp]: "jaccard a a k = 1"
  by (simp add: jaccard_def Let_def)

lemma still_holds_rows:
  "still_holds M rs v \<Longrightarrow> list_all (\<lambda>x. x = 1) (y_jaccards t) \<Longrightarrow>
   \<exists>t' v'. replay_rows M k rs (t, v) = Some (t', v') \<and> list_all (\<lambda>x. x = 1) (y_jaccards t')
     \<and> length (y_jaccards t') = length (y_jaccards t) + length rs \<and> y_top1 t' = y_top1 t + length rs"
proof (induction M rs v arbitrary: t rule: still_holds.induct)
  case (2 M row rs v)
  then obtain ids v1 where r: "re_run_query M row v = (Some ids, v1)" "ids \<noteq> []" "baseline_ids M row = Some ids" "still_holds M rs v1"
    by (auto split: prod.splits option.splits)
  obtain t1 where t1: "replay_row M k row (t, v) = Some (t1, v1)" "y_jaccards t1 = y_jaccards t @ [1]" "y_top1 t1 = y_top1 t + 1"
    using r by (auto simp: replay_row_def top_1_stable_def Let_def)
  with 2(1) [of "Some ids" v1 ids t1] r 2(3) show ?case by auto
qed auto

lemma sum_ones: "list_all (\<lambda>x. x = 1) xs \<Longrightarrow> sum_list xs = real (length xs)"
  by (induction xs) auto

lemma round_to_one [simp]: "round_to n 1 = 1"
proof -
  have "\<lfloor>(10 :: real) ^ n\<rfloor> = 10 ^ n" using floor_of_int [of "10 ^ n"] by simp
  then have "round_half_even (1 * 10 ^ n) = 10 ^ n" by (simp add: round_half_even_def Let_def)
  then show ?thesis unfolding round_to_def by simp
qed

text \<open>
  A baseline whose queries all still have the answers captured for them replays without a
  difference: the mean similarity and the share of unchanged first answers are both 1.
\<close>

theorem unchanged_baseline_scores_one:
  assumes "load_captures local None baseline = Some rs" "rs \<noteq> []" "still_holds M rs v"
  shows "\<exists>r v'. replay M local k worst_n baseline v = Some (r, v') \<and> z_n r = length rs \<and> z_jaccard r = Some 1 \<and> z_top1 r = Some 1"
proof -
  obtain t v' where t: "replay_rows M k rs (no_tally, v) = Some (t, v')" "list_all (\<lambda>x. x = 1) (y_jaccards t)"
      "length (y_jaccards t) = length rs" "y_top1 t = length rs"
    using still_holds_rows [OF assms(3), of no_tally k] by (auto simp: no_tally_def)
  moreover have "y_jaccards t \<noteq> []" using t(3) assms(2) by auto
  ultimately show ?thesis
    using assms(1,2) sum_ones [OF t(2)]
    by (cases rs) (simp_all add: replay_def mean_def del: replay_rows.simps)
qed

section \<open>A failing query counts twice\<close>

text \<open>
  In the comparison of both paths a query that raises is entered as 0 and then compared as well, so
  two numbers enter the mean for one query. Of two queries with a captured answer, one failing and
  one unchanged, the mean similarity is a third, where the replay of one path gives a half. If nothing had
  been captured, the second number is 1, and a failure is averaged with a perfect score.
\<close>

lemma dual_failure_counts_twice:
  assumes "baseline_ids M row = Some base"
    "int_of_json (jor (jget row ''limit'') (JInt (int k))) = Some limit"
    "\<And>w. fst (retrieved M (row_text M row ''query'' []) limit (row_text M row ''scope_id'' []) w) = None"
  shows "\<exists>d' v'. dual_row M k row (d, v) = Some (d', v')
    \<and> i_jaccards (k_hook d') = i_jaccards (k_hook d) @ [0, jaccard base [] (Some k)]
    \<and> i_jaccards (k_tool d') = i_jaccards (k_tool d) @ [0, jaccard base [] (Some k)]"
proof -
  let ?run = "retrieved M (row_text M row ''query'' []) limit (row_text M row ''scope_id'' [])"
  obtain v1 where v1: "?run v = (None, v1)" using assms(3) by (metis prod.collapse)
  obtain v2 where v2: "?run v1 = (None, v2)" using assms(3) by (metis prod.collapse)
  from v1 v2 show ?thesis by (simp add: dual_row_def Let_def assms(1,2) attempt_def compare_path_def)
qed

section \<open>Examples\<close>

definition sample_row :: turn where
  "sample_row = [(''query'', JStr ''v1.2''), (''mode'', JStr ''tool_active_slice''), (''limit'', JInt 3), (''memory_ids'', JArr [JStr ''a0''])]"

definition sample_baseline :: string where
  "sample_baseline = json_dumps (\<lambda>_. []) (JObj sample_row) @ [NL]"

lemma sample_captures: "load_captures id None (Some sample_baseline) = Some [JObj sample_row]"
  by code_simp

lemma sample_still_holds: "\<exists>v'. re_run_query Recall.sample_env sample_row sample_state = (Some [''a0''], v')"
proof -
  have files: "vault_files sample_store = Some sample_vault"
    by (simp add: vault_files_def sample_store_def empty_store_def sample_vault_def)
  obtain st' where run: "retrieve sample_engine (Some sample_vault) ''v1.2'' 3 None [] False [] (v_ret sample_state)
      = (Some [literal_hit (sample_entry ''a0'' ''v1.2 notes'')], st')"
    by (simp add: retrieve_def load_vault_index_def no_index_def sample_index sample_found Let_def sample_state_def)
  have engine: "sample_engine\<lparr>r_db := fts_db sample_store\<rparr> = sample_engine"
    by (simp add: sample_engine_def sample_store_def empty_store_def)
  have ids: "en_id (h_mem (literal_hit (sample_entry ''a0'' t))) = ''a0''" for t
    by (simp add: literal_hit_def sample_entry_def)
  have env: "m_engine Recall.sample_env = sample_engine" by (simp add: Recall.sample_env_def)
  have st: "v_store sample_state = sample_store" by (simp add: sample_state_def)
  have texts: "row_text Recall.sample_env sample_row ''query'' [] = ''v1.2''" "row_text Recall.sample_env sample_row ''scope_id'' ''default'' = ''default''"
      "row_text Recall.sample_env sample_row ''mode'' ''search'' = ''tool_active_slice''" "jget sample_row ''limit'' = JInt 3"
    by (simp_all add: row_text_def sample_row_def jget_def jor_def py_text_def)
  then show ?thesis
    by (simp add: re_run_query_def texts jor_def soft_scope_def retrieved_def Let_def env st engine files run ids)
qed

theorem unchanged_baseline_scores_one_witness:
  "\<exists>r v'. replay Recall.sample_env id 5 5 (Some sample_baseline) sample_state = Some (r, v')
     \<and> z_n r = 1 \<and> z_jaccard r = Some 1 \<and> z_top1 r = Some 1"
proof -
  have "baseline_ids Recall.sample_env sample_row = Some [''a0'']"
    by (simp add: baseline_ids_def sample_row_def jget_or_def iterate_def py_text_def)
  with sample_still_holds have "still_holds Recall.sample_env [JObj sample_row] sample_state" by (auto split: prod.split)
  from unchanged_baseline_scores_one [OF sample_captures _ this] show ?thesis by simp
qed

theorem replay_records_nothing_witness:
  "\<exists>r v'. replay Recall.sample_env id 5 5 None sample_state = Some (r, v') \<and> kept v' = kept sample_state"
proof -
  have "load_captures id None None = Some []" by code_simp
  then obtain r where r: "replay Recall.sample_env id 5 5 None sample_state = Some (r, sample_state)"
    by (simp add: replay_def)
  from replay_records_nothing [OF r] r show ?thesis by simp
qed

text \<open>A path that never gives the captured first answer has the score 0, which prints as no score at all.\<close>

lemma zero_score_prints_na: "or_na M (Some 0) = or_na M None"
  by (simp add: or_na_def)

end
