(* ===== verification/Embeddings.thy ===== *)
theory Embeddings
  imports VaultCache Dreamer
begin

text \<open>
  \<^verbatim>\<open>memem/embedding_index.py\<close>: the matrix of embeddings with the file of its ids, rebuilt from the
  vault or extended by one row, and the cache of a process that reads them. The encoder, the sorting of
  numpy and whether they are installed are parameters; numbers are real; a vector has more than one
  component. Logging is left out.
\<close>

section \<open>State and outside\<close>

type_synonym vec = "real list"

text \<open>
  \<open>b_encode\<close> is the model, \<open>None\<close> when it cannot be loaded; encoding gives \<open>None\<close> when it raises.
  \<open>b_writes\<close> is how many of the two files are written before an exception: 2 when both are.
\<close>

record embed_env =
  b_installed :: bool
  b_encode :: "(string list \<Rightarrow> vec list option) option"
  b_argsort :: "real list \<Rightarrow> nat list"
  b_writes :: nat
  b_mtime :: real
  b_now :: string

text \<open>
  The matrix file with its modification time, \<open>None\<close> inside when numpy cannot load it; the file of
  ids; and the variables of the process.
\<close>

record embed_state =
  b_npy :: "(real \<times> vec list option) option"
  b_ids :: json_file
  b_matrix :: "vec list option"
  b_index_ids :: "json list"
  b_load_mtime :: real

definition is_available :: "embed_env \<Rightarrow> bool" where "is_available E = b_installed E"

definition get_model :: "embed_env \<Rightarrow> (string list \<Rightarrow> vec list option) option" where
  "get_model E = (if \<not> b_installed E then None else b_encode E)"

section \<open>Loading\<close>

definition meta_ids :: "json_file \<Rightarrow> json list option" where
  "meta_ids f =
     (case f of
        Doc (JObj d) \<Rightarrow> (case jget_or d ''ids'' (JArr []) of JArr ids \<Rightarrow> Some ids | _ \<Rightarrow> None)
      | _ \<Rightarrow> None)"

definition load_index :: "embed_env \<Rightarrow> embed_state \<Rightarrow> bool \<times> embed_state" where
  "load_index E s =
     (case b_npy s of
        None \<Rightarrow> (False, s)
      | Some (disk_mtime, content) \<Rightarrow>
          if b_ids s = Missing \<or> \<not> b_installed E then (False, s)
          else if b_matrix s \<noteq> None \<and> b_load_mtime s \<ge> disk_mtime then (True, s)
          else (case (content, meta_ids (b_ids s)) of
                  (Some rws, Some ids) \<Rightarrow>
                    if length ids \<noteq> length rws then (False, s)
                    else (True, s\<lparr>b_matrix := Some rws, b_index_ids := ids, b_load_mtime := disk_mtime\<rparr>)
                | _ \<Rightarrow> (False, s)))"

section \<open>Writing\<close>

definition MODEL_NAME :: string where "MODEL_NAME = ''sentence-transformers/all-MiniLM-L6-v2''"

definition ids_doc :: "embed_env \<Rightarrow> json list \<Rightarrow> json_file" where
  "ids_doc E ids = Doc (JObj [(''ids'', JArr ids), (''model'', JStr MODEL_NAME), (''built_at'', JStr (b_now E))])"

text \<open>The ids first, then the matrix; the answer says whether both were written.\<close>

definition write_pair :: "embed_env \<Rightarrow> json list \<Rightarrow> vec list \<Rightarrow> embed_state \<Rightarrow> bool \<times> embed_state" where
  "write_pair E ids rws s =
     (if b_writes E = 0 then (False, s)
      else let s = s\<lparr>b_ids := ids_doc E ids\<rparr> in
           if b_writes E = 1 then (False, s) else (True, s\<lparr>b_npy := Some (b_mtime E, Some rws)\<rparr>))"

definition persist :: "embed_env \<Rightarrow> embed_state \<Rightarrow> embed_state" where
  "persist E s =
     (if \<not> b_installed E then s
      else case b_matrix s of None \<Rightarrow> s | Some rws \<Rightarrow> snd (write_pair E (b_index_ids s) rws s))"

definition rebuild_embedding_index ::
  "embed_env \<Rightarrow> ext \<Rightarrow> clock \<Rightarrow> embed_state \<times> store \<Rightarrow> nat \<times> embed_state \<times> store" where
  "rebuild_embedding_index E X clk sv =
     (let (s, v) = sv in
      case get_model E of
        None \<Rightarrow> (0, s, v)
      | Some encode \<Rightarrow>
          let (ms, v) = obsidian_memories X clk None False v in
          if ms = [] then (0, persist E (s\<lparr>b_matrix := Some [], b_index_ids := []\<rparr>), v)
          else
            (case encode (map embed_text ms) of
               None \<Rightarrow> (0, s, v)
             | Some vectors \<Rightarrow>
                 let s = persist E (s\<lparr>b_matrix := Some vectors, b_index_ids := map (\<lambda>m. JStr (mem_id m)) ms\<rparr>);
                     s = (case b_npy s of None \<Rightarrow> s | Some (mtime, _) \<Rightarrow> s\<lparr>b_load_mtime := mtime\<rparr>)
                 in (length ms, s, v)))"

text \<open>The index an upsert starts from: a bare list of ids counts too, anything inconsistent is dropped.\<close>

definition current_pair :: "embed_state \<Rightarrow> json list \<times> vec list" where
  "current_pair s =
     (case (b_npy s, b_ids s) of
        (Some (_, Some rws), Doc doc) \<Rightarrow>
          (case (case doc of JObj d \<Rightarrow> jget_or d ''ids'' (JArr []) | v \<Rightarrow> v) of
             JArr ids \<Rightarrow> if length ids \<noteq> length rws then ([], []) else (ids, rws)
           | _ \<Rightarrow> ([], []))
      | _ \<Rightarrow> ([], []))"

definition position :: "json \<Rightarrow> json list \<Rightarrow> nat" where  \<comment> \<open>\<^verbatim>\<open>ids.index(v)\<close>\<close>
  "position v ids = length (takeWhile (\<lambda>w. w \<noteq> v) ids)"

text \<open>\<open>None\<close>: rows of different lengths do not fit together, which raises.\<close>

definition with_row :: "string \<Rightarrow> vec \<Rightarrow> json list \<times> vec list \<Rightarrow> (json list \<times> vec list) option" where
  "with_row mid row ir =
     (let (ids, rws) = ir in
      if JStr mid \<in> set ids
      then (let i = position (JStr mid) ids in
            if length (rws ! i) \<noteq> length row then None else Some (ids, rws[i := row]))
      else if rws \<noteq> [] \<and> length (hd rws) \<noteq> length row then None
      else Some (ids @ [JStr mid], rws @ [row]))"

definition upsert_embedding :: "embed_env \<Rightarrow> string \<Rightarrow> string \<Rightarrow> embed_state \<Rightarrow> bool option \<times> embed_state" where
  "upsert_embedding E mid text s =
     (if mid = [] \<or> text = [] then (Some False, s)
      else case get_model E of
        None \<Rightarrow> (Some False, s)
      | Some encode \<Rightarrow>
          (case encode [text] of
             Some (row # _) \<Rightarrow>
               (case with_row mid row (current_pair s) of
                  None \<Rightarrow> (None, s)
                | Some (ids, rws) \<Rightarrow>
                    (case write_pair E ids rws s of
                       (False, s) \<Rightarrow> (Some False, s)
                     | (True, s) \<Rightarrow> (Some True, s\<lparr>b_matrix := None, b_index_ids := [], b_load_mtime := 0\<rparr>)))
           | _ \<Rightarrow> (Some False, s)))"

section \<open>Searching\<close>

definition dot :: "vec \<Rightarrow> vec \<Rightarrow> real" where
  "dot u v = (\<Sum>(x, y) \<leftarrow> zip u v. x * y)"

definition search_embedding_with_scores ::
  "embed_env \<Rightarrow> string \<Rightarrow> nat \<Rightarrow> embed_state \<Rightarrow> (json \<times> real) list \<times> embed_state" where
  "search_embedding_with_scores E query limit s =
     (if query = [] then ([], s)
      else case get_model E of
        None \<Rightarrow> ([], s)
      | Some encode \<Rightarrow>
          let (ok, s) = load_index E s in
          if \<not> ok then ([], s)
          else (case b_matrix s of
                  None \<Rightarrow> ([], s)
                | Some rws \<Rightarrow>
                    if rws = [] then ([], s)
                    else (case encode [query] of
                            Some [q] \<Rightarrow>
                              if \<exists>r \<in> set rws. length r \<noteq> length q then ([], s)
                              else
                                let sims = map (\<lambda>r. dot r q) rws in
                                (List.map_filter
                                   (\<lambda>i. if i < length (b_index_ids s) then Some (b_index_ids s ! i, sims ! i) else None)
                                   (take limit (b_argsort E (map uminus sims))), s)
                          | _ \<Rightarrow> ([], s))))"

definition search_embedding :: "embed_env \<Rightarrow> string \<Rightarrow> nat \<Rightarrow> embed_state \<Rightarrow> json list \<times> embed_state" where
  "search_embedding E query limit s =
     (let (hits, s) = search_embedding_with_scores E query limit s in (map fst hits, s))"

definition embed_one :: "embed_env \<Rightarrow> string \<Rightarrow> vec option" where
  "embed_one E text =
     (if text = [] then None
      else case get_model E of
        None \<Rightarrow> None
      | Some encode \<Rightarrow> (case encode [text] of Some (v # _) \<Rightarrow> Some v | _ \<Rightarrow> None))"

definition reset_index_cache :: "embed_state \<Rightarrow> embed_state" where
  "reset_index_cache s = s\<lparr>b_matrix := None, b_index_ids := [], b_load_mtime := 0, b_npy := None, b_ids := Missing\<rparr>"

section \<open>The index as a map\<close>

text \<open>What a process that has not read the files yet finds in them: the vector of each id.\<close>

definition stored_index :: "embed_state \<Rightarrow> (json \<times> vec) list option" where
  "stored_index s =
     (case (b_npy s, meta_ids (b_ids s)) of
        (Some (_, Some rws), Some ids) \<Rightarrow> if length ids = length rws then Some (zip ids rws) else None
      | _ \<Rightarrow> None)"

lemma stored_current: "stored_index s = Some ix \<Longrightarrow> current_pair s = (map fst ix, map snd ix)"
  by (auto simp: stored_index_def current_pair_def meta_ids_def
      split: option.splits prod.splits json_file.splits json.splits if_splits)

lemma meta_written [simp]: "meta_ids (ids_doc E ids) = Some ids"
  by (simp add: meta_ids_def ids_doc_def jget_or_def)

lemma write_pair_stored:
  assumes "stored_index s = Some ix" "write_pair E ids rws s = (ok, s')" "length ids = length rws"
  shows "stored_index s' =
    (if ok then Some (zip ids rws) else if b_writes E = 0 then Some ix
     else if length ids = length ix then Some (zip ids (map snd ix)) else None)"
proof -
  obtain t rs js where s: "b_npy s = Some (t, Some rs)" "meta_ids (b_ids s) = Some js" "length js = length rs" "ix = zip js rs"
    using assms(1) by (auto simp: stored_index_def split: option.splits prod.splits if_splits)
  from assms(2) consider "b_writes E = 0" "ok = False" "s' = s" | "b_writes E = 1" "ok = False" "s' = s\<lparr>b_ids := ids_doc E ids\<rparr>"
    | "ok" "s' = s\<lparr>b_ids := ids_doc E ids, b_npy := Some (b_mtime E, Some rws)\<rparr>"
    by (auto simp: write_pair_def Let_def split: if_splits)
  then show ?thesis using s assms(1,3) by cases (auto simp: stored_index_def)
qed

lemma with_row_map:
  assumes "with_row mid row (ids, rws) = Some (ids', rws')" "length ids = length rws"
  shows "length ids' = length rws' \<and> map_of (zip ids' rws') = (map_of (zip ids rws))(JStr mid \<mapsto> row)
    \<and> (length ids' = length ids \<longrightarrow> ids' = ids)"
proof (cases "JStr mid \<in> set ids")
  case True
  have "map_of (zip ids (rws[position v ids := row])) = (map_of (zip ids rws))(v \<mapsto> row)" if "v \<in> set ids" for v
    using assms(2) that by (induction ids rws rule: list_induct2) (auto simp: position_def)
  with True assms show ?thesis by (auto simp: with_row_def Let_def split: if_splits)
next
  case False
  moreover have "map_of (zip (ids @ [v]) (rws @ [row])) = (map_of (zip ids rws))(v \<mapsto> row)" if "v \<notin> set ids" for v
    using assms(2) that by (induction ids rws rule: list_induct2) auto
  ultimately show ?thesis using assms by (auto simp: with_row_def split: if_splits)
qed

lemma upsert_cases:
  assumes "upsert_embedding E mid text s = (r, s')" "stored_index s = Some ix"
  obtains (same) "stored_index s' = Some ix" "r \<noteq> Some True"
  | (row) encode row rest ids rws ok u where "get_model E = Some encode" "encode [text] = Some (row # rest)"
      "with_row mid row (map fst ix, map snd ix) = Some (ids, rws)" "write_pair E ids rws s = (ok, u)"
      "r = Some ok" "stored_index s' = stored_index u" "text \<noteq> []"
proof -
  have cache: "stored_index (u\<lparr>b_matrix := a, b_index_ids := b, b_load_mtime := c\<rparr>) = stored_index u" for u a b c
    by (simp add: stored_index_def)
  show thesis
    using assms same row stored_current [OF assms(2)] cache
    by (fastforce simp: upsert_embedding_def split: if_splits option.splits list.splits prod.splits bool.splits)
qed

lemma upsert_outcome:
  assumes "upsert_embedding E mid text s = (r, s')" "stored_index s = Some ix"
  shows "if r = Some True
    then \<exists>ix' row. stored_index s' = Some ix' \<and> embed_one E text = Some row \<and> map_of ix' = (map_of ix)(JStr mid \<mapsto> row)
    else stored_index s' \<in> {None, Some ix}"
  using assms
proof (cases rule: upsert_cases)
  case (row encode new rest ids rws ok u)
  from row have one: "embed_one E text = Some new" by (simp add: embed_one_def)
  have m: "length ids = length rws" "map_of (zip ids rws) = (map_of ix)(JStr mid \<mapsto> new)" "length ids = length ix \<longrightarrow> ids = map fst ix"
    using with_row_map [OF row(3)] by (simp_all add: zip_map_fst_snd)
  note w = write_pair_stored [OF assms(2) row(4) m(1)]
  show ?thesis
  proof (cases ok)
    case True
    with row w one m(2) show ?thesis by auto
  next
    case False
    with row w m(3) show ?thesis by (auto simp: zip_map_fst_snd)
  qed
qed simp

text \<open>
  C19: A successful upsert is an update of a map: whatever is in the files, afterwards a fresh process
  finds the new vector for the memory and the old vector for every other one.
\<close>

theorem upsert_refines_map:
  assumes "upsert_embedding E mid text s = (Some True, s')" "stored_index s = Some ix"
  shows "\<exists>ix' row. stored_index s' = Some ix' \<and> embed_one E text = Some row \<and> map_of ix' = (map_of ix)(JStr mid \<mapsto> row)"
  using upsert_outcome [OF assms] by simp


section \<open>Rebuilding and searching\<close>

text \<open>
  A rebuild makes the files the index of the vault: one vector per active memory, in the order of
  the listing, and its answer is their number.
\<close>

theorem rebuild_indexes_vault:
  assumes "rebuild_embedding_index E X clk (s, v) = (n, s', v')" "get_model E = Some encode" "b_writes E \<ge> 2"
    and "fst (obsidian_memories X clk None False v) = ms" "ms \<noteq> []" "encode (map embed_text ms) = Some vectors"
    and "length vectors = length ms"
  shows "n = length ms \<and> stored_index s' = Some (zip (map (\<lambda>m. JStr (mem_id m)) ms) vectors)"
proof -
  have "b_installed E" using assms(2) by (auto simp: get_model_def split: if_splits)
  with assms show ?thesis
    by (auto simp: rebuild_embedding_index_def persist_def write_pair_def stored_index_def split_beta)
qed

lemma map_filter_bounded:
  "length (List.map_filter f xs) \<le> length xs"
  by (induction xs) (auto simp: List.map_filter_simps split: option.split)

lemma map_filter_sorted:
  fixes g :: "nat \<Rightarrow> real"
  assumes "sorted (map (\<lambda>i. - g i) is)"
  shows "sorted_wrt (\<ge>) (map snd (List.map_filter (\<lambda>i. if P i then Some (h i, g i) else None) is))"
  using assms
proof (induction "is")
  case (Cons i js)
  then have "\<forall>j \<in> set js. g j \<le> g i" by auto
  with Cons show ?case by (auto simp: List.map_filter_def)
qed (simp add: List.map_filter_def)

text \<open>
  A search gives at most as many hits as asked for, each an id of the index, the most similar
  first, provided the sorting gives the positions of its argument in rising order.
\<close>

theorem search_ranks_by_similarity:
  assumes "\<And>xs. set (b_argsort E xs) = {..<length xs} \<and> sorted (map (nth xs) (b_argsort E xs))"
    and "search_embedding_with_scores E query limit s = (hits, s')"
  shows "length hits \<le> limit \<and> sorted_wrt (\<ge>) (map snd hits) \<and> set (map fst hits) \<subseteq> set (b_index_ids s')"
proof (cases "hits = []")
  case False
  let ?f = "\<lambda>sims i. if i < length (b_index_ids s') then Some (b_index_ids s' ! i, sims ! i) else None"
  from False assms(2) obtain sims where h: "hits = List.map_filter (?f sims) (take limit (b_argsort E (map uminus sims)))"
    by (auto simp: search_embedding_with_scores_def Let_def simp del: map_map list.map_comp split: if_splits option.splits prod.splits list.splits)
  let ?p = "take limit (b_argsort E (map uminus sims))"
  have "set ?p \<subseteq> {..<length sims}" using assms(1) [of "map uminus sims"] by (auto dest: in_set_takeD)
  then have eq: "map (nth (map uminus sims)) ?p = map (\<lambda>i. - (sims ! i)) ?p" by auto
  have "sorted (map (nth (map uminus sims)) ?p)"
    using assms(1) [of "map uminus sims"] by (simp add: take_map [symmetric] sorted_wrt_take)
  then have "sorted (map (\<lambda>i. - (sims ! i)) ?p)" unfolding eq .
  then have "sorted_wrt (\<ge>) (map snd hits)"
    unfolding h using map_filter_sorted [of "nth sims" ?p "\<lambda>i. i < length (b_index_ids s')" "nth (b_index_ids s')"] by simp
  moreover have "length hits \<le> limit" unfolding h using map_filter_bounded [of "?f sims" ?p] by simp
  moreover have "set (map fst hits) \<subseteq> set (b_index_ids s')"
    unfolding h by (auto simp: List.map_filter_def split: if_splits)
  ultimately show ?thesis by blast
qed simp

section \<open>Where the pair of files can be wrong\<close>

text \<open>
  A rebuild that stops between the two files, or a reader that comes between them, finds the new ids
  with the old vectors whenever the number of memories has not changed: only the lengths are compared.
\<close>

lemma interrupted_rebuild_mislabels:
  assumes "stored_index s = Some ix" "get_model E = Some encode" "b_writes E = 1"
    and "obsidian_memories X clk None False v = (ms, v')" "ms \<noteq> []" "encode (map embed_text ms) = Some vectors"
    and "length ms = length ix" "rebuild_embedding_index E X clk (s, v) = (n, s', w)"
  shows "stored_index s' = Some (zip (map (\<lambda>m. JStr (mem_id m)) ms) (map snd ix))"
proof -
  have "b_installed E" using assms(2) by (auto simp: get_model_def split: if_splits)
  with assms show ?thesis
    by (auto simp: rebuild_embedding_index_def persist_def write_pair_def stored_index_def
        split: option.splits prod.splits if_splits)
qed

text \<open>After a change of the model to one with longer vectors, an upsert raises, where it is promised never to.\<close>

lemma new_dimension_raises:
  assumes "stored_index s = Some ((i, u) # ix)" "get_model E = Some encode" "encode [text] = Some [row]"
    and "JStr mid \<notin> set (map fst ((i, u) # ix))" "length u \<noteq> length row" "mid \<noteq> []" "text \<noteq> []"
  shows "upsert_embedding E mid text s = (None, s)"
  using assms stored_current [OF assms(1)] by (auto simp: upsert_embedding_def with_row_def)

section \<open>Examples\<close>

definition sample_embed :: embed_env where
  "sample_embed =
     \<lparr>b_installed = True, b_encode = Some (\<lambda>ts. Some (map (\<lambda>t. [real (length t), 1]) ts)),
      b_argsort = (\<lambda>xs. sort_key (nth xs) [0..<length xs]), b_writes = 2, b_mtime = 1, b_now = []\<rparr>"

definition sample_files :: embed_state where
  "sample_files = \<lparr>b_npy = Some (0, Some [[2, 1]]), b_ids = ids_doc sample_embed [JStr ''a''], b_matrix = None, b_index_ids = [], b_load_mtime = 0\<rparr>"

lemma sample_stored: "stored_index sample_files = Some [(JStr ''a'', [2, 1])]"
  by (simp add: stored_index_def sample_files_def)

lemma sample_upsert: "\<exists>s'. upsert_embedding sample_embed ''b'' ''xyz'' sample_files = (Some True, s')"
  using stored_current [OF sample_stored]
  by (simp add: upsert_embedding_def get_model_def sample_embed_def with_row_def write_pair_def)

theorem upsert_refines_map_witness:
  "\<exists>s' ix'. upsert_embedding sample_embed ''b'' ''xyz'' sample_files = (Some True, s') \<and> stored_index s' = Some ix'
     \<and> map_of ix' (JStr ''a'') = Some [2, 1] \<and> map_of ix' (JStr ''b'') = Some [3, 1]"
proof -
  obtain s' where s: "upsert_embedding sample_embed ''b'' ''xyz'' sample_files = (Some True, s')" using sample_upsert by blast
  have "embed_one sample_embed ''xyz'' = Some [3, 1]" by (simp add: embed_one_def get_model_def sample_embed_def)
  with upsert_refines_map [OF s sample_stored] s show ?thesis by auto
qed


lemma listed_vault:
  "obsidian_memories X sample_clock None False (empty_store\<lparr>cache := [(''a'', m)], cache_files := [(''f'', 5, ''a'')], last_sweep := 90\<rparr>)
     = (memories_of (x_aliases X) None False [(''a'', m)],
        empty_store\<lparr>cache := [(''a'', m)], cache_files := [(''f'', 5, ''a'')], last_sweep := 90\<rparr>)"
  by (simp add: obsidian_memories_def ensure_cache_warm_def sample_clock_def SWEEP_INTERVAL_def empty_store_def)

theorem rebuild_indexes_vault_witness:
  "\<exists>s' v'. rebuild_embedding_index sample_embed sample_ext sample_clock
     (sample_files, empty_store\<lparr>cache := [(''a'', blank_memory ''a'' ''T'' ''E'')], cache_files := [(''f'', 5, ''a'')], last_sweep := 90\<rparr>)
     = (1, s', v') \<and> stored_index s' = Some [(JStr ''a'', [5, 1])]"
proof -
  let ?m = "blank_memory ''a'' ''T'' ''E''"
  let ?v = "empty_store\<lparr>cache := [(''a'', ?m)], cache_files := [(''f'', 5, ''a'')], last_sweep := 90\<rparr>"
  obtain n s' v' where r: "rebuild_embedding_index sample_embed sample_ext sample_clock (sample_files, ?v) = (n, s', v')"
    by (metis prod_cases3)
  have one: "memories_of (x_aliases sample_ext) None False [(''a'', ?m)] = [?m]" by code_simp
  have len: "length (embed_text ?m) = 5" by code_simp
  have "n = length [?m] \<and> stored_index s' = Some (zip (map (\<lambda>m. JStr (mem_id m)) [?m]) [[5, 1]])"
    by (rule rebuild_indexes_vault [OF r, where encode = "\<lambda>ts. Some (map (\<lambda>t. [real (length t), 1]) ts)"])
      (simp_all add: get_model_def sample_embed_def listed_vault one len)
  with r show ?thesis by (simp add: blank_memory_def)
qed

theorem search_ranks_by_similarity_witness:
  "\<exists>hits s'. search_embedding_with_scores sample_embed ''q'' 3 sample_files = (hits, s') \<and> length hits \<le> 3 \<and> sorted_wrt (\<ge>) (map snd hits)"
proof -
  have "set (b_argsort sample_embed xs) = {..<length xs} \<and> sorted (map (nth xs) (b_argsort sample_embed xs))" for xs
    by (auto simp: sample_embed_def)
  moreover obtain hits s' where "search_embedding_with_scores sample_embed ''q'' 3 sample_files = (hits, s')" by fastforce
  ultimately show ?thesis using search_ranks_by_similarity [of sample_embed "''q''" 3 sample_files hits s'] by blast
qed

end
