(* ===== verification/Assembly.thy ===== *)
theory Assembly
  imports Recall
begin

text \<open>
  \<^verbatim>\<open>memem/assembly.py\<close>: a briefing composed of one or two searches, and \<^verbatim>\<open>memem/render.py\<close>: the text
  of an active slice. The slice ids (MD5) and the fields of a composite slice that its rendering does
  not read are left out.
\<close>

section \<open>Composing slices\<close>

definition SPARSE_THRESHOLD :: nat where "SPARSE_THRESHOLD = 5"

text \<open>\<^verbatim>\<open>_merge_slices\<close>: the state is the ids seen and the items merged so far.\<close>

definition merge_item :: "item_view \<Rightarrow> string list \<times> item_view list \<Rightarrow> string list \<times> item_view list" where
  "merge_item x sm =
     (let (seen, merged) = sm in
      if it_id x \<noteq> [] \<and> it_id x \<in> set seen then (seen, merged)
      else (if it_id x \<noteq> [] then it_id x # seen else seen, merged @ [x]))"

definition merge_slices :: "item_view list list \<Rightarrow> item_view list" where
  "merge_slices subs = snd (fold (\<lambda>sub. fold merge_item sub) subs ([], []))"

text \<open>\<open>None\<close> raises; the empty text stands for nothing found.\<close>

definition context_assemble :: "recall_env \<Rightarrow> string \<Rightarrow> string \<Rightarrow> recall_state \<Rightarrow> string option \<times> recall_state" where
  "context_assemble M query proj v =
     (let scope = normalize_scope_id (x_aliases (m_ext M)) proj in
      case search_memories M query scope 10 False False None v of
        (None, v) \<Rightarrow> (None, v)
      | (Some ms, v) \<Rightarrow>
          let primary = map memory_to_item ms;
              finish = (\<lambda>subs v.
                let merged = merge_slices subs in
                (Some (if merged = [] then [] else render_recall_markdown (SearchSlice False scope query merged [])), v))
          in if length primary < SPARSE_THRESHOLD \<and> scope \<noteq> ''general''
             then (case search_memories M query ''general'' 10 False False None v of
                     (None, v) \<Rightarrow> (None, v)
                   | (Some gs, v) \<Rightarrow> finish (if gs = [] then [primary] else [primary, map memory_to_item gs]) v)
             else finish [primary] v)"

section \<open>The active slice\<close>

text \<open>The line of a hit: number, day, project, the channel when it is full-text search, title and start of the body.\<close>

definition hit_lines :: "nat \<Rightarrow> hit \<Rightarrow> string list" where
  "hit_lines i h =
     (let e = h_mem h;
          body = take 160 (replace_char NL '' '' (en_body e))
      in (str_of_nat i @ ''. ['' @ or_else (take 10 (en_created e)) ''----'' @ ''] ['' @ take 20 (or_else (en_project e) ''?'') @ '']''
            @ (if h_cosine h then [] else '' [fts]'') @ '' **'' @ take 80 (or_else (en_title e) ''(untitled)'') @ ''**'')
         # (if body = [] then [] else [''   '' @ body]))"

definition render_slice :: "string \<Rightarrow> hit list \<Rightarrow> string list \<Rightarrow> string \<Rightarrow> string" where
  "render_slice query hs recent_actions task_mode =
     (let actions = take 3 recent_actions in
      join [NL]
        ([''# Active Memory Slice'', ''- query: '' @ query, []]
         @ (if actions \<noteq> [] \<or> task_mode \<noteq> []
            then [''## Working'', ''- query: '' @ query] @ (if task_mode = [] then [] else [''- task_mode: '' @ task_mode])
                   @ map (\<lambda>a. ''- action: '' @ take 120 a) actions @ [[]]
            else [])
         @ [''## Relevant ('' @ str_of_nat (length hs) @ '' hits)'']
         @ (if hs = [] then [''(no matches)''] else [])
         @ concat (map (\<lambda>(i, h). hit_lines i h) (enumerate 1 hs))))"

section \<open>Every memory once\<close>

lemma merge_item_step:
  assumes "merge_item x (seen, acc) = (seen', acc')" "set seen = it_id ` set acc - {[]}" "distinct (filter (\<lambda>i. i \<noteq> []) (map it_id acc))"
  shows "set seen' = it_id ` set acc' - {[]}" "distinct (filter (\<lambda>i. i \<noteq> []) (map it_id acc'))"
    "\<exists>r. acc' = acc @ r" "it_id ` set acc' = insert (it_id x) (it_id ` set acc)"
  using assms by (auto simp: merge_item_def split: if_splits)

lemma merge_fold:
  assumes "fold merge_item xs (seen, acc) = (seen', acc')" "set seen = it_id ` set acc - {[]}"
    "distinct (filter (\<lambda>i. i \<noteq> []) (map it_id acc))"
  shows "distinct (filter (\<lambda>i. i \<noteq> []) (map it_id acc')) \<and> set seen' = it_id ` set acc' - {[]} \<and>
    (\<exists>r. acc' = acc @ r) \<and> it_id ` set acc' = it_id ` set acc \<union> it_id ` set xs"
  using assms
proof (induction xs arbitrary: seen acc)
  case (Cons x xs)
  obtain s m where step: "merge_item x (seen, acc) = (s, m)" by fastforce
  with Cons.prems(1) have rec: "fold merge_item xs (s, m) = (seen', acc')" by simp
  note i = merge_item_step [OF step Cons.prems(2,3)]
  obtain r where r: "m = acc @ r" using i(3) by blast
  note ih = Cons.IH [OF rec i(1,2)]
  then obtain q where q: "acc' = m @ q" by blast
  have "it_id ` set acc' = it_id ` set acc \<union> it_id ` set (x # xs)" using ih i(4) by simp
  moreover have "\<exists>r. acc' = acc @ r" using r q by simp
  ultimately show ?case using ih by blast
qed auto

lemma fold_concat: "fold (\<lambda>xs. fold f xs) xss s = fold f (concat xss) s"
  by (induction xss arbitrary: s) simp_all

lemma merge_slices_concat: "merge_slices subs = snd (fold merge_item (concat subs) ([], []))"
  by (simp add: merge_slices_def fold_concat)

text \<open>
  A composed briefing has every memory once: however the partial answers overlap, no id stands
  twice, none of the ids found is lost, and the answer of the project itself stands in front.
\<close>

theorem merged_slices_once_each:
  shows "distinct (filter (\<lambda>i. i \<noteq> []) (map it_id (merge_slices (p # subs))))
    \<and> it_id ` set (merge_slices (p # subs)) = it_id ` set (concat (p # subs))
    \<and> (\<exists>rest. merge_slices (p # subs) = merge_slices [p] @ rest)"
proof -
  obtain s m where p: "fold merge_item p ([], []) = (s, m)" by fastforce
  obtain s' m' where r: "fold merge_item (concat subs) (s, m) = (s', m')" by fastforce
  have i: "set s = it_id ` set m - {[]}" "distinct (filter (\<lambda>i. i \<noteq> []) (map it_id m))" "it_id ` set m = it_id ` set p"
    using merge_fold [OF p] by simp_all
  have "merge_slices (p # subs) = m'" "merge_slices [p] = m" by (simp_all add: merge_slices_concat p r)
  with merge_fold [OF r i(1,2)] i(3) show ?thesis by (auto simp: image_Un)
qed

lemma kept_assemble: "kept (snd (context_assemble M query proj v)) = kept v"
proof -
  let ?scope = "normalize_scope_id (x_aliases (m_ext M)) proj"
  obtain a w where a: "search_memories M query ?scope 10 False False None v = (a, w)" by fastforce
  obtain b u where b: "search_memories M query ''general'' 10 False False None w = (b, u)" by fastforce
  have "kept w = kept v" "kept u = kept w"
    using kept_search [of M query ?scope 10 False None v] kept_search [of M query "''general''" 10 False None w] a b by simp_all
  then show ?thesis by (cases a; cases b) (simp_all add: context_assemble_def Let_def a b)
qed

section \<open>The size of a slice\<close>

definition line_cost :: "string list \<Rightarrow> nat" where "line_cost ls = (\<Sum>l \<leftarrow> ls. length l + 1)"

lemma line_cost_simps [simp]:
  "line_cost [] = 0" "line_cost (l # ls) = length l + 1 + line_cost ls" "line_cost (ls @ ls') = line_cost ls + line_cost ls'"
  by (simp_all add: line_cost_def)

lemma join_cost: "length (join [NL] ls) \<le> line_cost ls"
  by (induction "[NL]" ls rule: join.induct) auto

lemma str_of_nat_100: "n < 100 \<Longrightarrow> length (str_of_nat n) \<le> 2"
  by (auto simp: str_of_nat.simps)

lemma hit_lines_cost:
  assumes "i < 100" shows "line_cost (hit_lines i h) \<le> 300"
proof -
  have "length (or_else (take 10 (en_created (h_mem h))) ''----'') \<le> 10" by (auto simp: or_else_def)
  with str_of_nat_100 [OF assms] show ?thesis by (auto simp: hit_lines_def Let_def)
qed

lemma hits_cost:
  "n + length hs \<le> 100 \<Longrightarrow> line_cost (concat (map (\<lambda>(i, h). hit_lines i h) (enumerate n hs))) \<le> 300 * length hs"
proof (induction hs arbitrary: n)
  case (Cons h hs)
  then have "line_cost (concat (map (\<lambda>(i, h). hit_lines i h) (enumerate (Suc n) hs))) \<le> 300 * length hs" by (intro Cons.IH) simp
  moreover have "line_cost (hit_lines n h) \<le> 300" using Cons.prems by (intro hit_lines_cost) simp
  ultimately show ?case by simp
qed simp

lemma actions_cost: "line_cost (map (\<lambda>a. ''- action: '' @ take 120 a) as) \<le> 131 * length as"
  by (induction "as") auto

text \<open>
  The text of a slice is bounded: for up to 98 hits it has at most 300 characters for each hit, twice the
  query, the task mode and 600 characters more, however long titles, bodies and actions are.
\<close>

theorem slice_is_bounded:
  assumes "length hs \<le> 98"
  shows "length (render_slice query hs actions mode) \<le> 300 * length hs + 2 * length query + length mode + 600"
proof -
  define al hl num where "al = map (\<lambda>a. ''- action: '' @ take 120 a) (take 3 actions)"
    and "hl = concat (map (\<lambda>(i, h). hit_lines i h) (enumerate 1 hs))"
    and "num = str_of_nat (length hs)"
  have a: "line_cost al \<le> 393" using actions_cost [of "take 3 actions"] by (simp add: al_def)
  have h: "line_cost hl \<le> 300 * length hs" using assms unfolding hl_def by (intro hits_cost) simp
  have "length num \<le> 2" using assms unfolding num_def by (intro str_of_nat_100) simp
  with a h show ?thesis
    unfolding render_slice_def Let_def al_def [symmetric] hl_def [symmetric] num_def [symmetric]
    by (intro order.trans [OF join_cost]) (cases "hs = []"; simp)
qed

section \<open>Examples\<close>

theorem slice_is_bounded_witness:
  "length (render_slice ''q'' [literal_hit (sample_entry ''a0'' ''T'')] [''edit''] ''m'') \<le> 903"
  using slice_is_bounded [of "[literal_hit (sample_entry ''a0'' ''T'')]" "''q''" "[''edit'']" "''m''"] by simp

end
