(* ===== verification/Server.thy ===== *)
theory Server
  imports Assembly
begin

text \<open>
  \<^verbatim>\<open>memem/server.py\<close>: the tools of the MCP server over the recall operations. Each logs its call after
  it has answered. The server library checks the ranges of the arguments and is left out, as are the tools that only
  pass their arguments on (\<^verbatim>\<open>memory_save\<close>, \<^verbatim>\<open>transcript_search\<close>). An exception of the logging is
  swallowed; in this model it cannot raise.
\<close>

definition hex_char :: "char \<Rightarrow> bool" where
  "hex_char c \<longleftrightarrow> is_digit c \<or> CHR ''a'' \<le> c \<and> c \<le> CHR ''f''"

text \<open>\<^verbatim>\<open>re.findall(r'\[([0-9a-f]{8})\]', md)\<close>\<close>

definition bracket_id :: re where
  "bracket_id = cats [lit ''['', times 8 (Chars hex_char), lit '']'']"

definition extract_ids_from_markdown :: "string \<Rightarrow> string list" where
  "extract_ids_from_markdown md = map (\<lambda>w. take 8 (drop 1 w)) (re_findall bracket_id md)"

definition log_tool :: "recall_env \<Rightarrow> string \<Rightarrow> string \<Rightarrow> string list \<Rightarrow> string \<Rightarrow> recall_state \<Rightarrow> recall_state" where
  "log_tool M call_type query ids sid v =
     (let R = m_engine M; q = v_ret v in
      v\<lparr>v_ret := q\<lparr>q_log := log_recall (r_source R) (r_stamp R) call_type query ids (r_latency R) ''mcp'' sid (q_log q)\<rparr>\<rparr>)"

text \<open>\<open>None\<close> raises: the file of the session holds no object, or the operation itself raised.\<close>

definition tool_search :: "recall_env \<Rightarrow> string \<Rightarrow> nat \<Rightarrow> string \<Rightarrow> recall_state \<Rightarrow> string option \<times> recall_state" where
  "tool_search M query limit scope v =
     (case current_session (r_text (m_engine M)) (r_brief (m_engine M)) of
        None \<Rightarrow> (None, v)
      | Some sid \<Rightarrow>
          (case memory_search M query limit scope v of
             (None, v) \<Rightarrow> (None, v)
           | (Some md, v) \<Rightarrow>
               (Some md, log_tool M ''tool_memory_search'' query (extract_ids_from_markdown md) sid v)))"

definition tool_get :: "recall_env \<Rightarrow> string list \<Rightarrow> string \<Rightarrow> recall_state \<Rightarrow> string option \<times> recall_state" where
  "tool_get M ids scope v =
     (case current_session (r_text (m_engine M)) (r_brief (m_engine M)) of
        None \<Rightarrow> (None, v)
      | Some sid \<Rightarrow>
          let (md, v) = memory_get M ids scope v
          in (Some md, log_tool M ''tool_memory_get'' (join '' '' ids) ids sid v))"

definition tool_timeline :: "recall_env \<Rightarrow> string \<Rightarrow> nat \<Rightarrow> nat \<Rightarrow> string \<Rightarrow> recall_state \<Rightarrow> string option \<times> recall_state" where
  "tool_timeline M i depth_before depth_after scope v =
     (case current_session (r_text (m_engine M)) (r_brief (m_engine M)) of
        None \<Rightarrow> (None, v)
      | Some sid \<Rightarrow>
          let (md, v) = memory_timeline M i depth_before depth_after scope v
          in (Some md, log_tool M ''tool_memory_timeline'' i [i] sid v))"

text \<open>The working directory and the transcripts below it stand for the files of the session.\<close>

definition tool_active_slice ::
  "recall_env \<Rightarrow> string \<Rightarrow> (string \<times> sfile list) list \<Rightarrow> string \<Rightarrow> string \<Rightarrow> string \<Rightarrow> string list option \<Rightarrow> recall_state \<Rightarrow>
   string option \<times> recall_state" where
  "tool_active_slice M cwd dirs query task_mode scope paths_context v =
     (let R = (m_engine M)\<lparr>r_db := fts_db (v_store v)\<rparr> in
      case current_session (r_text R) (r_brief R) of
        None \<Rightarrow> (None, v)
      | Some sid \<Rightarrow>
          let ctx = (case paths_context of Some ps \<Rightarrow> ps | None \<Rightarrow> recent_session_paths (r_text R) cwd dirs sid 5);
              (hits, q) = retrieve R (vault_files (v_store v)) query 8 None scope True ctx (v_ret v); v = v\<lparr>v_ret := q\<rparr>
          in (case hits of
                None \<Rightarrow> (None, v)
              | Some hs \<Rightarrow>
                  (Some (render_slice query hs [] task_mode),
                   log_tool M ''tool_active_slice'' query (map (\<lambda>i. id8 i) (filter (\<lambda>i. i \<noteq> []) (map (\<lambda>h. en_id (h_mem h)) hs))) sid v)))"

section \<open>Every answer is logged once\<close>

lemma kept_capture [simp]: "kept (eval_capture M q mode ms sc n u) = kept u"
  by (simp add: eval_capture_def kept_def)

lemma kept_get: "kept (snd (memory_get M ids scope v)) = kept v"
proof -
  have each: "kept (snd (find_each M is v)) = kept v" for "is" v
    by (induction "is" arbitrary: v) (simp_all add: split_beta)
  show ?thesis by (simp add: memory_get_def each split_beta)
qed

lemma kept_timeline: "kept (snd (memory_timeline M i d1 d2 scope v)) = kept v"
proof -
  have listed: "kept (snd (in_vault (obsidian_memories X clk sc d) v)) = kept v" for X clk sc d v
    by (simp add: in_vault_def kept_def split_beta)
  obtain m w where w: "find_mem M i v = (m, w)" by fastforce
  then have "kept w = kept v" using kept_find_mem [of M i v] by simp
  then show ?thesis by (cases m) (simp_all add: memory_timeline_def w Let_def split_beta listed)
qed

lemma kept_memory_search: "kept (snd (memory_search M query limit scope v)) = kept v"
proof -
  obtain r w where s: "search_memories M query scope limit False False None v = (r, w)" by fastforce
  then have "kept w = kept v" using kept_search [of M query scope limit False None v] by simp
  then show ?thesis using s by (cases r) (simp_all add: memory_search_def Let_def split_beta)
qed

lemma kept_log: "kept u = kept v \<Longrightarrow>
  kept (log_tool M ct query ids sid u) = kept (log_tool M ct query ids sid v)"
  by (simp add: kept_def log_tool_def Let_def)

text \<open>The requests for an answer in text, and the row each is logged with.\<close>

datatype request =
    Search string nat string
  | Get "string list" string
  | Timeline string nat nat string

fun serve :: "recall_env \<Rightarrow> request \<Rightarrow> recall_state \<Rightarrow> string option \<times> recall_state" where
  "serve M (Search query limit scope) v = tool_search M query limit scope v"
| "serve M (Get ids scope) v = tool_get M ids scope v"
| "serve M (Timeline i d1 d2 scope) v = tool_timeline M i d1 d2 scope v"

fun log_row :: "recall_env \<Rightarrow> request \<Rightarrow> string \<Rightarrow> string \<Rightarrow> recall_state \<Rightarrow> recall_state" where
  "log_row M (Search query limit scope) md sid v = log_tool M ''tool_memory_search'' query (extract_ids_from_markdown md) sid v"
| "log_row M (Get ids scope) md sid v = log_tool M ''tool_memory_get'' (join '' '' ids) ids sid v"
| "log_row M (Timeline i d1 d2 scope) md sid v = log_tool M ''tool_memory_timeline'' i [i] sid v"


text \<open>
  What an active slice serves is what it logs: the ids of its row are the short ids of the retrieved memories, in
  order, and its text is the rendering of exactly those.
\<close>

theorem slice_logs_what_it_serves:
  assumes "tool_active_slice M cwd dirs query mode scope (Some ctx) v = (Some md, v')"
  shows "\<exists>hs q sid. retrieve ((m_engine M)\<lparr>r_db := fts_db (v_store v)\<rparr>) (vault_files (v_store v)) query 8 None scope True ctx (v_ret v)
      = (Some hs, q) \<and> md = render_slice query hs [] mode \<and>
    v' = log_tool M ''tool_active_slice'' query (map id8 (filter (\<lambda>i. i \<noteq> []) (map (\<lambda>h. en_id (h_mem h)) hs))) sid (v\<lparr>v_ret := q\<rparr>)"
  using assms by (auto simp: tool_active_slice_def Let_def split: option.splits prod.splits)

section \<open>Ids that were never found\<close>

text \<open>
  The ids of a search are read off its text: a title that holds an id in brackets logs that id as
  returned too.
\<close>

lemma title_logs_foreign_id:
  "extract_ids_from_markdown (format_compact_index_line
     (memory_to_item (blank_memory ''aaaaaaaa-1'' ''Replaces [deadbeef]'' ''E''))) = [''aaaaaaaa'', ''deadbeef'']"
  by code_simp

text \<open>The ids of a get are those asked for, whether or not a memory has them.\<close>

lemma missing_id_is_logged:
  assumes "tool_get M ids scope v = (Some md, v')"
  shows "\<exists>sid w. v' = log_tool M ''tool_memory_get'' (join '' '' ids) ids sid w"
  using assms by (auto simp: tool_get_def split: option.splits prod.splits)

section \<open>Examples\<close>

abbreviation "no_vault \<equiv> sample_state\<lparr>v_store := empty_store\<lparr>dir_ok := False\<rparr>\<rparr>"

lemma no_vault_retrieve: "retrieve R (vault_files (v_store no_vault)) query k None scope wb ctx (v_ret no_vault) = (Some [], v_ret no_vault)"
  by (simp add: retrieve_def load_vault_index_def vault_files_def)

lemma no_session: "current_session (r_text (m_engine Recall.sample_env)) (r_brief (m_engine Recall.sample_env)) = Some []"
  by (simp add: current_session_def Recall.sample_env_def sample_engine_def)


theorem slice_logs_what_it_serves_witness:
  "\<exists>md v'. tool_active_slice Recall.sample_env [] [] ''zz'' [] [] (Some []) no_vault = (Some md, v') \<and> md = render_slice ''zz'' [] [] []"
proof -
  obtain md v' where r: "tool_active_slice Recall.sample_env [] [] ''zz'' [] [] (Some []) no_vault = (Some md, v')"
    using no_session by (simp add: tool_active_slice_def Let_def no_vault_retrieve [simplified])
  from slice_logs_what_it_serves [OF r] r show ?thesis by (auto simp: no_vault_retrieve [simplified])
qed

end
