(* ===== verification/CrossVault.thy ===== *)
theory CrossVault
  imports VaultCache Scoring MineDelta
begin

text \<open>
  \<^verbatim>\<open>memem/cross_vault.py\<close>: the registry of vaults and a search over all of them. A vault is its notes
  by file name, \<open>None\<close> a note that cannot be read; the notes are read in the default mode, which moves
  a note without frontmatter into the quarantine directory. Of the words a query and a note share, the
  order of a Python set is that of the query.
\<close>

section \<open>The registry\<close>

record vault_entry =
  va_id :: string
  va_path :: string

definition valid_entries :: "(json \<Rightarrow> string) \<Rightarrow> json list \<Rightarrow> vault_entry list" where
  "valid_entries other raw =
     List.map_filter
       (\<lambda>v. case v of
          JObj d \<Rightarrow>
            if json_truthy (jget d ''id'') \<and> json_truthy (jget d ''path'')
            then Some \<lparr>va_id = py_text other (jget d ''id''), va_path = py_text other (jget d ''path'')\<rparr>
            else None
        | _ \<Rightarrow> None) raw"

definition load_vault_registry :: "(json \<Rightarrow> string) \<Rightarrow> string \<Rightarrow> json_file \<Rightarrow> vault_entry list" where
  "load_vault_registry other memories_dir f =
     (let default = [\<lparr>va_id = ''default'', va_path = memories_dir\<rparr>] in
      case f of
        Doc (JArr raw) \<Rightarrow> (let valid = valid_entries other raw in if valid = [] then default else valid)
      | _ \<Rightarrow> default)"

section \<open>Similarity\<close>

fun shared_bigram :: "string list \<Rightarrow> string list \<Rightarrow> string option" where
  "shared_bigram ts (a # b # qs) =
     (if a \<in> set ts \<and> b \<in> set ts then Some (a @ '' '' @ b) else shared_bigram ts (b # qs))"
| "shared_bigram ts _ = None"

definition overlap_stop :: "string list" where
  "overlap_stop =
     [''a'', ''an'', ''the'', ''and'', ''or'', ''in'', ''on'', ''at'', ''to'', ''of'', ''is'', ''it'', ''be'', ''as'']"

text \<open>\<^verbatim>\<open>max(xs, key=len)\<close>: the first of the longest.\<close>

fun longest :: "string list \<Rightarrow> string option" where
  "longest [] = None"
| "longest (x # xs) = (case longest xs of None \<Rightarrow> Some x | Some y \<Rightarrow> Some (if length y > length x then y else x))"

definition top_overlap_phrase :: "string \<Rightarrow> string \<Rightarrow> string option" where
  "top_overlap_phrase query target =
     (let qs = tokens query; ts = tokens target in
      case shared_bigram ts qs of
        Some p \<Rightarrow> Some p
      | None \<Rightarrow> longest (filter (\<lambda>q. q \<in> set ts \<and> q \<notin> set overlap_stop) (uniq qs)))"

definition compute_similarity :: "string \<Rightarrow> string \<Rightarrow> string \<Rightarrow> real" where
  "compute_similarity query ttl content =
     (let q = word_set query in
      if q = {} then 0
      else
        let t = word_set (strip (ttl @ '' '' @ take 100 content)); tw = word_set ttl;
            title_hits = card (q \<inter> tw); body_hits = card (q \<inter> (t - tw))
        in min 1 (real (title_hits * 2 + body_hits) / real (card q)))"

definition make_why_relevant :: "string \<Rightarrow> string \<Rightarrow> string \<Rightarrow> real \<Rightarrow> string" where
  "make_why_relevant query ttl content sim =
     (case top_overlap_phrase query (ttl @ '' '' @ take 100 content) of
        Some phrase \<Rightarrow> ''matches '' @ fmt_fixed 2 sim @ '' on '' @ [CHR 0x27] @ phrase @ [CHR 0x27]
      | None \<Rightarrow> ''matches '' @ fmt_fixed 2 sim @ '' on title'')"

section \<open>Searching\<close>

record vaults =
  vs_notes :: "(string, (string, string option) dict) dict"   \<comment> \<open>by path\<close>
  vs_quarantined :: "(string \<times> string) list"

definition read_note :: "ext \<Rightarrow> string \<Rightarrow> string \<times> string option \<Rightarrow> memory list \<times> vaults \<Rightarrow> memory list \<times> vaults" where
  "read_note X path fc mw =
     (let (f, content) = fc; (ms, w) = mw in
      case content of
        None \<Rightarrow> (ms, w)
      | Some text \<Rightarrow>
          (case parse_note X f text of
             Malformed \<Rightarrow>
               (ms, w\<lparr>vs_notes := AList.map_entry path (AList.delete f) (vs_notes w), vs_quarantined := vs_quarantined w @ [(f, text)]\<rparr>)
           | Parsed m \<Rightarrow>
               if status m = ''deprecated'' \<or> invalid_at m \<noteq> None then (ms, w) else (ms @ [m], w)))"

definition scan_vault_memories :: "ext \<Rightarrow> string \<Rightarrow> vaults \<Rightarrow> memory list \<times> vaults" where
  "scan_vault_memories X path w =
     (case map_of (vs_notes w) path of
        None \<Rightarrow> ([], w)
      | Some notes \<Rightarrow> fold (read_note X path) (sort_key fst (filter (\<lambda>(f, c). ends_with f ''.md'') notes)) ([], w))"

record reminder_hit =
  rh_vault :: string
  rh_memory :: memory
  rh_why :: string
  rh_similarity :: real

type_synonym scored = "(real \<times> memory \<times> string) list"

definition score_vault :: "ext \<Rightarrow> string \<Rightarrow> vault_entry \<Rightarrow> scored \<times> vaults \<Rightarrow> scored \<times> vaults" where
  "score_vault X query e sw =
     (let (scored, w) = sw in
      if va_path e = [] then sw
      else
        let (ms, w) = scan_vault_memories X (va_path e) w in
        (scored @ filter (\<lambda>(sim, _). sim > 0)
           (map (\<lambda>m. (compute_similarity query (title m) (essence m), m, va_id e)) ms), w))"

definition search_across_vaults ::
  "ext \<Rightarrow> string \<Rightarrow> vault_entry list \<Rightarrow> nat \<Rightarrow> vaults \<Rightarrow> reminder_hit list \<times> vaults" where
  "search_across_vaults X query registry max_results w =
     (if strip query = [] then ([], w)
      else
        let (scored, w) = fold (score_vault X query) registry ([], w) in
        (map (\<lambda>(sim, m, i). \<lparr>rh_vault = i, rh_memory = m, rh_why = make_why_relevant query (title m) (essence m) sim,
                rh_similarity = sim\<rparr>) (take max_results (sort_desc fst scored)), w))"

section \<open>What a search returns\<close>

lemma similarity_bounds: "0 \<le> compute_similarity q t c \<and> compute_similarity q t c \<le> 1"
  by (simp add: compute_similarity_def Let_def)

definition servable :: "vault_entry list \<Rightarrow> string \<Rightarrow> real \<times> memory \<times> string \<Rightarrow> bool" where
  "servable registry query x \<longleftrightarrow>
     (let (sim, m, i) = x in
      0 < sim \<and> sim \<le> 1 \<and> sim = compute_similarity query (title m) (essence m) \<and>
      status m \<noteq> ''deprecated'' \<and> invalid_at m = None \<and> i \<in> va_id ` set registry)"

lemma read_notes_active:
  "fold (read_note X path) fcs (ms, w) = (ms', w') \<Longrightarrow>
   list_all (\<lambda>m. status m \<noteq> ''deprecated'' \<and> invalid_at m = None) ms \<Longrightarrow>
   list_all (\<lambda>m. status m \<noteq> ''deprecated'' \<and> invalid_at m = None) ms'"
proof (induction fcs arbitrary: ms w)
  case (Cons fc fcs)
  obtain ms1 w1 where s: "read_note X path fc (ms, w) = (ms1, w1)" by fastforce
  then have "list_all (\<lambda>m. status m \<noteq> ''deprecated'' \<and> invalid_at m = None) ms1"
    using Cons.prems(2) by (auto simp: read_note_def Let_def split: prod.splits option.splits parsed.splits if_splits)
  with Cons s show ?case by simp
qed simp

lemma score_vaults:
  "fold (score_vault X query) es (scored, w) = (scored', w') \<Longrightarrow> set es \<subseteq> set registry \<Longrightarrow>
   list_all (servable registry query) scored \<Longrightarrow> list_all (servable registry query) scored'"
proof (induction es arbitrary: scored w)
  case (Cons e es)
  obtain ms v where ms: "scan_vault_memories X (va_path e) w = (ms, v)" by fastforce
  then have "list_all (\<lambda>m. status m \<noteq> ''deprecated'' \<and> invalid_at m = None) ms"
    by (auto simp: scan_vault_memories_def split: option.splits dest: read_notes_active)
  then have "list_all (servable registry query) (fst (score_vault X query e (scored, w)))"
    using Cons.prems(2,3) similarity_bounds ms
    by (auto simp: score_vault_def Let_def servable_def list_all_iff)
  with Cons show ?case by (cases "score_vault X query e (scored, w)") simp
qed simp

text \<open>
  C22: A search over all vaults gives at most as many hits as asked for, best first, each with the similarity
  of its own text, above 0 and at most 1, from a registered vault, and never a deprecated or invalidated
  memory.
\<close>

theorem cross_vault_hits_sound:
  assumes "search_across_vaults X query registry n w = (hits, w')"
  shows "length hits \<le> n \<and> sorted_wrt (\<ge>) (map rh_similarity hits) \<and>
    list_all (\<lambda>h. servable registry query (rh_similarity h, rh_memory h, rh_vault h)) hits"
proof (cases "strip query = []")
  case False
  obtain scored v where s: "fold (score_vault X query) registry ([], w) = (scored, v)" by fastforce
  then have ok: "list_all (servable registry query) scored" using score_vaults [of X query registry "[]" w scored v registry] by simp
  have "sorted_wrt (\<ge>) (map fst (sort_desc fst scored))"
    by (simp add: sort_desc_def rev_map [symmetric] sorted_wrt_rev)
  then have "sorted_wrt (\<ge>) (map fst (take n (sort_desc fst scored)))" by (simp add: take_map [symmetric] sorted_wrt_take)
  moreover have "map rh_similarity hits = map fst (take n (sort_desc fst scored))"
    using assms False s by (auto simp: search_across_vaults_def)
  moreover have "list_all (\<lambda>h. servable registry query (rh_similarity h, rh_memory h, rh_vault h)) hits"
    using assms False s ok by (auto simp: search_across_vaults_def list_all_iff dest!: in_set_takeD)
  ultimately show ?thesis using assms False s by (auto simp: search_across_vaults_def)
qed (use assms in \<open>simp add: search_across_vaults_def\<close>)

text \<open>
  Whatever the registry file holds, there is always a vault to search, and every vault that was
  configured has an id and a path.
\<close>

theorem registry_never_empty:
  "load_vault_registry other dir f \<noteq> [] \<and>
   list_all (\<lambda>e. e = \<lparr>va_id = ''default'', va_path = dir\<rparr> \<or>
     (\<exists>d. json_truthy (jget d ''id'') \<and> json_truthy (jget d ''path'') \<and>
        va_id e = py_text other (jget d ''id'') \<and> va_path e = py_text other (jget d ''path'')))
     (load_vault_registry other dir f)"
proof -
  have "list_all (\<lambda>e. \<exists>d. json_truthy (jget d ''id'') \<and> json_truthy (jget d ''path'') \<and>
        va_id e = py_text other (jget d ''id'') \<and> va_path e = py_text other (jget d ''path'')) (valid_entries other raw)" for raw
    by (auto simp: valid_entries_def list_all_iff List.map_filter_def split: json.splits if_splits)
  then show ?thesis
    by (auto simp: load_vault_registry_def Let_def list_all_iff split: json_file.split json.split)
qed

section \<open>Examples\<close>

text \<open>
  Searching a vault of someone else moves its notes without frontmatter into the quarantine directory of
  the one who searches.
\<close>

lemma search_moves_foreign_note:
  "search_across_vaults X ''q'' [\<lparr>va_id = ''other'', va_path = ''/v''\<rparr>] 3
     \<lparr>vs_notes = [(''/v'', [(''plain.md'', Some ''just text'')])], vs_quarantined = []\<rparr>
   = ([], \<lparr>vs_notes = [(''/v'', [])], vs_quarantined = [(''plain.md'', ''just text'')]\<rparr>)"
proof -
  have "strip ''q'' \<noteq> []" "ends_with ''plain.md'' ''.md''" "\<not> starts_with (lstrip ''just text'') ''---''" by code_simp+
  then show ?thesis
    by (simp add: search_across_vaults_def score_vault_def scan_vault_memories_def read_note_def parse_note_def
        sort_desc_def)
qed

theorem cross_vault_hits_sound_witness:
  "\<exists>hits w'. search_across_vaults sample_ext ''q'' [\<lparr>va_id = ''other'', va_path = ''/v''\<rparr>] 3
     \<lparr>vs_notes = [(''/v'', [(''plain.md'', Some ''just text'')])], vs_quarantined = []\<rparr> = (hits, w')
     \<and> length hits \<le> 3 \<and> sorted_wrt (\<ge>) (map rh_similarity hits)"
  using cross_vault_hits_sound [OF search_moves_foreign_note] search_moves_foreign_note [of sample_ext] by simp

end
