(* ===== verification/Lessons.thy ===== *)
theory Lessons
  imports Recall Playbook Operations
begin

text \<open>
  \<^verbatim>\<open>memem/lessons.py\<close>: the notes that say not to use a memory for a class of queries. The directory is a
  list of files in the order it is listed, \<open>None\<close> a file that cannot be read; texts are UTF-8.
\<close>

section \<open>Recording\<close>

text \<open>A run of separators becomes one hyphen.\<close>

fun squeeze :: "bool \<Rightarrow> string \<Rightarrow> string" where
  "squeeze in_run [] = []"
| "squeeze in_run (c # s) =
     (if py_space c \<or> c = CHR ''_'' \<or> c = CHR ''-''
      then (if in_run then squeeze True s else CHR ''-'' # squeeze True s)
      else c # squeeze False s)"

definition lesson_slug :: "string \<Rightarrow> nat \<Rightarrow> string" where
  "lesson_slug text max_len =
     (let s = filter (\<lambda>c. is_word c \<or> py_space c \<or> c = CHR ''-'') (lower text)
      in or_else (take max_len (strip_of ''-'' (squeeze False s))) ''lesson'')"

type_synonym lesson_files = "(string, string option) dict"

definition lesson_text :: "string \<Rightarrow> string \<Rightarrow> string \<Rightarrow> string \<Rightarrow> string \<Rightarrow> string \<Rightarrow> string \<Rightarrow> string" where
  "lesson_text lid target qclass anti evidence now source =
     join [NL]
       [''---'', ''id: '' @ lid, ''targeted_memory_id: '' @ target, ''query_class: '' @ qclass,
        ''anti_pattern: '' @ take 200 anti, ''evidence: '' @ take 500 evidence, ''created_at: '' @ now,
        ''source: '' @ source, ''---'', []]"

definition record_lesson ::
  "string \<Rightarrow> string \<Rightarrow> string \<Rightarrow> string \<Rightarrow> string \<Rightarrow> string \<Rightarrow> string \<Rightarrow> lesson_files \<Rightarrow> string \<times> lesson_files" where
  "record_lesson lid now target qclass anti evidence source fs =
     (let fname = lesson_slug (take 60 anti) 40 @ ''-'' @ id8 lid @ ''.md''
      in (lid, AList.update fname (Some (lesson_text lid target qclass anti evidence now source)) fs))"

section \<open>Reading\<close>

definition lesson_line :: "string \<Rightarrow> (string, string) dict \<Rightarrow> (string, string) dict" where
  "lesson_line l d =
     (if CHR '':'' \<notin> set l then d
      else AList.update (strip (takeWhile (\<lambda>c. c \<noteq> CHR '':'') l)) (strip (drop 1 (dropWhile (\<lambda>c. c \<noteq> CHR '':'') l))) d)"

text \<open>Text mode turns every line end into a newline.\<close>

definition parse_lesson :: "string option \<Rightarrow> (string, string) dict option" where
  "parse_lesson content =
     (case content of
        None \<Rightarrow> None
      | Some raw \<Rightarrow>
          let text = universal_newlines raw in
          if \<not> starts_with text ''---'' then None
          else (case before_first (NL # ''---'') (drop 3 text) of
                  None \<Rightarrow> None
                | Some block \<Rightarrow> Some (fold lesson_line (split_char NL (strip block)) [])))"

text \<open>An empty dictionary is not truthy: a lesson without any field is not listed. \<open>None\<close>: no directory.\<close>

definition list_lessons :: "lesson_files option \<Rightarrow> (string, string) dict list" where
  "list_lessons fs =
     (case fs of
        None \<Rightarrow> []
      | Some fs \<Rightarrow> filter (\<lambda>d. d \<noteq> []) (List.map_filter (\<lambda>(f, c). if ends_with f ''.md'' then parse_lesson c else None) fs))"

section \<open>Excluding\<close>

definition short_words :: "string list" where
  "short_words = [''a'', ''an'', ''the'', ''is'', ''of'', ''in'', ''on'', ''to'', ''for'', ''and'', ''or'']"

definition query_class_matches :: "string \<Rightarrow> string \<Rightarrow> bool" where
  "query_class_matches query qclass \<longleftrightarrow>
     (if query = [] \<or> qclass = [] then False
      else
        let q = lower query; c = lower qclass in
        if contains q c then True
        else card ((set (runs_of is_word q) - set short_words) \<inter> (set (runs_of is_word c) - set short_words)) \<ge> 2)"

text \<open>The ids, and the recall log with the exclusion, when there is one.\<close>

definition excluded_memory_ids_for_query ::
  "engine \<Rightarrow> string \<Rightarrow> lesson_files option \<Rightarrow> string option \<Rightarrow> string list \<times> string option" where
  "excluded_memory_ids_for_query R query fs stored =
     (let field = (\<lambda>d k. case map_of d k of None \<Rightarrow> [] | Some v \<Rightarrow> v);
          hit = filter (\<lambda>d. query_class_matches query (field d ''query_class'')) (list_lessons fs);
          excluded = uniq (filter (\<lambda>i. i \<noteq> []) (map (\<lambda>d. field d ''targeted_memory_id'') hit))
      in (excluded,
          if excluded = [] then stored
          else log_recall (r_source R) (r_stamp R) ''lessons_exclusion'' query (sort excluded) 0 ''lessons'' [] stored))"

section \<open>A lesson reads back\<close>

definition one_line :: "string \<Rightarrow> bool" where "one_line s \<longleftrightarrow> NL \<notin> set s \<and> CHR 0x0D \<notin> set s"

lemma universal_newlines_plain: "CHR 0x0D \<notin> set s \<Longrightarrow> universal_newlines s = s"
  by (induction s rule: universal_newlines.induct) auto

definition lines_after :: "string list \<Rightarrow> string" where "lines_after ls = concat (map (\<lambda>l. NL # l) ls)"

lemma lines_after_simps [simp]: "lines_after [] = []" "lines_after (l # ls) = NL # l @ lines_after ls"
  by (simp_all add: lines_after_def)

lemma join_lines: "join [NL] (l # ls) = l @ lines_after ls"
  by (induction ls arbitrary: l) simp_all

lemma before_first_skip:
  "NL \<notin> set s \<Longrightarrow> before_first (NL # m) (s @ t) = map_option (\<lambda>u. s @ u) (before_first (NL # m) t)"
proof (induction s)
  case Nil
  then show ?case by (cases "before_first (NL # m) t") simp_all
next
  case (Cons c s)
  then have "c \<noteq> NL" by auto
  with Cons show ?case by (auto simp: starts_with_def option.map_comp comp_def)
qed

lemma block_ends:
  "list_all (\<lambda>l. NL \<notin> set l \<and> l \<noteq> [] \<and> hd l \<noteq> CHR ''-'') ls \<Longrightarrow>
   before_first (NL # ''---'') (lines_after ls @ NL # ''---'' @ rest) = Some (lines_after ls)"
proof (induction ls)
  case (Cons l ls)
  then have "\<not> starts_with (NL # l @ t) (NL # ''---'')" for t by (cases l) (auto simp: starts_with_def)
  then have "before_first (NL # ''---'') (NL # l @ t) = map_option (\<lambda>u. NL # l @ u) (before_first (NL # ''---'') t)" for t
    using Cons.prems before_first_skip [of l "''---''" t] by (simp add: option.map_comp comp_def)
  with Cons show ?case by simp
qed (simp add: starts_with_def)


lemma lesson_fold_lines:
  assumes "list_all (\<lambda>(k, v). CHR '':'' \<notin> set k \<and> k = strip k \<and> k \<noteq> []) kvs"
  shows "fold lesson_line (map (\<lambda>(k, v). k @ '':'' @ v) kvs) d = fold (\<lambda>(k, v). AList.update k (strip v)) kvs d"
  using assms
proof (induction kvs arbitrary: d)
  case (Cons kv kvs)
  obtain k v where kv: "kv = (k, v)" by (cases kv)
  with Cons.prems have k: "CHR '':'' \<notin> set k" "strip k = k" by simp_all
  have "takeWhile (\<lambda>c. c \<noteq> CHR '':'') (k @ '':'' @ v) = k" "dropWhile (\<lambda>c. c \<noteq> CHR '':'') (k @ '':'' @ v) = '':'' @ v"
    using k(1) by (auto simp: takeWhile_append dropWhile_append)
  then have "lesson_line (k @ '':'' @ v) d = AList.update k (strip v) d" using k by (simp add: lesson_line_def)
  with Cons kv show ?case by simp
qed simp


lemma starts_rstrip: "\<not> py_space (hd s) \<Longrightarrow> s \<noteq> [] \<Longrightarrow> lstrip (NL # s) = s"
  by (cases s) (simp_all add: lstrip_def py_space_def)

lemma lesson_parses:
  assumes "list_all one_line [lid, target, qclass, anti, evidence, now]" "source \<in> {''user'', ''dreamer'', ''manual''}"
  shows "parse_lesson (Some (lesson_text lid target qclass anti evidence now source)) =
    Some [(''id'', strip lid), (''targeted_memory_id'', strip target), (''query_class'', strip qclass),
      (''anti_pattern'', strip (take 200 anti)), (''evidence'', strip (take 500 evidence)), (''created_at'', strip now),
      (''source'', source)]"
proof -
  define kvs where "kvs = [(''id'', '' '' @ lid), (''targeted_memory_id'', '' '' @ target), (''query_class'', '' '' @ qclass),
      (''anti_pattern'', '' '' @ take 200 anti), (''evidence'', '' '' @ take 500 evidence), (''created_at'', '' '' @ now),
      (''source'', '' '' @ source)]"
  define ls where "ls = map (\<lambda>(k, v). k @ '':'' @ v) kvs"
  have plain: "NL \<notin> set (take n s) \<and> CHR 0x0D \<notin> set (take n s)" if "one_line s" for n s
    using that by (auto simp: one_line_def dest: in_set_takeD)
  have src: "NL \<notin> set source \<and> CHR 0x0D \<notin> set source" using assms(2) by auto
  have whole: "lesson_text lid target qclass anti evidence now source = ''---'' @ lines_after ls @ NL # ''---'' @ [NL]"
    unfolding lesson_text_def join_lines by (simp add: ls_def kvs_def)
  have ok: "list_all (\<lambda>l. NL \<notin> set l \<and> l \<noteq> [] \<and> hd l \<noteq> CHR ''-'') ls"
    using assms(1) src plain by (simp add: ls_def kvs_def one_line_def)
  have "CHR 0x0D \<notin> set (lesson_text lid target qclass anti evidence now source)"
    using assms(1) src plain unfolding whole by (simp add: ls_def kvs_def one_line_def)
  then have raw: "universal_newlines (lesson_text lid target qclass anti evidence now source)
      = ''---'' @ lines_after ls @ NL # ''---'' @ [NL]"
    unfolding whole by (rule universal_newlines_plain)
  have strip_block: "strip (lines_after ls) = join [NL] ls"
  proof -
    have "lstrip (lines_after ls) = join [NL] ls"
      by (simp add: ls_def kvs_def lstrip_def py_space_def)
    moreover have "\<not> py_space (last (join [NL] ls))"
      using assms(2) by (auto simp: ls_def kvs_def py_space_def)
    then have "rstrip (join [NL] ls) = join [NL] ls" by (intro rstrip_fix) simp
    ultimately show ?thesis by (simp add: strip_def)
  qed
  have "split_char NL (join [NL] ls) = ls"
    using ok by (intro split_char_join) (auto simp: list_all_iff ls_def kvs_def)
  then have "parse_lesson (Some (lesson_text lid target qclass anti evidence now source)) = Some (fold lesson_line ls [])"
    using block_ends [OF ok, of "[NL]"] by (simp add: parse_lesson_def raw strip_block starts_with_def)
  moreover have "fold lesson_line ls [] = fold (\<lambda>(k, v). AList.update k (strip v)) kvs []"
    unfolding ls_def by (rule lesson_fold_lines) (simp add: kvs_def, code_simp)
  moreover have "strip ('' '' @ s) = strip s" for s by (simp add: strip_def lstrip_def py_space_def rstrip_def)
  moreover have "strip source = source" using assms(2) by (auto simp: strip_def lstrip_def rstrip_def py_space_def)
  ultimately show ?thesis by (simp add: kvs_def)
qed

text \<open>
  C23: A recorded lesson reads back: as long as its texts stand on one line, the file holds exactly the seven fields,
  trimmed and cut as they were recorded.
\<close>

theorem lesson_reads_back:
  assumes "list_all one_line [lid, target, qclass, anti, evidence, now]" "source \<in> {''user'', ''dreamer'', ''manual''}"
  shows "parse_lesson (Some (lesson_text lid target qclass anti evidence now source)) =
    Some [(''id'', strip lid), (''targeted_memory_id'', strip target), (''query_class'', strip qclass),
      (''anti_pattern'', strip (take 200 anti)), (''evidence'', strip (take 500 evidence)), (''created_at'', strip now),
      (''source'', source)]"
  using lesson_parses [OF assms] .

text \<open>
  A recorded lesson takes effect: a query that holds its class excludes the memory it names,
  whatever other lessons there are.
\<close>

theorem recorded_lesson_excludes:
  assumes "list_all one_line [lid, target, qclass, anti, evidence, now]" "source \<in> {''user'', ''dreamer'', ''manual''}"
    and "contains (lower query) (lower (strip qclass))" "strip qclass \<noteq> []" "strip target \<noteq> []" "query \<noteq> []"
  shows "strip target \<in> set (fst (excluded_memory_ids_for_query R query
    (Some (snd (record_lesson lid now target qclass anti evidence source fs))) stored))"
proof -
  define fname where "fname = lesson_slug (take 60 anti) 40 @ ''-'' @ id8 lid @ ''.md''"
  define content where "content = lesson_text lid target qclass anti evidence now source"
  define d where "d = [(''id'', strip lid), (''targeted_memory_id'', strip target), (''query_class'', strip qclass),
      (''anti_pattern'', strip (take 200 anti)), (''evidence'', strip (take 500 evidence)), (''created_at'', strip now),
      (''source'', source)]"
  have parsed: "parse_lesson (Some content) = Some d"
    unfolding content_def d_def by (rule lesson_parses [OF assms(1,2)])
  have "map_of (AList.update fname (Some content) fs) fname = Some (Some content)" by (simp add: update_conv)
  then have "(fname, Some content) \<in> set (AList.update fname (Some content) fs)" by (rule map_of_SomeD)
  moreover have "ends_with fname ''.md''" by (simp add: fname_def ends_with_def)
  ultimately have "d \<in> set (list_lessons (Some (AList.update fname (Some content) fs)))"
    using parsed by (force simp: list_lessons_def List.map_filter_def d_def)
  moreover have "query_class_matches query (strip qclass)" using assms(3-6) by (simp add: query_class_matches_def)
  moreover have "map_of d ''targeted_memory_id'' = Some (strip target)" "map_of d ''query_class'' = Some (strip qclass)"
    by (simp_all add: d_def)
  moreover have "snd (record_lesson lid now target qclass anti evidence source fs) = AList.update fname (Some content) fs"
    by (simp add: record_lesson_def Let_def fname_def content_def)
  ultimately show ?thesis
    using assms(5) by (auto simp: excluded_memory_ids_for_query_def Let_def image_iff intro!: bexI [of _ d])
qed

section \<open>Examples\<close>

theorem lesson_reads_back_witness:
  "parse_lesson (Some (lesson_text ''l1'' '' aaaa '' ''deploys'' ''Do not'' [] ''2026'' ''user'')) =
    Some [(''id'', ''l1''), (''targeted_memory_id'', ''aaaa''), (''query_class'', ''deploys''), (''anti_pattern'', ''Do not''),
      (''evidence'', []), (''created_at'', ''2026''), (''source'', ''user'')]"
proof -
  have "strip ''l1'' = ''l1''" "strip '' aaaa '' = ''aaaa''" "strip ''deploys'' = ''deploys''" "strip (take 200 ''Do not'') = ''Do not''"
    "strip (take 500 []) = []" "strip ''2026'' = ''2026''" by code_simp+
  moreover have "list_all one_line [''l1'', '' aaaa '', ''deploys'', ''Do not'', [], ''2026'']" by (simp add: one_line_def)
  ultimately show ?thesis using lesson_reads_back [of "''l1''" "'' aaaa ''" "''deploys''" "''Do not''" "[]" "''2026''" "''user''"] by simp
qed

theorem recorded_lesson_excludes_witness:
  "''aaaa'' \<in> set (fst (excluded_memory_ids_for_query sample_engine ''about deploys''
    (Some (snd (record_lesson ''l1'' ''2026'' ''aaaa'' ''deploys'' ''Do not'' [] ''user'' []))) None))"
proof -
  have "contains (lower ''about deploys'') (lower (strip ''deploys''))" "strip ''deploys'' \<noteq> []" "strip ''aaaa'' = ''aaaa''" by code_simp+
  moreover have "list_all one_line [''l1'', ''aaaa'', ''deploys'', ''Do not'', [], ''2026'']" by (simp add: one_line_def)
  ultimately show ?thesis
    using recorded_lesson_excludes [of "''l1''" "''aaaa''" "''deploys''" "''Do not''" "[]" "''2026''" "''user''" "''about deploys''"] by simp
qed

text \<open>Evidence of two lines can name another memory: the lesson then excludes that one instead.\<close>

lemma second_line_redirects_lesson:
  "map_option (\<lambda>d. map_of d ''targeted_memory_id'')
     (parse_lesson (Some (lesson_text ''l1'' ''aaaa'' ''deploys'' ''Do not'' (''see'' @ [NL] @ ''targeted_memory_id: bbbb'') ''2026'' ''user'')))
   = Some (Some ''bbbb'')"
  by code_simp

end
