(* ===== verification/AbCompare.thy ===== *)
theory AbCompare
  imports EvalReplay
begin

text \<open>
  \<^verbatim>\<open>scripts/ab_compare_engines.py\<close>: two captured sets of answers compared with each other, or one with the
  answers of the present engine. An artifact is its decoded rows, with the fields the script reads; the
  order of a Python set of ids is that of the older answer. The printed warnings are left out.
\<close>

section \<open>One query\<close>

type_synonym ab_hit = "string \<times> string"   \<comment> \<open>id and title\<close>

record ab_row =
  ab_query :: string
  ab_category :: string
  ab_hits :: "ab_hit list"

definition ab_jaccard :: "string list \<Rightarrow> string list \<Rightarrow> nat option \<Rightarrow> real" where
  "ab_jaccard a b k =
     (let cut = (\<lambda>xs. case k of Some n \<Rightarrow> if n = 0 then xs else take n xs | None \<Rightarrow> xs);
          A = set (cut a); B = set (cut b)
      in if A = {} \<and> B = {} then 1
         else if A \<union> B = {} then 1
         else real (card (A \<inter> B)) / real (card (A \<union> B)))"

definition index_of :: "string \<Rightarrow> string list \<Rightarrow> nat option" where
  "index_of i xs = (if i \<in> set xs then Some (length (takeWhile (\<lambda>x. x \<noteq> i) xs)) else None)"

definition rank_delta :: "string \<Rightarrow> string list \<Rightarrow> string list \<Rightarrow> int option" where
  "rank_delta i a b =
     (case index_of i a of
        None \<Rightarrow> None
      | Some pa \<Rightarrow> (case index_of i b of None \<Rightarrow> None | Some pb \<Rightarrow> Some (int pb - int pa)))"

record query_stats =
  st_j10 :: real
  st_j5 :: real
  st_top1 :: bool
  st_shared :: nat
  st_delta :: "real option"
  st_only_old :: "ab_hit list"
  st_only_new :: "ab_hit list"

definition compute_query_stats :: "ab_hit list \<Rightarrow> ab_hit list \<Rightarrow> nat \<Rightarrow> query_stats" where
  "compute_query_stats old_hits new_hits upto_n =
     (let old_ids = map fst (take upto_n old_hits); new_ids = map fst (take upto_n new_hits);
          shared = filter (\<lambda>i. i \<in> set new_ids) (uniq old_ids);
          deltas = List.map_filter (\<lambda>i. rank_delta i old_ids new_ids) shared
      in \<lparr>st_j10 = round_to 3 (ab_jaccard old_ids new_ids None),
          st_j5 = round_to 3 (ab_jaccard old_ids new_ids (Some 5)),
          st_top1 = (old_ids \<noteq> [] \<and> new_ids \<noteq> [] \<and> hd old_ids = hd new_ids),
          st_shared = length shared,
          st_delta = (if deltas = [] then None
                      else Some (round_to 2 (real_of_int (sum_list (map abs deltas)) / real (length deltas)))),
          st_only_old = filter (\<lambda>h. fst h \<notin> set new_ids) (take upto_n old_hits),
          st_only_new = filter (\<lambda>h. fst h \<notin> set old_ids) (take upto_n new_hits)\<rparr>)"

section \<open>All queries\<close>

record ab_result =
  ar_query :: string
  ar_category :: string
  ar_stats :: query_stats

record ab_aggregate =
  ag_n :: nat
  ag_j10 :: "real option"
  ag_j5 :: "real option"
  ag_top1 :: "real option"
  ag_delta :: "real option"
  ag_low :: "string list"

definition aggregate :: "ab_result list \<Rightarrow> ab_aggregate" where
  "aggregate rs =
     (let n = length rs; avg = (\<lambda>d xs. if xs = [] then None else Some (round_to d (sum_list xs / real (length xs)))) in
      \<lparr>ag_n = n,
       ag_j10 = avg 3 (map (\<lambda>r. st_j10 (ar_stats r)) rs), ag_j5 = avg 3 (map (\<lambda>r. st_j5 (ar_stats r)) rs),
       ag_top1 = (if n = 0 then None
                  else Some (round_to 3 (real (length (filter (\<lambda>r. st_top1 (ar_stats r)) rs)) / real n))),
       ag_delta = avg 2 (List.map_filter (\<lambda>r. st_delta (ar_stats r)) rs),
       ag_low = map ar_query (filter (\<lambda>r. st_j10 (ar_stats r) < 0.3) rs)\<rparr>)"

definition compare_artifacts :: "ab_row list \<Rightarrow> ab_row list \<Rightarrow> nat \<Rightarrow> ab_result list \<times> ab_aggregate" where
  "compare_artifacts old new upto_n =
     (let rs = map (\<lambda>(o1, n1). \<lparr>ar_query = ab_query o1, ar_category = ab_category o1,
                        ar_stats = compute_query_stats (ab_hits o1) (ab_hits n1) upto_n\<rparr>) (zip old new)
      in (rs, aggregate rs))"

text \<open>A query that raises counts as one that found nothing; the latencies are left out.\<close>

fun live_rows :: "recall_env \<Rightarrow> nat \<Rightarrow> ab_row list \<Rightarrow> recall_state \<Rightarrow> ab_result list \<times> recall_state" where
  "live_rows M upto_n [] v = ([], v)"
| "live_rows M upto_n (e # es) v =
     (let (found, v) = search_memories M (ab_query e) ''default'' upto_n False False None v;
          new_hits = (case found of None \<Rightarrow> [] | Some ms \<Rightarrow> map (\<lambda>m. (mem_id m, title m)) ms);
          (rs, v) = live_rows M upto_n es v
      in (\<lparr>ar_query = ab_query e, ar_category = ab_category e, ar_stats = compute_query_stats (ab_hits e) new_hits upto_n\<rparr> # rs, v))"

definition live_compare :: "recall_env \<Rightarrow> ab_row list \<Rightarrow> nat \<Rightarrow> recall_state \<Rightarrow> (ab_result list \<times> ab_aggregate) \<times> recall_state" where
  "live_compare M baseline upto_n v = (let (rs, v) = live_rows M upto_n baseline v in ((rs, aggregate rs), v))"

section \<open>The report\<close>

text \<open>A missing number prints as \<^verbatim>\<open>nan\<close>.\<close>

definition num :: "nat \<Rightarrow> real option \<Rightarrow> string" where
  "num d x = (case x of None \<Rightarrow> ''nan'' | Some r \<Rightarrow> fmt_fixed d r)"
definition percent :: "nat \<Rightarrow> real option \<Rightarrow> string" where
  "percent d x = (case x of None \<Rightarrow> ''nan%'' | Some r \<Rightarrow> fmt_fixed d (r * 100) @ ''%'')"

definition of_n :: "nat \<Rightarrow> nat \<Rightarrow> string" where "of_n a b = str_of_nat a @ ''/'' @ str_of_nat b"

text \<open>The check mark, the signs for a difference and for at least are beyond Latin-1.\<close>

definition summary_lines :: "ab_result list \<Rightarrow> ab_aggregate \<Rightarrow> string \<Rightarrow> string \<Rightarrow> string list" where
  "summary_lines rs g old_label new_label =
     (let n = ag_n g; low = length (ag_low g); firsts = length (filter (\<lambda>r. st_top1 (ar_stats r)) rs) in
      [''## Summary'', [],
       ''Comparing '' @ str_of_nat n @ '' queries between the **'' @ old_label @ ''** engine (pre-v2.6) and the **''
         @ new_label @ ''** engine (v2.6 three-way RRF). Mean Jaccard@10 is **'' @ num 2 (ag_j10 g)
         @ ''** and mean Jaccard@5 is **'' @ num 2 (ag_j5 g)
         @ ''**, reflecting the expected divergence when a fundamentally different scoring algorithm replaces the heuristic baseline ''
         @ [em_dash] @ '' partial overlap is normal and desired.'',
       ''Top-1 stability is **'' @ of_n firsts n @ ''** ('' @ percent 1 (ag_top1 g)
         @ ''): the new engine surfaces a different best match for most queries, which is the intended consequence of ''
         @ ''adding FTS as a third RRF channel with usage and scope signals.'']
      @ (if low > 0
         then [of_n low n @ '' queries ('' @ percent 0 (Some (real low / real n))
                 @ '') have Jaccard@10 < 0.3 '' @ [em_dash]
                 @ '' these show the strongest engine divergence, typically on broad/ambiguous queries where the ''
                 @ ''heuristic file-scan and the RRF ranker weight relevance signals very differently.'']
         else [])
      @ [''Mean absolute rank delta for shared hits is **'' @ num 1 (ag_delta g) @ '' positions** '' @ [em_dash]
           @ '' shared memories move substantially in rank, consistent with the new composite scoring (usage'' @ [CHR 0xD7]
           @ ''0.15, scope'' @ [CHR 0xD7] @ ''0.10, link'' @ [CHR 0xD7] @ ''0.10, importance'' @ [CHR 0xD7]
           @ ''0.10) overriding pure keyword proximity.'',
         ''This report is advisory transparency, not a pass/fail gate. The v2.6 engine is validated separately via the ''
           @ ''18-query benchmark ('' @ [CHR ''?''] @ ''74% precision).'', []])"

definition table_lines :: "ab_result list \<Rightarrow> ab_aggregate \<Rightarrow> string list" where
  "table_lines rs g =
     (let n = ag_n g; firsts = length (filter (\<lambda>r. st_top1 (ar_stats r)) rs) in
      [''## Aggregate statistics'', [], ''| Metric | Value |'', ''|--------|-------|'',
       ''| Queries compared | '' @ str_of_nat n @ '' |'', ''| Mean Jaccard@10 | '' @ num 3 (ag_j10 g) @ '' |'',
       ''| Mean Jaccard@5 | '' @ num 3 (ag_j5 g) @ '' |'',
       ''| Top-1 stability | '' @ percent 1 (ag_top1 g) @ '' ('' @ of_n firsts n @ '') |'',
       ''| Mean abs rank delta (shared) | '' @ num 2 (ag_delta g) @ '' positions |'',
       ''| Queries with Jaccard@10 < 0.3 | '' @ of_n (length (ag_low g)) n @ '' |'', []])"

definition query_line :: "nat \<times> ab_result \<Rightarrow> string" where
  "query_line ir =
     (let (i, r) = ir; s = ar_stats r in
      ''| '' @ join '' | ''
        [str_of_nat i, take 12 (ar_category r), fmt_fixed 2 (st_j10 s), fmt_fixed 2 (st_j5 s),
         (if st_top1 s then [CHR ''?''] else []), str_of_nat (st_shared s),
         (case st_delta s of None \<Rightarrow> [em_dash] | Some d \<Rightarrow> fmt_fixed 1 d), take 55 (ar_query r)] @ '' |'')"

definition only_line :: "string \<Rightarrow> ab_hit list \<Rightarrow> string list" where
  "only_line label hs =
     (if hs = [] then []
      else [''- Only in '' @ label @ '': '' @ join ''; '' (map (\<lambda>(i, t). i @ '' '' @ [CHR 0x22] @ take 40 t @ [CHR 0x22]) (take 5 hs))])"

definition low_lines :: "string \<Rightarrow> string \<Rightarrow> ab_result list \<Rightarrow> string list" where
  "low_lines old_label new_label rs =
     (let low = filter (\<lambda>r. st_j10 (ar_stats r) < 0.3) rs in
      if low = [] then []
      else [''## Low-overlap queries (Jaccard@10 < 0.3)'', []]
        @ concat (map (\<lambda>r. let s = ar_stats r in
            [''### `'' @ ar_query r @ ''`'',
             ''- Jaccard@10: '' @ fmt_fixed 3 (st_j10 s) @ ''  |  J@5: '' @ fmt_fixed 3 (st_j5 s) @ ''  |  Shared: '' @ str_of_nat (st_shared s)]
            @ only_line old_label (st_only_old s) @ only_line new_label (st_only_new s) @ [[]]) low))"

definition render_markdown_report :: "ab_result list \<Rightarrow> ab_aggregate \<Rightarrow> string \<Rightarrow> string \<Rightarrow> string" where
  "render_markdown_report rs g old_label new_label =
     join [NL]
       (summary_lines rs g old_label new_label @ table_lines rs g
        @ [''## Per-query breakdown'', [], ''| # | Category | J@10 | J@5 | Top-1 ? | Shared | Abs ?rank | Query |'',
           ''|---|----------|------|-----|---------|--------|-----------|-------|'']
        @ map query_line (enumerate 1 rs) @ [[]] @ low_lines old_label new_label rs)"

section \<open>Properties\<close>

lemma ab_jaccard_eq: "ab_jaccard a b k = jaccard a b k"
  by (simp add: ab_jaccard_def jaccard_def top_k_def Let_def)

lemma ab_jaccard_commute: "ab_jaccard a b k = ab_jaccard b a k"
  by (simp add: ab_jaccard_def Let_def Int_commute Un_commute conj_commute)

lemma rank_delta_swap: "rank_delta i b a = map_option uminus (rank_delta i a b)"
  by (auto simp: rank_delta_def split: option.split)

lemma rank_delta_common: "i \<in> set a \<Longrightarrow> i \<in> set b \<Longrightarrow> rank_delta i a b \<noteq> None"
  by (simp add: rank_delta_def index_of_def)

lemma deltas_of_common:
  "set xs \<subseteq> set a \<inter> set b \<Longrightarrow> List.map_filter (\<lambda>i. rank_delta i a b) xs = map (\<lambda>i. the (rank_delta i a b)) xs"
  by (induction xs) (auto simp: List.map_filter_simps dest: rank_delta_common split: option.split)

lemma distance_swap: "i \<in> set a \<Longrightarrow> i \<in> set b \<Longrightarrow> \<bar>the (rank_delta i b a)\<bar> = \<bar>the (rank_delta i a b)\<bar>"
  by (simp add: rank_delta_def index_of_def abs_minus_commute)

lemma shared_swap:
  fixes f :: "string \<Rightarrow> int"
  shows "length (filter (\<lambda>i. i \<in> set b) (uniq a)) = length (filter (\<lambda>i. i \<in> set a) (uniq b))"
    and "sum_list (map f (filter (\<lambda>i. i \<in> set b) (uniq a))) = sum_list (map f (filter (\<lambda>i. i \<in> set a) (uniq b)))"
proof -
  have "set (filter (\<lambda>i. i \<in> set b) (uniq a)) = set (filter (\<lambda>i. i \<in> set a) (uniq b))" by auto
  then have "mset (filter (\<lambda>i. i \<in> set b) (uniq a)) = mset (filter (\<lambda>i. i \<in> set a) (uniq b))"
    by (metis distinct_filter distinct_uniq set_eq_iff_mset_eq_distinct)
  then show "length (filter (\<lambda>i. i \<in> set b) (uniq a)) = length (filter (\<lambda>i. i \<in> set a) (uniq b))"
    and "sum_list (map f (filter (\<lambda>i. i \<in> set b) (uniq a))) = sum_list (map f (filter (\<lambda>i. i \<in> set a) (uniq b)))"
    by (metis size_mset, metis mset_map sum_mset_sum_list)
qed

text \<open>
  C24: Which engine counts as the old one does not matter: comparing the answers the other way round gives the same
  similarities, stability, number of shared ids and mean displacement, and exchanges the two lists of hits
  only one of them has.
\<close>

theorem comparison_is_symmetric:
  "compute_query_stats new_hits old_hits upto_n =
     (let s = compute_query_stats old_hits new_hits upto_n in s\<lparr>st_only_old := st_only_new s, st_only_new := st_only_old s\<rparr>)"
proof -
  let ?a = "map fst (take upto_n old_hits)" and ?b = "map fst (take upto_n new_hits)"
  let ?s = "\<lambda>a b. filter (\<lambda>i. i \<in> set b) (uniq a)" and ?f = "\<lambda>i. \<bar>the (rank_delta i ?a ?b)\<bar>"
  have d: "List.map_filter (\<lambda>i. rank_delta i a b) (?s a b) = map (\<lambda>i. the (rank_delta i a b)) (?s a b)" for a b
    by (rule deltas_of_common) auto
  have "sum_list (map abs (List.map_filter (\<lambda>i. rank_delta i ?b ?a) (?s ?b ?a))) = sum_list (map ?f (?s ?b ?a))"
    unfolding d map_map by (intro arg_cong [of _ _ sum_list] map_cong refl) (auto simp: distance_swap)
  also have "\<dots> = sum_list (map abs (List.map_filter (\<lambda>i. rank_delta i ?a ?b) (?s ?a ?b)))"
    unfolding d map_map comp_def by (rule shared_swap(2))
  finally have sum: "sum_list (map abs (List.map_filter (\<lambda>i. rank_delta i ?b ?a) (?s ?b ?a))) =
    sum_list (map abs (List.map_filter (\<lambda>i. rank_delta i ?a ?b) (?s ?a ?b)))" .
  have len: "length (List.map_filter (\<lambda>i. rank_delta i ?b ?a) (?s ?b ?a)) = length (List.map_filter (\<lambda>i. rank_delta i ?a ?b) (?s ?a ?b))"
    unfolding d length_map by (rule shared_swap(1))
  then have nil: "List.map_filter (\<lambda>i. rank_delta i ?b ?a) (?s ?b ?a) = [] \<longleftrightarrow> List.map_filter (\<lambda>i. rank_delta i ?a ?b) (?s ?a ?b) = []"
    by (metis length_0_conv)
  show ?thesis
    unfolding compute_query_stats_def Let_def sum len nil shared_swap(1) [of ?a ?b]
    by (auto simp: ab_jaccard_commute [of ?b ?a])
qed

lemma rank_delta_same: "i \<in> set a \<Longrightarrow> rank_delta i a a = Some 0"
  by (simp add: rank_delta_def index_of_def)

lemma round_to_zero [simp]: "round_to n 0 = 0"
  by (simp add: round_to_def round_half_even_def)

lemma stats_same:
  assumes "take upto_n hs \<noteq> []"
  shows "compute_query_stats hs hs upto_n =
    \<lparr>st_j10 = 1, st_j5 = 1, st_top1 = True, st_shared = length (uniq (map fst (take upto_n hs))), st_delta = Some 0,
     st_only_old = [], st_only_new = []\<rparr>"
proof -
  let ?ids = "map fst (take upto_n hs)"
  have f: "filter (\<lambda>i. i \<in> set ?ids) (uniq ?ids) = uniq ?ids" by (simp add: filter_id_conv)
  have d: "List.map_filter (\<lambda>i. rank_delta i ?ids ?ids) (uniq ?ids) = replicate (length (uniq ?ids)) 0"
  proof -
    have "List.map_filter (\<lambda>i. rank_delta i ?ids ?ids) xs = replicate (length xs) 0" if "set xs \<subseteq> set ?ids" for xs
      using that by (induction xs) (simp_all add: List.map_filter_simps rank_delta_same)
    then show ?thesis by simp
  qed
  have "uniq ?ids \<noteq> []" using assms by (metis map_is_Nil_conv set_empty set_uniq)
  then show ?thesis
    using assms unfolding compute_query_stats_def Let_def f d
    by (auto simp: ab_jaccard_eq filter_empty_conv sum_list_replicate)
qed

lemma zip_same: "zip xs xs = map (\<lambda>x. (x, x)) xs"
  by (induction xs) simp_all

text \<open>
  An artifact compared with itself shows no difference: both mean similarities and the stability of the first answer
  are 1, no rank has moved and no query has a low overlap.
\<close>

theorem self_comparison_is_perfect:
  assumes "art \<noteq> []" "list_all (\<lambda>r. take upto_n (ab_hits r) \<noteq> []) art"
  shows "snd (compare_artifacts art art upto_n) =
    \<lparr>ag_n = length art, ag_j10 = Some 1, ag_j5 = Some 1, ag_top1 = Some 1, ag_delta = Some 0, ag_low = []\<rparr>"
proof -
  define res where "res = fst (compare_artifacts art art upto_n)"
  have stats: "list_all (\<lambda>r. st_j10 (ar_stats r) = 1 \<and> st_j5 (ar_stats r) = 1 \<and> st_top1 (ar_stats r) \<and> st_delta (ar_stats r) = Some 0) res"
    using assms(2) by (auto simp: res_def compare_artifacts_def Let_def zip_same list_all_iff stats_same)
  then have "map (\<lambda>r. st_j10 (ar_stats r)) res = replicate (length res) 1" "map (\<lambda>r. st_j5 (ar_stats r)) res = replicate (length res) 1"
      "filter (\<lambda>r. st_top1 (ar_stats r)) res = res" "filter (\<lambda>r. st_j10 (ar_stats r) < 0.3) res = []"
      "List.map_filter (\<lambda>r. st_delta (ar_stats r)) res = replicate (length res) 0"
    by (induction res) (simp_all add: List.map_filter_simps)
  moreover have "length res = length art" "res \<noteq> []" using assms(1) by (auto simp: res_def compare_artifacts_def Let_def zip_same)
  moreover have "snd (compare_artifacts art art upto_n) = aggregate res" by (simp add: res_def compare_artifacts_def Let_def)
  ultimately show ?thesis using assms(1) by (simp add: aggregate_def Let_def sum_list_replicate)
qed

theorem self_comparison_is_perfect_witness:
  "ag_j10 (snd (compare_artifacts [\<lparr>ab_query = ''q'', ab_category = [], ab_hits = [(''a'', ''T'')]\<rparr>]
     [\<lparr>ab_query = ''q'', ab_category = [], ab_hits = [(''a'', ''T'')]\<rparr>] 10)) = Some 1"
  using self_comparison_is_perfect [of "[\<lparr>ab_query = ''q'', ab_category = [], ab_hits = [(''a'', ''T'')]\<rparr>]" 10] by simp

lemma live_compare_records_nothing: "kept (snd (live_compare M baseline upto_n v)) = kept v"
proof -
  have "kept (snd (live_rows M upto_n es v)) = kept v" for es
    by (induction es arbitrary: v) (simp_all add: split_beta kept_search)
  then show ?thesis by (simp add: live_compare_def split_beta)
qed

end
