(* ===== verification/Evaluation.thy ===== *)
theory Evaluation
  imports Recall Reconcile DreamApply
begin

text \<open>
  \<^verbatim>\<open>memem/eval/canaries.py\<close>: memories planted to notice silent loss or promotion, and
  \<^verbatim>\<open>memem/eval/eval_set.py\<close>: cases that plant memories, search and compare. New ids are parameters.
\<close>

section \<open>Canaries\<close>

record canary =
  ca_id :: string
  ca_title :: string
  ca_content :: string
  ca_project :: string
  ca_layer :: int
  ca_query :: string

definition canary :: "string \<Rightarrow> string \<Rightarrow> string \<Rightarrow> int \<Rightarrow> string \<Rightarrow> canary" where
  "canary i t c l q =
     \<lparr>ca_id = i, ca_title = t, ca_content = c, ca_project = ''memem-canary'', ca_layer = l, ca_query = q\<rparr>"

definition ALWAYS_REACHABLE :: "canary list" where
  "ALWAYS_REACHABLE =
     [canary (''canary-always-1'')
        (''memem canary: always-reachable identity fact'')
        (''memem-canary-test: this project is the memem code-agent memory plugin.'') 0
        (''what is the memem-canary project''),
      canary (''canary-always-2'')
        (''memem canary: always-reachable convention'')
        (''memem-canary-test: convention '' @ [em_dash] @ '' always commit before forge tier transitions.'') 0
        (''memem-canary commit convention forge tier''),
      canary (''canary-always-3'')
        (''memem canary: always-reachable invariant'')
        (''memem-canary-test: invariant '' @ [em_dash] @ '' L0 memories must never be auto-decayed.'') 0
        (''memem-canary L0 decay invariant''),
      canary (''canary-always-4'')
        (''memem canary: critical gotcha'')
        (''memem-canary-test: bug pattern '' @ [em_dash] @ '' whitelist normalization drops new fields silently.'') 0
        (''memem-canary whitelist normalization bug''),
      canary (''canary-always-5'')
        (''memem canary: identity fact 5'')
        (''memem-canary-test: vault location is configurable via MEMEM_OBSIDIAN_VAULT.'') 0
        (''memem-canary MEMEM_OBSIDIAN_VAULT configuration'')]"

definition NEVER_ELEVATE :: "canary list" where
  "NEVER_ELEVATE =
     [canary (''canary-never-1'')
        (''memem canary: never-elevate junk 1'')
        (''memem-canary-test: trivial filler, should never become L0/L1/L2.'') 3
        (''memem-canary never elevate junk''),
      canary (''canary-never-2'')
        (''memem canary: never-elevate junk 2'')
        (''memem-canary-test: low-importance archival noise that must stay at L3.'') 3
        (''memem-canary low importance noise''),
      canary (''canary-never-3'')
        (''memem canary: never-elevate junk 3'')
        (''memem-canary-test: rare incident from 2024 '' @ [em_dash] @ '' only relevant if X happens.'') 3
        (''memem-canary 2024 rare incident''),
      canary (''canary-never-4'')
        (''memem canary: never-elevate junk 4'')
        (''memem-canary-test: deprecated workaround for issue #999.'') 3
        (''memem-canary deprecated workaround''),
      canary (''canary-never-5'')
        (''memem canary: never-elevate junk 5'')
        (''memem-canary-test: one-off debugging note.'') 3
        (''memem-canary one-off debugging'')]"

definition all_canaries :: "canary list" where "all_canaries = ALWAYS_REACHABLE @ NEVER_ELEVATE"

text \<open>A canary that cannot be made or saved is skipped.\<close>

definition plant_one ::
  "ext \<Rightarrow> fts_match \<Rightarrow> clock \<Rightarrow> (string \<Rightarrow> string) \<Rightarrow> canary \<Rightarrow> string list \<times> store \<Rightarrow> string list \<times> store" where
  "plant_one X fm clk fresh c ps =
     (let (planted, s) = ps in
      case make_memory scan_memory_content (fresh (ca_id c)) (c_iso clk) (ca_content c) (ca_title c) [''canary'', ''memem-test'']
             (ca_project c) ''user'' [] 3 (Some (ca_layer c)) [] of
        Inl e \<Rightarrow> (planted, s)
      | Inr m \<Rightarrow>
          (case save_memory X fm clk (m\<lparr>decay_immune := True\<rparr>) s of
             (Inl e, s) \<Rightarrow> (planted, s)
           | (Inr m', s) \<Rightarrow> (planted @ [mem_id m], s)))"

definition plant_canaries ::
  "ext \<Rightarrow> fts_match \<Rightarrow> clock \<Rightarrow> (string \<Rightarrow> string) \<Rightarrow> store \<Rightarrow> string list \<times> store" where
  "plant_canaries X fm clk fresh s = fold (plant_one X fm clk fresh) all_canaries ([], s)"

record canary_report =
  cr_pass :: bool
  cr_always :: "string list"
  cr_never :: "string list"
  cr_errors :: "string list"

definition layer_text :: "int option \<Rightarrow> string" where
  "layer_text l = (case l of None \<Rightarrow> ''None'' | Some i \<Rightarrow> str_of_int i)"
definition actual_layer :: "memory \<Rightarrow> int" where
  "actual_layer m = (case layer m of None \<Rightarrow> 2 | Some l \<Rightarrow> l)"

text \<open>The last memory with a title counts. An empty error is none.\<close>

definition always_error :: "(string, memory) dict \<Rightarrow> canary \<Rightarrow> string option" where
  "always_error by_title c =
     (case map_of (rev by_title) (ca_title c) of
        None \<Rightarrow> Some (ca_id c @ '': missing from vault'')
      | Some m \<Rightarrow>
          if actual_layer m \<noteq> ca_layer c
          then Some (ca_id c @ '': layer drift L'' @ layer_text (layer m) @ '' (expected L'' @ str_of_int (ca_layer c) @ '')'')
          else None)"

definition never_error :: "(string, memory) dict \<Rightarrow> canary \<Rightarrow> string option" where
  "never_error by_title c =
     (case map_of (rev by_title) (ca_title c) of
        None \<Rightarrow> None
      | Some m \<Rightarrow>
          if actual_layer m < ca_layer c
          then Some (ca_id c @ '': PROMOTED to L'' @ str_of_int (actual_layer m) @ '' (expected L'' @ str_of_int (ca_layer c) @ '')'')
          else None)"

definition verify_canaries_intact :: "ext \<Rightarrow> clock \<Rightarrow> store \<Rightarrow> canary_report \<times> store" where
  "verify_canaries_intact X clk s =
     (let (ms, s) = obsidian_memories X clk (Some ''memem-canary'') False s;
          by_title = map (\<lambda>m. (title m, m)) ms;
          always = filter (\<lambda>c. always_error by_title c \<noteq> None) ALWAYS_REACHABLE;
          never = filter (\<lambda>c. never_error by_title c \<noteq> None) NEVER_ELEVATE
      in (\<lparr>cr_pass = (always = [] \<and> never = []), cr_always = map ca_id always, cr_never = map ca_id never,
           cr_errors = List.map_filter (always_error by_title) ALWAYS_REACHABLE @ List.map_filter (never_error by_title) NEVER_ELEVATE\<rparr>, s))"

section \<open>Evaluation cases\<close>

type_synonym setup_item = "string \<times> string \<times> string \<times> int \<times> bool"   \<comment> \<open>hint, title, content, importance, to invalidate\<close>

record eval_case =
  ec_id :: string
  ec_ability :: string
  ec_project :: string
  ec_setup :: "setup_item list"
  ec_query :: string
  ec_present :: "string list"
  ec_absent :: "string list"

definition eval_case ::
  "string \<times> string \<times> string \<times> setup_item list \<times> string \<times> string list \<times> string list \<Rightarrow> eval_case" where
  "eval_case x =
     (let (i, a, p, su, q, pr, ab) = x in
      \<lparr>ec_id = i, ec_ability = a, ec_project = p, ec_setup = su, ec_query = q, ec_present = pr, ec_absent = ab\<rparr>)"

definition EVAL_SET :: "eval_case list" where
  "EVAL_SET =
     [eval_case (''extract-1'', ''extraction'', ''evaltest'',
         [(''extract-1-target'', ''JWT uses RS256'', ''evaltest: JWT signing algorithm is RS256 (not HS256). Decided 2026-01-15.'', 3, False),
          (''extract-1-noise'', ''noise about deploys'', ''evaltest: deploys happen on Tuesdays.'', 3, False)],
         ''what JWT algorithm does evaltest use'', [''extract-1-target''], []),
      eval_case (''multi-1'', ''multi_session'', ''evaltest'',
         [(''multi-1-a'', ''auth uses RS256 JWTs'', ''evaltest: auth uses RS256-signed JWTs.'', 3, False),
          (''multi-1-b'', ''RS256 keys rotate every 90 days'', ''evaltest: RS256 signing keys rotate every 90 days via KMS.'', 3, False)],
         ''evaltest auth key rotation policy RS256'', [''multi-1-a'', ''multi-1-b''], []),
      eval_case (''temporal-1'', ''temporal'', ''evaltest'',
         [(''temporal-1-old'', ''old config: PORT 3000'', ''evaltest: server runs on PORT 3000.'', 2, False),
          (''temporal-1-new'', ''current: PORT 8080'', ''evaltest: server runs on PORT 8080 (updated from 3000).'', 4, False)],
         ''evaltest server port'', [''temporal-1-new''], []),
      eval_case (''knowledge-update-1'', ''knowledge_update'', ''evaltest'',
         [(''ku-1-stale'', ''deprecated DB host'', ''evaltest: database lives at db.old.example.com'', 3, True),
          (''ku-1-current'', ''current DB host'', ''evaltest: database lives at db.new.example.com (replaces old)'', 3, False)],
         ''evaltest database host'', [''ku-1-current''], [''ku-1-stale'']),
      eval_case (''abstain-1'', ''abstention'', ''evaltest'',
         [(''abstain-1-noise'', ''unrelated note about CSS'', ''evaltest: prefer Tailwind over Bootstrap for new components.'', 3, False)],
         ''payment provider stripe kafka integration bus'', [], [])]"

record eval_result =
  er_id :: string
  er_ability :: string
  er_pass :: bool
  er_missing :: "string list"
  er_present :: "string list"
  er_errors :: "string list"

definition case_fails :: "eval_case \<Rightarrow> string \<Rightarrow> eval_result" where  \<comment> \<open>the ability is not in this answer\<close>
  "case_fails c err =
     \<lparr>er_id = ec_id c, er_ability = ''?'', er_pass = False, er_missing = [], er_present = [], er_errors = [err]\<rparr>"

text \<open>Planting stops at the first item that cannot be saved.\<close>

fun plant_setup ::
  "recall_env \<Rightarrow> (string \<Rightarrow> string) \<Rightarrow> string \<Rightarrow> setup_item list \<Rightarrow> (string, string) dict \<Rightarrow> recall_state \<Rightarrow>
   (string + (string, string) dict) \<times> recall_state" where
  "plant_setup M fresh proj [] ids v = (Inr ids, v)"
| "plant_setup M fresh proj ((hint, ttl, content, imp, stale) # items) ids v =
     (case make_memory scan_memory_content (fresh hint) (c_iso (m_clock M)) content ttl [] proj ''user'' [] imp None [] of
        Inl e \<Rightarrow> (Inl (''setup '' @ hint @ '': '' @ error_text e), v)
      | Inr m \<Rightarrow>
          (case in_vault (save_memory (m_ext M) (r_fts (m_engine M)) (m_clock M) m) v of
             (Inl e, v) \<Rightarrow> (Inl (''setup '' @ hint @ '': '' @ error_text e), v)
           | (Inr m', v) \<Rightarrow> plant_setup M fresh proj items (AList.update hint (mem_id m) ids) v))"

text \<open>\<open>None\<close> raises: an invalidation failed.\<close>

fun invalidate_setup :: "recall_env \<Rightarrow> setup_item list \<Rightarrow> (string, string) dict \<Rightarrow> recall_state \<Rightarrow> recall_state option" where
  "invalidate_setup M [] ids v = Some v"
| "invalidate_setup M ((hint, ttl, content, imp, stale) # items) ids v =
     (case (stale, map_of ids hint) of
        (True, Some i) \<Rightarrow>
          if i = [] then invalidate_setup M items ids v
          else (case in_vault (invalidate_memory (m_ext M) (m_clock M) i None) v of
                  (Inl e, v) \<Rightarrow> None
                | (Inr b, v) \<Rightarrow> invalidate_setup M items ids v)
      | _ \<Rightarrow> invalidate_setup M items ids v)"

text \<open>Which expected hints were planted, and found or not.\<close>

definition judge_case :: "eval_case \<Rightarrow> (string, string) dict \<Rightarrow> memory list \<Rightarrow> eval_result" where
  "judge_case c ids results =
     (let found_ids = map mem_id (filter (\<lambda>m. invalid_at m = None) results);
          planted = (\<lambda>h. case map_of ids h of None \<Rightarrow> [] | Some i \<Rightarrow> i);
          missing = filter (\<lambda>h. planted h \<noteq> [] \<and> planted h \<notin> set found_ids) (ec_present c);
          extra = filter (\<lambda>h. planted h \<noteq> [] \<and> planted h \<in> set found_ids) (ec_absent c)
      in \<lparr>er_id = ec_id c, er_ability = ec_ability c, er_pass = (missing = [] \<and> extra = []), er_missing = missing,
          er_present = extra, er_errors = []\<rparr>)"

text \<open>\<open>live\<close>: neither is the override set nor does the vault differ from the default one. \<open>None\<close> raises.\<close>

definition run_eval_case ::
  "recall_env \<Rightarrow> bool \<Rightarrow> (string \<Rightarrow> string) \<Rightarrow> eval_case \<Rightarrow> recall_state \<Rightarrow> (eval_result \<times> recall_state) option" where
  "run_eval_case M live fresh c v =
     (if live then None
      else (case plant_setup M fresh (ec_project c) (ec_setup c) [] v of
              (Inl err, v) \<Rightarrow> Some (case_fails c err, v)
            | (Inr ids, v) \<Rightarrow>
                (case invalidate_setup M (ec_setup c) ids v of
                   None \<Rightarrow> None
                 | Some v \<Rightarrow>
                     (case search_memories M (ec_query c) (ec_project c) 20 True True None v of
                        (None, v) \<Rightarrow> Some (case_fails c ''recall: '', v)
                      | (Some ms, v) \<Rightarrow> Some (judge_case c ids ms, v)))))"

fun run_cases ::
  "recall_env \<Rightarrow> bool \<Rightarrow> (string \<Rightarrow> string) \<Rightarrow> eval_case list \<Rightarrow> recall_state \<Rightarrow> (eval_result list \<times> recall_state) option" where
  "run_cases M live fresh [] v = Some ([], v)"
| "run_cases M live fresh (c # cs) v =
     (case run_eval_case M live fresh c v of
        None \<Rightarrow> None
      | Some (r, v) \<Rightarrow> map_option (\<lambda>(rs, v). (r # rs, v)) (run_cases M live fresh cs v))"

record eval_summary =
  ev_total :: nat
  ev_passed :: nat
  ev_failed :: nat
  ev_by_ability :: "(string \<times> nat \<times> nat) list"
  ev_results :: "eval_result list"

definition summarize :: "eval_result list \<Rightarrow> eval_summary" where
  "summarize rs =
     (let count = (\<lambda>P a. length (filter (\<lambda>r. er_ability r = a \<and> P r) rs)) in
      \<lparr>ev_total = length rs, ev_passed = length (filter er_pass rs), ev_failed = length (filter (\<lambda>r. \<not> er_pass r) rs),
       ev_by_ability = map (\<lambda>a. (a, count er_pass a, count (\<lambda>r. \<not> er_pass r) a)) (uniq (map er_ability rs)),
       ev_results = rs\<rparr>)"

definition run_all_cases ::
  "recall_env \<Rightarrow> bool \<Rightarrow> (string \<Rightarrow> string) \<Rightarrow> recall_state \<Rightarrow> (eval_summary \<times> recall_state) option" where
  "run_all_cases M live fresh v = map_option (\<lambda>(rs, v). (summarize rs, v)) (run_cases M live fresh EVAL_SET v)"

section \<open>Planting\<close>

lemma save_keeps_vault:
  assumes "save_memory X fm clk m s = (Inr m', t)" shows "vault_ok t = vault_ok s"
proof -
  obtain m1 s1 where p: "prepare_save X fm clk m (s\<lparr>dir_ok := True\<rparr>) = (m1, s1)" by fastforce
  then have s1: "vault_ok s1 = vault_ok s"
    using others_vault [OF others_prepare [of X fm clk m "s\<lparr>dir_ok := True\<rparr>"]] by simp
  obtain t1 where w: "write_obsidian_memory X clk m1 s1 = Inr (m', t1)" and t: "t = finish_save X clk m' t1"
    using assms by (auto simp: save_memory_def p split: sum.splits if_splits)
  have "vault_ok t1 = vault_ok s" using others_vault [OF others_write [OF w]] s1 by simp
  moreover have "vault_ok (finish_save X clk m' t1) = vault_ok t1"
  proof -
    have warm: "vault_ok (cache_refresh_from_disk X i u) = vault_ok u" for i u by (rule others_vault) simp
    have re: "vault_ok (refresh_edges X clk i u) = vault_ok u" for i u
    proof -
      obtain r v where f: "find_memory X clk i u = (r, v)" by fastforce
      have v: "vault_ok v = vault_ok u" using others_vault [OF others_find [of X clk i u]] f by simp
      obtain ms w where g: "obsidian_memories X clk None False v = (ms, w)" by fastforce
      have w: "vault_ok w = vault_ok v" using others_vault [OF others_memories [of X clk None False v]] g by simp
      show ?thesis by (cases r) (simp_all add: refresh_edges_def f g v w)
    qed
    show ?thesis by (simp add: finish_save_def Let_def re fts_index_def update_index_line_def log_event_def warm)
  qed
  ultimately show ?thesis by (simp add: t)
qed

lemma plant_one_saves:
  assumes "vault_ok s" "length (strip_of ''.'' (strip (ca_content c))) \<ge> 10" "scan_memory_content (ca_content c) = None"
    "scan_memory_content (ca_title c) = None" "0 \<le> ca_layer c \<and> ca_layer c \<le> 3"
  shows "\<exists>t. plant_one X fm clk fresh c (planted, s) = (planted @ [fresh (ca_id c)], t) \<and> vault_ok t \<and>
    kinds t = kinds s @ [''save'']"
proof -
  obtain m where m: "make_memory scan_memory_content (fresh (ca_id c)) (c_iso clk) (ca_content c) (ca_title c) [''canary'', ''memem-test'']
      (ca_project c) ''user'' [] 3 (Some (ca_layer c)) [] = Inr m" "mem_id m = fresh (ca_id c)"
    using assms(2-5) by (cases "ca_title c = []") (simp_all add: make_memory_def Let_def)
  obtain m' t where sv: "save_memory X fm clk (m\<lparr>decay_immune := True\<rparr>) s = (Inr m', t)"
    using save_in_vault [OF assms(1)] by blast
  have "vault_ok t" using save_keeps_vault [OF sv] assms(1) by simp
  with m sv kinds_save(1) [OF sv] show ?thesis by (simp add: plant_one_def)
qed

lemma plant_one_logs:
  assumes "plant_one X fm clk fresh c (planted, s) = (planted', t)"
  shows "\<exists>new. planted' = planted @ new \<and> kinds t = kinds s @ replicate (length new) ''save''"
proof (cases "make_memory scan_memory_content (fresh (ca_id c)) (c_iso clk) (ca_content c) (ca_title c) [''canary'', ''memem-test'']
      (ca_project c) ''user'' [] 3 (Some (ca_layer c)) []")
  case (Inr m)
  obtain r u where r: "save_memory X fm clk (m\<lparr>decay_immune := True\<rparr>) s = (r, u)" by fastforce
  show ?thesis
  proof (cases r)
    case (Inr m')
    with r kinds_save(1) assms \<open>make_memory _ _ _ _ _ _ _ _ _ _ _ _ = Inr m\<close> show ?thesis
      by (intro exI [of _ "[mem_id m]"]) (simp add: plant_one_def)
  next
    case (Inl e)
    with r kinds_save(2) assms \<open>make_memory _ _ _ _ _ _ _ _ _ _ _ _ = Inr m\<close> show ?thesis
      by (intro exI [of _ "[]"]) (simp add: plant_one_def)
  qed
qed (use assms in \<open>simp add: plant_one_def\<close>)

lemma plant_all_logs:
  "fold (plant_one X fm clk fresh) cs (planted, s) = (planted', t) \<Longrightarrow>
   \<exists>new. planted' = planted @ new \<and> kinds t = kinds s @ replicate (length new) ''save''"
proof (induction cs arbitrary: planted s)
  case (Cons c cs)
  obtain p u where u: "plant_one X fm clk fresh c (planted, s) = (p, u)" by fastforce
  from plant_one_logs [OF u] obtain n1 where n1: "p = planted @ n1" "kinds u = kinds s @ replicate (length n1) ''save''" by blast
  from Cons.IH [of p u] Cons.prems u obtain n2 where "planted' = p @ n2" "kinds t = kinds u @ replicate (length n2) ''save''" by auto
  with n1 show ?case by (intro exI [of _ "n1 @ n2"]) (simp add: replicate_add)
qed simp

text \<open>
  Planting the canaries does nothing but save: the log gains exactly one save for each memory it
  says it planted.
\<close>

theorem planting_only_saves:
  assumes "plant_canaries X fm clk fresh s = (planted, t)"
  shows "kinds t = kinds s @ replicate (length planted) ''save''"
  using plant_all_logs [of X fm clk fresh all_canaries "[]" s planted t] assms by (auto simp: plant_canaries_def)

text \<open>
  The canaries pass exactly when every one that must stay reachable is in the vault at its layer and none of the
  others has come to a layer above its own; whether its query still finds a canary is not asked.
\<close>

theorem canaries_pass_iff:
  "cr_pass (fst (verify_canaries_intact X clk s)) \<longleftrightarrow>
     (let by_title = map_of (rev (map (\<lambda>m. (title m, m)) (fst (obsidian_memories X clk (Some ''memem-canary'') False s)))) in
      list_all (\<lambda>c. \<exists>m. by_title (ca_title c) = Some m \<and> actual_layer m = ca_layer c) ALWAYS_REACHABLE \<and>
      list_all (\<lambda>c. case by_title (ca_title c) of None \<Rightarrow> True | Some m \<Rightarrow> \<not> actual_layer m < ca_layer c) NEVER_ELEVATE)"
proof -
  have a: "always_error d c = None \<longleftrightarrow> (\<exists>m. map_of (rev d) (ca_title c) = Some m \<and> actual_layer m = ca_layer c)" for d c
    by (auto simp: always_error_def split: option.split)
  have n: "never_error d c = None \<longleftrightarrow> (case map_of (rev d) (ca_title c) of None \<Rightarrow> True | Some m \<Rightarrow> \<not> actual_layer m < ca_layer c)" for d c
    by (auto simp: never_error_def split: option.split)
  show ?thesis
    unfolding verify_canaries_intact_def Let_def split_beta
    by (simp only: fst_conv canary_report.simps filter_empty_conv list_all_iff a n not_not)
qed

section \<open>Counting results\<close>

lemma count_split: "length (filter P xs) + length (filter (\<lambda>x. \<not> P x) xs) = length xs"
  by (induction xs) auto

lemma sum_groups: "distinct as \<Longrightarrow> f ` set rs \<subseteq> set as \<Longrightarrow> (\<Sum>a \<leftarrow> as. length (filter (\<lambda>r. f r = a \<and> P r) rs)) = length (filter P rs)"
proof (induction rs)
  case (Cons r rs)
  have one: "distinct as \<Longrightarrow> x \<in> set as \<Longrightarrow> (\<Sum>a \<leftarrow> as. if x = a then g a + 1 else g a) = (\<Sum>a \<leftarrow> as. g a) + (1 :: nat)" for x g
  proof (induction as)
    case (Cons b bs)
    show ?case
    proof (cases "x = b")
      case True
      then have "map (\<lambda>a. if x = a then g a + 1 else g a) bs = map g bs" using Cons.prems(1) by (intro map_cong) auto
      with True show ?thesis by (simp only: list.map) simp
    qed (use Cons in auto)
  qed simp
  have "(\<Sum>a \<leftarrow> as. length (filter (\<lambda>s. f s = a \<and> P s) (r # rs))) =
      (\<Sum>a \<leftarrow> as. if f r = a \<and> P r then length (filter (\<lambda>s. f s = a \<and> P s) rs) + 1 else length (filter (\<lambda>s. f s = a \<and> P s) rs))"
    by (intro arg_cong [where f = sum_list] map_cong) auto
  with Cons one [of "f r" "\<lambda>a. length (filter (\<lambda>s. f s = a \<and> P s) rs)"] show ?case by (cases "P r") simp_all
qed simp

text \<open>
  The summary of an evaluation loses no case: passed and failed cases add up to all of them, and so do
  the counts by ability.
\<close>

theorem summary_counts_every_case:
  "ev_passed (summarize rs) + ev_failed (summarize rs) = ev_total (summarize rs) \<and>
   (\<Sum>(a, p, f) \<leftarrow> ev_by_ability (summarize rs). p + f) = ev_total (summarize rs)"
proof -
  have "(\<Sum>a \<leftarrow> uniq (map er_ability rs). length (filter (\<lambda>r. er_ability r = a \<and> P r) rs)) = length (filter P rs)" for P
    by (rule sum_groups) auto
  then show ?thesis
    using count_split [of er_pass rs] by (simp add: summarize_def Let_def comp_def sum_list_addf)
qed

text \<open>Against the live vault without the override nothing runs, and nothing is written.\<close>

lemma eval_refuses_live_vault: "run_all_cases M True fresh v = None"
  by (simp add: run_all_cases_def EVAL_SET_def run_eval_case_def)

theorem planting_only_saves_witness:
  "\<exists>planted t. plant_canaries sample_ext (\<lambda>q r. r) sample_clock id empty_store = (planted, t) \<and>
     kinds t = replicate (length planted) ''save''"
proof -
  obtain planted t where r: "plant_canaries sample_ext (\<lambda>q r. r) sample_clock id empty_store = (planted, t)" by fastforce
  from planting_only_saves [OF r] r show ?thesis by (simp add: kinds_def empty_store_def)
qed

end
