(* ===== verification/CliArgs.thy ===== *)
theory CliArgs
  imports Notes
begin

text \<open>
  Reading the command line (\<^verbatim>\<open>cli.py\<close>): the options of \<^verbatim>\<open>slice\<close>, of \<^verbatim>\<open>--record-lesson\<close>, of
  \<^verbatim>\<open>eval export\<close> and \<^verbatim>\<open>eval replay\<close>, and the excluded ids of \<^verbatim>\<open>--purge-contaminated\<close> and
  \<^verbatim>\<open>--migrate-layers\<close>. An index loop that takes one or two arguments at a time is a recursion
  over the arguments that are left.
\<close>

section \<open>The slice command\<close>

datatype env_value =
    One string
  | Many "string list"
  | Yes

definition append_env_list :: "(string, env_value) dict \<Rightarrow> string \<Rightarrow> string \<Rightarrow> (string, env_value) dict" where
  "append_env_list env key v =
     AList.update key (Many ((case map_of env key of Some (Many vs) \<Rightarrow> vs | _ \<Rightarrow> []) @ [v])) env"

record slice_args =
  sa_scope :: string
  sa_file :: string
  sa_words :: "string list"
  sa_env :: "(string, env_value) dict"

definition put_env :: "string list \<Rightarrow> string \<Rightarrow> slice_args \<Rightarrow> slice_args" where
  "put_env ks v a = a\<lparr>sa_env := fold (\<lambda>k. AList.update k (One v)) ks (sa_env a)\<rparr>"

text \<open>The options that take the next argument, and what they do with it.\<close>

definition with_argument :: "string \<Rightarrow> (string \<Rightarrow> slice_args \<Rightarrow> slice_args) option" where
  "with_argument x =
     (if x = ''--query-file'' then Some (\<lambda>v a. a\<lparr>sa_file := v\<rparr>)
      else if x = ''--scope'' then Some (\<lambda>v a. a\<lparr>sa_scope := v\<rparr>)
      else if x = ''--session-id'' then Some (put_env [''session_id''])
      else if x \<in> {''--repo-path'', ''--cwd''} then Some (put_env [''repo_path'', ''cwd''])
      else if x = ''--task-mode'' then Some (put_env [''task_mode''])
      else if x = ''--current-file'' then Some (put_env [''current_file''])
      else if x = ''--open-file'' then Some (\<lambda>v a. a\<lparr>sa_env := append_env_list (sa_env a) ''open_files'' v\<rparr>)
      else if x = ''--modified-file'' then Some (\<lambda>v a. a\<lparr>sa_env := append_env_list (sa_env a) ''modified_files'' v\<rparr>)
      else if x = ''--artifact-path'' then Some (put_env [''artifact_path''])
      else if x = ''--branch'' then Some (put_env [''branch''])
      else if x = ''--task-name'' then Some (put_env [''task_name''])
      else if x = ''--stakeholder'' then Some (put_env [''stakeholder''])
      else if x = ''--deadline'' then Some (put_env [''deadline''])
      else None)"

definition bare_flags :: "string list" where
  "bare_flags = [''--json'', ''--no-llm'', ''--writeback-preview'', ''--auto-commit-safe'']"

definition bare_argument :: "string \<Rightarrow> slice_args \<Rightarrow> slice_args" where
  "bare_argument x a =
     (if x \<in> set bare_flags then a
      else if x = ''--include-history'' then a\<lparr>sa_env := AList.update ''include_history'' Yes (sa_env a)\<rparr>
      else if x = ''--include-transcripts'' then a\<lparr>sa_env := AList.update ''include_transcripts'' Yes (sa_env a)\<rparr>
      else a\<lparr>sa_words := sa_words a @ [x]\<rparr>)"

fun slice_arguments :: "string list \<Rightarrow> slice_args \<Rightarrow> slice_args" where
  "slice_arguments [] a = a"
| "slice_arguments (x # xs) a =
     (case with_argument x of
        Some f \<Rightarrow> (case xs of [] \<Rightarrow> a | v # ys \<Rightarrow> slice_arguments ys (f v a))
      | None \<Rightarrow> slice_arguments xs (bare_argument x a))"

record slice_command =
  sc_query :: string
  sc_scope :: string
  sc_llm :: bool
  sc_json :: bool
  sc_env :: "(string, env_value) dict"
  sc_preview :: bool
  sc_commit :: bool

text \<open>
  \<open>stdin\<close> and \<open>read_file\<close> stand for the two places a query can come from; \<open>None\<close>: the file
  cannot be read and the program exits.
\<close>

definition parse_slice_command :: "string \<Rightarrow> (string \<Rightarrow> string option) \<Rightarrow> string list \<Rightarrow> slice_command option" where
  "parse_slice_command stdin read_file argv =
     (let a = slice_arguments (drop 2 argv) \<lparr>sa_scope = ''default'', sa_file = [], sa_words = [], sa_env = []\<rparr>;
          query = (if sa_file a = [] then Some (strip (join '' '' (sa_words a)))
                   else if sa_file a = ''-'' then Some (strip stdin)
                   else map_option strip (read_file (sa_file a)))
      in map_option (\<lambda>q.
           \<lparr>sc_query = q, sc_scope = sa_scope a, sc_llm = (''--no-llm'' \<notin> set argv), sc_json = (''--json'' \<in> set argv),
            sc_env = sa_env a, sc_preview = (''--writeback-preview'' \<in> set argv),
            sc_commit = (''--auto-commit-safe'' \<in> set argv)\<rparr>) query)"

section \<open>Lessons, exports and replays\<close>

record lesson_args =
  la_memory :: string
  la_class :: string
  la_anti :: string
  la_evidence :: string
  la_source :: string

definition lesson_flag :: "string \<Rightarrow> (string \<Rightarrow> lesson_args \<Rightarrow> lesson_args) option" where
  "lesson_flag x =
     (if x = ''--memory-id'' then Some (\<lambda>v a. a\<lparr>la_memory := v\<rparr>)
      else if x = ''--query-class'' then Some (\<lambda>v a. a\<lparr>la_class := v\<rparr>)
      else if x = ''--anti-pattern'' then Some (\<lambda>v a. a\<lparr>la_anti := v\<rparr>)
      else if x = ''--evidence'' then Some (\<lambda>v a. a\<lparr>la_evidence := v\<rparr>)
      else if x = ''--source'' then Some (\<lambda>v a. a\<lparr>la_source := v\<rparr>)
      else None)"

fun lesson_arguments :: "string list \<Rightarrow> lesson_args \<Rightarrow> lesson_args" where
  "lesson_arguments (x # v # xs) a =
     (case lesson_flag x of
        Some f \<Rightarrow> lesson_arguments xs (f v a)
      | None \<Rightarrow> lesson_arguments (v # xs) a)"
| "lesson_arguments _ a = a"

definition no_lesson :: lesson_args where
  "no_lesson = \<lparr>la_memory = [], la_class = [], la_anti = [], la_evidence = [], la_source = ''manual''\<rparr>"

text \<open>\<^verbatim>\<open>7d\<close>, \<^verbatim>\<open>24h\<close>, \<^verbatim>\<open>30m\<close> or seconds; \<open>float\<close> is Python's, \<open>None\<close> for a \<^verbatim>\<open>ValueError\<close>.\<close>

definition since_seconds :: "(string \<Rightarrow> real option) \<Rightarrow> string \<Rightarrow> real option" where
  "since_seconds float spec =
     (if ends_with spec ''d'' then map_option (\<lambda>r. r * 86400) (float (butlast spec))
      else if ends_with spec ''h'' then map_option (\<lambda>r. r * 3600) (float (butlast spec))
      else if ends_with spec ''m'' then map_option (\<lambda>r. r * 60) (float (butlast spec))
      else float spec)"

fun export_arguments ::
  "(string \<Rightarrow> real option) \<Rightarrow> string list \<Rightarrow> real option \<times> string option \<Rightarrow> (real option \<times> string option) option" where
  "export_arguments float (x # v # xs) (since, out) =
     (if x = ''--since'' then
        (case since_seconds float v of None \<Rightarrow> None | Some r \<Rightarrow> export_arguments float xs (Some r, out))
      else if x = ''--out'' then export_arguments float xs (since, Some v)
      else export_arguments float (v # xs) (since, out))"
| "export_arguments float _ r = Some r"

record replay_args =
  ra_baseline :: "string option"
  ra_k :: int
  ra_dual :: bool

fun replay_arguments :: "string list \<Rightarrow> replay_args \<Rightarrow> replay_args option" where
  "replay_arguments (x # v # xs) a =
     (if x = ''--against'' then replay_arguments xs (a\<lparr>ra_baseline := Some v\<rparr>)
      else if x = ''--k'' then
        (case int_of_text v of None \<Rightarrow> None | Some k \<Rightarrow> replay_arguments xs (a\<lparr>ra_k := k\<rparr>))
      else replay_arguments (v # xs) (if x = ''--dual-engine'' then a\<lparr>ra_dual := True\<rparr> else a))"
| "replay_arguments [x] a = Some (if x = ''--dual-engine'' then a\<lparr>ra_dual := True\<rparr> else a)"
| "replay_arguments [] a = Some a"

section \<open>Excluded ids\<close>

text \<open>\<^verbatim>\<open>argv[argv.index(flag) + 1]\<close>: \<open>None\<close> without the flag, \<open>Some None\<close> when nothing follows it.\<close>

definition after_flag :: "string \<Rightarrow> string list \<Rightarrow> string option option" where
  "after_flag flag argv =
     (case dropWhile (\<lambda>x. x \<noteq> flag) argv of
        [] \<Rightarrow> None
      | [_] \<Rightarrow> Some None
      | _ # v # _ \<Rightarrow> Some (Some v))"

definition hex8 :: "string \<Rightarrow> bool" where
  "hex8 t \<longleftrightarrow> length t = 8 \<and> list_all (\<lambda>c. is_digit c \<or> CHR ''a'' \<le> c \<and> c \<le> CHR ''f'') t"

datatype exclusion =
    NoArgument
  | BadToken string
  | Excluded "string list"

definition exclude_tokens :: "string \<Rightarrow> string list" where
  "exclude_tokens raw = filter (\<lambda>t. t \<noteq> []) (map strip (split_char (CHR '','') raw))"

definition parse_exclude :: "string list \<Rightarrow> exclusion" where
  "parse_exclude argv =
     (case after_flag ''--exclude'' argv of
        None \<Rightarrow> Excluded []
      | Some None \<Rightarrow> NoArgument
      | Some (Some raw) \<Rightarrow>
          let ts = exclude_tokens raw in
          (case find (\<lambda>t. \<not> hex8 t) ts of Some t \<Rightarrow> BadToken t | None \<Rightarrow> Excluded ts))"

section \<open>What is typed is what is read\<close>

definition is_option :: "string \<Rightarrow> bool" where
  "is_option x \<longleftrightarrow> with_argument x \<noteq> None \<or> x \<in> set bare_flags \<or> x \<in> {''--include-history'', ''--include-transcripts''}"

lemma plain_words: "list_all (\<lambda>w. \<not> is_option w) ws \<Longrightarrow> slice_arguments (ws @ xs) a = slice_arguments xs (a\<lparr>sa_words := sa_words a @ ws\<rparr>)"
  by (induction ws arbitrary: a) (auto simp: is_option_def bare_argument_def)

end
