(* ===== verification/Doctor.thy ===== *)
theory Doctor
  imports Evaluation
begin

text \<open>
  The health check (\<^verbatim>\<open>capabilities.py\<close> and the \<^verbatim>\<open>--doctor\<close> command of \<^verbatim>\<open>cli.py\<close>): the probes,
  the report, the integrity of the three databases, contaminated rows of the recall log, the
  transcript index and the canaries. What a probe of the machine finds is a parameter. A command
  answers with the texts it prints, one for each \<^verbatim>\<open>print\<close>.
\<close>

section \<open>Capabilities\<close>

record capabilities =
  cap_updated_at :: string
  cap_python :: string
  cap_mcp :: bool
  cap_claude :: bool
  cap_state_dir :: bool
  cap_vault :: bool
  cap_uv :: bool
  cap_notes :: "string list"

text \<open>
  What the probes meet: whether \<^verbatim>\<open>find_spec\<close> finds the package (\<open>None\<close>: it raises), whether
  \<^verbatim>\<open>claude\<close> is on the path and the return code of \<^verbatim>\<open>claude --version\<close> (\<open>None\<close>: it cannot be
  run or takes too long), and for a directory which of making it, writing and removing a file fails.
\<close>

record machine =
  mc_now :: string
  mc_python :: string
  mc_mcp :: "bool option"
  mc_claude :: "int option option"
  mc_uv :: bool
  mc_state_dir :: "bool list"
  mc_vault :: "bool list"

definition can_write :: "bool list \<Rightarrow> bool" where
  "can_write calls = list_all id calls"

definition mcp_importable :: "machine \<Rightarrow> bool" where
  "mcp_importable w = (case mc_mcp w of None \<Rightarrow> False | Some b \<Rightarrow> b)"

definition claude_cli_available :: "machine \<Rightarrow> bool" where
  "claude_cli_available w = (case mc_claude w of None \<Rightarrow> False | Some None \<Rightarrow> False | Some (Some code) \<Rightarrow> code = 0)"

definition detect_capabilities :: "machine \<Rightarrow> capabilities" where
  "detect_capabilities w =
     \<lparr>cap_updated_at = mc_now w, cap_python = mc_python w, cap_mcp = mcp_importable w, cap_claude = claude_cli_available w,
      cap_state_dir = can_write (mc_state_dir w), cap_vault = can_write (mc_vault w), cap_uv = mc_uv w, cap_notes = []\<rparr>"

definition blocker_lines :: "capabilities \<Rightarrow> string list" where
  "blocker_lines c =
     (if cap_mcp c then [] else [''mcp package missing '' @ [em_dash] @ '' MCP server cannot start''])
     @ (if cap_state_dir c then [] else [''~/.memem is not writable''])
     @ (if cap_vault c then [] else [''obsidian vault directory is not writable''])"

definition pretty_report :: "capabilities \<Rightarrow> string" where
  "pretty_report c =
     (let bar = replicate 40 (CHR ''=''); dash = '' '' @ [em_dash] @ '' ''; bs = blocker_lines c in
      join [NL]
        ([''memem Doctor'', bar,
          ''  Python version     : '' @ cap_python c,
          ''  mcp importable     : '' @ (if cap_mcp c then ''yes'' else ''NO'' @ dash @ ''pip install mcp''),
          ''  claude CLI on PATH : '' @ (if cap_claude c then ''yes'' else ''NO'' @ dash @ ''Haiku assembly disabled (degraded)''),
          ''  uv available       : '' @ (if cap_uv c then ''yes'' else ''no (bootstrap.sh will install)''),
          ''  state dir writable : '' @ (if cap_state_dir c then ''yes'' else ''NO'' @ dash @ ''set MEMEM_DIR env var''),
          ''  vault writable     : '' @ (if cap_vault c then ''yes'' else ''NO'' @ dash @ ''set MEMEM_OBSIDIAN_VAULT env var''),
          ''  updated_at         : '' @ cap_updated_at c, bar]
         @ (if cap_notes c = [] then [] else ''Notes:'' # map (\<lambda>n. ''  - '' @ n) (cap_notes c) @ [bar])
         @ (if bs \<noteq> []
            then ''BLOCKERS:'' # map (\<lambda>b. ''  ? '' @ b) bs
              @ [bar, ''RESULT: FAILING'' @ dash @ ''fix blockers above before first use.'']
            else [''RESULT: '' @ (if cap_claude c then ''HEALTHY'' else ''DEGRADED (FTS-only recall, no Haiku assembly)'')])))"

section \<open>Integrity\<close>

text \<open>
  A database: absent, or what \<^verbatim>\<open>PRAGMA integrity_check\<close> gives, an error of SQLite, no row, or the
  text of the first row.
\<close>

datatype integrity =
    Absent
  | SqliteError string
  | NoRow
  | Row string

definition db_verdict :: "string \<Rightarrow> integrity \<Rightarrow> bool \<times> string" where
  "db_verdict label i =
     (case i of
        Absent \<Rightarrow> (False, ''  [skip] '' @ label @ '': not present'')
      | SqliteError e \<Rightarrow> (True, ''  [FAIL] '' @ label @ '': sqlite error: '' @ e)
      | NoRow \<Rightarrow> (True, ''  [FAIL] '' @ label @ '': no result'')
      | Row r \<Rightarrow>
          if r = ''ok'' then (False, ''  [ok]   '' @ label @ '': integrity_check passed'')
          else (True, ''  [FAIL] '' @ label @ '': '' @ r))"

definition run_integrity_check :: "bool \<Rightarrow> (string \<times> integrity) list \<Rightarrow> bool \<times> string list" where
  "run_integrity_check verbose dbs =
     (let vs = map (\<lambda>(label, i). db_verdict label i) dbs
      in (list_ex fst vs, if verbose then map snd vs else []))"

definition integrity_command :: "(string \<times> integrity) list \<Rightarrow> string list \<times> nat" where
  "integrity_command dbs = (let (failed, out) = run_integrity_check True dbs in (out, if failed then 1 else 0))"

section \<open>Advisories\<close>

text \<open>
  Rows that look like test traffic. A row that is no JSON, is no object, or has a query that is
  no text raises and is passed over. No rows at all stands for a log that is missing or cannot be read.
\<close>

definition test_shaped :: "json option \<Rightarrow> bool" where
  "test_shaped row =
     (case row of
        Some (JObj e) \<Rightarrow>
          (case jget_or e ''query'' (JStr []) of
             JStr q \<Rightarrow>
               q \<in> {''test query'', ''warmup query''} \<or> contains q ''alpha beta memory'' \<or> contains q ''cache test memory''
               \<or> json_truthy (jget e ''source_tag'')
           | _ \<Rightarrow> False)
      | _ \<Rightarrow> False)"

definition contamination_lines :: "json option list option \<Rightarrow> string list" where
  "contamination_lines rlog =
     (case rlog of
        None \<Rightarrow> []
      | Some ls \<Rightarrow>
          let n = length (filter test_shaped ls) in
          if n = 0 then []
          else [NL # ''[advisory] '' @ str_of_nat n @ '' test-shaped rows in recall log (telemetry contamination). Rows with a source_tag field are auto-excluded from --analyze-recalls (pass --include-tagged to inspect). Legacy rows matched only by hardcoded query strings are flagged here but are NOT auto-excluded from --analyze-recalls.''])"

text \<open>The transcript index: absent, unreadable, or with so many rows.\<close>

definition transcript_lines :: "nat option option \<Rightarrow> string list" where
  "transcript_lines db =
     (let how = [em_dash] @ '' run python3 -m memem.server --rebuild-transcript-index'' in
      case db of
        None \<Rightarrow> [NL # ''[advisory] transcript FTS index missing '' @ how]
      | Some (Some 0) \<Rightarrow> [NL # ''[advisory] transcript FTS index is empty '' @ how]
      | Some _ \<Rightarrow> [])"

definition canary_found :: "canary \<Rightarrow> hit list \<Rightarrow> bool" where
  "canary_found c hs =
     (let ids = filter (\<lambda>i. i \<noteq> []) (map (\<lambda>h. en_id (h_mem h)) hs);
          titles = filter (\<lambda>t. t \<noteq> []) (map (\<lambda>h. en_title (h_mem h)) hs)
      in list_ex (\<lambda>i. list_ex (\<lambda>t. contains i (ca_id c) \<or> contains t (ca_title c)) titles) ids \<or> ca_title c \<in> set titles)"

text \<open>The text of the exception a retrieval raises is left out.\<close>

definition check_canary :: "recall_env \<Rightarrow> canary \<Rightarrow> string list \<times> nat \<times> recall_state \<Rightarrow> string list \<times> nat \<times> recall_state" where
  "check_canary M c onv =
     (let (out, passes, v) = onv; R = (m_engine M)\<lparr>r_db := fts_db (v_store v)\<rparr>;
          (hits, q) = retrieve R (vault_files (v_store v)) (ca_query c) 5 None [] False [] (v_ret v);
          v = v\<lparr>v_ret := q\<rparr>; named = '' canary '' @ ca_id c @ '': ''
      in case hits of
           None \<Rightarrow> (out @ [''  [WARN]'' @ named @ ''error during check: ''], passes, v)
         | Some hs \<Rightarrow>
             if canary_found c hs then (out @ [''  [PASS]'' @ named @ ''found in top-5''], passes + 1, v)
             else (out @ [''  [WARN]'' @ named @ ''NOT found in top-5 (may not be planted)''], passes, v))"

definition check_canaries_in_doctor :: "recall_env \<Rightarrow> recall_state \<Rightarrow> string list \<times> recall_state" where
  "check_canaries_in_doctor M v =
     (let (out, passes, v) = fold (check_canary M) ALWAYS_REACHABLE ([], 0, v)
      in (out @ [NL # ''Canary check: '' @ str_of_nat passes @ ''/'' @ str_of_nat (length ALWAYS_REACHABLE)
                   @ '' pass (non-blocking '' @ [em_dash] @ '' plant canaries first)''], v))"

section \<open>The command\<close>

definition doctor ::
  "recall_env \<Rightarrow> machine \<Rightarrow> (string \<times> integrity) list \<Rightarrow> json option list option \<Rightarrow> nat option option \<Rightarrow> recall_state \<Rightarrow>
   string list \<times> nat \<times> capabilities \<times> recall_state" where
  \<comment> \<open>the texts printed, the exit code, the capabilities written to their file\<close>
  "doctor M w dbs rlog tdb v =
     (let caps = detect_capabilities w;
          (failed, out) = run_integrity_check True dbs;
          (canaries, v) = check_canaries_in_doctor M v;
          blockers = (\<not> cap_mcp caps \<or> \<not> cap_state_dir caps \<or> \<not> cap_vault caps \<or> failed)
      in (pretty_report caps # out @ contamination_lines rlog @ transcript_lines tdb @ canaries,
          if blockers then 1 else 0, caps, v))"

section \<open>Properties\<close>

lemma blockers_none: "blocker_lines c = [] \<longleftrightarrow> cap_mcp c \<and> cap_state_dir c \<and> cap_vault c"
  by (simp add: blocker_lines_def)

lemma db_verdict_fails: "fst (db_verdict label i) \<longleftrightarrow> i \<noteq> Absent \<and> i \<noteq> Row ''ok''"
  by (cases i) (auto simp: db_verdict_def)

lemma kept_retrieve:
  assumes "retrieve ((m_engine M)\<lparr>r_db := fts_db (v_store v)\<rparr>) (vault_files (v_store v)) query k None scope False [] (v_ret v) = (hits, q)"
  shows "kept (v\<lparr>v_ret := q\<rparr>) = kept v"
  using retrieve_reads [OF assms] by (simp add: kept_def)

lemma kept_canary: "kept (snd (snd (check_canary M c (out, n, v)))) = kept v"
proof -
  obtain hits q where r: "retrieve ((m_engine M)\<lparr>r_db := fts_db (v_store v)\<rparr>) (vault_files (v_store v)) (ca_query c) 5 None [] False [] (v_ret v) = (hits, q)"
    by fastforce
  then show ?thesis using kept_retrieve [OF r] by (simp add: check_canary_def Let_def split: option.split)
qed

interpretation canaries: quiet_step "\<lambda>onv. kept (snd (snd onv))" "check_canary M" for M
  by unfold_locales (metis kept_canary prod.collapse snd_conv)

text \<open>
  The health check ends with success exactly when every database is absent or sound, the server's package is there and
  both directories can be written to. Checking changes none of the program's data.
\<close>

theorem doctor_exit_code:
  assumes "doctor M w dbs rlog tdb v = (out, code, caps, v')"
  shows "code \<in> {0, 1} \<and> (code = 0 \<longleftrightarrow> blocker_lines caps = [] \<and> list_all (\<lambda>(label, i). i \<in> {Absent, Row ''ok''}) dbs) \<and> kept v' = kept v"
proof -
  have failed: "list_ex fst (map (\<lambda>(label, i). db_verdict label i) dbs) \<longleftrightarrow> \<not> list_all (\<lambda>(label, i). i \<in> {Absent, Row ''ok''}) dbs"
    by (induction dbs) (auto simp: db_verdict_fails)
  have "kept v' = kept v"
    using assms canaries.fold_quiet [of M ALWAYS_REACHABLE "([], 0, v)"]
    by (auto simp: doctor_def check_canaries_in_doctor_def Let_def split: prod.splits)
  moreover have "code = 0 \<or> code = 1" "code = 0 \<longleftrightarrow> blocker_lines caps = [] \<and> list_all (\<lambda>(label, i). i \<in> {Absent, Row ''ok''}) dbs"
    using assms unfolding doctor_def run_integrity_check_def Let_def failed
    by (auto simp: blockers_none split: prod.splits if_splits)
  ultimately show ?thesis by simp
qed

definition sample_machine :: machine where
  "sample_machine =
     \<lparr>mc_now = ''2026-01-01'', mc_python = ''3.11.6'', mc_mcp = Some True, mc_claude = Some (Some 0), mc_uv = True,
      mc_state_dir = [True, True, True], mc_vault = [True, True, True]\<rparr>"

theorem doctor_exit_code_witness:
  "fst (snd (doctor Recall.sample_env sample_machine [(''search.db'', Row ''ok''), (''graph.db'', Absent)] None None sample_state)) = 0"
proof -
  obtain out code caps v' where
    d: "doctor Recall.sample_env sample_machine [(''search.db'', Row ''ok''), (''graph.db'', Absent)] None None sample_state = (out, code, caps, v')"
    by (cases "doctor Recall.sample_env sample_machine [(''search.db'', Row ''ok''), (''graph.db'', Absent)] None None sample_state")
  then have "caps = detect_capabilities sample_machine" by (auto simp: doctor_def Let_def split: prod.splits)
  then have "blocker_lines caps = []"
    by (simp add: blockers_none sample_machine_def detect_capabilities_def mcp_importable_def can_write_def)
  then show ?thesis using doctor_exit_code [OF d] d by simp
qed

lemma ends_with_join: "xs \<noteq> [] \<Longrightarrow> w = last xs \<Longrightarrow> ends_with (join sep xs) w"
  by (induction sep xs rule: join.induct) (auto simp: ends_with_def)

text \<open>The report is written before the databases are looked at: with a corrupt one the check fails under a report that says healthy.\<close>

lemma corrupt_database_reads_healthy:
  assumes "doctor M w [(label, Row ''corrupt'')] rlog tdb v = (out, code, caps, v')" "blocker_lines caps = []" "cap_claude caps"
  shows "code = 1 \<and> ends_with (hd out) ''RESULT: HEALTHY''"
proof -
  have "out = pretty_report caps # tl out" "code = 1"
    using assms(1) by (auto simp: doctor_def run_integrity_check_def db_verdict_def Let_def split: prod.splits)
  moreover have "ends_with (pretty_report caps) ''RESULT: HEALTHY''"
    using assms(2,3) unfolding pretty_report_def Let_def by (intro ends_with_join) simp_all
  ultimately show ?thesis by (metis list.sel(1))
qed

end
