(* ===== verification/Cli.thy ===== *)
theory Cli
  imports CliArgs Lessons Assembly DreamApply JsonText
begin

text \<open>
  Commands of \<^verbatim>\<open>cli.py\<close> that read or change the vault: the compact index of a session start,
  the active slice, the schema migration, the purge of contaminated memories, consolidation and
  dreaming, lessons, the status report, and the two that touch files of their own, the pid file
  and the crontab. A command answers with the texts it prints, one for each \<^verbatim>\<open>print\<close>.
\<close>

section \<open>The pid file and the crontab\<close>

text \<open>The file of the server's pid: absent, unreadable (\<open>Some None\<close>) or with a content.\<close>

definition cleanup_pid_file :: "nat \<Rightarrow> string option option \<Rightarrow> string option option" where
  "cleanup_pid_file pid f = (case f of Some (Some content) \<Rightarrow> if strip content = str_of_nat pid then None else f | _ \<Rightarrow> f)"

text \<open>
  \<open>listing\<close> is the return code and output of \<^verbatim>\<open>crontab -l\<close>; the answer is the new crontab, when there is one.
\<close>

definition cron_entry :: "string \<Rightarrow> string" where
  "cron_entry dir = ''0 * * * * bash '' @ dir @ ''/mine-cron.sh''"

definition install_cron :: "string \<Rightarrow> int \<times> string \<Rightarrow> string option \<times> string list" where
  "install_cron dir listing =
     (let entry = cron_entry dir;
          existing = (if fst listing = 0 then snd listing else [])
      in if contains existing ''mine-cron.sh'' then (None, [''Cron already installed.''])
         else (Some (rev (dropWhile (\<lambda>c. c = NL) (rev existing)) @ (if existing \<noteq> [] then [NL] else []) @ entry @ [NL]),
               [''Installed: '' @ entry]))"

section \<open>The compact index\<close>

text \<open>The settings of the environment; \<open>se_cwd\<close> is the base name of the working directory.\<close>

record start_env =
  se_limit :: "string option"
  se_full :: "string option"
  se_legacy :: "string option"
  se_project :: string
  se_cwd :: string

definition env_int :: "string option \<Rightarrow> int \<Rightarrow> int \<Rightarrow> int \<Rightarrow> int" where
  "env_int stored dflt lo hi =
     (case (case stored of None \<Rightarrow> Some dflt | Some w \<Rightarrow> int_of_text w) of
        None \<Rightarrow> dflt
      | Some v \<Rightarrow> max lo (min hi v))"

text \<open>Slices \<^verbatim>\<open>xs[:n]\<close> and \<^verbatim>\<open>xs[n:]\<close>, counted from the end when \<open>n\<close> is negative.\<close>

definition slice_at :: "int \<Rightarrow> 'a list \<Rightarrow> nat" where
  "slice_at n xs = (if n < 0 then nat (int (length xs) + n) else nat n)"

text \<open>How many memories are shown, and how many of them in full; \<open>None\<close>: the older variable is no number, which raises.\<close>

definition start_limits :: "start_env \<Rightarrow> string list \<Rightarrow> (int \<times> int) option" where
  "start_limits U argv =
     (case (case se_legacy U of None \<Rightarrow> Some 50 | Some w \<Rightarrow> if w = [] then Some 50 else int_of_text w) of
        None \<Rightarrow> None
      | Some default_limit \<Rightarrow>
          let upto_n = env_int (se_limit U) default_limit 1 200;
              in_full = min (env_int (se_full U) 5 0 20) upto_n;
              upto_n = (case after_flag ''--limit'' argv of
                         Some (Some w) \<Rightarrow> (case int_of_text w of Some n \<Rightarrow> max 1 (min 200 n) | None \<Rightarrow> upto_n)
                       | _ \<Rightarrow> upto_n)
          in Some (upto_n, in_full))"

definition start_scope :: "start_env \<Rightarrow> string" where
  "start_scope U = or_else (strip (se_project U)) (or_else (se_cwd U) ''all'')"

definition in_start_scope :: "string \<Rightarrow> memory list \<Rightarrow> memory list" where
  "in_start_scope scope ms =
     (if scope = ''all'' then ms else filter (\<lambda>m. project m = scope \<or> project m = ''general'') ms)"

definition start_key :: "memory \<Rightarrow> int \<times> string" where
  "start_key m = (importance m, or_else (updated_at m) (created_at m))"

text \<open>The memories shown in in_full and those shown as one line.\<close>

definition start_selection :: "int \<Rightarrow> int \<Rightarrow> memory list \<Rightarrow> memory list \<times> memory list" where
  "start_selection upto_n in_full ms =
     (let ranked = sort_desc start_key ms; selected = take (slice_at upto_n ranked) ranked
      in (take (slice_at in_full selected) selected, drop (slice_at in_full selected) selected))"

definition full_entry :: "memory \<Rightarrow> string list" where
  "full_entry m =
     [''### [L'' @ str_of_int (case layer m of None \<Rightarrow> 2 | Some l \<Rightarrow> l) @ ''] '' @ title m, essence m, []]"

definition compact_index ::
  "ext \<Rightarrow> clock \<Rightarrow> start_env \<Rightarrow> string list \<Rightarrow> store \<Rightarrow> string list option \<times> store" where
  "compact_index X clk U argv s =
     (case start_limits U argv of
        None \<Rightarrow> (None, s)
      | Some (upto_n, in_full) \<Rightarrow>
          let scope = start_scope U;
              (ms, s) = obsidian_memories X clk None False s;
              ms = in_start_scope scope ms;
              (shown, briefly) = start_selection upto_n in_full ms
          in (Some
               ((if shown = [] then []
                 else (''## memem '' @ [em_dash] @ '' top '' @ str_of_nat (length shown) @ '' memories (scope: '' @ scope @ '')'' @ [NL])
                   # concat (map full_entry shown))
                @ (if briefly = [] then []
                   else [''## Memory index ('' @ str_of_nat (length briefly) @ '' compact''
                           @ (if int (length ms) > upto_n then '', '' @ str_of_nat (length ms) @ '' in scope'' else []) @ '')'',
                         ''_Use `memory_get(ids=[...])` to fetch in_full content, or `memory_search(query=...)` for more._'' @ [NL]]
                     @ map (\<lambda>m. format_compact_index_line (memory_to_item m)) briefly)), s))"

section \<open>The active slice\<close>

text \<open>
  \<open>mode\<close> is the injection mode; \<open>None\<close>: the query file cannot be read or the retrieval raises. A session
  that cannot be told leaves the paths out.
\<close>

definition slice_mode :: "slice_command \<Rightarrow> string" where
  "slice_mode c = (case map_of (sc_env c) ''task_mode'' of Some (One m) \<Rightarrow> m | _ \<Rightarrow> [])"

definition slice_cli ::
  "recall_env \<Rightarrow> (real \<Rightarrow> string) \<Rightarrow> string \<Rightarrow> string \<Rightarrow> (string \<times> sfile list) list \<Rightarrow> slice_command option \<Rightarrow> recall_state \<Rightarrow>
   string list option \<times> recall_state" where
  "slice_cli M repr mode cwd dirs cmd v =
     (case cmd of
        None \<Rightarrow> (None, v)
      | Some c \<Rightarrow>
          if sc_query c = [] then (Some [''No query provided.''], v)
          else if mode = ''tool'' then (Some [], v)
          else
            let R = (m_engine M)\<lparr>r_db := fts_db (v_store v)\<rparr>;
                ctx = (case current_session (r_text R) (r_brief R) of
                         Some sid \<Rightarrow> recent_session_paths (r_text R) cwd dirs sid 5
                       | None \<Rightarrow> []);
                (hits, q) = retrieve R (vault_files (v_store v)) (sc_query c) 8 (Some ''cli_slice'') [] True ctx (v_ret v);
                v = v\<lparr>v_ret := q\<rparr>
            in case hits of
                 None \<Rightarrow> (None, v)
               | Some hs \<Rightarrow>
                   let md = render_slice (sc_query c) hs [] (slice_mode c) in
                   (Some [if sc_json c
                          then json_dumps repr (JObj [(''content'', JStr md), (''query'', JStr (sc_query c)), (''scope_id'', JStr (sc_scope c))])
                          else md], v))"

section \<open>Schema migration\<close>

text \<open>
  A memory of the listing is the cache's own object. A memory that was parsed has its status, source
  and importance, so only the version changes. A note that cannot be written ends the run.
\<close>

fun migrate_each :: "ext \<Rightarrow> clock \<Rightarrow> memory list \<Rightarrow> nat \<times> nat \<times> store \<Rightarrow> (store_error + nat \<times> nat) \<times> store" where
  "migrate_each X clk [] (migrated, already, s) = (Inr (migrated, already), s)"
| "migrate_each X clk (m # ms) (migrated, already, s) =
     (if schema_version m \<ge> 1 then migrate_each X clk ms (migrated, already + 1, s)
      else
        let m' = m\<lparr>schema_version := 1\<rparr>; s = mutate_cached m' s in
        (case write_obsidian_memory X clk m' s of
           Inl e \<Rightarrow> (Inl e, s)
         | Inr (w, s) \<Rightarrow>
             migrate_each X clk ms
               (migrated + 1, already,
                log_event clk ''migrate'' (mem_id m)
                  [(''from_version'', str_of_int (schema_version m)), (''to_version'', ''1'')] (mutate_cached w s))))"

definition migrate_schema :: "ext \<Rightarrow> clock \<Rightarrow> store \<Rightarrow> (store_error + nat \<times> nat) \<times> store" where
  "migrate_schema X clk s =
     (let (ms, s) = obsidian_memories X clk None True s in migrate_each X clk ms (0, 0, s))"

section \<open>Contaminated memories\<close>

definition contamination_markers :: "string list" where
  "contamination_markers = [''=== BEGIN CONVERSATION ==='', ''Below is a coding conversation'', ''<task-notification'']"

definition is_contaminated :: "memory \<Rightarrow> bool" where
  "is_contaminated m \<longleftrightarrow> list_ex (contains (title m @ [NL] @ essence m)) contamination_markers"

fun delete_each :: "ext \<Rightarrow> clock \<Rightarrow> memory list \<Rightarrow> nat \<times> nat \<times> store \<Rightarrow> nat \<times> nat \<times> store" where
  "delete_each X clk [] r = r"
| "delete_each X clk (m # ms) (deleted, spared, s) =
     (let (gone, s) = delete_memory X clk (mem_id m) s
      in delete_each X clk ms (if gone then (deleted + 1, spared, s) else (deleted, spared + 1, s)))"

definition purge_contaminated :: "ext \<Rightarrow> clock \<Rightarrow> (string \<Rightarrow> string) \<Rightarrow> string list \<Rightarrow> store \<Rightarrow> string list \<times> store" where
  "purge_contaminated X clk repr argv s =
     (let name = ''--purge-contaminated'' in
      case parse_exclude argv of
        NoArgument \<Rightarrow> ([name @ '': --exclude requires an argument (comma-separated 8-char id prefixes).''], s)
      | BadToken t \<Rightarrow> ([name @ '': invalid --exclude token '' @ repr t @ '' (must be exactly 8 lowercase hex chars).''], s)
      | Excluded ex \<Rightarrow>
          let (ms, s) = obsidian_memories X clk None True s;
              found = filter is_contaminated ms;
              skipped = filter (\<lambda>m. id8 (mem_id m) \<in> set ex) found;
              chosen = filter (\<lambda>m. id8 (mem_id m) \<notin> set ex) found;
              n = str_of_nat (length chosen)
          in if found = [] then ([name @ '': no contaminated memories found.''], s)
             else if ''--apply'' \<notin> set argv then
               ([name @ '' (dry-run): '' @ n @ '' contaminated memories found.'', ''Run with --apply to delete. Matches:'']
                @ map (\<lambda>m. ''  '' @ id8 (mem_id m) @ ''  '' @ take 80 (or_else (title m) ''(untitled)'')) chosen
                @ [NL # ''Total: '' @ n @ ''  |  Run with --apply to delete.''
                     @ (if skipped = [] then [] else ''  |  excluded: '' @ str_of_nat (length skipped))], s)
             else
               let (deleted, spared, s) = delete_each X clk chosen (0, 0, s) in
               ([name @ '': deleted '' @ str_of_nat deleted @ '', failed '' @ str_of_nat spared @ '' (of '' @ n @ '' contaminated).''
                   @ (if skipped = [] then [] else ''  excluded: '' @ str_of_nat (length skipped) @ ''.'')], s))"

section \<open>Consolidating and dreaming\<close>

definition only_merges :: "diff \<Rightarrow> diff" where
  "only_merges d =
     d\<lparr>x_demotions := [], x_pairs := [], x_summaries := [], x_insights := [], x_rewrites := []\<rparr>"

text \<open>
  \<open>Some None\<close>: another pass holds the lock; \<open>None\<close>: building the diff raised. The printed
  progress is left out.
\<close>

definition consolidate ::
  "dream_env \<Rightarrow> clock \<Rightarrow> bool \<Rightarrow> bool \<Rightarrow> store \<Rightarrow> dream_files \<Rightarrow> cycle option option \<times> store \<times> dream_files" where
  "consolidate D clk held dry_run s fs =
     (if held then (Some None, s, fs)
      else
        let (ms, s) = obsidian_memories (e_ext (d_env D)) clk None False s in
        (case build_diff D clk (f_last_ts fs) ms of
           None \<Rightarrow> (None, s, fs)
         | Some d \<Rightarrow>
             let d = only_merges d;
                 (path, fs) = write_diff_log clk d fs;
                 q = apply_diff D clk dry_run False d s
             in (Some (Some \<lparr>cy_path = path, cy_diff = d, cy_result = q\<rparr>), q_store q, fs)))"

definition count_line :: "string \<Rightarrow> nat \<Rightarrow> string" where "count_line label n = label @ str_of_nat n"

definition error_lines :: "string list \<Rightarrow> string list" where
  "error_lines es =
     (if es = [] then [] else (''  Errors ('' @ str_of_nat (length es) @ ''):'') # map (\<lambda>e. ''    - '' @ e) es)"

definition dream_report :: "bool \<Rightarrow> bool \<Rightarrow> cycle \<Rightarrow> string list" where
  "dream_report dry_run safe_auto c =
     (let d = cy_diff c; q = cy_result c in
      [''[memem dreamer] '' @ (if dry_run then ''DRY-RUN'' else if safe_auto then ''SAFE-AUTO'' else ''APPLIED''),
       ''  Diff log:            '' @ cy_path c,
       count_line ''  Vault size:          '' (x_vault_size d),
       count_line ''  Demotion candidates: '' (length (x_demotions d)),
       count_line ''  Contradiction pairs: '' (length (x_pairs d)),
       count_line ''  Cluster summaries:   '' (length (x_summaries d)),
       count_line ''  Cluster merges:      '' (length (x_merges d)),
       count_line ''  Reflections:         '' (length (x_insights d)),
       count_line ''  Tense rewrites:      '' (length (x_rewrites d)),
       count_line ''  Demoted:             '' (q_demoted q),
       count_line ''  Invalidated:         '' (q_invalidated q),
       count_line ''  Clustered:           '' (q_clustered q),
       count_line ''  Merged:              '' (q_merged q),
       count_line ''  Reflected (applied): '' (q_reflected q),
       count_line ''  Rewritten (applied): '' (q_rewritten q)]
      @ error_lines (q_errors q)
      @ (if dry_run then [''  (Pass --apply to execute all proposals)'']
         else if safe_auto then [''  (Reflections + tense-rewrites applied; demotions/merges await --apply)'']
         else []))"

text \<open>A pass that was skipped has no diff: looking it up raises, as does building the diff.\<close>

definition dream_command ::
  "dream_env \<Rightarrow> clock \<Rightarrow> bool \<Rightarrow> string list \<Rightarrow> store \<Rightarrow> dream_files \<Rightarrow> string list option \<times> store \<times> dream_files" where
  "dream_command D clk held argv s fs =
     (let to_apply = (''--apply'' \<in> set argv); safe_auto = (''--safe-auto'' \<in> set argv);
          dry_run = (if safe_auto \<and> \<not> to_apply then False else \<not> to_apply);
          (r, s, fs) = run_dream_cycle D clk held dry_run safe_auto s fs
      in (case r of Some (Some c) \<Rightarrow> Some (dream_report dry_run safe_auto c) | _ \<Rightarrow> None, s, fs))"

section \<open>Lessons and status\<close>

text \<open>\<open>None\<close>: something is missing, and the program exits with its usage.\<close>

definition record_lesson_command ::
  "string \<Rightarrow> string \<Rightarrow> string list \<Rightarrow> lesson_files \<Rightarrow> string list option \<times> lesson_files" where
  "record_lesson_command lid now argv fs =
     (let a = lesson_arguments (drop 2 argv) no_lesson in
      if la_memory a = [] \<or> la_class a = [] \<or> la_anti a = [] then (None, fs)
      else let (i, fs) = record_lesson lid now (la_memory a) (la_class a) (la_anti a) (la_evidence a) (la_source a) fs
           in (Some [''Lesson recorded: '' @ i], fs))"

text \<open>
  What the status shows beside the vault: the two paths, the size of the search database, the number
  of playbooks, the number of lines of the event log, and the marker of the miner.
\<close>

record status_env =
  ss_vault :: string
  ss_data :: string
  ss_search :: "nat option"
  ss_playbooks :: "nat option"
  ss_events :: nat
  ss_opted_in :: bool

definition status_command :: "ext \<Rightarrow> clock \<Rightarrow> status_env \<Rightarrow> store \<Rightarrow> string list \<times> store" where
  "status_command X clk T s =
     (let (ms, s) = obsidian_memories X clk None True s;
          num = (\<lambda>P. str_of_nat (length (filter P ms)));
          linked = length (filter (\<lambda>m. related m \<noteq> []) ms); bar = replicate 40 (CHR ''='')
      in ([''memem Status'', bar, ''  Vault:     '' @ ss_vault T, ''  Data:      '' @ ss_data T,
           ''  Memories:  '' @ num (\<lambda>m. status m = ''active'') @ '' active, '' @ num (\<lambda>m. status m = ''deprecated'') @ '' deprecated'',
           ''  Sources:   '' @ num (\<lambda>m. source_type m = ''mined'') @ '' mined, '' @ num (\<lambda>m. source_type m = ''user'') @ '' user'',
           ''  Projects:  '' @ str_of_nat (length (uniq (map project ms))),
           ''  Linked:    '' @ str_of_nat linked @ '' (''
             @ str_of_nat (if ms = [] then 0 else linked * 100 div length ms) @ ''%)'',
           (case ss_search T of
              None \<Rightarrow> ''  Search DB: not built''
            | Some bytes \<Rightarrow> ''  Search DB: yes ('' @ str_of_nat (bytes div 1024) @ ''KB)''),
           (case ss_playbooks T of None \<Rightarrow> ''  Playbooks: none'' | Some n \<Rightarrow> ''  Playbooks: '' @ str_of_nat n @ '' projects''),
           ''  Events:    '' @ str_of_nat (ss_events T) @ '' logged'',
           ''  Miner:     '' @ (if ss_opted_in T then ''opted-in (Stop hook)'' else ''opted-out''), bar], s))"

section \<open>The crontab\<close>

lemma contains_entry: "contains (p @ cron_entry dir @ q) ''mine-cron.sh''"
  using contains_mid [of "p @ ''0 * * * * bash '' @ dir @ ''/''" "''mine-cron.sh''" q] by (simp add: cron_entry_def)

text \<open>
  Installing twice installs once: what the first call writes keeps the lines that were there, ends with the
  entry, and makes the second call do nothing.
\<close>

theorem install_cron_once:
  assumes "install_cron dir (0, existing) = (Some new, out)"
  shows "(\<exists>entry. new = rev (dropWhile (\<lambda>c. c = NL) (rev existing)) @ entry) \<and> install_cron dir (0, new) = (None, [''Cron already installed.''])"
  using assms contains_entry [of "rev (dropWhile (\<lambda>c. c = NL) (rev existing)) @ [NL]" dir "[NL]"] contains_entry [of "[]" dir "[NL]"]
  by (auto simp: install_cron_def Let_def split: if_splits)

text \<open>A listing that fails for any reason counts as an empty crontab, which the installation then replaces.\<close>

lemma failed_listing_replaces_crontab:
  "code \<noteq> 0 \<Longrightarrow> install_cron dir (code, crontab) = (Some (cron_entry dir @ [NL]), [''Installed: '' @ cron_entry dir])"
  by (simp add: install_cron_def Let_def)

section \<open>The compact index\<close>

definition number_or_unset :: "string option \<Rightarrow> bool" where
  "number_or_unset v \<longleftrightarrow> (case v of None \<Rightarrow> True | Some w \<Rightarrow> int_of_text w \<noteq> None)"

lemma env_int_bounds: "number_or_unset v \<Longrightarrow> lo \<le> hi \<Longrightarrow> lo \<le> env_int v dflt lo hi \<and> env_int v dflt lo hi \<le> hi"
  by (auto simp: env_int_def number_or_unset_def split: option.splits)

lemma start_limits_bounds:
  assumes "start_limits U argv = Some (n, k)" "number_or_unset (se_limit U)"
  shows "1 \<le> n \<and> n \<le> 200"
proof -
  obtain d where "n = env_int (se_limit U) d 1 200 \<or> (\<exists>i. n = max 1 (min 200 i))"
    using assms(1) by (auto simp: start_limits_def Let_def split: option.splits)
  then show ?thesis using env_int_bounds [OF assms(2), of 1 200 d] by auto
qed

text \<open>
  With settings that are numbers, a session starts with the highest ranked memories of its scope, at most 200, each once
  and in order: no memory left out ranks above one that is shown.
\<close>

theorem start_shows_the_best:
  assumes "start_limits U argv = Some (n, k)" "number_or_unset (se_limit U)"
    and "start_selection n k ms = (shown, briefly)"
  shows "length (shown @ briefly) = min (nat n) (length ms) \<and> nat n \<le> 200 \<and> sorted_wrt (\<lambda>x y. start_key y \<le> start_key x) (shown @ briefly) \<and>
    (\<exists>left_out. mset ms = mset (shown @ briefly) + mset left_out \<and>
       (\<forall>x \<in> set (shown @ briefly). \<forall>y \<in> set left_out. start_key y \<le> start_key x))"
proof -
  let ?r = "sort_desc start_key ms"
  have n: "1 \<le> n" "n \<le> 200" using start_limits_bounds [OF assms(1,2)] by simp_all
  have "shown @ briefly = take (slice_at n ?r) ?r"
    using assms(3) by (auto simp: start_selection_def Let_def simp del: take_take)
  then have sel: "shown @ briefly = take (nat n) ?r" using n by (simp add: slice_at_def)
  have "mset ms = mset (take (nat n) ?r) + mset (drop (nat n) ?r)"
    by (metis append_take_drop_id mset_append mset_sort_desc)
  moreover have "sorted_wrt (\<lambda>x y. start_key y \<le> start_key x) (take (nat n) ?r)"
    by (rule sorted_wrt_take [OF sorted_sort_desc])
  ultimately show ?thesis using n take_sort_desc_ge [of _ "nat n" start_key ms] unfolding sel by auto
qed

text \<open>A limit that is no number falls back to the older variable, which is not bounded.\<close>

lemma junk_limit_unbounded:
  "start_limits \<lparr>se_limit = Some ''many'', se_full = None, se_legacy = Some ''5000'', se_project = [], se_cwd = []\<rparr> [] = Some (5000, 5)"
  by code_simp

section \<open>Purging\<close>

lemma delete_events:
  "\<exists>gone t. delete_memory X clk i s = (gone, t) \<and>
     events t = events s @ (if gone then [\<lparr>ev_op = ''delete'', ev_id = i, ev_details = [], ev_time = c_iso clk\<rparr>] else []) \<and>
     (\<not> gone \<longrightarrow> others t = others s)"
proof -
  obtain r u where f: "find_memory X clk i s = (r, u)" by fastforce
  have "others u = others s" using others_find [of X clk i s] f by simp
  then show ?thesis
    by (auto simp: delete_memory_def f finish_delete_def Let_def drop_edges_def fts_remove_def log_event_def drop_index_line_def
      cache_evict_def others_def split: option.split)
qed

definition deleted_event :: "clock \<Rightarrow> memory \<Rightarrow> event" where
  "deleted_event clk m = \<lparr>ev_op = ''delete'', ev_id = mem_id m, ev_details = [], ev_time = c_iso clk\<rparr>"

lemma delete_each_events:
  assumes "delete_each X clk ms (d, k, s) = (d', k', t)"
  shows "d' + k' = d + k + length ms \<and> (\<exists>gone. set gone \<subseteq> set ms \<and> events t = events s @ map (deleted_event clk) gone \<and> d' = d + length gone)"
  using assms
proof (induction ms arbitrary: d k s)
  case (Cons m ms)
  obtain g u where u: "delete_memory X clk (mem_id m) s = (g, u)" "events u = events s @ (if g then [deleted_event clk m] else [])"
    using delete_events [of X clk "mem_id m" s] unfolding deleted_event_def by metis
  show ?case
  proof (cases g)
    case True
    then obtain gone where "d' + k' = d + 1 + k + length ms" "set gone \<subseteq> set ms" "events t = events u @ map (deleted_event clk) gone"
        "d' = d + 1 + length gone"
      using Cons.IH [of "d + 1" k u] Cons.prems u by auto
    then show ?thesis using u True by (intro conjI exI [of _ "m # gone"]) auto
  next
    case False
    then obtain gone where "d' + k' = d + (k + 1) + length ms" "set gone \<subseteq> set ms" "events t = events u @ map (deleted_event clk) gone"
        "d' = d + length gone"
      using Cons.IH [of d "k + 1" u] Cons.prems u by auto
    then show ?thesis using u False by (intro conjI exI [of _ gone]) auto
  qed
qed (auto intro: exI [of _ "[]"])

text \<open>
  C25: A purge only deletes memories of the vault that carry a marker of a mining artifact and whose id was not excluded;
  without \<open>--apply\<close>, or with an exclusion that cannot be read, it changes no table, index, graph or log.
\<close>

theorem purge_spares_the_rest:
  assumes "purge_contaminated X clk repr argv s = (out, t)"
  shows "(if ''--apply'' \<in> set argv
          then \<exists>gone. events t = events s @ map (deleted_event clk) gone \<and>
                 (\<forall>m \<in> set gone. m \<in> set (fst (obsidian_memories X clk None True s)) \<and> is_contaminated m \<and>
                    (\<exists>ex. parse_exclude argv = Excluded ex \<and> id8 (mem_id m) \<notin> set ex))
          else others t = others s)"
proof (cases "parse_exclude argv")
  case (Excluded ex)
  obtain ms u where u: "obsidian_memories X clk None True s = (ms, u)" by fastforce
  then have same: "others u = others s" using others_memories [of X clk None True s] by simp
  then have ev: "events u = events s" by (simp add: others_def)
  let ?chosen = "filter (\<lambda>m. id8 (mem_id m) \<notin> set ex) (filter is_contaminated ms)"
  obtain d k w where w: "delete_each X clk ?chosen (0, 0, u) = (d, k, w)" by (cases "delete_each X clk ?chosen (0, 0, u)")
  from delete_each_events [OF w] obtain gone where g: "set gone \<subseteq> set ?chosen" "events w = events u @ map (deleted_event clk) gone" by auto
  have t: "t = u \<or> (''--apply'' \<in> set argv \<and> t = w)"
    using assms by (auto simp: purge_contaminated_def Excluded u w [unfolded filter_filter] Let_def split: if_splits prod.splits)
  show ?thesis
  proof (cases "''--apply'' \<in> set argv")
    case True
    then show ?thesis
      using t g ev Excluded u by (cases "t = u") (auto intro: exI [of _ "[]"] exI [of _ gone])
  qed (use t same in simp)
qed (use assms in \<open>auto simp: purge_contaminated_def intro: exI [of _ "[]"]\<close>)

section \<open>Consolidating\<close>

text \<open>The counters of the categories other than merging.\<close>

definition not_merged :: "dreaming \<Rightarrow> nat \<times> nat \<times> nat \<times> nat \<times> nat" where
  "not_merged q = (q_demoted q, q_invalidated q, q_clustered q, q_reflected q, q_rewritten q)"

lemma not_merged_steps [simp]:
  "not_merged (drawn q) = not_merged q" "not_merged (failed e q) = not_merged q" "not_merged (in_store s q) = not_merged q"
  "not_merged (q\<lparr>q_merged := n\<rparr>) = not_merged q"
  by (simp_all add: not_merged_def drawn_def failed_def in_store_def)

interpretation retiring: quiet_step not_merged "retire_member D clk c sups" for D clk c sups
  by unfold_locales (simp add: retire_member_def Let_def split: prod.split sum.split)

interpretation merging: quiet_step not_merged "apply_merge D clk b" for D clk b
  by unfold_locales (simp add: apply_merge_def Let_def retiring.fold_quiet split: prod.split sum.split)

text \<open>
  C26: The old consolidation command only merges: whatever a full pass would propose, the diff it logs and applies proposes and
  does nothing else, and it does not count as a pass. A dry run changes no table, index, graph or log.
\<close>

theorem consolidate_only_merges:
  assumes "consolidate D clk held dry_run s fs = (Some (Some c), t, fs')"
  shows "not_merged (cy_result c) = (0, 0, 0, 0, 0) \<and> only_merges (cy_diff c) = cy_diff c \<and> f_last_ts fs' = f_last_ts fs \<and>
    (dry_run \<longrightarrow> others t = others s)"
proof -
  obtain ms u where u: "obsidian_memories (e_ext (d_env D)) clk None False s = (ms, u)" by fastforce
  then have same: "others u = others s" using others_memories [of "e_ext (d_env D)" clk None False s] by simp
  from assms u obtain d path where d: "write_diff_log clk (only_merges d) fs = (path, fs')"
      "c = \<lparr>cy_path = path, cy_diff = only_merges d, cy_result = apply_diff D clk dry_run False (only_merges d) u\<rparr>"
      "t = q_store (cy_result c)"
    by (auto simp: consolidate_def Let_def split: if_splits option.splits prod.splits)
  have r: "apply_diff D clk dry_run False (only_merges d) u = fold (apply_merge D clk (\<not> dry_run)) (x_merges d) (dream_start u)"
    by (simp add: apply_diff_def only_merges_def)
  have "dry_run \<Longrightarrow> q_store (cy_result c) = u" using d(2) r by (simp add: held_back dream_start_def)
  moreover have "not_merged (cy_result c) = not_merged (dream_start u)" using d(2) r by (simp add: merging.fold_quiet)
  ultimately show ?thesis
    using d same by (auto simp: not_merged_def dream_start_def only_merges_def write_diff_log_def Let_def)
qed

text \<open>A pass that finds the lock taken has no diff to report: the command raises.\<close>

lemma skipped_pass_raises: "dream_command D clk True argv s fs = (None, s, fs)"
  by (simp add: dream_command_def run_dream_cycle_def Let_def)

section \<open>Migrating\<close>

lemma migrate_each_counts:
  assumes "migrate_each X clk ms (a, b, s) = (Inr (a', b'), t)"
  shows "a' + b' = a + b + length ms \<and> a \<le> a' \<and> kinds t = kinds s @ replicate (a' - a) ''migrate''"
  using assms
proof (induction ms arbitrary: a b s)
  case (Cons m ms)
  show ?case
  proof (cases "schema_version m \<ge> 1")
    case True
    then show ?thesis using Cons.IH [of a "b + 1" s] Cons.prems by auto
  next
    case False
    then obtain w u where u: "write_obsidian_memory X clk (m\<lparr>schema_version := 1\<rparr>) (mutate_cached (m\<lparr>schema_version := 1\<rparr>) s) = Inr (w, u)"
      using Cons.prems by (auto simp: Let_def split: sum.splits)
    have "kinds u = kinds s" using kinds_write [OF u] by simp
    then show ?thesis
      using Cons.IH [of "a + 1" b] Cons.prems False u
      by (fastforce simp: Let_def Suc_diff_Suc replicate_app_Cons_same simp flip: replicate_Suc)
  qed
qed simp

text \<open>
  A schema migration that ends accounts for every memory of the vault, deprecated ones included, and logs exactly those it upgraded.
\<close>

theorem migration_counts_every_memory:
  assumes "migrate_schema X clk s = (Inr (migrated, already), t)"
  shows "migrated + already = length (fst (obsidian_memories X clk None True s)) \<and> kinds t = kinds s @ replicate migrated ''migrate''"
proof -
  obtain ms u where u: "obsidian_memories X clk None True s = (ms, u)" by fastforce
  then have "kinds u = kinds s" using others_memories [of X clk None True s] by (intro kinds_others) simp
  then show ?thesis using assms u migrate_each_counts [of X clk ms 0 0 u migrated already t] by (simp add: migrate_schema_def)
qed

section \<open>Examples\<close>

theorem install_cron_once_witness:
  "\<exists>new. fst (install_cron ''/opt/memem'' (0, ''@daily backup'')) = Some new \<and>
     install_cron ''/opt/memem'' (0, new) = (None, [''Cron already installed.''])"
proof -
  have "\<exists>new out. install_cron ''/opt/memem'' (0, ''@daily backup'') = (Some new, out)"
    by (simp add: install_cron_def Let_def starts_with_def)
  then obtain new out where r: "install_cron ''/opt/memem'' (0, ''@daily backup'') = (Some new, out)" by blast
  then show ?thesis using install_cron_once [OF r] by simp
qed

theorem start_shows_the_best_witness:
  "\<exists>shown briefly. start_selection 2 1 [blank_memory ''a'' ''A'' ''x'', (blank_memory ''b'' ''B'' ''y'')\<lparr>importance := 5\<rparr>] = (shown, briefly) \<and>
     length (shown @ briefly) = 2"
proof -
  have l: "start_limits \<lparr>se_limit = Some ''2'', se_full = Some ''1'', se_legacy = None, se_project = [], se_cwd = []\<rparr> [] = Some (2, 1)"
    by code_simp
  have n: "number_or_unset (se_limit \<lparr>se_limit = Some ''2'', se_full = Some ''1'', se_legacy = None, se_project = [], se_cwd = []\<rparr>)"
    by code_simp
  obtain shown briefly where s: "start_selection 2 1 [blank_memory ''a'' ''A'' ''x'', (blank_memory ''b'' ''B'' ''y'')\<lparr>importance := 5\<rparr>] = (shown, briefly)"
    by fastforce
  then show ?thesis using start_shows_the_best [OF l n s] by auto
qed

definition contaminated_vault :: store where
  "contaminated_vault =
     empty_store\<lparr>cache := [(''a0'', blank_memory ''a0'' ''Below is a coding conversation'' ''x'')], cache_files := [(''f'', 5, ''a0'')], last_sweep := 90\<rparr>"

theorem purge_spares_the_rest_witness:
  "others (snd (purge_contaminated sample_ext sample_clock (\<lambda>t. t) [''memem'', ''--purge-contaminated''] contaminated_vault)) = others contaminated_vault \<and>
   (\<exists>gone. events (snd (purge_contaminated sample_ext sample_clock (\<lambda>t. t) [''memem'', ''--purge-contaminated'', ''--apply''] contaminated_vault))
      = map (deleted_event sample_clock) gone)"
  using purge_spares_the_rest [OF surjective_pairing, where X = sample_ext and clk = sample_clock and repr = "\<lambda>t. t" and
      argv = "[''memem'', ''--purge-contaminated'']" and s = contaminated_vault]
    purge_spares_the_rest [OF surjective_pairing, where X = sample_ext and clk = sample_clock and repr = "\<lambda>t. t" and
      argv = "[''memem'', ''--purge-contaminated'', ''--apply'']" and s = contaminated_vault]
  by (auto simp: contaminated_vault_def empty_store_def)

definition no_vault_yet :: store where "no_vault_yet = empty_store\<lparr>dir_ok := False\<rparr>"

lemma nothing_listed: "obsidian_memories X clk sc d no_vault_yet = ([], no_vault_yet)"
  by (simp add: obsidian_memories_def no_vault_yet_def)

theorem consolidate_only_merges_witness:
  "\<exists>c t fs'. consolidate sample_dream sample_clock False False no_vault_yet \<lparr>f_diffs = Map.empty, f_last_ts = None\<rparr> = (Some (Some c), t, fs') \<and>
     not_merged (cy_result c) = (0, 0, 0, 0, 0)"
proof -
  let ?fs = "\<lparr>f_diffs = Map.empty, f_last_ts = None\<rparr>"
  obtain d where "build_diff sample_dream sample_clock None [] = Some d" by (auto simp: build_diff_def)
  then obtain c t fs' where c: "consolidate sample_dream sample_clock False False no_vault_yet ?fs = (Some (Some c), t, fs')"
    by (auto simp: consolidate_def nothing_listed write_diff_log_def Let_def split: prod.splits)
  then show ?thesis using consolidate_only_merges [OF c] by blast
qed

theorem migration_counts_every_memory_witness:
  "kinds (snd (migrate_schema sample_ext sample_clock contaminated_vault)) = [] \<and>
   length (fst (obsidian_memories sample_ext sample_clock None True contaminated_vault)) = 1"
proof -
  have ms: "obsidian_memories sample_ext sample_clock None True contaminated_vault
    = ([blank_memory ''a0'' ''Below is a coding conversation'' ''x''], contaminated_vault)"
    by (simp add: contaminated_vault_def obsidian_memories_def ensure_cache_warm_def sample_clock_def SWEEP_INTERVAL_def empty_store_def
      memories_of_def)
  have t: "migrate_schema sample_ext sample_clock contaminated_vault = (Inr (0, 1), contaminated_vault)"
    by (simp add: migrate_schema_def ms blank_memory_def)
  show ?thesis using migration_counts_every_memory [OF t] t by (simp add: ms contaminated_vault_def empty_store_def kinds_def)
qed

end
