(* ===== verification/CliRuns.thy ===== *)
theory CliRuns
  imports CliArgs MigrateLayers SessionState Playbook Assembly
begin

text \<open>
  Commands of \<^verbatim>\<open>cli.py\<close> that hand over to another part: layer migration, mining of all transcripts,
  the sweep of the playbooks, the search index, recall and context assembly. A command answers with the
  texts it prints, one for each \<^verbatim>\<open>print\<close>.
\<close>

section \<open>Migrating layers\<close>

text \<open>\<open>Inl\<close>: an argument is wrong, and the program exits with 1 before anything else; else the run's own outcome.\<close>

definition migrate_layers_command ::
  "migrate_env \<Rightarrow> clock \<Rightarrow> (string \<Rightarrow> string) \<Rightarrow> string list \<Rightarrow> migration \<Rightarrow> string + (summary option \<times> migration) option" where
  "migrate_layers_command G clk repr argv j =
     (if after_flag ''--report'' argv = Some None then Inl ''--migrate-layers: --report requires a path argument.''
      else case parse_exclude argv of
        NoArgument \<Rightarrow> Inl ''--migrate-layers: --exclude requires an argument.''
      | BadToken t \<Rightarrow> Inl (''--migrate-layers: invalid --exclude token '' @ repr t @ '' (must be exactly 8 lowercase hex chars).'')
      | Excluded ex \<Rightarrow> Inr (run_migration G clk (''--apply'' \<in> set argv) ex j))"

section \<open>Mining all transcripts\<close>

text \<open>
  \<open>mine\<close> runs the miner on a session and its transcript: its return code and what becomes of the state it works on.
\<close>

fun mine_each :: "(string \<Rightarrow> string \<Rightarrow> 'st \<Rightarrow> int \<times> 'st) \<Rightarrow> tfile list \<Rightarrow> nat \<times> nat \<times> 'st \<Rightarrow> nat \<times> nat \<times> 'st" where
  "mine_each mine [] r = r"
| "mine_each mine (f # fs) (ok, failed, st) =
     (let (code, st) = mine (session_id_of f) (f_path f) st
      in mine_each mine fs (if code = 0 then (ok + 1, failed, st) else (ok, failed + 1, st)))"

text \<open>The request is an opt-in: the marker is set first. \<open>None\<close>: the search for transcripts raises.\<close>

definition mine_all ::
  "scan_env \<Rightarrow> marker_file \<Rightarrow> (string, turn) dict \<Rightarrow> (string \<times> tfile list) list \<Rightarrow> (string \<Rightarrow> string \<Rightarrow> 'st \<Rightarrow> int \<times> 'st) \<Rightarrow>
   bool \<times> 'st \<Rightarrow> string list option \<times> bool \<times> 'st" where
  "mine_all Y gate_file states dirs mine ost =
     (let (opted_in, st) = ost in
      case find_settled_sessions Y gate_file states True True dirs of
        None \<Rightarrow> (None, True, st)
      | Some fs \<Rightarrow>
          let n = str_of_nat (length fs);
              (ok, failed, st) = mine_each mine fs (0, 0, st)
          in (Some [''mine-all: found '' @ n @ '' eligible transcripts (subagent/-root/credential filters applied)'',
                    ''{\"mined\": '' @ str_of_nat ok @ '', \"failed\": '' @ str_of_nat failed @ '', \"total\": '' @ n @ ''}''],
              True, st))"

section \<open>Playbooks, search index, recall\<close>

definition rebuild_playbooks ::
  "playbook_env \<Rightarrow> clock \<Rightarrow> string list \<Rightarrow> playbooks \<times> store \<Rightarrow> string list \<times> playbooks \<times> store" where
  "rebuild_playbooks B clk argv ps =
     (let forced = (''--force'' \<in> set argv);
          (t, ps) = playbook_sweep B clk forced ps
      in ([''Sweeping playbooks'' @ (if forced then '' (force)'' else []) @ ''...'',
           ''Playbook sweep complete: refreshed='' @ str_of_nat (refreshed t) @ '' unchanged='' @ str_of_nat (noop t)
             @ '' below-threshold='' @ str_of_nat (skipped_few t) @ '' failed='' @ str_of_nat (failed_refines t)], ps))"

definition rebuild_search_index_command :: "ext \<Rightarrow> clock \<Rightarrow> store \<Rightarrow> string list \<times> store" where
  "rebuild_search_index_command X clk s =
     (let (n, s) = rebuild_fts X clk s in ([''Search index rebuilt: '' @ str_of_nat n @ '' memories indexed''], s))"

definition recall_command :: "recall_env \<Rightarrow> string list \<Rightarrow> recall_state \<Rightarrow> string list option \<times> recall_state" where
  "recall_command M argv v =
     (let query = join '' '' (drop 2 argv) in
      if query = [] then (Some [''No query provided.''], v)
      else let (r, v) = memory_recall M query ''default'' 10 None v in (map_option (\<lambda>t. [t]) r, v))"

definition nth_or :: "nat \<Rightarrow> string \<Rightarrow> string list \<Rightarrow> string" where
  "nth_or i d xs = (if i < length xs then xs ! i else d)"

definition assemble_command :: "recall_env \<Rightarrow> string list \<Rightarrow> recall_state \<Rightarrow> string list option \<times> recall_state" where
  "assemble_command M argv v =
     (let query = nth_or 2 [] argv; proj = nth_or 3 ''default'' argv in
      if query = [] then (Some [''No query provided.''], v)
      else let (r, v) = context_assemble M query proj v in (map_option (\<lambda>t. [t]) r, v))"

section \<open>Nothing is lost\<close>

lemma mine_each_total: "mine_each mine fs (ok, failed, st) = (ok', failed', st') \<Longrightarrow> ok' + failed' = ok + failed + length fs"
proof (induction fs arbitrary: ok failed st)
  case (Cons f fs)
  obtain code u where c: "mine (session_id_of f) (f_path f) st = (code, u)" by fastforce
  show ?case
    using Cons.IH [of "ok + 1" failed u] Cons.IH [of ok "failed + 1" u] Cons.prems by (cases "code = 0") (simp_all add: c)
qed simp

lemma bad_arguments_migrate_nothing:
  "migrate_layers_command G clk repr argv j = Inr (Some (u, j')) \<Longrightarrow>
     \<exists>ex. parse_exclude argv = Excluded ex \<and> list_all hex8 ex \<and> run_migration G clk (''--apply'' \<in> set argv) ex j = Some (u, j')"
  by (auto simp: migrate_layers_command_def parse_exclude_def Let_def list_all_iff find_None_iff
      split: if_splits exclusion.splits option.splits)

end
