(* ===== verification/Backfill.thy ===== *)
theory Backfill
  imports VaultCache
begin

text \<open>
  The script that gives old notes the time they became valid (\<^verbatim>\<open>scripts/migrate_bitemporal.py\<close>). A note
  is taken on its own, so the run is a step for each note. \<open>stamp\<close> is the ISO form of a file time; writing a
  note succeeds.
\<close>

datatype outcome =
    Skipped
  | Failed
  | Dated string

text \<open>\<^verbatim>\<open>created.isoformat()\<close> for a date, else its text when there is one.\<close>

definition created_text :: "ext \<Rightarrow> meta \<Rightarrow> string" where
  "created_text X d =
     (case meta_get d ''created'' of
        YTime t _ \<Rightarrow> t
      | v \<Rightarrow> if truthy v then py_str X v else [])"

definition backfill_file :: "ext \<Rightarrow> (real \<Rightarrow> string) \<Rightarrow> clock \<Rightarrow> bool \<Rightarrow> string \<times> real \<Rightarrow> outcome \<times> string \<times> real" where
  "backfill_file X stamp clk to_apply note =
     (let (content, mtime) = note in
      case x_loads X content of
        None \<Rightarrow> (Failed, note)
      | Some (d, body) \<Rightarrow>
          if truthy (meta_get d ''valid_at'') then (Skipped, note)
          else
            let ts = or_else (created_text X d) (stamp mtime) in
            (Dated ts,
             if to_apply then (x_dumps X (AList.update ''valid_at'' (YStr ts) d) body, c_time clk) else note))"

record backfill_report =
  bf_lines :: "string list"
  bf_migrated :: nat
  bf_skipped :: nat
  bf_errors :: nat

definition backfill_lines :: "(string \<Rightarrow> string) \<Rightarrow> bool \<Rightarrow> (string \<times> outcome) list \<Rightarrow> string list" where
  "backfill_lines repr to_apply rs =
     concat (map (\<lambda>(f, r). case r of
                    Dated ts \<Rightarrow> if to_apply then [] else [''  would set valid_at='' @ repr ts @ '' on '' @ f]
                  | _ \<Rightarrow> []) rs)"

definition count_outcomes :: "(outcome \<Rightarrow> bool) \<Rightarrow> (string \<times> outcome) list \<Rightarrow> nat" where
  "count_outcomes P rs = length (filter (\<lambda>(f, r). P r) rs)"

text \<open>\<open>None\<close>: there is no directory of memories, and the script exits. The headings are left out.\<close>

definition backfill ::
  "ext \<Rightarrow> (real \<Rightarrow> string) \<Rightarrow> (string \<Rightarrow> string) \<Rightarrow> clock \<Rightarrow> bool \<Rightarrow> store \<Rightarrow> (backfill_report \<times> store) option" where
  "backfill X stamp repr clk to_apply s =
     (if \<not> dir_ok s then None
      else
        let rs = map (\<lambda>(f, note). (f, fst (backfill_file X stamp clk to_apply note))) (sort_key fst (note_files s))
        in Some
          (\<lparr>bf_lines = backfill_lines repr to_apply rs,
            bf_migrated = count_outcomes (\<lambda>r. case r of Dated _ \<Rightarrow> True | _ \<Rightarrow> False) rs,
            bf_skipped = count_outcomes (\<lambda>r. r = Skipped) rs,
            bf_errors = count_outcomes (\<lambda>r. r = Failed) rs\<rparr>,
           s\<lparr>note_files := map (\<lambda>(f, note). (f, snd (backfill_file X stamp clk to_apply note))) (note_files s)\<rparr>))"

section \<open>Properties\<close>

lemma insort_key_map: "insort_key f (g x) (map g xs) = map g (insort_key (\<lambda>x. f (g x)) x xs)"
  by (induction xs) simp_all

lemma sort_key_map: "sort_key f (map g xs) = map g (sort_key (\<lambda>x. f (g x)) xs)"
  by (induction xs) (simp_all add: insort_key_map)

definition settled :: "outcome \<Rightarrow> outcome" where
  "settled r = (if r = Failed then Failed else Skipped)"

lemma count_outcomes_simps [simp]:
  "count_outcomes P [] = 0" "count_outcomes P ((f, r) # rs) = (if P r then 1 else 0) + count_outcomes P rs"
  by (simp_all add: count_outcomes_def)

lemma count_settled:
  "count_outcomes (\<lambda>r. case r of Dated _ \<Rightarrow> True | _ \<Rightarrow> False) (map (\<lambda>(f, r). (f, settled r)) qs) = 0"
  "count_outcomes (\<lambda>r. r = Failed) (map (\<lambda>(f, r). (f, settled r)) qs) = count_outcomes (\<lambda>r. r = Failed) qs"
  by (induction qs) (auto simp: settled_def)

lemma dated_stays:
  assumes codec: "\<And>d b w. meta_get d ''valid_at'' = YStr w \<Longrightarrow> w \<noteq> [] \<Longrightarrow>
      \<exists>d' b'. x_loads X (x_dumps X d b) = Some (d', b') \<and> truthy (meta_get d' ''valid_at'')"
    and stamp: "\<And>t. stamp t \<noteq> []"
  shows "backfill_file X stamp clk' to_apply (snd (backfill_file X stamp clk True note))
    = (settled (fst (backfill_file X stamp clk True note)), snd (backfill_file X stamp clk True note))"
proof -
  obtain content t where n: "note = (content, t)" by fastforce
  show ?thesis
  proof (cases "x_loads X content")
    case (Some db)
    obtain d b where db: "db = (d, b)" by fastforce
    define ts where "ts = or_else (created_text X d) (stamp t)"
    have "ts \<noteq> []" using stamp by (simp add: ts_def or_else_def)
    moreover have "meta_get (AList.update ''valid_at'' (YStr ts) d) ''valid_at'' = YStr ts" by (simp add: meta_get_def update_conv')
    ultimately obtain d' b' where "x_loads X (x_dumps X (AList.update ''valid_at'' (YStr ts) d) b) = Some (d', b')"
        "truthy (meta_get d' ''valid_at'')"
      using codec by blast
    then show ?thesis using Some db n by (simp add: backfill_file_def settled_def Let_def ts_def [symmetric])
  qed (simp add: backfill_file_def settled_def n)
qed

text \<open>
  C28: The backfill is idempotent, provided the front matter that is written reads back with its time: after one run that
  applies it, a second run dates nothing, leaves every note as it is, and fails on exactly the notes that cannot be read.
\<close>

theorem backfill_again_is_noop:
  assumes codec: "\<And>d b w. meta_get d ''valid_at'' = YStr w \<Longrightarrow> w \<noteq> [] \<Longrightarrow>
      \<exists>d' b'. x_loads X (x_dumps X d b) = Some (d', b') \<and> truthy (meta_get d' ''valid_at'')"
    and stamp: "\<And>t. stamp t \<noteq> []" and first: "backfill X stamp repr clk True s = Some (r, s')"
  shows "\<exists>q. backfill X stamp repr clk' True s' = Some (q, s') \<and> bf_migrated q = 0 \<and> bf_errors q = bf_errors r"
proof -
  define step where "step = (\<lambda>note. backfill_file X stamp clk True note)"
  define second_step where "second_step = (\<lambda>note. backfill_file X stamp clk' True note)"
  have stays: "second_step (snd (step n)) = (settled (fst (step n)), snd (step n))" for n
    unfolding step_def second_step_def by (rule dated_stays [OF codec stamp])
  have s': "s' = s\<lparr>note_files := map (\<lambda>(f, note). (f, snd (step note))) (note_files s)\<rparr>" "dir_ok s"
    using first by (auto simp: backfill_def step_def Let_def split: if_splits)
  have "map (\<lambda>(f, note). (f, snd (second_step note))) (note_files s') = note_files s'"
    by (simp add: s'(1) stays case_prod_beta)
  then have same: "s'\<lparr>note_files := map (\<lambda>(f, note). (f, snd (second_step note))) (note_files s')\<rparr> = s'" by simp
  have sorted: "sort_key fst (note_files s') = map (\<lambda>(f, note). (f, snd (step note))) (sort_key fst (note_files s))"
    by (simp add: s'(1) sort_key_map comp_def case_prod_beta)
  let ?rs = "map (\<lambda>(f, note). (f, fst (step note))) (sort_key fst (note_files s))"
  have second: "map (\<lambda>(f, note). (f, fst (second_step note))) (sort_key fst (note_files s'))
      = map (\<lambda>(f, q). (f, settled q)) ?rs"
    by (simp add: sorted stays case_prod_beta)
  have "bf_errors r = count_outcomes (\<lambda>q. q = Failed) ?rs"
    using first s'(2) by (auto simp: backfill_def step_def Let_def)
  moreover have "dir_ok s'" by (simp add: s')
  ultimately show ?thesis
    unfolding backfill_def Let_def second_step_def [symmetric] second same by (simp add: count_settled del: map_map)
qed

definition small_codec :: ext where
  "small_codec =
     \<lparr>x_aliases = [], x_dumps = (\<lambda>d b. if truthy (meta_get d ''valid_at'') then ''dated'' else ''plain''),
      x_loads = (\<lambda>t. Some (if t = ''dated'' then [(''valid_at'', YStr ''2026'')] else [], [])), x_list_text = (\<lambda>_. [])\<rparr>"

theorem backfill_again_is_noop_witness:
  "\<exists>r q s'. backfill small_codec (\<lambda>_. ''2026'') id sample_clock True (empty_store\<lparr>note_files := [(''a.md'', ''plain'', 1)]\<rparr>) = Some (r, s') \<and>
     bf_migrated r = 1 \<and> backfill small_codec (\<lambda>_. ''2026'') id sample_clock True s' = Some (q, s') \<and> bf_migrated q = 0"
proof -
  obtain r s' where f: "backfill small_codec (\<lambda>_. ''2026'') id sample_clock True (empty_store\<lparr>note_files := [(''a.md'', ''plain'', 1)]\<rparr>) = Some (r, s')"
      "bf_migrated r = 1"
    by (simp add: backfill_def empty_store_def backfill_file_def small_codec_def meta_get_def Let_def)
  have law: "\<exists>d' b'. x_loads small_codec (x_dumps small_codec d b) = Some (d', b') \<and> truthy (meta_get d' ''valid_at'')"
    if "meta_get d ''valid_at'' = YStr w" "w \<noteq> []" for d b w
    using that by (simp add: small_codec_def) (simp add: meta_get_def)
  have "\<exists>q. backfill small_codec (\<lambda>_. ''2026'') id sample_clock True s' = Some (q, s') \<and> bf_migrated q = 0 \<and> bf_errors q = bf_errors r"
    by (rule backfill_again_is_noop [OF _ _ f(1)], rule law) simp_all
  then show ?thesis using f by blast
qed

end
