(* ===== verification/Reports.thy ===== *)
theory Reports
  imports SessionState JsonText RecallLog
begin

text \<open>
  What the program tells about itself: the miner's status (\<^verbatim>\<open>status.py\<close>), the last events and the
  summary of the recall log (\<^verbatim>\<open>--events\<close> and \<^verbatim>\<open>--analyze-recalls\<close> of \<^verbatim>\<open>cli.py\<close>), and the line an
  event is logged as. The texts of exceptions are left out; \<open>other\<close> is the text Python gives numbers
  and containers.
\<close>

definition pad_right :: "nat \<Rightarrow> string \<Rightarrow> string" where  \<comment> \<open>\<^verbatim>\<open>{s:n}\<close> of a text\<close>
  "pad_right n s = s @ replicate (n - length s) (CHR '' '')"

definition pad_left :: "nat \<Rightarrow> string \<Rightarrow> string" where
  "pad_left n s = replicate (n - length s) (CHR '' '') @ s"

text \<open>\<^verbatim>\<open>{v:n}\<close>: \<open>None\<close> where formatting with a width raises.\<close>

definition padded :: "(json \<Rightarrow> string) \<Rightarrow> nat \<Rightarrow> json \<Rightarrow> string option" where
  "padded other n v =
     (case v of
        JStr s \<Rightarrow> Some (pad_right n s)
      | JInt i \<Rightarrow> Some (pad_left n (str_of_int i))
      | JBool b \<Rightarrow> Some (pad_left n (if b then ''1'' else ''0''))
      | JReal _ \<Rightarrow> Some (pad_left n (other v))
      | JNonFinite _ \<Rightarrow> Some (pad_left n (other v))
      | _ \<Rightarrow> None)"

section \<open>Events\<close>

text \<open>The line \<^verbatim>\<open>_log_event\<close> writes; details named like a field of the entry replace it.\<close>

definition event_entry :: "string \<Rightarrow> string \<Rightarrow> string \<Rightarrow> turn \<Rightarrow> turn" where
  "event_entry now op mid details =
     fold (\<lambda>(k, v). AList.update k v) details [(''op'', JStr op), (''memory_id'', JStr mid), (''timestamp'', JStr now)]"

definition event_text :: "(real \<Rightarrow> string) \<Rightarrow> string \<Rightarrow> string \<Rightarrow> string \<Rightarrow> turn \<Rightarrow> string" where
  "event_text repr now op mid details = json_dumps repr (JObj (event_entry now op mid details))"

text \<open>\<^verbatim>\<open>v[:n]\<close>, printed.\<close>

definition cut_text :: "(json \<Rightarrow> string) \<Rightarrow> nat \<Rightarrow> json \<Rightarrow> string option" where
  "cut_text other n v = (case v of JStr s \<Rightarrow> Some (take n s) | JArr vs \<Rightarrow> Some (other (JArr (take n vs))) | _ \<Rightarrow> None)"

definition event_details :: "(json \<Rightarrow> string) \<Rightarrow> turn \<Rightarrow> string" where
  "event_details other e =
     concat (map (\<lambda>(k, v). '' '' @ k @ ''='' @ py_text other v)
                 (filter (\<lambda>(k, v). k \<notin> {''op'', ''memory_id'', ''timestamp''}) e))"

definition event_line :: "(json \<Rightarrow> string) \<Rightarrow> string \<Rightarrow> string" where
  "event_line other line =
     (case json_loads line of
        Some (JObj e) \<Rightarrow>
          (case (cut_text other 19 (jget_or e ''timestamp'' (JStr ''?'')), padded other 10 (jget_or e ''op'' (JStr ''?'')),
                 cut_text other 8 (jget_or e ''memory_id'' (JStr []))) of
             (Some ts, Some op, Some mid) \<Rightarrow> ''  ['' @ ts @ ''] '' @ op @ '' '' @ mid @ event_details other e
           | _ \<Rightarrow> ''  '' @ take 80 line)
      | _ \<Rightarrow> ''  '' @ take 80 line)"

definition last_n :: "nat \<Rightarrow> 'a list \<Rightarrow> 'a list" where
  "last_n n xs = drop (length xs - n) xs"

text \<open>\<open>None\<close>: the log is no UTF-8, which raises.\<close>

definition events_command :: "(json \<Rightarrow> string) \<Rightarrow> string option \<Rightarrow> string list option" where
  "events_command other stored =
     (case stored of
        None \<Rightarrow> Some [''No events yet.'']
      | Some bytes \<Rightarrow> map_option (\<lambda>t. map (event_line other) (last_n 20 (splitlines t))) (decode_strict bytes))"

section \<open>The recall log\<close>

text \<open>\<open>None\<close>: the analysis raises, or a kind of call that has no width.\<close>

definition kind_line :: "(json \<Rightarrow> string) \<Rightarrow> analysis \<Rightarrow> json \<times> nat \<Rightarrow> string option" where
  "kind_line other a ctn =
     map_option (\<lambda>ct. ''  '' @ ct @ '' '' @ pad_left 5 (str_of_nat (snd ctn)) @ '' calls   median ''
                  @ str_of_int (case map_of (a_median a) (fst ctn) of None \<Rightarrow> 0 | Some l \<Rightarrow> l) @ ''ms'')
       (padded other 25 (fst ctn))"

definition analyze_command :: "(json \<Rightarrow> string) \<Rightarrow> bool \<Rightarrow> analysis option \<Rightarrow> string list option" where
  "analyze_command other include_tagged summary =
     (case summary of
        None \<Rightarrow> None
      | Some a \<Rightarrow>
          let head = [''=== Recall log summary (last 7 days) ===''] @ (if include_tagged then [''(including tagged/benchmark rows)''] else [])
                     @ [''Total calls: '' @ str_of_nat (a_total a)]
          in if a_total a = 0 then Some (head @ [''(no calls logged yet)''])
             else map_option (\<lambda>kinds.
                    head @ [NL # ''By call type:''] @ kinds @ [NL # ''Top queries:'']
                    @ map (\<lambda>(q, n). ''  '' @ pad_left 3 (str_of_nat n) @ [CHR 0xD7] @ '' '' @ q) (a_top_queries a)
                    @ [NL # ''Calls per day:'']
                    @ map (\<lambda>(d, n). ''  '' @ d @ ''  '' @ str_of_nat n) (sort_key fst (a_per_day a)))
                  (all_some (map (kind_line other a) (sort_key (\<lambda>(ct, n). - int n) (a_by_type a)))))"

section \<open>The miner\<close>

definition format_age :: "nat \<Rightarrow> string" where
  "format_age seconds =
     (if seconds < 60 then str_of_nat seconds @ ''s''
      else if seconds < 3600 then str_of_nat (seconds div 60) @ ''m '' @ str_of_nat (seconds mod 60) @ ''s''
      else str_of_nat (seconds div 3600) @ ''h '' @ str_of_nat (seconds mod 3600 div 60) @ ''m'')"

text \<open>
  The first section reads the table itself: absent, unreadable, or its rows. Rows with equal times keep their
  order. Formatting a number of attempts that is null raises, after which the section ends.
\<close>

definition cell_text :: "(json \<Rightarrow> string) \<Rightarrow> cell \<Rightarrow> string" where
  "cell_text other c = py_text other (json_of_cell c)"

definition attempts_text :: "(json \<Rightarrow> string) \<Rightarrow> cell \<Rightarrow> string option" where
  "attempts_text other c = (if c = CNull then None else Some (pad_left 8 (cell_text other c)))"

fun session_lines :: "(json \<Rightarrow> string) \<Rightarrow> (string \<times> session_row) list \<Rightarrow> string list" where
  "session_lines other [] = []"
| "session_lines other ((i, r) # rs) =
     (case attempts_text other (sr_attempts r) of
        None \<Rightarrow> [''  (error reading session DB: '']
      | Some a \<Rightarrow>
          (''  '' @ pad_right 14 (take 12 i) @ '' '' @ pad_right 12 (cell_text other (sr_status r)) @ '' ''
             @ pad_left 14 [em_dash] @ ''  '' @ a) # session_lines other rs)"

definition render_recent_activity :: "(json \<Rightarrow> string) \<Rightarrow> session_table option option \<Rightarrow> string list" where
  "render_recent_activity other db =
     [''[1] Recent mining activity (last 5 sessions)'']
     @ (case db of
          None \<Rightarrow> [''  (no mined_sessions.db yet)'']
        | Some None \<Rightarrow> [''  (error reading session DB: '']
        | Some (Some []) \<Rightarrow> [''  (no sessions recorded yet)'']
        | Some (Some tab) \<Rightarrow>
            [''  '' @ pad_right 14 ''session_id'' @ '' '' @ pad_right 12 ''status'' @ '' '' @ pad_left 14 ''memories_saved'' @ ''  '' @ pad_left 8 ''attempts'',
             ''  '' @ replicate 14 (CHR ''-'') @ '' '' @ replicate 12 (CHR ''-'') @ '' '' @ replicate 14 (CHR ''-'') @ ''  '' @ replicate 8 (CHR ''-'')]
            @ session_lines other (take 5 (sort_desc (\<lambda>(i, r). cell_text other (sr_updated r)) tab)))
     @ [[]]"

text \<open>
  The place of \<^verbatim>\<open>hooks.json\<close>: below the plugin root when it is there, else the last of the installed
  versions in order.
\<close>

definition find_hooks_json :: "string \<Rightarrow> (string \<Rightarrow> bool) \<Rightarrow> string list \<Rightarrow> string option" where
  "find_hooks_json plugin_root present installed =
     (let own = plugin_root @ ''/hooks/hooks.json'' in
      if plugin_root \<noteq> [] \<and> present own then Some own
      else if installed = [] then None else Some (last (sort installed)))"

definition memem_state_dir :: "string option \<Rightarrow> string option \<Rightarrow> string \<Rightarrow> string" where
  "memem_state_dir memem cortex home =
     (let set = (\<lambda>v. case v of None \<Rightarrow> [] | Some d \<Rightarrow> d) in or_else (set memem) (or_else (set cortex) (home @ ''/.memem'')))"

text \<open>
  \<open>hooks\<close>: no file, one that cannot be read, or its text. \<open>mined\<close>: the list of mined sessions, absent or with its
  age in seconds and its text, each \<open>None\<close> when it cannot be read.
\<close>

definition last_run_text :: "int \<Rightarrow> string" where
  "last_run_text age =
     (if age < 3600 then str_of_int (age div 60) @ '' min ago''
      else if age < 86400 then str_of_int (age div 3600) @ ''h '' @ str_of_int (age mod 3600 div 60) @ ''m ago''
      else str_of_int (age div 86400) @ ''d ago'')"

definition render_mining ::
  "string option option \<Rightarrow> string \<Rightarrow> bool \<Rightarrow> (int option \<times> string option) option \<Rightarrow> string list" where
  "render_mining hooks state_dir opted_in mined =
     (let marker = state_dir @ ''/.miner-opted-in'' in
      [''[2] Mining (event-triggered)'',
       (case hooks of
          None \<Rightarrow> ''  Stop hook:       NOT registered (hooks.json not found)''
        | Some None \<Rightarrow> ''  Stop hook:       (error reading hooks.json: ''
        | Some (Some t) \<Rightarrow>
            if contains t ''stop-mine.sh'' then ''  Stop hook:       registered''
            else ''  Stop hook:       NOT registered (hooks.json found but stop-mine.sh missing)''),
       (if opted_in then ''  Opt-in marker:   present ('' @ marker @ '')'' else ''  Opt-in marker:   MISSING ('' @ marker @ '' not found)'')]
      @ (case mined of
           None \<Rightarrow> [''  Last mine run:   never'', ''  Sessions mined:  0'']
         | Some (age, content) \<Rightarrow>
             [(case age of None \<Rightarrow> ''  Last mine run:   (error: '' | Some a \<Rightarrow> ''  Last mine run:   '' @ last_run_text a),
              (case content of
                 None \<Rightarrow> ''  Sessions mined:  (error: ''
               | Some t \<Rightarrow> ''  Sessions mined:  '' @ str_of_nat (length (filter (\<lambda>l. strip l \<noteq> []) (splitlines t))) @ '' total'')])
      @ [[]])"

text \<open>\<open>None\<close>: something raises, and an error is shown instead.\<close>

definition troubled :: "string \<times> turn \<Rightarrow> bool option" where
  "troubled st =
     (if jget (snd st) ''status'' \<in> {JStr ''retrying'', JStr ''failed'', JStr ''blocked''}
      then map_option (\<lambda>n. 0 < n) (int_of_json (jget_or (snd st) ''attempts'' (JInt 0)))
      else Some False)"

definition attempts_of :: "string \<times> turn \<Rightarrow> int" where
  "attempts_of st = (case int_of_json (jget_or (snd st) ''attempts'' (JInt 0)) of None \<Rightarrow> 0 | Some n \<Rightarrow> n)"

definition attempt_line :: "(json \<Rightarrow> string) \<Rightarrow> (json \<Rightarrow> string) \<Rightarrow> string \<times> turn \<Rightarrow> string option" where
  "attempt_line other repr st =
     (let (sid, t) = st; attempts = py_text other (jget t ''attempts'') in
      map_option (\<lambda>m. ''  '' @ take 12 sid @ '': status='' @ py_text other (jget t ''status'') @ '' attempts='' @ attempts
                   @ '' last_error='' @ m)
        (case jget_or t ''message'' (JStr []) of
           JStr w \<Rightarrow> Some (repr (JStr (take 60 w))) | JArr vs \<Rightarrow> Some (repr (JArr (take 60 vs))) | _ \<Rightarrow> None))"

definition state_error :: "string list" where "state_error = [''[3] Per-session: error reading state DB: '', []]"

text \<open>What stands before an error stays.\<close>

fun attempt_lines :: "(json \<Rightarrow> string) \<Rightarrow> (json \<Rightarrow> string) \<Rightarrow> (string, turn) dict \<Rightarrow> string list" where
  "attempt_lines other repr [] = [[]]"
| "attempt_lines other repr (st # sts) =
     (case attempt_line other repr st of
        None \<Rightarrow> state_error
      | Some l \<Rightarrow> l # attempt_lines other repr sts)"

definition attempts_section ::
  "(json \<Rightarrow> string) \<Rightarrow> (json \<Rightarrow> string) \<Rightarrow> (string, turn) dict \<Rightarrow> string list" where
  "attempts_section other repr states =
     (case all_some (map (\<lambda>st. map_option (Pair st) (troubled st)) states) of
        None \<Rightarrow> state_error
      | Some checked \<Rightarrow>
          let found = sort_desc attempts_of (map fst (filter snd checked)) in
          if found = [] then []
          else ''[3] Per-session attempts (top 5 by attempts):'' # attempt_lines other repr (take 5 found))"

definition render_attempts ::
  "sqlite_env \<Rightarrow> (json \<Rightarrow> string) \<Rightarrow> (json \<Rightarrow> string) \<Rightarrow> session_db \<Rightarrow> string list \<times> session_db" where
  "render_attempts Q other repr z =
     (let (states, z) = load_mined_session_state Q other z in
      (case states of None \<Rightarrow> state_error | Some d \<Rightarrow> attempts_section other repr d, z))"

definition render_status ::
  "sqlite_env \<Rightarrow> (json \<Rightarrow> string) \<Rightarrow> (json \<Rightarrow> string) \<Rightarrow> session_table option option \<Rightarrow> string option option \<Rightarrow> string \<Rightarrow> bool \<Rightarrow>
   (int option \<times> string option) option \<Rightarrow> session_db \<Rightarrow> string \<times> session_db" where
  "render_status Q other repr db hooks state_dir opted_in mined z =
     (let (attempts, z) = render_attempts Q other repr z in
      (join [NL] ([''memem miner status'', replicate 18 (CHR ''=''), []] @ render_recent_activity other db
         @ render_mining hooks state_dir opted_in mined @ attempts), z))"

section \<open>Events read back\<close>

text \<open>
  C27: What is logged is what is shown: an event whose details hold no floating point numbers is listed with its time, operation, short id and all
  its details, in the order they were given.
\<close>

theorem logged_event_is_shown:
  assumes "list_all (\<lambda>kv. plain (snd kv)) details" "distinct (map fst details)"
    and "set (map fst details) \<inter> {''op'', ''memory_id'', ''timestamp''} = {}"
  shows "event_line other (event_text repr now op mid details) =
    ''  ['' @ take 19 now @ ''] '' @ pad_right 10 op @ '' '' @ take 8 mid @ concat (map (\<lambda>(k, v). '' '' @ k @ ''='' @ py_text other v) details)"
proof -
  let ?base = "[(''op'', JStr op), (''memory_id'', JStr mid), (''timestamp'', JStr now)]"
  have entry: "event_entry now op mid details = ?base @ details"
  proof -
    have "fold (\<lambda>(k, v). AList.update k v) ds (b @ xs) = b @ xs @ ds"
      if "distinct (map fst ds)" "set (map fst ds) \<inter> set (map fst (b @ xs)) = {}" for ds b and xs :: turn
      using that
    proof (induction ds arbitrary: xs)
      case (Cons d ds)
      obtain k v where d: "d = (k, v)" by fastforce
      have "AList.update k v (b @ xs) = b @ xs @ [(k, v)]"
        using Cons.prems(2) d by (induction b) (auto simp: update_new)
      then show ?case using Cons d by simp
    qed simp
    from this [of details ?base "[]"] show ?thesis using assms(2,3) by (auto simp: event_entry_def)
  qed
  have "filter (\<lambda>(k, v). k \<notin> {''op'', ''memory_id'', ''timestamp''}) details = details"
    using assms(3) by (intro filter_True) force
  then have "event_details other (?base @ details) = concat (map (\<lambda>(k, v). '' '' @ k @ ''='' @ py_text other v) details)"
    by (simp add: event_details_def)
  moreover have "plain (JObj (event_entry now op mid details))"
    using assms unfolding entry by (auto simp: case_prod_unfold)
  ultimately show ?thesis
    using json_reads_back [of "JObj (event_entry now op mid details)" repr]
    by (simp add: event_line_def event_text_def entry jget_or_def cut_text_def padded_def)
qed

theorem logged_event_is_shown_witness:
  "event_line (\<lambda>v. []) (event_text (\<lambda>r. []) ''2026-06-12T10:00:00+00:00'' ''save'' ''0123456789'' [(''title'', JStr ''A \"b\"''), (''n'', JInt 3)])
     = ''  [2026-06-12T10:00:00] save       01234567 title=A \"b\" n=3''"
  by (subst logged_event_is_shown; code_simp)

text \<open>The last version in the order of texts is not the latest one.\<close>

lemma older_version_is_picked:
  "find_hooks_json [] (\<lambda>f. False) [''memem/2.10.0/hooks/hooks.json'', ''memem/2.9.0/hooks/hooks.json''] = Some ''memem/2.9.0/hooks/hooks.json''"
  by code_simp

end
