(* ===== verification/Spec2Isabelle.thy ===== *)
theory Spec2Isabelle
  imports Profiles Security SearchIndex GraphIndex IndexFile Notes VaultCache Store AtomicWrite Json Telemetry
    Feedback Decay Mining MineDelta Reconcile Transcripts Dreamer DreamApply RecallLog MineRun Retrieve Recall SessionState SessionBlocks Playbook
    Operations MigrateLayers EvalReplay Embeddings Assembly Server CrossVault Lessons AbCompare Evaluation
    CliArgs Doctor Cli CliRuns Backfill Reports
begin

text \<open>
  memem keeps the memory of a coding assistant: notes in an Obsidian vault, mined from the transcripts of
  sessions or saved by hand, found again by search and by an automatic recall, and tidied by a periodic
  "dream". This development models its Python code (\<^verbatim>\<open>memem/\<close> and three scripts) and proves what makes each
  part correct. All paths below are relative to \<^verbatim>\<open>memem/\<close> unless they begin with \<^verbatim>\<open>scripts/\<close>.

  \<^bold>\<open>How the parts interact.\<close> The vault store is the centre. A memory is a Markdown note; the store keeps an
  in-memory cache of the parsed notes, a full-text table, a graph of scored edges, an index file and an event
  log in step with the notes. Writers are the user (\<^verbatim>\<open>operations.py\<close>), the incremental miner
  (\<^verbatim>\<open>mine_delta.py\<close>, driven by the offsets of \<^verbatim>\<open>session_state.py\<close>), the dreamer (\<^verbatim>\<open>dreamer.py\<close>) and the
  migrations. Readers go through \<^verbatim>\<open>retrieve.py\<close> and \<^verbatim>\<open>recall.py\<close>, served by \<^verbatim>\<open>server.py\<close> and \<^verbatim>\<open>cli.py\<close>; what they
  return goes to the recall log, from which feedback, decay and the dreamer read again. Profiles and playbooks
  are files of their own beside the memories.

  \<^bold>\<open>Theories and what they model.\<close>

  \<^item> Shared. \<open>Prelude\<close>: Python's string, list and dictionary operations, rounding, stable sorting, and the
    interfaces as locales. \<open>keyed_store\<close> states what a lookup gives after an insertion or a deletion; it is
    interpreted by association lists (\<open>dict\<close>), by the full-text table (\<open>fts\<close>) and by the edges of the graph
    (\<open>edges\<close>). \<open>quiet_step\<close>, \<open>tallied_step\<close> and
    \<open>respectful_step\<close> are contracts of the step of a loop (it leaves an observation alone, it logs what it counts,
    it depends on a part of the state only), which they lift to the loop; they are interpreted by the sweep of the cache, the
    rebuild of the table, the canary checks and the categories of the dreamer.
    \<open>Regex\<close>: the regular expressions the source compiles, as a matcher with its relational meaning.
    \<open>Json\<close>, \<open>JsonText\<close>: \<^verbatim>\<open>json.loads\<close> and \<^verbatim>\<open>json.dumps\<close> and their round trip.
  \<^item> Data. \<open>Models\<close> (\<^verbatim>\<open>models.py\<close>): the memory record, project aliases, ISO times. \<open>Notes\<close>: a memory as a note
    and back. \<open>Scoring\<close>: the lexical scores of \<^verbatim>\<open>obsidian_store.py\<close>. \<open>Security\<close> (\<^verbatim>\<open>security.py\<close>): the threat scan.
  \<^item> Store. \<open>VaultCache\<close>: notes, cache, sweep and look-ups; \<open>IndexFile\<close>: the Markdown index; \<open>SearchIndex\<close>
    (\<^verbatim>\<open>search_index.py\<close>); \<open>GraphIndex\<close> (\<^verbatim>\<open>graph_index.py\<close>); \<open>Store\<close>: every mutation of \<^verbatim>\<open>obsidian_store.py\<close> with
    all of these; \<open>Embeddings\<close> (\<^verbatim>\<open>embedding_index.py\<close>); \<open>AtomicWrite\<close> (\<^verbatim>\<open>io_utils.py\<close>) as a step relation
    with a crash at every point; \<open>Telemetry\<close>, \<open>Feedback\<close>, \<open>Decay\<close>, \<open>Profiles\<close>, \<open>Playbook\<close>: the modules of these names.
  \<^item> Mining. \<open>Transcripts\<close> (\<^verbatim>\<open>transcripts.py\<close>); \<open>Mining\<close> (\<^verbatim>\<open>mining.py\<close>): reading the model's answers; \<open>MineDelta\<close>,
    \<open>Reconcile\<close>, \<open>MineRun\<close> (\<^verbatim>\<open>mine_delta.py\<close>): reading a transcript from an offset, reconciling candidates with the
    vault, and a whole run; \<open>SessionState\<close> (\<^verbatim>\<open>session_state.py\<close>, \<^verbatim>\<open>session_state_db.py\<close>).
  \<^item> Recall. \<open>VaultIndex\<close>, \<open>Retrieve\<close> (\<^verbatim>\<open>retrieve.py\<close>); \<open>Recall\<close> (\<^verbatim>\<open>recall.py\<close>, \<^verbatim>\<open>cross_encoder_rerank.py\<close>); \<open>Assembly\<close>
    (\<^verbatim>\<open>assembly.py\<close>, \<^verbatim>\<open>render.py\<close>); \<open>Server\<close> (\<^verbatim>\<open>server.py\<close>); \<open>RecallLog\<close> (\<^verbatim>\<open>recall_log.py\<close>); \<open>SessionBlocks\<close>
    (\<^verbatim>\<open>session_blocks.py\<close>); \<open>CrossVault\<close> (\<^verbatim>\<open>cross_vault.py\<close>); \<open>Lessons\<close> (\<^verbatim>\<open>lessons.py\<close>).
  \<^item> Dreaming. \<open>Dreamer\<close>: the six kinds of proposals of \<^verbatim>\<open>dreamer.py\<close>; \<open>DreamApply\<close>: applying a diff, and the cycle.
  \<^item> Operations. \<open>Operations\<close> (\<^verbatim>\<open>operations.py\<close>); \<open>MigrateLayers\<close> (\<^verbatim>\<open>migrate_layers.py\<close>); \<open>Backfill\<close>
    (\<^verbatim>\<open>scripts/migrate_bitemporal.py\<close>); \<open>CliArgs\<close>, \<open>Cli\<close>, \<open>CliRuns\<close> (\<^verbatim>\<open>cli.py\<close>); \<open>Doctor\<close> (\<^verbatim>\<open>capabilities.py\<close> and
    \<^verbatim>\<open>--doctor\<close>); \<open>Reports\<close> (\<^verbatim>\<open>status.py\<close>, \<^verbatim>\<open>--events\<close>, \<^verbatim>\<open>--analyze-recalls\<close>).
  \<^item> Evaluation. \<open>EvalCapture\<close> (\<^verbatim>\<open>eval_capture.py\<close>), \<open>EvalReplay\<close> (\<^verbatim>\<open>eval_replay.py\<close>), \<open>Evaluation\<close> (\<^verbatim>\<open>eval/canaries.py\<close>,
    \<^verbatim>\<open>eval/eval_set.py\<close>), \<open>AbCompare\<close> (\<^verbatim>\<open>scripts/ab_compare_engines.py\<close>).

  \<^bold>\<open>State.\<close> A component's state is a record (\<open>store\<close>, \<open>recall_state\<close>, \<open>mining\<close>, \<open>session_db\<close>, \<open>embed_state\<close>, ...) that
  an operation takes and returns; what it only reads (settings, clock, model, libraries) is a record beside it.
  The clock is read once for each operation. An exception that leaves an operation is \<open>None\<close>, or \<open>Inl\<close>
  with the error where the caller tells errors apart; a handler that swallows one is a branch. What another process
  may do while a lock is released is a function parameter.

  \<^bold>\<open>What the lemmas show.\<close>

  \<^item> Invariants: every history of store operations keeps the table, the graph and the log well-formed; every
    reachable graph is symmetric where it should be, with bounded scores; a dream pass starts after exactly 25
    fruitful runs.
  \<^item> Refinement: the cache is a view of the directory after a sweep, the full-text table and the embedding files
    are maps under their updates, a cached vault index is the one built anew, and the safe mode of
    the dreamer is the additive part of a full pass.
  \<^item> Safety: what may be deleted, invalidated, rewritten or offered, by whom, and never otherwise: protected
    memories, excluded ids, dry runs, replays, failed operations, torn writes, caps on one reconciliation.
  \<^item> Functional behaviour of the replies, the retrieval, the session state, the playbooks and the reports;
    round trips of notes, lessons, JSON and logged events; bounds of profiles, link expansion and the briefing;
    termination of the atomic write; and that repeating a finished run, sweep or backfill changes nothing.

  Lemmas named after a defect (\<open>partial_line_is_lost\<close>, \<open>prefix_delete_keeps_row\<close>, \<open>dual_failure_counts_twice\<close>, ...)
  evaluate the code at an input where it does not do what its comments say or what it means to do.

  \<^bold>\<open>Bounds and fuel.\<close> \<open>json_loads\<close> runs with fuel \<open>2 * length s + 1\<close>: every call of the parser consumes a character or
  descends once before the next character, and \<open>Json\<close> proves that more fuel gives the same result. The matcher
  of \<open>Regex\<close> recurses on the expression and, in a repetition, on a shorter rest. All other recursions are structural or
  have a measure; no definition can fail to end.

  \<^bold>\<open>Conventions.\<close> A string is a list of 8-bit characters: code points above 255 that the source names stand at C1
  controls (the dash is 0x97, the ellipsis 0x96), all others at the question mark. A dictionary is an association list in insertion order;
  where the source iterates over a set, the list fixes an order. A float is a real number. A file read as JSON is its
  decoded value (\<open>json_file\<close>); the recall log, transcripts and captures are bytes. A key that a parsed memory lacks
  is stored with the default its readers use.

  \<^bold>\<open>Parameters for code outside the repository:\<close> the YAML codec of front matter, SQLite's matching, ranking and
  numeral syntax, rapidfuzz, BM25, the sentence-transformers model and numpy's similarities and sorting, the cross-encoder, the Haiku
  subprocess, SHA-256, uuids, and Python's texts of floats and containers. Where a property needs a law of one of them
  (the codec reads back what it wrote, sorting sorts, digests have 64 digits), the law is a named hypothesis and the
  witness of the property meets it with a concrete function.

  \<^bold>\<open>Not modelled.\<close> Constant prompts and settings (\<^verbatim>\<open>haiku_prompts.py\<close>, \<^verbatim>\<open>settings.py\<close>); \<^verbatim>\<open>eval/legacy_scorecard.py\<close>, which cannot run;
  \<^verbatim>\<open>scripts/run_eval.py\<close>, which reloads modules around the modelled evaluation; shell scripts and hooks; the server loop and its
  validation of arguments; commands of \<^verbatim>\<open>cli.py\<close> that only forward. Inside modelled parts: printed progress, log messages
  and texts of exceptions; MD5 slice ids and slice fields nothing reads; caches that are transparent
  (graph features, BM25, telemetry); the embedding upsert inside a save (\<open>Embeddings\<close> models it on its own); failing disk writes of the
  store except where the source handles them; the write-back thread, which is taken to run right after its retrieval; and SQLite's
  own locking.
\<close>

end
